(* ===== verification/Ten_Prelude.thy ===== *)
theory Ten_Prelude
  imports Main "HOL-Library.Word"
begin

text \<open>
  What every other theory of the development shares: the error values of
  core/src/ten_utils/lib/sys/general/error.c, the decimal printer behind the \<open>%d\<close>
  conversions of the messages, the limits of the C integer types, and generic lemmas on
  words and association lists.
\<close>

section \<open>Collections\<close>

named_theorems c_casts
  \<open>what a C cast does to the mathematical value of a machine integer that fits\<close>

named_theorems alist_laws
  \<open>lookup and update laws of association lists that keep their first match\<close>

section \<open>Limits of the C integer types\<close>

abbreviation INT8_MAX :: int where "INT8_MAX \<equiv> 127"
abbreviation INT8_MIN :: int where "INT8_MIN \<equiv> - 128"
abbreviation INT16_MAX :: int where "INT16_MAX \<equiv> 32767"
abbreviation INT16_MIN :: int where "INT16_MIN \<equiv> - 32768"
abbreviation INT32_MAX :: int where "INT32_MAX \<equiv> 2147483647"
abbreviation INT32_MIN :: int where "INT32_MIN \<equiv> - 2147483648"
abbreviation INT64_MAX :: int where "INT64_MAX \<equiv> 9223372036854775807"
abbreviation INT64_MIN :: int where "INT64_MIN \<equiv> - 9223372036854775808"
abbreviation UINT8_MAX :: int where "UINT8_MAX \<equiv> 255"
abbreviation UINT16_MAX :: int where "UINT16_MAX \<equiv> 65535"
abbreviation UINT32_MAX :: int where "UINT32_MAX \<equiv> 4294967295"
abbreviation UINT64_MAX :: int where "UINT64_MAX \<equiv> 18446744073709551615"

section \<open>Errors\<close>

text \<open>
  \<open>ten_error_t\<close> is an error number and a message. The error numbers are those of
  core/include/ten_runtime/common/errno.h, with \<open>TEN_ERRNO_OK\<close> of error.h.
\<close>

datatype ten_errno =
    TEN_ERRNO_OK
  | TEN_ERRNO_GENERIC
  | TEN_ERRNO_INVALID_JSON
  | TEN_ERRNO_INVALID_ARGUMENT
  | TEN_ERRNO_INVALID_TYPE
  | TEN_ERRNO_INVALID_GRAPH
  | TEN_ERRNO_TEN_IS_CLOSED

record ten_error =
  err_no :: ten_errno
  err_msg :: string

definition ten_error_init :: ten_error where
  "ten_error_init = \<lparr>err_no = TEN_ERRNO_OK, err_msg = []\<rparr>"

text \<open>\<open>ten_error_set\<close> overwrites whatever the error held before.\<close>

definition ten_error_set :: "ten_error \<Rightarrow> ten_errno \<Rightarrow> string \<Rightarrow> ten_error" where
  "ten_error_set e n msg = e\<lparr>err_no := n, err_msg := msg\<rparr>"

definition ten_error_prepend_errmsg :: "ten_error \<Rightarrow> string \<Rightarrow> ten_error" where
  "ten_error_prepend_errmsg e msg = e\<lparr>err_msg := msg @ err_msg e\<rparr>"

definition ten_error_append_errmsg :: "ten_error \<Rightarrow> string \<Rightarrow> ten_error" where
  "ten_error_append_errmsg e msg = e\<lparr>err_msg := err_msg e @ msg\<rparr>"

definition ten_error_reset :: "ten_error \<Rightarrow> ten_error" where
  "ten_error_reset e = e\<lparr>err_no := TEN_ERRNO_OK, err_msg := []\<rparr>"

definition ten_error_is_success :: "ten_error \<Rightarrow> bool" where
  "ten_error_is_success e \<longleftrightarrow> err_no e = TEN_ERRNO_OK"

text \<open>The error a function reports when it sets one on a freshly initialised error.\<close>

abbreviation generic_error :: "string \<Rightarrow> ten_error" where
  "generic_error msg \<equiv> \<lparr>err_no = TEN_ERRNO_GENERIC, err_msg = msg\<rparr>"

lemma ten_error_set_eq [simp]: "ten_error_set e n msg = \<lparr>err_no = n, err_msg = msg\<rparr>"
  by (cases e) (simp add: ten_error_set_def)

section \<open>Decimal digits\<close>

text \<open>The \<open>%d\<close> and \<open>%zu\<close> conversions of a natural number.\<close>

fun dec_of_nat :: "nat \<Rightarrow> string" where
  "dec_of_nat n =
     (if n < 10 then [char_of (48 + n)]
      else dec_of_nat (n div 10) @ [char_of (48 + n mod 10)])"

declare dec_of_nat.simps [simp del]

lemma dec_of_nat_nonempty [simp]: "dec_of_nat n \<noteq> []"
  by (subst dec_of_nat.simps) simp

section \<open>Casts between machine integers\<close>

lemma sint_word_of_int_fits:
  assumes "- (2 ^ (LENGTH('a) - 1)) \<le> i" and "i < 2 ^ (LENGTH('a) - 1)"
  shows "sint (word_of_int i :: 'a::len word) = i"
proof -
  have "sint (word_of_int i :: 'a word) = signed_take_bit (LENGTH('a) - 1) i"
    by (simp add: signed_of_int)
  also have "\<dots> = i" using assms by (rule signed_take_bit_int_eq_self)
  finally show ?thesis .
qed

lemma uint_word_of_int_fits:
  assumes "0 \<le> i" and "i < 2 ^ LENGTH('a)"
  shows "uint (word_of_int i :: 'a::len word) = i"
  using assms by (simp only: unsigned_of_int of_int_eq_id id_apply take_bit_int_eq_self)

text \<open>
  A cast keeps the mathematical value when the target type can represent it: one law for
  each combination of signed and unsigned source and target.
\<close>

lemma sint_scast_fits [c_casts]:
  fixes w :: "'a::len word"
  assumes "- (2 ^ (LENGTH('b) - 1)) \<le> sint w" and "sint w < 2 ^ (LENGTH('b) - 1)"
  shows "sint (scast w :: 'b::len word) = sint w"
  using assms by (simp only: scast_eq sint_word_of_int_fits)

lemma sint_ucast_fits [c_casts]:
  fixes w :: "'a::len word"
  assumes "uint w < 2 ^ (LENGTH('b) - 1)"
  shows "sint (ucast w :: 'b::len word) = uint w"
proof -
  have "- (2 ^ (LENGTH('b) - 1)) \<le> uint w"
    by (rule order_trans [of _ 0]) simp_all
  with assms show ?thesis by (simp only: ucast_eq sint_word_of_int_fits)
qed

lemma uint_scast_fits [c_casts]:
  fixes w :: "'a::len word"
  assumes "0 \<le> sint w" and "sint w < 2 ^ LENGTH('b)"
  shows "uint (scast w :: 'b::len word) = sint w"
  using assms by (simp only: scast_eq uint_word_of_int_fits)

lemma uint_ucast_fits [c_casts]:
  fixes w :: "'a::len word"
  assumes "uint w < 2 ^ LENGTH('b)"
  shows "uint (ucast w :: 'b::len word) = uint w"
  using assms by (simp only: ucast_eq uint_word_of_int_fits unsigned_greater_eq)

lemma sint_eq_uint_fits:
  fixes w :: "'a::len word"
  assumes "uint w < 2 ^ (LENGTH('a) - 1)"
  shows "sint w = uint w"
  using sint_ucast_fits [OF assms] by simp

lemma uint_eq_sint_fits:
  fixes w :: "'a::len word"
  assumes "0 \<le> sint w"
  shows "uint w = sint w"
proof -
  have "sint w < 2 ^ LENGTH('a)"
    using sint_lt [of w] by (rule less_le_trans) (simp add: power_increasing)
  with assms have "uint (scast w :: 'a word) = sint w" by (rule uint_scast_fits)
  then show ?thesis by simp
qed

lemma uint_widen:
  fixes w :: "'a::len word"
  assumes "LENGTH('a) \<le> LENGTH('b)"
  shows "uint (ucast w :: 'b::len word) = uint w"
proof (rule uint_ucast_fits)
  have "uint w < 2 ^ LENGTH('a)" by (rule uint_bounded)
  also have "\<dots> \<le> (2::int) ^ LENGTH('b)" using assms by (simp add: power_increasing)
  finally show "uint w < 2 ^ LENGTH('b)" .
qed

text \<open>A word that is zero-extended and then cut down to its own width is unchanged.\<close>

lemma ucast_widen_narrow:
  fixes w :: "'a::len word"
  assumes "LENGTH('a) \<le> LENGTH('b)"
  shows "ucast (ucast w :: 'b::len word) = w"
proof (rule unsigned_word_eqI)
  show "uint (ucast (ucast w :: 'b word) :: 'a word) = uint w"
    using assms by (simp add: uint_ucast_fits uint_widen)
qed

lemma sint_bounds8: "- 128 \<le> sint w \<and> sint w \<le> 127" for w :: "8 word"
  using sint_ge [of w] sint_lt [of w] by simp

lemma sint_bounds16: "- 32768 \<le> sint w \<and> sint w \<le> 32767" for w :: "16 word"
  using sint_ge [of w] sint_lt [of w] by simp

lemma sint_bounds32: "- 2147483648 \<le> sint w \<and> sint w \<le> 2147483647" for w :: "32 word"
  using sint_ge [of w] sint_lt [of w] by simp

lemma sint_bounds64: "- 9223372036854775808 \<le> sint w \<and> sint w \<le> 9223372036854775807" for w :: "64 word"
  using sint_ge [of w] sint_lt [of w] by simp

lemma uint_bounds8: "0 \<le> uint w \<and> uint w \<le> 255" for w :: "8 word"
  using unsigned_less [of w, where 'a = int] by simp

lemma uint_bounds16: "0 \<le> uint w \<and> uint w \<le> 65535" for w :: "16 word"
  using unsigned_less [of w, where 'a = int] by simp

lemma uint_bounds32: "0 \<le> uint w \<and> uint w \<le> 4294967295" for w :: "32 word"
  using unsigned_less [of w, where 'a = int] by simp

lemma uint_bounds64: "0 \<le> uint w \<and> uint w \<le> 18446744073709551615" for w :: "64 word"
  using unsigned_less [of w, where 'a = int] by simp

lemma uint_negative:
  fixes w :: "'a::len word"
  assumes "sint w < 0"
  shows "uint w = sint w + 2 ^ LENGTH('a)"
proof -
  have "- (2 ^ LENGTH('a)) \<le> - (2 ^ (LENGTH('a) - 1) :: int)"
    by (simp add: power_increasing)
  then have low: "- (2 ^ LENGTH('a)) \<le> sint w" using sint_ge [of w] by linarith
  have "uint w = (sint w + 2 ^ LENGTH('a)) mod 2 ^ LENGTH('a)"
    by (simp add: uint_sint take_bit_eq_mod)
  also have "\<dots> = sint w + 2 ^ LENGTH('a)"
    using assms low by (intro mod_pos_pos_trivial) linarith+
  finally show ?thesis .
qed

text \<open>The same bits read as signed and as unsigned.\<close>

lemma sint_as_uint:
  fixes w :: "'a::len word"
  shows "sint w = (if 0 \<le> sint w then uint w else uint w - 2 ^ LENGTH('a))"
  using uint_negative [of w] uint_eq_sint_fits [of w] by auto

lemmas word_bounds =
  sint_bounds8 sint_bounds16 sint_bounds32 sint_bounds64
  uint_bounds8 uint_bounds16 uint_bounds32 uint_bounds64

section \<open>Association lists\<close>

text \<open>
  An object of the source is a list of key/value nodes searched from the front. Lookup
  finds the first node with the key.
\<close>

fun alist_peek :: "'k \<Rightarrow> ('k \<times> 'v) list \<Rightarrow> 'v option" where
  "alist_peek k [] = None"
| "alist_peek k ((k', v) # kvs) = (if k' = k then Some v else alist_peek k kvs)"

text \<open>Replace the value of the first node with the key, or append a node.\<close>

fun alist_put :: "'k \<Rightarrow> 'v \<Rightarrow> ('k \<times> 'v) list \<Rightarrow> ('k \<times> 'v) list" where
  "alist_put k v [] = [(k, v)]"
| "alist_put k v ((k', v') # kvs) =
     (if k' = k then (k', v) # kvs else (k', v') # alist_put k v kvs)"

lemma alist_peek_map_of [alist_laws]: "alist_peek k kvs = map_of kvs k"
  by (induction kvs) auto

lemma alist_peek_put [alist_laws]:
  "alist_peek k' (alist_put k v kvs) = (if k' = k then Some v else alist_peek k' kvs)"
  by (induction kvs) auto

lemma alist_put_keys [alist_laws]:
  "map fst (alist_put k v kvs) =
     (if k \<in> set (map fst kvs) then map fst kvs else map fst kvs @ [k])"
  by (induction kvs) (auto simp: rev_image_eqI)

lemma alist_put_distinct [alist_laws]:
  "distinct (map fst kvs) \<Longrightarrow> distinct (map fst (alist_put k v kvs))"
  by (simp add: alist_put_keys)

lemma alist_peek_None_iff [alist_laws]:
  "alist_peek k kvs = None \<longleftrightarrow> k \<notin> set (map fst kvs)"
  by (induction kvs) (auto split: if_splits)

lemma alist_put_new [alist_laws]:
  "k \<notin> set (map fst kvs) \<Longrightarrow> alist_put k v kvs = kvs @ [(k, v)]"
  by (induction kvs) auto

lemma alist_put_put [alist_laws]:
  "alist_put k v (alist_put k u kvs) = alist_put k v kvs"
  by (induction kvs) auto

lemma alist_peek_append [alist_laws]:
  "alist_peek k (xs @ ys) =
     (case alist_peek k xs of None \<Rightarrow> alist_peek k ys | Some v \<Rightarrow> Some v)"
  by (induction xs) auto

end
