(* ===== verification/Ten_Float.thy ===== *)
theory Ten_Float
  imports Ten_Prelude
begin

text \<open>
  The C types \<open>float\<close> and \<open>double\<close> as the value code uses them: IEEE 754 binary32
  and binary64 with rounding to nearest, ties to even. A number is a NaN, an infinity, a
  signed zero or \<open>m * 2 ^ e\<close> with an odd \<open>m\<close>; the payload of a NaN is left out.
  Every operation computes: conversion from an integer, conversion between the two
  formats, truncation to an integer, and the comparisons.
\<close>

section \<open>Numbers\<close>

datatype fp =
    Fp_nan
  | Fp_inf bool        \<comment> \<open>True is the negative one\<close>
  | Fp_zero bool
  | Fp_fin int int     \<comment> \<open>the odd significand and the exponent of two\<close>

text \<open>Strip the factors of two off a significand.\<close>

function fp_strip :: "int \<Rightarrow> int \<Rightarrow> int \<times> int" where
  "fp_strip m e = (if m \<le> 0 \<or> odd m then (m, e) else fp_strip (m div 2) (e + 1))"
  by pat_completeness auto
termination
  by (relation "measure (\<lambda>(m, e). nat m)") auto

declare fp_strip.simps [simp del]

definition fp_mk :: "bool \<Rightarrow> int \<Rightarrow> int \<Rightarrow> fp" where
  "fp_mk s m e =
     (if m = 0 then Fp_zero s
      else case fp_strip m e of (m', e') \<Rightarrow> Fp_fin (if s then - m' else m') e')"

text \<open>The number of binary digits of a magnitude.\<close>

function bit_len :: "int \<Rightarrow> nat" where
  "bit_len n = (if n \<le> 0 then 0 else Suc (bit_len (n div 2)))"
  by pat_completeness auto
termination
  by (relation "measure nat") auto

declare bit_len.simps [simp del]

section \<open>Rounding\<close>

record fp_format =
  prec :: nat       \<comment> \<open>bits of the significand\<close>
  emin :: int       \<comment> \<open>exponent of the smallest subnormal\<close>
  emax :: int       \<comment> \<open>exponent of the largest power of two\<close>

definition float32_fmt :: fp_format where
  "float32_fmt = \<lparr>prec = 24, emin = - 149, emax = 127\<rparr>"

definition float64_fmt :: fp_format where
  "float64_fmt = \<lparr>prec = 53, emin = - 1074, emax = 1023\<rparr>"

definition round_half_even :: "int \<Rightarrow> nat \<Rightarrow> int" where
  "round_half_even m k =
     (if k = 0 then m
      else let q = m div 2 ^ k; r = m mod 2 ^ k; half = 2 ^ (k - 1)
           in if half < r \<or> (r = half \<and> odd q) then q + 1 else q)"

definition fp_round :: "fp_format \<Rightarrow> bool \<Rightarrow> int \<Rightarrow> int \<Rightarrow> fp" where
  "fp_round f s m e =
     (let k = nat (max (int (bit_len m) - int (prec f)) (emin f - e));
          q = round_half_even m k; e' = e + int k
      in if int (bit_len q) + e' > emax f + 1 then Fp_inf s else fp_mk s q e')"

definition fp_of_int :: "fp_format \<Rightarrow> int \<Rightarrow> fp" where
  "fp_of_int f i = fp_round f (i < 0) \<bar>i\<bar> 0"

fun fp_convert :: "fp_format \<Rightarrow> fp \<Rightarrow> fp" where
  "fp_convert f (Fp_fin m e) = fp_round f (m < 0) \<bar>m\<bar> e"
| "fp_convert f x = x"

section \<open>Truncation and comparison\<close>

text \<open>The value a conversion to an integer type truncates to; NaN and infinities have none.\<close>

fun fp_trunc :: "fp \<Rightarrow> int option" where
  "fp_trunc (Fp_fin m e) =
     Some (if 0 \<le> e then m * 2 ^ nat e else sgn m * (\<bar>m\<bar> div 2 ^ nat (- e)))"
| "fp_trunc (Fp_zero s) = Some 0"
| "fp_trunc Fp_nan = None"
| "fp_trunc (Fp_inf s) = None"

fun fp_parts :: "fp \<Rightarrow> int \<times> int" where
  "fp_parts (Fp_fin m e) = (m, e)"
| "fp_parts x = (0, 0)"

definition dyadic_le :: "int \<times> int \<Rightarrow> int \<times> int \<Rightarrow> bool" where
  "dyadic_le x y \<longleftrightarrow>
     (let e = min (snd x) (snd y)
      in fst x * 2 ^ nat (snd x - e) \<le> fst y * 2 ^ nat (snd y - e))"

fun fp_le :: "fp \<Rightarrow> fp \<Rightarrow> bool" where
  "fp_le Fp_nan y = False"
| "fp_le x Fp_nan = False"
| "fp_le (Fp_inf s) y = (s \<or> y = Fp_inf False)"
| "fp_le x (Fp_inf s) = (\<not> s)"
| "fp_le x y = dyadic_le (fp_parts x) (fp_parts y)"

text \<open>C's \<open><\<close> and \<open>==\<close>; both are false on a NaN, and the two zeros are equal.\<close>

definition fp_lt :: "fp \<Rightarrow> fp \<Rightarrow> bool" where
  "fp_lt x y \<longleftrightarrow> fp_le x y \<and> \<not> fp_le y x"

definition fp_eq :: "fp \<Rightarrow> fp \<Rightarrow> bool" where
  "fp_eq x y \<longleftrightarrow> fp_le x y \<and> fp_le y x"

fun fp_neg :: "fp \<Rightarrow> fp" where
  "fp_neg Fp_nan = Fp_nan"
| "fp_neg (Fp_inf s) = Fp_inf (\<not> s)"
| "fp_neg (Fp_zero s) = Fp_zero (\<not> s)"
| "fp_neg (Fp_fin m e) = Fp_fin (- m) e"

text \<open>\<open>FLT_MAX\<close> and \<open>FLT_MIN\<close> of float.h, and \<open>ldexp(1.0, n)\<close> of math.h.\<close>

definition FLT_MAX :: fp where "FLT_MAX = Fp_fin 16777215 104"

definition FLT_MIN :: fp where "FLT_MIN = Fp_fin 1 (- 126)"

definition ldexp1 :: "int \<Rightarrow> fp" where "ldexp1 n = Fp_fin 1 n"

section \<open>Casts to integer types\<close>

text \<open>
  C leaves a conversion undefined when the truncated value does not fit. What the target
  produces there is a parameter, one function for each integer type.
\<close>

record c_target =
  ub_i32 :: "fp \<Rightarrow> 32 word"
  ub_i64 :: "fp \<Rightarrow> 64 word"
  ub_u32 :: "fp \<Rightarrow> 32 word"
  ub_u64 :: "fp \<Rightarrow> 64 word"

definition fp_cast :: "int \<Rightarrow> int \<Rightarrow> (fp \<Rightarrow> 'a::len word) \<Rightarrow> fp \<Rightarrow> 'a word" where
  "fp_cast lo hi ub x =
     (case fp_trunc x of
        Some i \<Rightarrow> if lo \<le> i \<and> i \<le> hi then word_of_int i else ub x
      | None \<Rightarrow> ub x)"

abbreviation cast_i32 :: "c_target \<Rightarrow> fp \<Rightarrow> 32 word" where
  "cast_i32 tg \<equiv> fp_cast INT32_MIN INT32_MAX (ub_i32 tg)"

abbreviation cast_i64 :: "c_target \<Rightarrow> fp \<Rightarrow> 64 word" where
  "cast_i64 tg \<equiv> fp_cast INT64_MIN INT64_MAX (ub_i64 tg)"

abbreviation cast_u32 :: "c_target \<Rightarrow> fp \<Rightarrow> 32 word" where
  "cast_u32 tg \<equiv> fp_cast 0 UINT32_MAX (ub_u32 tg)"

abbreviation cast_u64 :: "c_target \<Rightarrow> fp \<Rightarrow> 64 word" where
  "cast_u64 tg \<equiv> fp_cast 0 UINT64_MAX (ub_u64 tg)"

text \<open>
  A target that saturates: an out-of-range value gives the nearest bound and a NaN gives
  zero (ARM's conversion instructions, and what the compilers fold constants to).
\<close>

definition saturate :: "int \<Rightarrow> int \<Rightarrow> fp \<Rightarrow> 'a::len word" where
  "saturate lo hi x =
     (case x of
        Fp_nan \<Rightarrow> 0
      | Fp_inf s \<Rightarrow> word_of_int (if s then lo else hi)
      | _ \<Rightarrow> (case fp_trunc x of
                Some i \<Rightarrow> word_of_int (if i < lo then lo else hi)
              | None \<Rightarrow> 0))"

definition saturating_target :: c_target where
  "saturating_target =
     \<lparr>ub_i32 = saturate INT32_MIN INT32_MAX, ub_i64 = saturate INT64_MIN INT64_MAX,
      ub_u32 = saturate 0 UINT32_MAX, ub_u64 = saturate 0 UINT64_MAX\<rparr>"

section \<open>Facts about rounding\<close>

lemma bit_len_0 [simp]: "bit_len 0 = 0"
  by (simp add: bit_len.simps)

lemma bit_len_le: "n < 2 ^ k \<Longrightarrow> bit_len n \<le> k"
proof (induction k arbitrary: n)
  case 0
  then show ?case by (simp add: bit_len.simps)
next
  case (Suc k)
  show ?case
  proof (cases "n \<le> 0")
    case True
    then show ?thesis by (simp add: bit_len.simps)
  next
    case False
    from Suc.prems have "n div 2 < 2 ^ k" by simp
    then have "bit_len (n div 2) \<le> k" by (rule Suc.IH)
    with False show ?thesis by (simp add: bit_len.simps [of n])
  qed
qed

lemma fp_strip_value:
  "fp_strip m e = (m', e') \<Longrightarrow> 0 \<le> e \<Longrightarrow> 0 \<le> e' \<and> m' * 2 ^ nat e' = m * 2 ^ nat e"
proof (induction m e arbitrary: m' e' rule: fp_strip.induct)
  case (1 m e)
  show ?case
  proof (cases "m \<le> 0 \<or> odd m")
    case True
    with 1 show ?thesis by (simp add: fp_strip.simps [of m])
  next
    case False
    then have strip: "fp_strip (m div 2) (e + 1) = (m', e')"
      using 1 by (simp add: fp_strip.simps [of m])
    have "0 \<le> e' \<and> m' * 2 ^ nat e' = (m div 2) * 2 ^ nat (e + 1)"
      using 1 False strip by simp
    moreover have "(m div 2) * 2 ^ nat (e + 1) = m * 2 ^ nat e"
      using False \<open>0 \<le> e\<close> by (auto simp: nat_add_distrib elim: evenE)
    ultimately show ?thesis by simp
  qed
qed

text \<open>A number built from an integral significand truncates to itself.\<close>

lemma fp_trunc_mk:
  "0 \<le> e \<Longrightarrow> fp_trunc (fp_mk s m e) = Some ((if s then - 1 else 1) * m * 2 ^ nat e)"
  by (cases "fp_strip m e") (auto simp: fp_mk_def dest: fp_strip_value)

lemma round_half_even_0 [simp]: "round_half_even m 0 = m"
  by (simp add: round_half_even_def)

lemma fp_of_int_exact:
  assumes "bit_len \<bar>i\<bar> \<le> prec f" and "emin f \<le> 0" and "int (prec f) \<le> emax f + 1"
  shows "fp_of_int f i = fp_mk (i < 0) \<bar>i\<bar> 0"
  using assms by (simp add: fp_of_int_def fp_round_def)

lemma fp_trunc_of_int_exact:
  assumes "bit_len \<bar>i\<bar> \<le> prec f" and "emin f \<le> 0" and "int (prec f) \<le> emax f + 1"
  shows "fp_trunc (fp_of_int f i) = Some i"
  by (simp add: fp_of_int_exact [OF assms] fp_trunc_mk)

lemma fp_trunc_of_int32: "\<bar>i\<bar> < 2 ^ 24 \<Longrightarrow> fp_trunc (fp_of_int float32_fmt i) = Some i"
  by (rule fp_trunc_of_int_exact)
     (auto simp: float32_fmt_def intro: bit_len_le)

lemma fp_trunc_of_int64: "\<bar>i\<bar> < 2 ^ 53 \<Longrightarrow> fp_trunc (fp_of_int float64_fmt i) = Some i"
  by (rule fp_trunc_of_int_exact)
     (auto simp: float64_fmt_def intro: bit_len_le)

lemma fp_round_exact:
  assumes "bit_len m \<le> prec f" and "emin f \<le> e" and "int (bit_len m) + e \<le> emax f + 1"
  shows "fp_round f s m e = fp_mk s m e"
  using assms by (simp add: fp_round_def)

lemma bit_len_scaled:
  assumes "0 < m" and "0 \<le> e" and "m * 2 ^ nat e < 2 ^ n"
  shows "int (bit_len m) + e \<le> int n"
proof -
  have "(2 :: int) ^ nat e \<le> m * 2 ^ nat e" using assms(1) by simp
  with assms(3) have "(2 :: int) ^ nat e < 2 ^ n" by linarith
  then have e: "nat e < n" by simp
  then have "(2 :: int) ^ n = 2 ^ (n - nat e) * 2 ^ nat e" by (simp flip: power_add)
  with assms(3) have "m < 2 ^ (n - nat e)" by simp
  then have "bit_len m \<le> n - nat e" by (rule bit_len_le)
  with e assms(2) show ?thesis by linarith
qed

lemma fp_strip_pos: "fp_strip m e = (m', e') \<Longrightarrow> 0 < m \<Longrightarrow> 0 < m'"
proof (induction m e arbitrary: m' e' rule: fp_strip.induct)
  case (1 m e)
  show ?case
  proof (cases "m \<le> 0 \<or> odd m")
    case True
    with 1 show ?thesis by (simp add: fp_strip.simps [of m])
  next
    case False
    with 1 have "0 < m div 2" by auto
    with 1 False show ?thesis by (auto simp: fp_strip.simps [of m])
  qed
qed

text \<open>
  Promotion to \<open>double\<close> changes nothing of a small integer that \<open>float\<close> holds
  exactly.
\<close>

lemma fp_trunc_float_double:
  assumes "\<bar>i\<bar> < 2 ^ 24"
  shows "fp_trunc (fp_convert float64_fmt (fp_of_int float32_fmt i)) = Some i"
proof (cases "i = 0")
  case True
  then show ?thesis
    by (simp add: fp_of_int_exact float32_fmt_def fp_mk_def)
next
  case False
  obtain m e where strip: "fp_strip \<bar>i\<bar> 0 = (m, e)" by fastforce
  with fp_strip_value [OF strip] have v: "0 \<le> e" "m * 2 ^ nat e = \<bar>i\<bar>" by simp_all
  from fp_strip_pos [OF strip] False have m: "0 < m" by simp
  have "bit_len \<bar>i\<bar> \<le> 24" using assms by (rule bit_len_le)
  then have i: "fp_of_int float32_fmt i = Fp_fin (if i < 0 then - m else m) e"
    using strip False by (simp add: fp_of_int_exact float32_fmt_def fp_mk_def)
  have len: "int (bit_len m) + e \<le> 24"
    using bit_len_scaled [OF m v(1), of 24] v assms by simp
  have "fp_round float64_fmt (i < 0) m e = fp_mk (i < 0) m e"
    using len v(1) by (intro fp_round_exact) (simp_all add: float64_fmt_def)
  then have "fp_convert float64_fmt (fp_of_int float32_fmt i) = fp_mk (i < 0) m e"
    using i m by auto
  with v show ?thesis by (simp add: fp_trunc_mk)
qed

end
