(* ===== verification/Ten_Type.thy ===== *)
theory Ten_Type
  imports Ten_Prelude
begin

text \<open>
  The type tags of core/include/ten_utils/value/type.h, their names
  (include_internal/ten_utils/value/type_info.h) and the compatibility relation of
  core/src/ten_utils/value/type.c.
\<close>

section \<open>The tags\<close>

datatype ten_type =
    TEN_TYPE_INVALID
  | TEN_TYPE_NULL
  | TEN_TYPE_BOOL
  | TEN_TYPE_INT8
  | TEN_TYPE_INT16
  | TEN_TYPE_INT32
  | TEN_TYPE_INT64
  | TEN_TYPE_UINT8
  | TEN_TYPE_UINT16
  | TEN_TYPE_UINT32
  | TEN_TYPE_UINT64
  | TEN_TYPE_FLOAT32
  | TEN_TYPE_FLOAT64
  | TEN_TYPE_STRING
  | TEN_TYPE_BUF
  | TEN_TYPE_ARRAY
  | TEN_TYPE_OBJECT
  | TEN_TYPE_PTR

text \<open>The enumerators in declaration order; the enum value is the position.\<close>

definition ten_type_values :: "ten_type list" where
  "ten_type_values =
     [TEN_TYPE_INVALID, TEN_TYPE_NULL, TEN_TYPE_BOOL, TEN_TYPE_INT8, TEN_TYPE_INT16,
      TEN_TYPE_INT32, TEN_TYPE_INT64, TEN_TYPE_UINT8, TEN_TYPE_UINT16, TEN_TYPE_UINT32,
      TEN_TYPE_UINT64, TEN_TYPE_FLOAT32, TEN_TYPE_FLOAT64, TEN_TYPE_STRING, TEN_TYPE_BUF,
      TEN_TYPE_ARRAY, TEN_TYPE_OBJECT, TEN_TYPE_PTR]"

section \<open>Names\<close>

fun ten_types_info :: "ten_type \<Rightarrow> string option" where
  "ten_types_info TEN_TYPE_INVALID = None"
| "ten_types_info TEN_TYPE_NULL = Some ''null''"
| "ten_types_info TEN_TYPE_BOOL = Some ''bool''"
| "ten_types_info TEN_TYPE_INT8 = Some ''int8''"
| "ten_types_info TEN_TYPE_INT16 = Some ''int16''"
| "ten_types_info TEN_TYPE_INT32 = Some ''int32''"
| "ten_types_info TEN_TYPE_INT64 = Some ''int64''"
| "ten_types_info TEN_TYPE_UINT8 = Some ''uint8''"
| "ten_types_info TEN_TYPE_UINT16 = Some ''uint16''"
| "ten_types_info TEN_TYPE_UINT32 = Some ''uint32''"
| "ten_types_info TEN_TYPE_UINT64 = Some ''uint64''"
| "ten_types_info TEN_TYPE_FLOAT32 = Some ''float32''"
| "ten_types_info TEN_TYPE_FLOAT64 = Some ''float64''"
| "ten_types_info TEN_TYPE_STRING = Some ''string''"
| "ten_types_info TEN_TYPE_BUF = Some ''buf''"
| "ten_types_info TEN_TYPE_ARRAY = Some ''array''"
| "ten_types_info TEN_TYPE_OBJECT = Some ''object''"
| "ten_types_info TEN_TYPE_PTR = Some ''ptr''"

text \<open>The name handed to a \<open>%s\<close>; the C library prints a NULL name as \<open>(null)\<close>.\<close>

definition ten_type_to_string :: "ten_type \<Rightarrow> string" where
  "ten_type_to_string t = (case ten_types_info t of Some n \<Rightarrow> n | None \<Rightarrow> ''(null)'')"

text \<open>The loop over the table: the first entry with that name.\<close>

fun find_type_by_name :: "string \<Rightarrow> ten_type list \<Rightarrow> ten_type" where
  "find_type_by_name s [] = TEN_TYPE_INVALID"
| "find_type_by_name s (t # ts) =
     (if ten_types_info t = Some s then t else find_type_by_name s ts)"

definition ten_type_from_string :: "string \<Rightarrow> ten_type" where
  "ten_type_from_string s = find_type_by_name s ten_type_values"

lemma ten_type_from_to_string:
  "ten_types_info t = Some s \<Longrightarrow> ten_type_from_string s = t"
  by (cases t; simp; hypsubst; code_simp)

lemma find_type_by_name_sound:
  "find_type_by_name s ts = t \<Longrightarrow> t \<noteq> TEN_TYPE_INVALID \<Longrightarrow> ten_types_info t = Some s"
  by (induction ts) (auto split: if_splits)

lemma ten_type_from_string_sound:
  "ten_type_from_string s = t \<Longrightarrow> t \<noteq> TEN_TYPE_INVALID \<Longrightarrow> ten_types_info t = Some s"
  unfolding ten_type_from_string_def by (rule find_type_by_name_sound)

section \<open>Compatibility\<close>

definition is_integer_type :: "ten_type \<Rightarrow> bool" where
  "is_integer_type t \<longleftrightarrow>
     t = TEN_TYPE_UINT8 \<or> t = TEN_TYPE_INT8 \<or> t = TEN_TYPE_UINT16 \<or> t = TEN_TYPE_INT16 \<or>
     t = TEN_TYPE_UINT32 \<or> t = TEN_TYPE_INT32 \<or> t = TEN_TYPE_UINT64 \<or> t = TEN_TYPE_INT64"

definition is_float_type :: "ten_type \<Rightarrow> bool" where
  "is_float_type t \<longleftrightarrow> t = TEN_TYPE_FLOAT32 \<or> t = TEN_TYPE_FLOAT64"

definition ten_type_is_compatible :: "ten_type \<Rightarrow> ten_type \<Rightarrow> bool" where
  "ten_type_is_compatible actual expected =
     (if actual = TEN_TYPE_INVALID \<or> expected = TEN_TYPE_INVALID then False
      else if actual = expected then True
      else if is_integer_type expected \<and> is_integer_type actual then True
      else if is_float_type expected \<and> is_float_type actual then True
      else case expected of
             TEN_TYPE_BOOL \<Rightarrow> actual = TEN_TYPE_BOOL
           | TEN_TYPE_PTR \<Rightarrow> actual = TEN_TYPE_PTR
           | TEN_TYPE_STRING \<Rightarrow> actual = TEN_TYPE_STRING
           | TEN_TYPE_ARRAY \<Rightarrow> actual = TEN_TYPE_ARRAY
           | TEN_TYPE_OBJECT \<Rightarrow> actual = TEN_TYPE_OBJECT
           | TEN_TYPE_BUF \<Rightarrow> actual = TEN_TYPE_BUF
           | TEN_TYPE_NULL \<Rightarrow> actual = TEN_TYPE_NULL
           | _ \<Rightarrow> False)"

text \<open>
  What the relation is: on the valid types, equality up to the two families of numbers.
\<close>

definition type_family :: "ten_type \<Rightarrow> ten_type" where
  "type_family t =
     (if is_integer_type t then TEN_TYPE_INT64
      else if is_float_type t then TEN_TYPE_FLOAT64 else t)"

lemma ten_type_is_compatible_iff:
  "ten_type_is_compatible a b \<longleftrightarrow>
     a \<noteq> TEN_TYPE_INVALID \<and> b \<noteq> TEN_TYPE_INVALID \<and> type_family a = type_family b"
  by (cases a; cases b)
     (simp_all add: ten_type_is_compatible_def type_family_def is_integer_type_def
        is_float_type_def)

lemma ten_type_is_compatible_refl:
  "a \<noteq> TEN_TYPE_INVALID \<Longrightarrow> ten_type_is_compatible a a"
  by (simp add: ten_type_is_compatible_def)

lemma ten_type_is_compatible_sym:
  "ten_type_is_compatible a b \<Longrightarrow> ten_type_is_compatible b a"
  by (simp add: ten_type_is_compatible_iff)

lemma ten_type_is_compatible_trans:
  "ten_type_is_compatible a b \<Longrightarrow> ten_type_is_compatible b c \<Longrightarrow> ten_type_is_compatible a c"
  by (simp add: ten_type_is_compatible_iff)

section \<open>Properties\<close>

text \<open>
  Two types are compatible exactly when both are valid and they are equal up to the
  families of integers and of floats; so on the valid types compatibility is an equivalence
  whose classes are the integers, the floats and each other type alone.
\<close>

lemma type_compatibility_is_equivalence:
  "(ten_type_is_compatible a b \<longleftrightarrow>
      a \<noteq> TEN_TYPE_INVALID \<and> b \<noteq> TEN_TYPE_INVALID \<and>
      (a = b \<or> is_integer_type a \<and> is_integer_type b \<or> is_float_type a \<and> is_float_type b)) \<and>
   (ten_type_is_compatible a a \<longleftrightarrow> a \<noteq> TEN_TYPE_INVALID) \<and>
   ten_type_is_compatible a b = ten_type_is_compatible b a"
  unfolding ten_type_is_compatible_iff
  by (auto simp: type_family_def is_integer_type_def is_float_type_def split: if_splits)

text \<open>
  Parsing the name of a type gives the type back, and a string that parses to a type
  other than the invalid one is that type's name.
\<close>

lemma type_name_roundtrip:
  "ten_type_from_string s = t \<and> t \<noteq> TEN_TYPE_INVALID \<longleftrightarrow> ten_types_info t = Some s"
  using ten_type_from_string_sound ten_type_from_to_string by auto

end
