(* ===== verification/Value_Convert.thy ===== *)
theory Value_Convert
  imports Ten_Value
begin

text \<open>
  Conversions between the numeric types of a value
  (core/src/ten_utils/value/value_convert.c and value_can_convert.c) and the creation of
  a value from a type and a string (value_string.c). A conversion rewrites the value in
  place and returns true, or sets the error and leaves the value alone: the model returns
  the new value or the error.
\<close>

section \<open>Integer targets\<close>

definition out_of_range :: "string \<Rightarrow> ten_error" where
  "out_of_range ty = generic_error (''out of range of '' @ ty)"

definition unsupported_conversion :: "ten_value \<Rightarrow> string \<Rightarrow> ten_error" where
  "unsupported_conversion v ty =
     generic_error (''unsupported conversion from `'' @
       ten_type_to_string (ten_value_get_type v) @ ''` to `'' @ ty @ ''`'')"

fun ten_value_convert_to_int8 :: "ten_value \<Rightarrow> ten_error + ten_value" where
  "ten_value_convert_to_int8 (VInt8 c) = Inr (VInt8 c)"
| "ten_value_convert_to_int8 (VInt16 c) =
     (if sint c < INT8_MIN \<or> sint c > INT8_MAX then Inl (out_of_range ''int8'')
      else Inr (ten_value_init_int8 (scast c)))"
| "ten_value_convert_to_int8 (VInt32 c) =
     (if sint c < INT8_MIN \<or> sint c > INT8_MAX then Inl (out_of_range ''int8'')
      else Inr (ten_value_init_int8 (scast c)))"
| "ten_value_convert_to_int8 (VInt64 c) =
     (if sint c < INT8_MIN \<or> sint c > INT8_MAX then Inl (out_of_range ''int8'')
      else Inr (ten_value_init_int8 (scast c)))"
| "ten_value_convert_to_int8 (VUint8 c) =
     (if uint c > INT8_MAX then Inl (out_of_range ''int8'')
      else Inr (ten_value_init_int8 (ucast c)))"
| "ten_value_convert_to_int8 (VUint16 c) =
     (if uint c > INT8_MAX then Inl (out_of_range ''int8'')
      else Inr (ten_value_init_int8 (ucast c)))"
| "ten_value_convert_to_int8 (VUint32 c) =
     (if uint c > INT8_MAX then Inl (out_of_range ''int8'')
      else Inr (ten_value_init_int8 (ucast c)))"
| "ten_value_convert_to_int8 (VUint64 c) =
     (if uint c > INT8_MAX then Inl (out_of_range ''int8'')
      else Inr (ten_value_init_int8 (ucast c)))"
| "ten_value_convert_to_int8 v = Inl (unsupported_conversion v ''int8'')"

fun ten_value_convert_to_int16 :: "ten_value \<Rightarrow> ten_error + ten_value" where
  "ten_value_convert_to_int16 (VInt8 c) = Inr (ten_value_init_int16 (scast c))"
| "ten_value_convert_to_int16 (VInt16 c) = Inr (VInt16 c)"
| "ten_value_convert_to_int16 (VInt32 c) =
     (if sint c < INT16_MIN \<or> sint c > INT16_MAX then Inl (out_of_range ''int16'')
      else Inr (ten_value_init_int16 (scast c)))"
| "ten_value_convert_to_int16 (VInt64 c) =
     (if sint c < INT16_MIN \<or> sint c > INT16_MAX then Inl (out_of_range ''int16'')
      else Inr (ten_value_init_int16 (scast c)))"
| "ten_value_convert_to_int16 (VUint8 c) = Inr (ten_value_init_int16 (ucast c))"
| "ten_value_convert_to_int16 (VUint16 c) =
     (if uint c > INT16_MAX then Inl (out_of_range ''int16'')
      else Inr (ten_value_init_int16 (ucast c)))"
| "ten_value_convert_to_int16 (VUint32 c) =
     (if uint c > INT16_MAX then Inl (out_of_range ''int16'')
      else Inr (ten_value_init_int16 (ucast c)))"
| "ten_value_convert_to_int16 (VUint64 c) =
     (if uint c > INT16_MAX then Inl (out_of_range ''int16'')
      else Inr (ten_value_init_int16 (ucast c)))"
| "ten_value_convert_to_int16 v = Inl (unsupported_conversion v ''int16'')"

fun ten_value_convert_to_int32 :: "ten_value \<Rightarrow> ten_error + ten_value" where
  "ten_value_convert_to_int32 (VInt8 c) = Inr (ten_value_init_int32 (scast c))"
| "ten_value_convert_to_int32 (VInt16 c) = Inr (ten_value_init_int32 (scast c))"
| "ten_value_convert_to_int32 (VInt32 c) = Inr (VInt32 c)"
| "ten_value_convert_to_int32 (VInt64 c) =
     (if sint c < INT32_MIN \<or> sint c > INT32_MAX then Inl (out_of_range ''int32'')
      else Inr (ten_value_init_int32 (scast c)))"
| "ten_value_convert_to_int32 (VUint8 c) = Inr (ten_value_init_int32 (ucast c))"
| "ten_value_convert_to_int32 (VUint16 c) = Inr (ten_value_init_int32 (ucast c))"
| "ten_value_convert_to_int32 (VUint32 c) =
     (if uint c > INT32_MAX then Inl (out_of_range ''int32'')
      else Inr (ten_value_init_int32 (ucast c)))"
| "ten_value_convert_to_int32 (VUint64 c) =
     (if uint c > INT32_MAX then Inl (out_of_range ''int32'')
      else Inr (ten_value_init_int32 (ucast c)))"
| "ten_value_convert_to_int32 v = Inl (unsupported_conversion v ''int32'')"

fun ten_value_convert_to_int64 :: "ten_value \<Rightarrow> ten_error + ten_value" where
  "ten_value_convert_to_int64 (VInt8 c) = Inr (ten_value_init_int64 (scast c))"
| "ten_value_convert_to_int64 (VInt16 c) = Inr (ten_value_init_int64 (scast c))"
| "ten_value_convert_to_int64 (VInt32 c) = Inr (ten_value_init_int64 (scast c))"
| "ten_value_convert_to_int64 (VInt64 c) = Inr (VInt64 c)"
| "ten_value_convert_to_int64 (VUint8 c) = Inr (ten_value_init_int64 (ucast c))"
| "ten_value_convert_to_int64 (VUint16 c) = Inr (ten_value_init_int64 (ucast c))"
| "ten_value_convert_to_int64 (VUint32 c) = Inr (ten_value_init_int64 (ucast c))"
| "ten_value_convert_to_int64 (VUint64 c) =
     (if uint c > INT64_MAX then Inl (out_of_range ''int64'')
      else Inr (ten_value_init_int64 (ucast c)))"
| "ten_value_convert_to_int64 v = Inl (unsupported_conversion v ''int64'')"

fun ten_value_convert_to_uint8 :: "ten_value \<Rightarrow> ten_error + ten_value" where
  "ten_value_convert_to_uint8 (VInt8 c) =
     (if sint c < 0 then Inl (out_of_range ''uint8'')
      else Inr (ten_value_init_uint8 (scast c)))"
| "ten_value_convert_to_uint8 (VInt16 c) =
     (if sint c < 0 \<or> sint c > UINT8_MAX then Inl (out_of_range ''uint8'')
      else Inr (ten_value_init_uint8 (scast c)))"
| "ten_value_convert_to_uint8 (VInt32 c) =
     (if sint c < 0 \<or> sint c > UINT8_MAX then Inl (out_of_range ''uint8'')
      else Inr (ten_value_init_uint8 (scast c)))"
| "ten_value_convert_to_uint8 (VInt64 c) =
     (if sint c < 0 \<or> sint c > UINT8_MAX then Inl (out_of_range ''uint8'')
      else Inr (ten_value_init_uint8 (scast c)))"
| "ten_value_convert_to_uint8 (VUint8 c) = Inr (VUint8 c)"
| "ten_value_convert_to_uint8 (VUint16 c) =
     (if uint c > UINT8_MAX then Inl (out_of_range ''uint8'')
      else Inr (ten_value_init_uint8 (ucast c)))"
| "ten_value_convert_to_uint8 (VUint32 c) =
     (if uint c > UINT8_MAX then Inl (out_of_range ''uint8'')
      else Inr (ten_value_init_uint8 (ucast c)))"
| "ten_value_convert_to_uint8 (VUint64 c) =
     (if uint c > UINT8_MAX then Inl (out_of_range ''uint8'')
      else Inr (ten_value_init_uint8 (ucast c)))"
| "ten_value_convert_to_uint8 v = Inl (unsupported_conversion v ''uint8'')"

fun ten_value_convert_to_uint16 :: "ten_value \<Rightarrow> ten_error + ten_value" where
  "ten_value_convert_to_uint16 (VInt8 c) =
     (if sint c < 0 then Inl (out_of_range ''uint16'')
      else Inr (ten_value_init_uint16 (scast c)))"
| "ten_value_convert_to_uint16 (VInt16 c) =
     (if sint c < 0 then Inl (out_of_range ''uint16'')
      else Inr (ten_value_init_uint16 (scast c)))"
| "ten_value_convert_to_uint16 (VInt32 c) =
     (if sint c < 0 \<or> sint c > UINT16_MAX then Inl (out_of_range ''uint16'')
      else Inr (ten_value_init_uint16 (scast c)))"
| "ten_value_convert_to_uint16 (VInt64 c) =
     (if sint c < 0 \<or> sint c > UINT16_MAX then Inl (out_of_range ''uint16'')
      else Inr (ten_value_init_uint16 (scast c)))"
| "ten_value_convert_to_uint16 (VUint8 c) = Inr (ten_value_init_uint16 (ucast c))"
| "ten_value_convert_to_uint16 (VUint16 c) = Inr (VUint16 c)"
| "ten_value_convert_to_uint16 (VUint32 c) =
     (if uint c > UINT16_MAX then Inl (out_of_range ''uint16'')
      else Inr (ten_value_init_uint16 (ucast c)))"
| "ten_value_convert_to_uint16 (VUint64 c) =
     (if uint c > UINT16_MAX then Inl (out_of_range ''uint16'')
      else Inr (ten_value_init_uint16 (ucast c)))"
| "ten_value_convert_to_uint16 v = Inl (unsupported_conversion v ''uint16'')"

fun ten_value_convert_to_uint32 :: "ten_value \<Rightarrow> ten_error + ten_value" where
  "ten_value_convert_to_uint32 (VInt8 c) =
     (if sint c < 0 then Inl (out_of_range ''uint32'')
      else Inr (ten_value_init_uint32 (scast c)))"
| "ten_value_convert_to_uint32 (VInt16 c) =
     (if sint c < 0 then Inl (out_of_range ''uint32'')
      else Inr (ten_value_init_uint32 (scast c)))"
| "ten_value_convert_to_uint32 (VInt32 c) =
     (if sint c < 0 then Inl (out_of_range ''uint32'')
      else Inr (ten_value_init_uint32 (scast c)))"
| "ten_value_convert_to_uint32 (VInt64 c) =
     (if sint c < 0 \<or> sint c > UINT32_MAX then Inl (out_of_range ''uint32'')
      else Inr (ten_value_init_uint32 (scast c)))"
| "ten_value_convert_to_uint32 (VUint8 c) = Inr (ten_value_init_uint32 (ucast c))"
| "ten_value_convert_to_uint32 (VUint16 c) = Inr (ten_value_init_uint32 (ucast c))"
| "ten_value_convert_to_uint32 (VUint32 c) = Inr (VUint32 c)"
| "ten_value_convert_to_uint32 (VUint64 c) =
     (if uint c > UINT32_MAX then Inl (out_of_range ''uint32'')
      else Inr (ten_value_init_uint32 (ucast c)))"
| "ten_value_convert_to_uint32 v = Inl (unsupported_conversion v ''uint32'')"

fun ten_value_convert_to_uint64 :: "ten_value \<Rightarrow> ten_error + ten_value" where
  "ten_value_convert_to_uint64 (VInt8 c) =
     (if sint c < 0 then Inl (out_of_range ''uint64'')
      else Inr (ten_value_init_uint64 (scast c)))"
| "ten_value_convert_to_uint64 (VInt16 c) =
     (if sint c < 0 then Inl (out_of_range ''uint64'')
      else Inr (ten_value_init_uint64 (scast c)))"
| "ten_value_convert_to_uint64 (VInt32 c) =
     (if sint c < 0 then Inl (out_of_range ''uint64'')
      else Inr (ten_value_init_uint64 (scast c)))"
| "ten_value_convert_to_uint64 (VInt64 c) =
     (if sint c < 0 then Inl (out_of_range ''uint64'')
      else Inr (ten_value_init_uint64 (scast c)))"
| "ten_value_convert_to_uint64 (VUint8 c) = Inr (ten_value_init_uint64 (ucast c))"
| "ten_value_convert_to_uint64 (VUint16 c) = Inr (ten_value_init_uint64 (ucast c))"
| "ten_value_convert_to_uint64 (VUint32 c) = Inr (ten_value_init_uint64 (ucast c))"
| "ten_value_convert_to_uint64 (VUint64 c) = Inr (VUint64 c)"
| "ten_value_convert_to_uint64 v = Inl (unsupported_conversion v ''uint64'')"

section \<open>The contract of an integer conversion\<close>

text \<open>The integer that a value of an integer type holds.\<close>

fun int_content :: "ten_value \<Rightarrow> int option" where
  "int_content (VInt8 w) = Some (sint w)"
| "int_content (VInt16 w) = Some (sint w)"
| "int_content (VInt32 w) = Some (sint w)"
| "int_content (VInt64 w) = Some (sint w)"
| "int_content (VUint8 w) = Some (uint w)"
| "int_content (VUint16 w) = Some (uint w)"
| "int_content (VUint32 w) = Some (uint w)"
| "int_content (VUint64 w) = Some (uint w)"
| "int_content _ = None"

lemma int_content_determines:
  "int_content v = Some i \<Longrightarrow> int_content w = Some i \<Longrightarrow>
   ten_value_get_type v = ten_value_get_type w \<Longrightarrow> v = w"
  by (cases v; cases w; simp; metis signed_word_eqI unsigned_word_eqI)

lemma int_content_None_iff:
  "int_content v = None \<longleftrightarrow> \<not> is_integer_type (ten_value_get_type v)"
  by (cases v) (simp_all add: is_integer_type_def)

text \<open>The bounds of the integer types, by tag.\<close>

fun type_min :: "ten_type \<Rightarrow> int" where
  "type_min TEN_TYPE_INT8 = INT8_MIN"
| "type_min TEN_TYPE_INT16 = INT16_MIN"
| "type_min TEN_TYPE_INT32 = INT32_MIN"
| "type_min TEN_TYPE_INT64 = INT64_MIN"
| "type_min _ = 0"

fun type_max :: "ten_type \<Rightarrow> int" where
  "type_max TEN_TYPE_INT8 = INT8_MAX"
| "type_max TEN_TYPE_INT16 = INT16_MAX"
| "type_max TEN_TYPE_INT32 = INT32_MAX"
| "type_max TEN_TYPE_INT64 = INT64_MAX"
| "type_max TEN_TYPE_UINT8 = UINT8_MAX"
| "type_max TEN_TYPE_UINT16 = UINT16_MAX"
| "type_max TEN_TYPE_UINT32 = UINT32_MAX"
| "type_max TEN_TYPE_UINT64 = UINT64_MAX"
| "type_max _ = 0"

lemma int_content_bounds:
  "int_content v = Some i \<Longrightarrow>
   type_min (ten_value_get_type v) \<le> i \<and> i \<le> type_max (ten_value_get_type v)"
  by (cases v) (auto simp: word_bounds)

lemma int_type_content:
  "is_integer_type (ten_value_get_type v) \<Longrightarrow> \<exists>i. int_content v = Some i"
  using int_content_None_iff [of v] by auto

locale int_conversion =
  fixes conv :: "ten_value \<Rightarrow> ten_error + ten_value"
    and ty :: ten_type
    and lo hi :: int
  assumes conv_in_range:
      "int_content v = Some i \<Longrightarrow> lo \<le> i \<Longrightarrow> i \<le> hi \<Longrightarrow>
       \<exists>w. conv v = Inr w \<and> ten_value_get_type w = ty \<and> int_content w = Some i"
    and conv_out_of_range:
      "int_content v = Some i \<Longrightarrow> \<not> (lo \<le> i \<and> i \<le> hi) \<Longrightarrow>
       conv v = Inl (out_of_range (ten_type_to_string ty))"
    and conv_unsupported:
      "int_content v = None \<Longrightarrow> conv v = Inl (unsupported_conversion v (ten_type_to_string ty))"
    and type_range:
      "ten_value_get_type v = ty \<Longrightarrow> \<exists>i. int_content v = Some i \<and> lo \<le> i \<and> i \<le> hi"
begin

lemma succeeds_iff:
  "(\<exists>w. conv v = Inr w) \<longleftrightarrow> (\<exists>i. int_content v = Some i \<and> lo \<le> i \<and> i \<le> hi)"
proof (cases "int_content v")
  case None
  then show ?thesis by (simp add: conv_unsupported)
next
  case (Some i)
  then show ?thesis
    using conv_in_range [OF Some] conv_out_of_range [OF Some] by fastforce
qed

lemma result:
  assumes "conv v = Inr w"
  shows "ten_value_get_type w = ty" and "int_content w = int_content v"
proof -
  from assms succeeds_iff obtain i where i: "int_content v = Some i" "lo \<le> i" "i \<le> hi"
    by blast
  from conv_in_range [OF i] assms
  show "ten_value_get_type w = ty" and "int_content w = int_content v"
    by (auto simp: i)
qed

lemma keeps_own_type: "ten_value_get_type v = ty \<Longrightarrow> conv v = Inr v"
proof -
  assume ty: "ten_value_get_type v = ty"
  from type_range [OF this] obtain i where i: "int_content v = Some i" "lo \<le> i" "i \<le> hi"
    by blast
  from conv_in_range [OF i] obtain w
    where w: "conv v = Inr w" "ten_value_get_type w = ty" "int_content w = Some i"
    by blast
  with i ty have "v = w" by (intro int_content_determines [of v i w]) simp_all
  with w show ?thesis by simp
qed

lemma idempotent: "conv v = Inr w \<Longrightarrow> conv w = Inr w"
  by (intro keeps_own_type result(1))

end

text \<open>
  Going through a type that holds every value of the target makes no difference, as long
  as the first conversion succeeds.
\<close>

locale widening_conversion =
  wide: int_conversion wide_conv wide_ty wide_lo wide_hi +
  narrow: int_conversion narrow_conv narrow_ty narrow_lo narrow_hi
  for wide_conv wide_ty wide_lo wide_hi narrow_conv narrow_ty narrow_lo narrow_hi +
  assumes contains: "wide_lo \<le> narrow_lo" "narrow_hi \<le> wide_hi"
begin

lemma through_wide:
  assumes "wide_conv v = Inr w"
  shows "narrow_conv w = narrow_conv v"
proof -
  from assms wide.succeeds_iff obtain i where i: "int_content v = Some i" by blast
  with wide.result(2) [OF assms] have w: "int_content w = Some i" by simp
  show ?thesis
  proof (cases "narrow_lo \<le> i \<and> i \<le> narrow_hi")
    case True
    then obtain a b where "narrow_conv v = Inr a" "ten_value_get_type a = narrow_ty"
        "int_content a = Some i" "narrow_conv w = Inr b" "ten_value_get_type b = narrow_ty"
        "int_content b = Some i"
      using narrow.conv_in_range i w by metis
    then show ?thesis using int_content_determines by metis
  next
    case False
    then show ?thesis
      using narrow.conv_out_of_range [OF i] narrow.conv_out_of_range [OF w] by simp
  qed
qed

lemma narrow_then_wide:
  assumes "narrow_conv v = Inr w"
  shows "\<exists>u. wide_conv w = Inr u \<and> int_content u = int_content v"
proof -
  from assms narrow.succeeds_iff obtain i
    where i: "int_content v = Some i" "narrow_lo \<le> i" "i \<le> narrow_hi" by blast
  with narrow.result(2) [OF assms] have "int_content w = Some i" by simp
  with wide.conv_in_range [of w i] i contains show ?thesis by auto
qed

lemma wide_after_narrow:
  assumes "narrow_conv v = Inr w"
  shows "wide_conv w = wide_conv v"
proof -
  from assms narrow.succeeds_iff obtain i
    where i: "int_content v = Some i" "narrow_lo \<le> i" "i \<le> narrow_hi" by blast
  with narrow.result(2) [OF assms] have w: "int_content w = Some i" by simp
  from i contains have "wide_lo \<le> i" "i \<le> wide_hi" by simp_all
  then obtain a b where "wide_conv v = Inr a" "ten_value_get_type a = wide_ty"
      "int_content a = Some i" "wide_conv w = Inr b" "ten_value_get_type b = wide_ty"
      "int_content b = Some i"
    using wide.conv_in_range i(1) w by metis
  then show ?thesis using int_content_determines by metis
qed

end

section \<open>The eight conversions meet the contract\<close>

interpretation int8_conv: int_conversion ten_value_convert_to_int8 TEN_TYPE_INT8 "INT8_MIN" INT8_MAX
proof unfold_locales
  fix v i
  assume c: "int_content v = Some i"
  note bounds = int_content_bounds [OF c]
  show "\<exists>w. ten_value_convert_to_int8 v = Inr w \<and> ten_value_get_type w = TEN_TYPE_INT8 \<and>
          int_content w = Some i" if "INT8_MIN \<le> i" "i \<le> INT8_MAX"
    using c that bounds by (cases v) (auto simp: c_casts sint_eq_uint_fits)
  show "ten_value_convert_to_int8 v = Inl (out_of_range (ten_type_to_string TEN_TYPE_INT8))"
    if "\<not> (INT8_MIN \<le> i \<and> i \<le> INT8_MAX)"
    using c that bounds by (cases v) (auto simp: ten_type_to_string_def)
next
  fix v
  show "ten_value_convert_to_int8 v =
          Inl (unsupported_conversion v (ten_type_to_string TEN_TYPE_INT8))" if "int_content v = None"
    using that by (cases v) (simp_all add: ten_type_to_string_def)
  show "\<exists>i. int_content v = Some i \<and> INT8_MIN \<le> i \<and> i \<le> INT8_MAX"
    if "ten_value_get_type v = TEN_TYPE_INT8"
    using that int_content_bounds [of v] int_type_content [of v]
    by (auto simp: is_integer_type_def)
qed

interpretation int16_conv: int_conversion ten_value_convert_to_int16 TEN_TYPE_INT16 "INT16_MIN" INT16_MAX
proof unfold_locales
  fix v i
  assume c: "int_content v = Some i"
  note bounds = int_content_bounds [OF c]
  show "\<exists>w. ten_value_convert_to_int16 v = Inr w \<and> ten_value_get_type w = TEN_TYPE_INT16 \<and>
          int_content w = Some i" if "INT16_MIN \<le> i" "i \<le> INT16_MAX"
    using c that bounds by (cases v) (auto simp: c_casts sint_eq_uint_fits)
  show "ten_value_convert_to_int16 v = Inl (out_of_range (ten_type_to_string TEN_TYPE_INT16))"
    if "\<not> (INT16_MIN \<le> i \<and> i \<le> INT16_MAX)"
    using c that bounds by (cases v) (auto simp: ten_type_to_string_def)
next
  fix v
  show "ten_value_convert_to_int16 v =
          Inl (unsupported_conversion v (ten_type_to_string TEN_TYPE_INT16))" if "int_content v = None"
    using that by (cases v) (simp_all add: ten_type_to_string_def)
  show "\<exists>i. int_content v = Some i \<and> INT16_MIN \<le> i \<and> i \<le> INT16_MAX"
    if "ten_value_get_type v = TEN_TYPE_INT16"
    using that int_content_bounds [of v] int_type_content [of v]
    by (auto simp: is_integer_type_def)
qed

interpretation int32_conv: int_conversion ten_value_convert_to_int32 TEN_TYPE_INT32 "INT32_MIN" INT32_MAX
proof unfold_locales
  fix v i
  assume c: "int_content v = Some i"
  note bounds = int_content_bounds [OF c]
  show "\<exists>w. ten_value_convert_to_int32 v = Inr w \<and> ten_value_get_type w = TEN_TYPE_INT32 \<and>
          int_content w = Some i" if "INT32_MIN \<le> i" "i \<le> INT32_MAX"
    using c that bounds by (cases v) (auto simp: c_casts sint_eq_uint_fits)
  show "ten_value_convert_to_int32 v = Inl (out_of_range (ten_type_to_string TEN_TYPE_INT32))"
    if "\<not> (INT32_MIN \<le> i \<and> i \<le> INT32_MAX)"
    using c that bounds by (cases v) (auto simp: ten_type_to_string_def)
next
  fix v
  show "ten_value_convert_to_int32 v =
          Inl (unsupported_conversion v (ten_type_to_string TEN_TYPE_INT32))" if "int_content v = None"
    using that by (cases v) (simp_all add: ten_type_to_string_def)
  show "\<exists>i. int_content v = Some i \<and> INT32_MIN \<le> i \<and> i \<le> INT32_MAX"
    if "ten_value_get_type v = TEN_TYPE_INT32"
    using that int_content_bounds [of v] int_type_content [of v]
    by (auto simp: is_integer_type_def)
qed

interpretation int64_conv: int_conversion ten_value_convert_to_int64 TEN_TYPE_INT64 "INT64_MIN" INT64_MAX
proof unfold_locales
  fix v i
  assume c: "int_content v = Some i"
  note bounds = int_content_bounds [OF c]
  show "\<exists>w. ten_value_convert_to_int64 v = Inr w \<and> ten_value_get_type w = TEN_TYPE_INT64 \<and>
          int_content w = Some i" if "INT64_MIN \<le> i" "i \<le> INT64_MAX"
    using c that bounds by (cases v) (auto simp: c_casts sint_eq_uint_fits)
  show "ten_value_convert_to_int64 v = Inl (out_of_range (ten_type_to_string TEN_TYPE_INT64))"
    if "\<not> (INT64_MIN \<le> i \<and> i \<le> INT64_MAX)"
    using c that bounds by (cases v) (auto simp: ten_type_to_string_def)
next
  fix v
  show "ten_value_convert_to_int64 v =
          Inl (unsupported_conversion v (ten_type_to_string TEN_TYPE_INT64))" if "int_content v = None"
    using that by (cases v) (simp_all add: ten_type_to_string_def)
  show "\<exists>i. int_content v = Some i \<and> INT64_MIN \<le> i \<and> i \<le> INT64_MAX"
    if "ten_value_get_type v = TEN_TYPE_INT64"
    using that int_content_bounds [of v] int_type_content [of v]
    by (auto simp: is_integer_type_def)
qed

interpretation uint8_conv: int_conversion ten_value_convert_to_uint8 TEN_TYPE_UINT8 "0" UINT8_MAX
proof unfold_locales
  fix v i
  assume c: "int_content v = Some i"
  note bounds = int_content_bounds [OF c]
  show "\<exists>w. ten_value_convert_to_uint8 v = Inr w \<and> ten_value_get_type w = TEN_TYPE_UINT8 \<and>
          int_content w = Some i" if "0 \<le> i" "i \<le> UINT8_MAX"
    using c that bounds by (cases v) (auto simp: c_casts uint_eq_sint_fits)
  show "ten_value_convert_to_uint8 v = Inl (out_of_range (ten_type_to_string TEN_TYPE_UINT8))"
    if "\<not> (0 \<le> i \<and> i \<le> UINT8_MAX)"
    using c that bounds by (cases v) (auto simp: ten_type_to_string_def)
next
  fix v
  show "ten_value_convert_to_uint8 v =
          Inl (unsupported_conversion v (ten_type_to_string TEN_TYPE_UINT8))" if "int_content v = None"
    using that by (cases v) (simp_all add: ten_type_to_string_def)
  show "\<exists>i. int_content v = Some i \<and> 0 \<le> i \<and> i \<le> UINT8_MAX"
    if "ten_value_get_type v = TEN_TYPE_UINT8"
    using that int_content_bounds [of v] int_type_content [of v]
    by (auto simp: is_integer_type_def)
qed

interpretation uint16_conv: int_conversion ten_value_convert_to_uint16 TEN_TYPE_UINT16 "0" UINT16_MAX
proof unfold_locales
  fix v i
  assume c: "int_content v = Some i"
  note bounds = int_content_bounds [OF c]
  show "\<exists>w. ten_value_convert_to_uint16 v = Inr w \<and> ten_value_get_type w = TEN_TYPE_UINT16 \<and>
          int_content w = Some i" if "0 \<le> i" "i \<le> UINT16_MAX"
    using c that bounds by (cases v) (auto simp: c_casts uint_eq_sint_fits)
  show "ten_value_convert_to_uint16 v = Inl (out_of_range (ten_type_to_string TEN_TYPE_UINT16))"
    if "\<not> (0 \<le> i \<and> i \<le> UINT16_MAX)"
    using c that bounds by (cases v) (auto simp: ten_type_to_string_def)
next
  fix v
  show "ten_value_convert_to_uint16 v =
          Inl (unsupported_conversion v (ten_type_to_string TEN_TYPE_UINT16))" if "int_content v = None"
    using that by (cases v) (simp_all add: ten_type_to_string_def)
  show "\<exists>i. int_content v = Some i \<and> 0 \<le> i \<and> i \<le> UINT16_MAX"
    if "ten_value_get_type v = TEN_TYPE_UINT16"
    using that int_content_bounds [of v] int_type_content [of v]
    by (auto simp: is_integer_type_def)
qed

interpretation uint32_conv: int_conversion ten_value_convert_to_uint32 TEN_TYPE_UINT32 "0" UINT32_MAX
proof unfold_locales
  fix v i
  assume c: "int_content v = Some i"
  note bounds = int_content_bounds [OF c]
  show "\<exists>w. ten_value_convert_to_uint32 v = Inr w \<and> ten_value_get_type w = TEN_TYPE_UINT32 \<and>
          int_content w = Some i" if "0 \<le> i" "i \<le> UINT32_MAX"
    using c that bounds by (cases v) (auto simp: c_casts uint_eq_sint_fits)
  show "ten_value_convert_to_uint32 v = Inl (out_of_range (ten_type_to_string TEN_TYPE_UINT32))"
    if "\<not> (0 \<le> i \<and> i \<le> UINT32_MAX)"
    using c that bounds by (cases v) (auto simp: ten_type_to_string_def)
next
  fix v
  show "ten_value_convert_to_uint32 v =
          Inl (unsupported_conversion v (ten_type_to_string TEN_TYPE_UINT32))" if "int_content v = None"
    using that by (cases v) (simp_all add: ten_type_to_string_def)
  show "\<exists>i. int_content v = Some i \<and> 0 \<le> i \<and> i \<le> UINT32_MAX"
    if "ten_value_get_type v = TEN_TYPE_UINT32"
    using that int_content_bounds [of v] int_type_content [of v]
    by (auto simp: is_integer_type_def)
qed

interpretation uint64_conv: int_conversion ten_value_convert_to_uint64 TEN_TYPE_UINT64 "0" UINT64_MAX
proof unfold_locales
  fix v i
  assume c: "int_content v = Some i"
  note bounds = int_content_bounds [OF c]
  show "\<exists>w. ten_value_convert_to_uint64 v = Inr w \<and> ten_value_get_type w = TEN_TYPE_UINT64 \<and>
          int_content w = Some i" if "0 \<le> i" "i \<le> UINT64_MAX"
    using c that bounds by (cases v) (auto simp: c_casts uint_eq_sint_fits)
  show "ten_value_convert_to_uint64 v = Inl (out_of_range (ten_type_to_string TEN_TYPE_UINT64))"
    if "\<not> (0 \<le> i \<and> i \<le> UINT64_MAX)"
    using c that bounds by (cases v) (auto simp: ten_type_to_string_def)
next
  fix v
  show "ten_value_convert_to_uint64 v =
          Inl (unsupported_conversion v (ten_type_to_string TEN_TYPE_UINT64))" if "int_content v = None"
    using that by (cases v) (simp_all add: ten_type_to_string_def)
  show "\<exists>i. int_content v = Some i \<and> 0 \<le> i \<and> i \<le> UINT64_MAX"
    if "ten_value_get_type v = TEN_TYPE_UINT64"
    using that int_content_bounds [of v] int_type_content [of v]
    by (auto simp: is_integer_type_def)
qed

text \<open>
  Every integer that arrives as an \<open>int64\<close> (a parsed number, a positive JSON integer
  kept signed) reaches the narrower types with the result of a direct conversion.
\<close>

interpretation int64_to_int8: widening_conversion
  ten_value_convert_to_int64 TEN_TYPE_INT64 INT64_MIN INT64_MAX
  ten_value_convert_to_int8 TEN_TYPE_INT8 "INT8_MIN" INT8_MAX
  by unfold_locales simp_all

interpretation int64_to_int16: widening_conversion
  ten_value_convert_to_int64 TEN_TYPE_INT64 INT64_MIN INT64_MAX
  ten_value_convert_to_int16 TEN_TYPE_INT16 "INT16_MIN" INT16_MAX
  by unfold_locales simp_all

interpretation int64_to_int32: widening_conversion
  ten_value_convert_to_int64 TEN_TYPE_INT64 INT64_MIN INT64_MAX
  ten_value_convert_to_int32 TEN_TYPE_INT32 "INT32_MIN" INT32_MAX
  by unfold_locales simp_all

interpretation int64_to_uint8: widening_conversion
  ten_value_convert_to_int64 TEN_TYPE_INT64 INT64_MIN INT64_MAX
  ten_value_convert_to_uint8 TEN_TYPE_UINT8 "0" UINT8_MAX
  by unfold_locales simp_all

interpretation int64_to_uint16: widening_conversion
  ten_value_convert_to_int64 TEN_TYPE_INT64 INT64_MIN INT64_MAX
  ten_value_convert_to_uint16 TEN_TYPE_UINT16 "0" UINT16_MAX
  by unfold_locales simp_all

interpretation int64_to_uint32: widening_conversion
  ten_value_convert_to_int64 TEN_TYPE_INT64 INT64_MIN INT64_MAX
  ten_value_convert_to_uint32 TEN_TYPE_UINT32 "0" UINT32_MAX
  by unfold_locales simp_all

interpretation int32_to_int16: widening_conversion
  ten_value_convert_to_int32 TEN_TYPE_INT32 INT32_MIN INT32_MAX
  ten_value_convert_to_int16 TEN_TYPE_INT16 "INT16_MIN" INT16_MAX
  by unfold_locales simp_all

section \<open>What fits a floating point type\<close>

text \<open>
  The four tests for \<open>float\<close> first compare with \<open>FLT_MAX\<close> cast to the integer
  type, a conversion C leaves undefined; then both casts of the round trip go through the
  same target-dependent conversion.
\<close>

definition can_convert_int32_to_float32 :: "c_target \<Rightarrow> 32 word \<Rightarrow> bool" where
  "can_convert_int32_to_float32 tg v =
     (if sint v > sint (cast_i32 tg FLT_MAX) \<or> sint v < sint (- cast_i32 tg FLT_MAX) then False
      else let float_value = fp_of_int float32_fmt (sint v);
               converted_back = cast_i32 tg float_value
           in v = converted_back)"

definition can_convert_int64_to_float32 :: "c_target \<Rightarrow> 64 word \<Rightarrow> bool" where
  "can_convert_int64_to_float32 tg v =
     (if sint v > sint (cast_i64 tg FLT_MAX) \<or> sint v < sint (- cast_i64 tg FLT_MAX) then False
      else let float_value = fp_of_int float32_fmt (sint v);
               converted_back = cast_i64 tg float_value
           in v = converted_back)"

definition can_convert_uint32_to_float32 :: "c_target \<Rightarrow> 32 word \<Rightarrow> bool" where
  "can_convert_uint32_to_float32 tg v =
     (if uint v > uint (cast_u32 tg FLT_MAX) then False
      else let float_value = fp_of_int float32_fmt (uint v);
               converted_back = cast_u32 tg float_value
           in v = converted_back)"

definition can_convert_uint64_to_float32 :: "c_target \<Rightarrow> 64 word \<Rightarrow> bool" where
  "can_convert_uint64_to_float32 tg v =
     (if uint v > uint (cast_u64 tg FLT_MAX) then False
      else let float_value = fp_of_int float32_fmt (uint v);
               converted_back = cast_u64 tg float_value
           in v = converted_back)"

definition can_convert_int32_to_float64 :: "c_target \<Rightarrow> 32 word \<Rightarrow> bool" where
  "can_convert_int32_to_float64 tg v =
     (let double_value = fp_of_int float64_fmt (sint v);
          converted_back = cast_i32 tg double_value
      in v = converted_back)"

definition can_convert_int64_to_float64 :: "c_target \<Rightarrow> 64 word \<Rightarrow> bool" where
  "can_convert_int64_to_float64 tg v =
     (let double_value = fp_of_int float64_fmt (sint v);
          converted_back = cast_i64 tg double_value
      in v = converted_back)"

definition can_convert_uint32_to_float64 :: "c_target \<Rightarrow> 32 word \<Rightarrow> bool" where
  "can_convert_uint32_to_float64 tg v =
     (let double_value = fp_of_int float64_fmt (uint v);
          converted_back = cast_u32 tg double_value
      in v = converted_back)"

definition can_convert_uint64_to_float64 :: "c_target \<Rightarrow> 64 word \<Rightarrow> bool" where
  "can_convert_uint64_to_float64 tg v =
     (let double_value = fp_of_int float64_fmt (uint v);
          converted_back = cast_u64 tg double_value
      in v = converted_back)"

definition can_convert_float64_to_int8 :: "fp \<Rightarrow> bool" where
  "can_convert_float64_to_int8 a \<longleftrightarrow> fp_le (fp_neg (ldexp1 7)) a \<and> fp_lt a (ldexp1 7)"

definition can_convert_float64_to_int16 :: "fp \<Rightarrow> bool" where
  "can_convert_float64_to_int16 a \<longleftrightarrow> fp_le (fp_neg (ldexp1 15)) a \<and> fp_lt a (ldexp1 15)"

definition can_convert_float64_to_int32 :: "fp \<Rightarrow> bool" where
  "can_convert_float64_to_int32 a \<longleftrightarrow> fp_le (fp_neg (ldexp1 31)) a \<and> fp_lt a (ldexp1 31)"

definition can_convert_float64_to_int64 :: "fp \<Rightarrow> bool" where
  "can_convert_float64_to_int64 a \<longleftrightarrow> fp_le (fp_neg (ldexp1 63)) a \<and> fp_lt a (ldexp1 63)"

definition can_convert_float64_to_uint8 :: "fp \<Rightarrow> bool" where
  "can_convert_float64_to_uint8 a \<longleftrightarrow> fp_le (Fp_zero False) a \<and> fp_lt a (ldexp1 8)"

definition can_convert_float64_to_uint16 :: "fp \<Rightarrow> bool" where
  "can_convert_float64_to_uint16 a \<longleftrightarrow> fp_le (Fp_zero False) a \<and> fp_lt a (ldexp1 16)"

definition can_convert_float64_to_uint32 :: "fp \<Rightarrow> bool" where
  "can_convert_float64_to_uint32 a \<longleftrightarrow> fp_le (Fp_zero False) a \<and> fp_lt a (ldexp1 32)"

definition can_convert_float64_to_uint64 :: "fp \<Rightarrow> bool" where
  "can_convert_float64_to_uint64 a \<longleftrightarrow> fp_le (Fp_zero False) a \<and> fp_lt a (ldexp1 64)"

section \<open>Floating point targets\<close>

definition in_float_range :: "fp \<Rightarrow> bool" where
  "in_float_range x \<longleftrightarrow> fp_le (fp_neg FLT_MAX) x \<and> fp_le x FLT_MAX"

definition ten_value_convert_to_float32 :: "c_target \<Rightarrow> ten_value \<Rightarrow> ten_error + ten_value" where
  "ten_value_convert_to_float32 tg v =
     (let unsupported = Inl (unsupported_conversion v ''float32'') in
      case v of
        VInt8 c \<Rightarrow> Inr (ten_value_init_float32 (fp_of_int float32_fmt (sint c)))
      | VInt16 c \<Rightarrow> Inr (ten_value_init_float32 (fp_of_int float32_fmt (sint c)))
      | VInt32 c \<Rightarrow>
          (if can_convert_int32_to_float32 tg c
           then Inr (ten_value_init_float32 (fp_of_int float32_fmt (sint c))) else unsupported)
      | VInt64 c \<Rightarrow>
          (if can_convert_int64_to_float32 tg c
           then Inr (ten_value_init_float32 (fp_of_int float32_fmt (sint c))) else unsupported)
      | VUint8 c \<Rightarrow> Inr (ten_value_init_float32 (fp_of_int float32_fmt (uint c)))
      | VUint16 c \<Rightarrow> Inr (ten_value_init_float32 (fp_of_int float32_fmt (uint c)))
      | VUint32 c \<Rightarrow>
          (if can_convert_uint32_to_float32 tg c
           then Inr (ten_value_init_float32 (fp_of_int float32_fmt (uint c))) else unsupported)
      | VUint64 c \<Rightarrow>
          (if can_convert_uint64_to_float32 tg c
           then Inr (ten_value_init_float32 (fp_of_int float32_fmt (uint c))) else unsupported)
      | VFloat32 x \<Rightarrow> Inr v
      | VFloat64 x \<Rightarrow>
          (if in_float_range x then Inr (ten_value_init_float32 (fp_convert float32_fmt x))
           else unsupported)
      | _ \<Rightarrow> unsupported)"

text \<open>
  The integers are cast to \<open>float\<close> and then promoted to the parameter type
  \<open>double\<close> of the initialiser.
\<close>

definition float_to_double :: "fp \<Rightarrow> fp" where
  "float_to_double x = fp_convert float64_fmt x"

definition ten_value_convert_to_float64 :: "c_target \<Rightarrow> ten_value \<Rightarrow> ten_error + ten_value" where
  "ten_value_convert_to_float64 tg v =
     (let unsupported = Inl (unsupported_conversion v ''float64'');
          as_float = (\<lambda>i. Inr (ten_value_init_float64 (float_to_double (fp_of_int float32_fmt i))))
      in case v of
        VInt8 c \<Rightarrow> as_float (sint c)
      | VInt16 c \<Rightarrow> as_float (sint c)
      | VInt32 c \<Rightarrow> as_float (sint c)
      | VInt64 c \<Rightarrow> (if can_convert_int64_to_float64 tg c then as_float (sint c) else unsupported)
      | VUint8 c \<Rightarrow> as_float (uint c)
      | VUint16 c \<Rightarrow> as_float (uint c)
      | VUint32 c \<Rightarrow> as_float (uint c)
      | VUint64 c \<Rightarrow> (if can_convert_uint64_to_float64 tg c then as_float (uint c) else unsupported)
      | VFloat32 x \<Rightarrow> Inr (ten_value_init_float64 (float_to_double x))
      | VFloat64 x \<Rightarrow> Inr v
      | _ \<Rightarrow> unsupported)"

section \<open>From a type and a string\<close>

text \<open>
  \<open>strtol(str, NULL, 10)\<close>: leading white space, an optional sign, the longest run of
  digits, and saturation at the limits of \<open>long\<close>. \<open>strtod\<close> is a parameter.
\<close>

definition c_isspace :: "char \<Rightarrow> bool" where
  "c_isspace c \<longleftrightarrow> c = CHR '' '' \<or> (9 \<le> (of_char c :: nat) \<and> (of_char c :: nat) \<le> 13)"

definition c_isdigit :: "char \<Rightarrow> bool" where
  "c_isdigit c \<longleftrightarrow> 48 \<le> (of_char c :: nat) \<and> (of_char c :: nat) \<le> 57"

fun c_digits :: "int \<Rightarrow> string \<Rightarrow> int" where
  "c_digits acc [] = acc"
| "c_digits acc (c # cs) =
     (if c_isdigit c then c_digits (10 * acc + (of_char c - 48)) cs else acc)"

definition c_strtol :: "string \<Rightarrow> int" where
  "c_strtol str =
     (let s = dropWhile c_isspace str;
          i = (if s \<noteq> [] \<and> hd s = CHR ''-'' then - c_digits 0 (tl s)
               else if s \<noteq> [] \<and> hd s = CHR ''+'' then c_digits 0 (tl s)
               else c_digits 0 s)
      in max INT64_MIN (min INT64_MAX i))"

text \<open>
  One conversion step on the result under construction: whether it succeeded, the value,
  and the error object, which a success leaves as it was.
\<close>

definition convert_step ::
  "(ten_value \<Rightarrow> ten_error + ten_value) \<Rightarrow> ten_value \<Rightarrow> ten_error \<Rightarrow> bool \<times> ten_value \<times> ten_error"
where
  "convert_step conv v err =
     (case conv v of Inl e \<Rightarrow> (False, v, e) | Inr w \<Rightarrow> (True, w, err))"

text \<open>
  The inner switch. The case of \<open>int16\<close> has no \<open>break\<close> and runs on into the case
  of \<open>int32\<close>, which overwrites the success flag.
\<close>

definition convert_parsed :: "ten_type \<Rightarrow> ten_value \<Rightarrow> ten_error \<Rightarrow> bool \<times> ten_value \<times> ten_error" where
  "convert_parsed ty v err =
     (case ty of
        TEN_TYPE_INT8 \<Rightarrow> convert_step ten_value_convert_to_int8 v err
      | TEN_TYPE_INT16 \<Rightarrow>
          (case convert_step ten_value_convert_to_int16 v err of
             (_, v', err') \<Rightarrow> convert_step ten_value_convert_to_int32 v' err')
      | TEN_TYPE_INT32 \<Rightarrow> convert_step ten_value_convert_to_int32 v err
      | TEN_TYPE_UINT8 \<Rightarrow> convert_step ten_value_convert_to_uint8 v err
      | TEN_TYPE_UINT16 \<Rightarrow> convert_step ten_value_convert_to_uint16 v err
      | TEN_TYPE_UINT32 \<Rightarrow> convert_step ten_value_convert_to_uint32 v err
      | TEN_TYPE_UINT64 \<Rightarrow> convert_step ten_value_convert_to_uint64 v err
      | _ \<Rightarrow> (True, v, err))"

definition ten_value_from_type_and_string ::
  "(string \<Rightarrow> fp) \<Rightarrow> ten_type \<Rightarrow> string \<Rightarrow> ten_error \<Rightarrow> ten_value option \<times> ten_error"
where
  "ten_value_from_type_and_string strtod ty str err =
     (if is_integer_type ty then
        (case convert_parsed ty (ten_value_init_int64 (word_of_int (c_strtol str))) err of
           (success, v, err') \<Rightarrow> (if success then Some v else None, err'))
      else case ty of
        TEN_TYPE_STRING \<Rightarrow> (Some (ten_value_create_string str), err)
      | TEN_TYPE_BOOL \<Rightarrow> (Some (ten_value_init_bool (str = ''true'')), err)
      | TEN_TYPE_NULL \<Rightarrow> (Some ten_value_init_null, err)
      | TEN_TYPE_FLOAT32 \<Rightarrow>
          (let d = strtod str in
           (Some (ten_value_init_float32
              (if fp_lt d FLT_MIN \<or> fp_lt FLT_MAX d then Fp_zero False
               else fp_convert float32_fmt d)), err))
      | TEN_TYPE_FLOAT64 \<Rightarrow> (Some (ten_value_init_float64 (strtod str)), err)
      | _ \<Rightarrow> (None, err))"

section \<open>Facts about parsed numbers\<close>

text \<open>Reading a printed number gives the number.\<close>

lemma c_isdigit_dec: "d < 10 \<Longrightarrow> c_isdigit (char_of (48 + d :: nat))"
  by (simp add: c_isdigit_def)

lemma dec_of_nat_digits: "c \<in> set (dec_of_nat n) \<Longrightarrow> c_isdigit c"
proof (induction n rule: dec_of_nat.induct)
  case (1 n)
  then show ?case
    by (cases "n < 10") (auto simp: dec_of_nat.simps [of n] c_isdigit_def)
qed

lemma c_digits_append:
  "\<forall>c \<in> set ds. c_isdigit c \<Longrightarrow> c_digits acc (ds @ cs) = c_digits (c_digits acc ds) cs"
  by (induction ds arbitrary: acc) auto

lemma byte_dec: "d < 10 \<Longrightarrow> (of_char (char_of (48 + d :: nat) :: char) :: int) = 48 + int d"
proof -
  assume d: "d < 10"
  have "(of_char (char_of (48 + d) :: char) :: int) = int (of_char (char_of (48 + d) :: char))"
    by (simp only: of_nat_of_char)
  with d show ?thesis by simp
qed

lemma c_digits_dec: "c_digits 0 (dec_of_nat n) = int n"
proof (induction n rule: dec_of_nat.induct)
  case (1 n)
  show ?case
  proof (cases "n < 10")
    case True
    then show ?thesis
      by (simp add: dec_of_nat.simps [of n] c_isdigit_dec byte_dec)
  next
    case False
    have "10 * int (n div 10) + int (n mod 10) = int n"
      using arg_cong [OF mult_div_mod_eq [of 10 n], of int]
      by (simp only: of_nat_add of_nat_mult of_nat_numeral)
    with False show ?thesis
      using 1 by (simp add: dec_of_nat.simps [of n] c_digits_append dec_of_nat_digits c_isdigit_dec byte_dec)
  qed
qed

lemma c_strtol_dec:
  assumes "int n \<le> INT64_MAX"
  shows "c_strtol (dec_of_nat n) = int n"
proof -
  obtain c cs where dec: "dec_of_nat n = c # cs" by (cases "dec_of_nat n") auto
  then have "c_isdigit c" using dec_of_nat_digits [of c n] by simp
  then have "\<not> c_isspace c" "c \<noteq> CHR ''-''" "c \<noteq> CHR ''+''"
    by (auto simp: c_isdigit_def c_isspace_def)
  then show ?thesis
    using assms c_digits_dec [of n]
    by (simp add: c_strtol_def dec del: c_digits.simps)
qed

lemma c_strtol_bounds: "INT64_MIN \<le> c_strtol str \<and> c_strtol str \<le> INT64_MAX"
  by (simp add: c_strtol_def Let_def)

lemma sint_c_strtol: "sint (word_of_int (c_strtol str) :: 64 word) = c_strtol str"
  using c_strtol_bounds [of str] by (intro sint_word_of_int_fits) simp_all

lemma parsed_int32:
  "convert_step ten_value_convert_to_int32 (VInt64 (word_of_int (c_strtol str))) err =
     (if INT32_MIN \<le> c_strtol str \<and> c_strtol str \<le> INT32_MAX
      then (True, VInt32 (word_of_int (c_strtol str)), err)
      else (False, VInt64 (word_of_int (c_strtol str)), out_of_range ''int32''))"
  by (auto simp: convert_step_def sint_c_strtol scast_eq)

text \<open>The missing break: the second step sees a value with the same content.\<close>

lemma parsed_int16:
  "\<exists>err' v'. convert_parsed TEN_TYPE_INT16 v err = convert_step ten_value_convert_to_int32 v' err' \<and>
     ten_value_convert_to_int32 v' = ten_value_convert_to_int32 v"
proof (cases "ten_value_convert_to_int16 v")
  case (Inl e)
  then show ?thesis
    by (intro exI [of _ e] exI [of _ v]) (simp add: convert_parsed_def convert_step_def)
next
  case (Inr w)
  then show ?thesis
    by (intro exI [of _ err] exI [of _ w])
       (simp add: convert_parsed_def convert_step_def int32_to_int16.wide_after_narrow)
qed

lemma fp_cast_trunc:
  "fp_trunc x = Some i \<Longrightarrow> lo \<le> i \<Longrightarrow> i \<le> hi \<Longrightarrow> fp_cast lo hi ub x = word_of_int i"
  by (simp add: fp_cast_def)

lemma can_convert_to_float64:
  "\<bar>sint a\<bar> < 2 ^ 53 \<Longrightarrow> can_convert_int64_to_float64 tg a"
  "uint b < 2 ^ 53 \<Longrightarrow> can_convert_uint64_to_float64 tg b"
  by (simp_all add: can_convert_int64_to_float64_def can_convert_uint64_to_float64_def
        fp_cast_trunc [OF fp_trunc_of_int64])

section \<open>Properties\<close>

text \<open>
  An integer of magnitude below two to the 24 converts to a \<open>float64\<close> that
  truncates back to it, whatever integer type holds it.
\<close>

lemma convert_to_float64_exact:
  assumes "int_content v = Some i" and "\<bar>i\<bar> < 2 ^ 24"
  shows "\<exists>x. ten_value_convert_to_float64 tg v = Inr (VFloat64 x) \<and>
             fp_trunc x = Some i"
  using assms fp_trunc_float_double [OF assms(2)] can_convert_to_float64
  by (cases v) (auto simp: ten_value_convert_to_float64_def float_to_double_def)

text \<open>
  Above that bound the conversion to \<open>float64\<close> is not exact although every 32-bit
  integer has an exact \<open>double\<close>: the integers are cast to \<open>float\<close> on the way.
\<close>

lemma convert_to_float64_through_float:
  "ten_value_convert_to_float64 tg (VInt32 16777217) = Inr (VFloat64 (Fp_fin 1 24)) \<and>
   fp_trunc (Fp_fin 1 24) = Some 16777216"
proof -
  have "float_to_double (fp_of_int float32_fmt 16777217) = Fp_fin 1 24" by code_simp
  then show ?thesis by (simp add: ten_value_convert_to_float64_def)
qed

text \<open>
  The text of an \<open>int32\<close>: the number that \<open>strtol\<close> reads if it fits, and
  the error otherwise; the same holds of the unsigned type of that width.
\<close>

lemma from_string_int32:
  "ten_value_from_type_and_string strtod TEN_TYPE_INT32 str err =
     (if INT32_MIN \<le> c_strtol str \<and> c_strtol str \<le> INT32_MAX
      then (Some (VInt32 (word_of_int (c_strtol str))), err)
      else (None, out_of_range ''int32''))"
  by (simp add: ten_value_from_type_and_string_def convert_parsed_def parsed_int32
        is_integer_type_def)

text \<open>
  Asked for an \<open>int16\<close>, the function never makes one: the case has no
  \<open>break\<close>, and the value that comes back is an \<open>int32\<close>, also for a number that
  does not fit 16 bits.
\<close>

lemma from_string_int16_is_int32:
  "map_option ten_value_get_type
     (fst (ten_value_from_type_and_string strtod TEN_TYPE_INT16 str err)) \<in>
       {None, Some TEN_TYPE_INT32} \<and>
   (INT32_MIN \<le> c_strtol str \<and> c_strtol str \<le> INT32_MAX \<longrightarrow>
      fst (ten_value_from_type_and_string strtod TEN_TYPE_INT16 str err) =
        Some (VInt32 (word_of_int (c_strtol str))))"
proof -
  let ?v = "VInt64 (word_of_int (c_strtol str))"
  obtain err' v' where step:
      "convert_parsed TEN_TYPE_INT16 ?v err = convert_step ten_value_convert_to_int32 v' err'"
      and same: "ten_value_convert_to_int32 v' = ten_value_convert_to_int32 ?v"
    using parsed_int16 by blast
  show ?thesis
    by (auto simp: ten_value_from_type_and_string_def is_integer_type_def step same
          convert_step_def sint_c_strtol scast_eq)
qed

end
