(* ===== verification/Value_Get.thy ===== *)
theory Value_Get
  imports Value_Convert
begin

text \<open>
  The typed getters of core/src/ten_utils/value/value_get.c. Most cases of their switches
  test whether the content fits and return it, and have no \<open>break\<close>: when the test
  fails, control runs on into the next case, which reads another member of the union. The
  model keeps that: a switch is the list of its cases in source order, entered at the case
  with the value's tag and followed to the first case whose test holds.

  The union is eight bytes in little-endian order. \<open>ten_value_init\<close> zeroes it and
  every initialiser and setter stores one member, so the bytes above a narrow member are
  zero. The default branch asserts false and reports the error.
\<close>

section \<open>The union\<close>

fun ten_value_content :: "ten_value \<Rightarrow> 64 word" where
  "ten_value_content (VBool b) = (if b then 1 else 0)"
| "ten_value_content (VInt8 w) = ucast w"
| "ten_value_content (VInt16 w) = ucast w"
| "ten_value_content (VInt32 w) = ucast w"
| "ten_value_content (VInt64 w) = w"
| "ten_value_content (VUint8 w) = ucast w"
| "ten_value_content (VUint16 w) = ucast w"
| "ten_value_content (VUint32 w) = ucast w"
| "ten_value_content (VUint64 w) = w"
| "ten_value_content (VPtr p) = p"
| "ten_value_content _ = 0"

text \<open>Reading a member of 8, 16 or 32 bits: the low bytes.\<close>

abbreviation as8 :: "64 word \<Rightarrow> 8 word" where "as8 c \<equiv> ucast c"
abbreviation as16 :: "64 word \<Rightarrow> 16 word" where "as16 c \<equiv> ucast c"
abbreviation as32 :: "64 word \<Rightarrow> 32 word" where "as32 c \<equiv> ucast c"

section \<open>A switch whose cases fall through\<close>

text \<open>A case: its label, the test before the return, and what it returns.\<close>

type_synonym 'w rung = "ten_type \<times> (64 word \<Rightarrow> bool) \<times> (64 word \<Rightarrow> 'w word)"

fun fall_through :: "'w::len rung list \<Rightarrow> 64 word \<Rightarrow> 'w word option" where
  "fall_through [] c = None"
| "fall_through ((label, test, value) # rungs) c =
     (if test c then Some (value c) else fall_through rungs c)"

definition c_switch :: "'w::len rung list \<Rightarrow> ten_type \<Rightarrow> 64 word \<Rightarrow> 'w word option" where
  "c_switch rungs ty c = fall_through (dropWhile (\<lambda>rung. fst rung \<noteq> ty) rungs) c"

text \<open>A case without a test returns at once.\<close>

abbreviation always :: "64 word \<Rightarrow> bool" where "always \<equiv> (\<lambda>_. True)"

definition invalid_value_type :: ten_error where
  "invalid_value_type = generic_error ''Invalid value type.''"

definition unfit :: "ten_value \<Rightarrow> ten_error" where
  "unfit v =
     generic_error (''The conversion from '' @ ten_type_to_string (ten_value_get_type v) @
       '' to uint32 is unfit.'')"

definition get_by :: "'w::len rung list \<Rightarrow> ten_value \<Rightarrow> ten_error + 'w word" where
  "get_by rungs v =
     (if \<not> ten_value_is_valid v then Inl invalid_value_type
      else case c_switch rungs (ten_value_get_type v) (ten_value_content v) of
             Some w \<Rightarrow> Inr w
           | None \<Rightarrow> Inl (unfit v))"

section \<open>The integer getters\<close>

definition ten_value_get_int8 :: "ten_value \<Rightarrow> ten_error + 8 word" where
  "ten_value_get_int8 = get_by
     [(TEN_TYPE_INT8, always, \<lambda>c. as8 c),
      (TEN_TYPE_INT16, \<lambda>c. - INT8_MAX \<le> sint (as16 c) \<and> sint (as16 c) \<le> INT8_MAX,
       \<lambda>c. scast (as16 c)),
      (TEN_TYPE_INT32, \<lambda>c. - INT8_MAX \<le> sint (as32 c) \<and> sint (as32 c) \<le> INT8_MAX,
       \<lambda>c. scast (as32 c)),
      (TEN_TYPE_INT64, \<lambda>c. - INT8_MAX \<le> sint c \<and> sint c \<le> INT8_MAX,
       \<lambda>c. scast c),
      (TEN_TYPE_UINT8, \<lambda>c. uint (as8 c) \<le> INT8_MAX,
       \<lambda>c. as8 c),
      (TEN_TYPE_UINT16, \<lambda>c. uint (as16 c) \<le> INT8_MAX,
       \<lambda>c. ucast (as16 c)),
      (TEN_TYPE_UINT32, \<lambda>c. uint (as32 c) \<le> INT8_MAX,
       \<lambda>c. ucast (as32 c)),
      (TEN_TYPE_UINT64, \<lambda>c. uint c \<le> INT8_MAX,
       \<lambda>c. ucast c)]"

definition ten_value_get_int16 :: "ten_value \<Rightarrow> ten_error + 16 word" where
  "ten_value_get_int16 = get_by
     [(TEN_TYPE_INT8, always, \<lambda>c. scast (as8 c)),
      (TEN_TYPE_INT16, always, \<lambda>c. as16 c),
      (TEN_TYPE_INT32, \<lambda>c. - INT16_MAX \<le> sint (as32 c) \<and> sint (as32 c) \<le> INT16_MAX,
       \<lambda>c. scast (as32 c)),
      (TEN_TYPE_INT64, \<lambda>c. - INT16_MAX \<le> sint c \<and> sint c \<le> INT16_MAX,
       \<lambda>c. scast c),
      (TEN_TYPE_UINT8, always, \<lambda>c. ucast (as8 c)),
      (TEN_TYPE_UINT16, \<lambda>c. uint (as16 c) \<le> INT16_MAX,
       \<lambda>c. as16 c),
      (TEN_TYPE_UINT32, \<lambda>c. uint (as32 c) \<le> INT16_MAX,
       \<lambda>c. ucast (as32 c)),
      (TEN_TYPE_UINT64, \<lambda>c. uint c \<le> INT16_MAX,
       \<lambda>c. ucast c)]"

definition ten_value_get_int32 :: "ten_value \<Rightarrow> ten_error + 32 word" where
  "ten_value_get_int32 = get_by
     [(TEN_TYPE_INT8, always, \<lambda>c. scast (as8 c)),
      (TEN_TYPE_INT16, always, \<lambda>c. scast (as16 c)),
      (TEN_TYPE_INT32, always, \<lambda>c. as32 c),
      (TEN_TYPE_INT64, \<lambda>c. - INT32_MAX \<le> sint c \<and> sint c \<le> INT32_MAX,
       \<lambda>c. scast c),
      (TEN_TYPE_UINT8, always, \<lambda>c. ucast (as8 c)),
      (TEN_TYPE_UINT16, always, \<lambda>c. ucast (as16 c)),
      (TEN_TYPE_UINT32, \<lambda>c. uint (as32 c) \<le> INT32_MAX,
       \<lambda>c. as32 c),
      (TEN_TYPE_UINT64, \<lambda>c. uint c \<le> INT32_MAX,
       \<lambda>c. ucast c)]"

definition ten_value_get_int64 :: "ten_value \<Rightarrow> ten_error + 64 word" where
  "ten_value_get_int64 = get_by
     [(TEN_TYPE_INT8, always, \<lambda>c. scast (as8 c)),
      (TEN_TYPE_INT16, always, \<lambda>c. scast (as16 c)),
      (TEN_TYPE_INT32, always, \<lambda>c. scast (as32 c)),
      (TEN_TYPE_INT64, always, \<lambda>c. c),
      (TEN_TYPE_UINT8, always, \<lambda>c. ucast (as8 c)),
      (TEN_TYPE_UINT16, always, \<lambda>c. ucast (as16 c)),
      (TEN_TYPE_UINT32, always, \<lambda>c. ucast (as32 c)),
      (TEN_TYPE_UINT64, \<lambda>c. uint c \<le> INT64_MAX,
       \<lambda>c. c)]"

definition ten_value_get_uint8 :: "ten_value \<Rightarrow> ten_error + 8 word" where
  "ten_value_get_uint8 = get_by
     [(TEN_TYPE_UINT8, always, \<lambda>c. as8 c),
      (TEN_TYPE_UINT16, \<lambda>c. uint c \<le> UINT8_MAX,
       \<lambda>c. ucast (as16 c)),
      (TEN_TYPE_UINT32, \<lambda>c. uint c \<le> UINT8_MAX,
       \<lambda>c. ucast (as32 c)),
      (TEN_TYPE_UINT64, \<lambda>c. uint c \<le> UINT8_MAX,
       \<lambda>c. ucast c),
      (TEN_TYPE_INT8, \<lambda>c. 0 \<le> sint (as8 c),
       \<lambda>c. as8 c),
      (TEN_TYPE_INT16, \<lambda>c. 0 \<le> sint (as16 c) \<and> sint (as16 c) \<le> UINT8_MAX,
       \<lambda>c. scast (as16 c)),
      (TEN_TYPE_INT32, \<lambda>c. 0 \<le> sint (as32 c) \<and> sint (as32 c) \<le> UINT8_MAX,
       \<lambda>c. scast (as32 c)),
      (TEN_TYPE_INT64, \<lambda>c. 0 \<le> sint c \<and> sint c \<le> UINT8_MAX,
       \<lambda>c. scast c)]"

definition ten_value_get_uint16 :: "ten_value \<Rightarrow> ten_error + 16 word" where
  "ten_value_get_uint16 = get_by
     [(TEN_TYPE_UINT8, always, \<lambda>c. ucast (as8 c)),
      (TEN_TYPE_UINT16, always, \<lambda>c. as16 c),
      (TEN_TYPE_UINT32, \<lambda>c. uint c \<le> UINT16_MAX,
       \<lambda>c. ucast (as32 c)),
      (TEN_TYPE_UINT64, \<lambda>c. uint c \<le> UINT16_MAX,
       \<lambda>c. ucast c),
      (TEN_TYPE_INT8, \<lambda>c. 0 \<le> sint (as8 c),
       \<lambda>c. scast (as8 c)),
      (TEN_TYPE_INT16, \<lambda>c. 0 \<le> sint (as16 c),
       \<lambda>c. as16 c),
      (TEN_TYPE_INT32, \<lambda>c. 0 \<le> sint (as32 c) \<and> sint c \<le> UINT16_MAX,
       \<lambda>c. scast (as32 c)),
      (TEN_TYPE_INT64, \<lambda>c. 0 \<le> sint c \<and> sint c \<le> UINT16_MAX,
       \<lambda>c. scast c)]"

definition ten_value_get_uint32 :: "ten_value \<Rightarrow> ten_error + 32 word" where
  "ten_value_get_uint32 = get_by
     [(TEN_TYPE_UINT8, always, \<lambda>c. ucast (as8 c)),
      (TEN_TYPE_UINT16, always, \<lambda>c. ucast (as16 c)),
      (TEN_TYPE_UINT32, always, \<lambda>c. as32 c),
      (TEN_TYPE_UINT64, \<lambda>c. uint c \<le> UINT32_MAX,
       \<lambda>c. ucast c),
      (TEN_TYPE_INT8, \<lambda>c. 0 \<le> sint (as8 c),
       \<lambda>c. scast (as8 c)),
      (TEN_TYPE_INT16, \<lambda>c. 0 \<le> sint (as16 c),
       \<lambda>c. scast (as16 c)),
      (TEN_TYPE_INT32, \<lambda>c. 0 \<le> sint (as32 c),
       \<lambda>c. as32 c),
      (TEN_TYPE_INT64, \<lambda>c. 0 \<le> sint c \<and> sint c \<le> UINT32_MAX,
       \<lambda>c. scast c)]"

definition ten_value_get_uint64 :: "ten_value \<Rightarrow> ten_error + 64 word" where
  "ten_value_get_uint64 = get_by
     [(TEN_TYPE_UINT8, always, \<lambda>c. ucast (as8 c)),
      (TEN_TYPE_UINT16, always, \<lambda>c. ucast (as16 c)),
      (TEN_TYPE_UINT32, always, \<lambda>c. ucast (as32 c)),
      (TEN_TYPE_UINT64, always, \<lambda>c. c),
      (TEN_TYPE_INT8, \<lambda>c. 0 \<le> sint (as8 c),
       \<lambda>c. scast (as8 c)),
      (TEN_TYPE_INT16, \<lambda>c. 0 \<le> sint (as16 c),
       \<lambda>c. scast (as16 c)),
      (TEN_TYPE_INT32, \<lambda>c. 0 \<le> sint (as32 c),
       \<lambda>c. scast (as32 c)),
      (TEN_TYPE_INT64, \<lambda>c. 0 \<le> sint c,
       \<lambda>c. c)]"

section \<open>The other getters\<close>

text \<open>
  The default branch of the \<open>float32\<close> getter returns zero without setting the error;
  a \<open>float64\<close> out of range falls into it.
\<close>

definition ten_value_get_float32 :: "ten_value \<Rightarrow> ten_error + fp" where
  "ten_value_get_float32 v =
     (if \<not> ten_value_is_valid v then Inl invalid_value_type
      else case v of
             VFloat32 x \<Rightarrow> Inr x
           | VFloat64 x \<Rightarrow>
               (if in_float_range x then Inr (fp_convert float32_fmt x) else Inr (Fp_zero False))
           | _ \<Rightarrow> Inr (Fp_zero False))"

definition ten_value_get_float64 :: "ten_value \<Rightarrow> ten_error + fp" where
  "ten_value_get_float64 v =
     (if \<not> ten_value_is_valid v then Inl invalid_value_type
      else case v of
             VFloat32 x \<Rightarrow> Inr (float_to_double x)
           | VFloat64 x \<Rightarrow> Inr x
           | _ \<Rightarrow> Inl (generic_error (''The conversion from '' @
                    ten_type_to_string (ten_value_get_type v) @ '' to float32 is unfit.'')))"

definition ten_value_get_bool :: "ten_value \<Rightarrow> ten_error + bool" where
  "ten_value_get_bool v =
     (if \<not> ten_value_is_valid v then Inl invalid_value_type
      else case v of VBool b \<Rightarrow> Inr b | _ \<Rightarrow> Inl (unfit v))"

definition ten_value_get_ptr :: "ten_value \<Rightarrow> ten_error + 64 word" where
  "ten_value_get_ptr v =
     (case v of
        VPtr p \<Rightarrow> Inr p
      | _ \<Rightarrow> Inl (generic_error (''Not pointer value, actual type: '' @
                ten_type_to_string (ten_value_get_type v))))"

definition ten_value_peek_buf :: "ten_value option \<Rightarrow> ten_buf option" where
  "ten_value_peek_buf v = (case v of Some (VBuf b) \<Rightarrow> Some b | _ \<Rightarrow> None)"

definition ten_value_peek_array :: "ten_value option \<Rightarrow> ten_value list option" where
  "ten_value_peek_array v = (case v of Some (VArray vs) \<Rightarrow> Some vs | _ \<Rightarrow> None)"

definition ten_value_peek_string :: "ten_value option \<Rightarrow> string option" where
  "ten_value_peek_string v = (case v of Some (VString s) \<Rightarrow> Some s | _ \<Rightarrow> None)"

definition ten_value_peek_raw_str :: "ten_value option \<Rightarrow> string option" where
  "ten_value_peek_raw_str v = (case v of Some (VString s) \<Rightarrow> Some s | _ \<Rightarrow> None)"

text \<open>
  The loop over the items up to the index. The function does not check the tag; the outer
  \<open>None\<close> is a use on a value that is no array.
\<close>

definition ten_value_array_peek :: "ten_value option \<Rightarrow> nat \<Rightarrow> ten_value option option" where
  "ten_value_array_peek v index =
     (case v of
        None \<Rightarrow> Some None
      | Some (VArray vs) \<Rightarrow> Some (if length vs \<le> index then None else Some (vs ! index))
      | Some _ \<Rightarrow> None)"

section \<open>The contract of an integer getter\<close>

lemma narrow8 [simp]: "as8 (ucast w) = w" for w :: "8 word"
  by (rule ucast_widen_narrow) simp

lemma narrow16 [simp]: "as16 (ucast w) = w" for w :: "16 word"
  by (rule ucast_widen_narrow) simp

lemma narrow32 [simp]: "as32 (ucast w) = w" for w :: "32 word"
  by (rule ucast_widen_narrow) simp

lemma c_switch_simps [simp]:
  "c_switch [] ty c = None"
  "c_switch ((label, test, value) # rungs) ty c =
     (if label = ty then fall_through ((label, test, value) # rungs) c
      else c_switch rungs ty c)"
  by (simp_all add: c_switch_def)

lemmas getter_defs =
  ten_value_get_int8_def ten_value_get_int16_def ten_value_get_int32_def ten_value_get_int64_def
  ten_value_get_uint8_def ten_value_get_uint16_def ten_value_get_uint32_def
  ten_value_get_uint64_def get_by_def

lemmas fits = c_casts uint_widen

text \<open>
  What a caller of a getter relies on, next to the conversion to the same type. The lower
  bound \<open>glo\<close> of the getter may lie above the smallest value of the type: the signed
  getters compare with the negated maximum.
\<close>

locale int_getter = int_conversion conv ty lo hi for conv ty lo hi +
  fixes get :: "ten_value \<Rightarrow> ten_error + 'w::len word"
    and val :: "'w word \<Rightarrow> int"
    and glo :: int
  assumes get_in_range:
      "int_content v = Some i \<Longrightarrow> glo \<le> i \<Longrightarrow> i \<le> hi \<Longrightarrow> \<exists>w. get v = Inr w \<and> val w = i"
    and get_other:
      "int_content v = None \<Longrightarrow>
       get v = Inl (if ten_value_is_valid v then unfit v else invalid_value_type)"
    and lower_bound: "lo \<le> glo"
begin

text \<open>Above its lower bound a getter returns what the conversion stores.\<close>

lemma agrees_with_conversion:
  assumes "conv v = Inr u" and "int_content v = Some i" and "glo \<le> i"
  shows "\<exists>w. get v = Inr w \<and> int_content u = Some (val w)"
proof -
  from assms succeeds_iff [of v] have "i \<le> hi" by auto
  with get_in_range [OF assms(2,3)] obtain w where "get v = Inr w" "val w = i" by blast
  with result(2) [OF assms(1)] assms(2) show ?thesis by simp
qed

lemma reads_back:
  assumes "conv v = Inr u" and "int_content v = Some i" and "glo \<le> i"
  shows "\<exists>w. get u = Inr w \<and> val w = i"
proof -
  have "conv u = Inr u" by (rule idempotent [OF assms(1)])
  moreover have u: "int_content u = Some i" using result(2) [OF assms(1)] assms(2) by simp
  ultimately show ?thesis using agrees_with_conversion [of u u i] assms(3) by auto
qed

end

interpretation get_int8: int_getter ten_value_convert_to_int8 TEN_TYPE_INT8 "INT8_MIN" INT8_MAX
  ten_value_get_int8 sint "- INT8_MAX"
proof unfold_locales
  fix v i
  assume c: "int_content v = Some i" and r: "- INT8_MAX \<le> i" "i \<le> INT8_MAX"
  show "\<exists>w. ten_value_get_int8 v = Inr w \<and> sint w = i"
    using c r int_content_bounds [OF c]
    by (cases v) (simp_all add: getter_defs fits sint_eq_uint_fits)
next
  fix v
  assume "int_content v = None"
  then show "ten_value_get_int8 v =
      Inl (if ten_value_is_valid v then unfit v else invalid_value_type)"
    by (cases v) (simp_all add: getter_defs)
qed simp

interpretation get_int16: int_getter ten_value_convert_to_int16 TEN_TYPE_INT16 "INT16_MIN" INT16_MAX
  ten_value_get_int16 sint "- INT16_MAX"
proof unfold_locales
  fix v i
  assume c: "int_content v = Some i" and r: "- INT16_MAX \<le> i" "i \<le> INT16_MAX"
  show "\<exists>w. ten_value_get_int16 v = Inr w \<and> sint w = i"
    using c r int_content_bounds [OF c]
    by (cases v) (simp_all add: getter_defs fits sint_eq_uint_fits)
next
  fix v
  assume "int_content v = None"
  then show "ten_value_get_int16 v =
      Inl (if ten_value_is_valid v then unfit v else invalid_value_type)"
    by (cases v) (simp_all add: getter_defs)
qed simp

interpretation get_int32: int_getter ten_value_convert_to_int32 TEN_TYPE_INT32 "INT32_MIN" INT32_MAX
  ten_value_get_int32 sint "- INT32_MAX"
proof unfold_locales
  fix v i
  assume c: "int_content v = Some i" and r: "- INT32_MAX \<le> i" "i \<le> INT32_MAX"
  show "\<exists>w. ten_value_get_int32 v = Inr w \<and> sint w = i"
    using c r int_content_bounds [OF c]
    by (cases v) (simp_all add: getter_defs fits sint_eq_uint_fits)
next
  fix v
  assume "int_content v = None"
  then show "ten_value_get_int32 v =
      Inl (if ten_value_is_valid v then unfit v else invalid_value_type)"
    by (cases v) (simp_all add: getter_defs)
qed simp

interpretation get_int64: int_getter ten_value_convert_to_int64 TEN_TYPE_INT64 "INT64_MIN" INT64_MAX
  ten_value_get_int64 sint "INT64_MIN"
proof unfold_locales
  fix v i
  assume c: "int_content v = Some i" and r: "INT64_MIN \<le> i" "i \<le> INT64_MAX"
  show "\<exists>w. ten_value_get_int64 v = Inr w \<and> sint w = i"
    using c r int_content_bounds [OF c]
    by (cases v) (simp_all add: getter_defs fits sint_eq_uint_fits)
next
  fix v
  assume "int_content v = None"
  then show "ten_value_get_int64 v =
      Inl (if ten_value_is_valid v then unfit v else invalid_value_type)"
    by (cases v) (simp_all add: getter_defs)
qed simp

interpretation get_uint8: int_getter ten_value_convert_to_uint8 TEN_TYPE_UINT8 "0" UINT8_MAX
  ten_value_get_uint8 uint "0"
proof unfold_locales
  fix v i
  assume c: "int_content v = Some i" and r: "0 \<le> i" "i \<le> UINT8_MAX"
  show "\<exists>w. ten_value_get_uint8 v = Inr w \<and> uint w = i"
    using c r int_content_bounds [OF c]
    by (cases v) (simp_all add: getter_defs fits uint_eq_sint_fits)
next
  fix v
  assume "int_content v = None"
  then show "ten_value_get_uint8 v =
      Inl (if ten_value_is_valid v then unfit v else invalid_value_type)"
    by (cases v) (simp_all add: getter_defs)
qed simp

interpretation get_uint16: int_getter ten_value_convert_to_uint16 TEN_TYPE_UINT16 "0" UINT16_MAX
  ten_value_get_uint16 uint "0"
proof unfold_locales
  fix v i
  assume c: "int_content v = Some i" and r: "0 \<le> i" "i \<le> UINT16_MAX"
  show "\<exists>w. ten_value_get_uint16 v = Inr w \<and> uint w = i"
    using c r int_content_bounds [OF c]
    by (cases v) (simp_all add: getter_defs fits uint_eq_sint_fits)
next
  fix v
  assume "int_content v = None"
  then show "ten_value_get_uint16 v =
      Inl (if ten_value_is_valid v then unfit v else invalid_value_type)"
    by (cases v) (simp_all add: getter_defs)
qed simp

interpretation get_uint32: int_getter ten_value_convert_to_uint32 TEN_TYPE_UINT32 "0" UINT32_MAX
  ten_value_get_uint32 uint "0"
proof unfold_locales
  fix v i
  assume c: "int_content v = Some i" and r: "0 \<le> i" "i \<le> UINT32_MAX"
  show "\<exists>w. ten_value_get_uint32 v = Inr w \<and> uint w = i"
    using c r int_content_bounds [OF c]
    by (cases v) (simp_all add: getter_defs fits uint_eq_sint_fits)
next
  fix v
  assume "int_content v = None"
  then show "ten_value_get_uint32 v =
      Inl (if ten_value_is_valid v then unfit v else invalid_value_type)"
    by (cases v) (simp_all add: getter_defs)
qed simp

interpretation get_uint64: int_getter ten_value_convert_to_uint64 TEN_TYPE_UINT64 "0" UINT64_MAX
  ten_value_get_uint64 uint "0"
proof unfold_locales
  fix v i
  assume c: "int_content v = Some i" and r: "0 \<le> i" "i \<le> UINT64_MAX"
  show "\<exists>w. ten_value_get_uint64 v = Inr w \<and> uint w = i"
    using c r int_content_bounds [OF c]
    by (cases v) (simp_all add: getter_defs fits uint_eq_sint_fits)
next
  fix v
  assume "int_content v = None"
  then show "ten_value_get_uint64 v =
      Inl (if ten_value_is_valid v then unfit v else invalid_value_type)"
    by (cases v) (simp_all add: getter_defs)
qed simp

section \<open>Properties\<close>

lemma int_content_range: "int_content v = Some i \<Longrightarrow> INT64_MIN \<le> i \<and> i \<le> UINT64_MAX"
  using int_content_bounds [of v i] by (cases v) auto

text \<open>
  C36: Every integer getter returns the exact content of an integer value of any type, as
  long as it lies between the getter's lower bound (the negated maximum for the signed
  getters of at most 32 bits) and the maximum of its type.
\<close>

theorem getters_exact:
  assumes "int_content v = Some i"
  shows "(\<bar>i\<bar> \<le> INT8_MAX \<longrightarrow> (\<exists>w. ten_value_get_int8 v = Inr w \<and> sint w = i)) \<and>
         (\<bar>i\<bar> \<le> INT16_MAX \<longrightarrow> (\<exists>w. ten_value_get_int16 v = Inr w \<and> sint w = i)) \<and>
         (\<bar>i\<bar> \<le> INT32_MAX \<longrightarrow> (\<exists>w. ten_value_get_int32 v = Inr w \<and> sint w = i)) \<and>
         (i \<le> INT64_MAX \<longrightarrow> (\<exists>w. ten_value_get_int64 v = Inr w \<and> sint w = i)) \<and>
         (0 \<le> i \<and> i \<le> UINT8_MAX \<longrightarrow> (\<exists>w. ten_value_get_uint8 v = Inr w \<and> uint w = i)) \<and>
         (0 \<le> i \<and> i \<le> UINT16_MAX \<longrightarrow> (\<exists>w. ten_value_get_uint16 v = Inr w \<and> uint w = i)) \<and>
         (0 \<le> i \<and> i \<le> UINT32_MAX \<longrightarrow> (\<exists>w. ten_value_get_uint32 v = Inr w \<and> uint w = i)) \<and>
         (0 \<le> i \<longrightarrow> (\<exists>w. ten_value_get_uint64 v = Inr w \<and> uint w = i))"
  using get_int8.get_in_range [OF assms] get_int16.get_in_range [OF assms]
    get_int32.get_in_range [OF assms] get_int64.get_in_range [OF assms]
    get_uint8.get_in_range [OF assms] get_uint16.get_in_range [OF assms]
    get_uint32.get_in_range [OF assms] get_uint64.get_in_range [OF assms]
    int_content_range [OF assms]
  by auto

theorem getters_exact_witness:
  "\<exists>w. ten_value_get_int8 (VUint64 100) = Inr w \<and> sint w = 100"
  using getters_exact [of "VUint64 100" 100] by simp

section \<open>Reads out of range\<close>

lemma nonneg_iff_uint: "0 \<le> sint w \<longleftrightarrow> uint w < 2 ^ (LENGTH('a) - 1)" for w :: "'a::len word"
proof
  assume "0 \<le> sint w"
  with sint_lt [of w] uint_eq_sint_fits [of w] show "uint w < 2 ^ (LENGTH('a) - 1)" by simp
next
  assume "uint w < 2 ^ (LENGTH('a) - 1)"
  from sint_eq_uint_fits [OF this] show "0 \<le> sint w" by simp
qed

lemma scast_nonneg:
  fixes w :: "'a::len word"
  assumes "0 \<le> sint w"
  shows "scast w = (word_of_int (uint w) :: 'b::len word)"
  unfolding scast_eq uint_eq_sint_fits [OF assms] by (rule refl)

lemma low_bytes:
  fixes c :: "64 word"
  shows "uint (as8 c) = uint c mod 256" "uint (as16 c) = uint c mod 65536" "uint (as32 c) = uint c mod 4294967296"
  by (simp_all add: unsigned_ucast_eq take_bit_eq_mod)

lemma nonneg_low:
  fixes c :: "64 word"
  shows "0 \<le> sint (as8 c) \<longleftrightarrow> uint c mod 256 < 128" "0 \<le> sint (as16 c) \<longleftrightarrow> uint c mod 65536 < 32768"
    "0 \<le> sint (as32 c) \<longleftrightarrow> uint c mod 4294967296 < 2147483648"
  unfolding nonneg_iff_uint low_bytes by simp_all

lemma sint_mod_256: "sint x mod 256 = uint x mod 256" for x :: "64 word"
proof (cases "sint x < 0")
  case True
  then have "uint x = sint x + 256 * 72057594037927936" using uint_negative [of x] by simp
  then show ?thesis by (simp only: mod_mult_self2)
qed (use uint_eq_sint_fits [of x] in simp)

lemma ucast_low: "(ucast (as8 c) :: 32 word) = word_of_int (uint c mod 256)" for c :: "64 word"
  unfolding low_bytes(1) [symmetric] ucast_eq by (rule refl)

lemma get_int32_beyond:
  assumes "int_content v = Some i" and "INT32_MAX < \<bar>i\<bar>"
  shows "ten_value_get_int32 v =
    (case ten_value_get_type v of
       TEN_TYPE_INT32 \<Rightarrow> Inr (word_of_int i)
     | TEN_TYPE_INT64 \<Rightarrow> Inr (word_of_int (i mod 256))
     | _ \<Rightarrow> Inl (unfit v))"
proof (cases v)
  case (VInt64 x)
  with assms have "\<not> (- INT32_MAX \<le> sint x \<and> sint x \<le> INT32_MAX)" by (auto simp: abs_if split: if_splits)
  then have "ten_value_get_int32 v = Inr (ucast (as8 x))" using VInt64 by (auto simp: getter_defs)
  with VInt64 assms(1) show ?thesis unfolding ucast_low sint_mod_256 [symmetric] by simp
next
  case (VInt8 x)
  with assms sint_bounds8 [of x] show ?thesis by (simp add: abs_if split: if_splits)
next
  case (VInt16 x)
  with assms sint_bounds16 [of x] show ?thesis by (simp add: abs_if split: if_splits)
next
  case (VUint8 x)
  with assms uint_bounds8 [of x] show ?thesis by (simp add: abs_if split: if_splits)
next
  case (VUint16 x)
  with assms uint_bounds16 [of x] show ?thesis by (simp add: abs_if split: if_splits)
next
  case (VInt32 x)
  with assms have "x = word_of_int i" by auto
  with VInt32 show ?thesis by (simp add: getter_defs)
next
  case (VUint32 x)
  then have "\<not> i \<le> INT32_MAX" using assms uint_bounds32 [of x] by auto
  with VUint32 assms(1) show ?thesis by (simp add: getter_defs fits)
next
  case (VUint64 x)
  then have "\<not> i \<le> INT32_MAX" using assms uint_bounds64 [of x] by auto
  with VUint64 assms(1) show ?thesis by (simp add: getter_defs)
qed (use assms in simp_all)

lemma scast_low:
  fixes c :: "64 word"
  shows "uint c mod 256 < 128 \<Longrightarrow> (scast (as8 c) :: 32 word) = word_of_int (uint c mod 256)"
    and "uint c mod 65536 < 32768 \<Longrightarrow> (scast (as16 c) :: 32 word) = word_of_int (uint c mod 65536)"
    and "(as32 c) = word_of_int (uint c mod 4294967296)"
proof -
  show "(scast (as8 c) :: 32 word) = word_of_int (uint c mod 256)" if "uint c mod 256 < 128"
    using scast_nonneg [of "as8 c", unfolded low_bytes nonneg_low] that by blast
  show "(scast (as16 c) :: 32 word) = word_of_int (uint c mod 65536)" if "uint c mod 65536 < 32768"
    using scast_nonneg [of "as16 c", unfolded low_bytes nonneg_low] that by blast
  show "(as32 c) = word_of_int (uint c mod 4294967296)"
    unfolding low_bytes(3) [symmetric] by simp
qed

lemma get_uint32_beyond:
  assumes "int_content v = Some i" and "i < 0 \<or> UINT32_MAX < i"
  shows "ten_value_get_uint32 v =
        (case ten_value_get_type v of
           TEN_TYPE_INT8 \<Rightarrow> Inr (word_of_int (i + 256))
         | TEN_TYPE_INT16 \<Rightarrow> Inr (word_of_int (i + 65536))
         | TEN_TYPE_INT32 \<Rightarrow> Inr (word_of_int (i + 4294967296))
         | TEN_TYPE_UINT64 \<Rightarrow>
             if i mod 256 < 128 then Inr (word_of_int (i mod 256))
             else if i mod 65536 < 32768 then Inr (word_of_int (i mod 65536))
             else if i mod 4294967296 < 2147483648 then Inr (word_of_int (i mod 4294967296))
             else Inl (unfit v)
         | _ \<Rightarrow> Inl (unfit v))"
proof (cases v)
  case (VInt8 x)
  let ?c = "ucast x :: 64 word"
  from VInt8 assms sint_bounds8 [of x] have neg: "sint x < 0" "sint x = i" by auto
  then have u: "uint ?c = i + 256" using uint_negative [of x] by (simp add: uint_widen)
  have "i + 256 = uint ?c mod 65536" "\<not> uint ?c mod 256 < 128" "uint ?c mod 65536 < 32768"
    unfolding u using neg sint_bounds8 [of x] mod_pos_pos_trivial [of "i + 256" 256]
    by (simp_all add: mod_pos_pos_trivial del: mod_add_self2)
  with VInt8 scast_low(2) [of ?c] show ?thesis by (simp add: getter_defs nonneg_low)
next
  case (VInt16 x)
  let ?c = "ucast x :: 64 word"
  from VInt16 assms sint_bounds16 [of x] have neg: "sint x < 0" "sint x = i" by auto
  then have u: "uint ?c = i + 65536" using uint_negative [of x] by (simp add: uint_widen)
  have "i + 65536 = uint ?c mod 4294967296" "\<not> uint ?c mod 65536 < 32768" "uint ?c mod 4294967296 < 2147483648"
    unfolding u using neg sint_bounds16 [of x] mod_pos_pos_trivial [of "i + 65536" 65536]
    by (simp_all add: mod_pos_pos_trivial del: mod_add_self2)
  with VInt16 scast_low(3) [of ?c] show ?thesis by (simp add: getter_defs nonneg_low)
next
  case (VInt32 x)
  let ?c = "ucast x :: 64 word"
  from VInt32 assms sint_bounds32 [of x] have neg: "sint x < 0" "sint x = i" by auto
  then have u: "uint ?c = i + 4294967296" using uint_negative [of x] by (simp add: uint_widen)
  have s: "sint ?c = i + 4294967296"
    using u neg sint_bounds32 [of x] sint_eq_uint_fits [of ?c] by simp
  have "(scast ?c :: 32 word) = word_of_int (i + 4294967296)" unfolding scast_eq s by (rule refl)
  with VInt32 s neg sint_bounds32 [of x] show ?thesis by (simp add: getter_defs)
next
  case (VUint64 x)
  have "\<not> (0 \<le> sint x \<and> sint x \<le> UINT32_MAX)"
    using VUint64 assms uint_eq_sint_fits [of x] by auto
  then have "ten_value_get_uint32 v =
      (if uint x mod 256 < 128 then Inr (scast (as8 x))
       else if uint x mod 65536 < 32768 then Inr (scast (as16 x))
       else if uint x mod 4294967296 < 2147483648 then Inr (as32 x) else Inl (unfit v))"
    using VUint64 assms by (auto simp: getter_defs nonneg_low)
  moreover have "uint x = i" "ten_value_get_type v = TEN_TYPE_UINT64" using VUint64 assms(1) by simp_all
  ultimately show ?thesis by (simp only: scast_low ten_type.case cong: if_cong)
next
  case (VUint8 x)
  with assms uint_bounds8 [of x] show ?thesis by simp
next
  case (VUint16 x)
  with assms uint_bounds16 [of x] show ?thesis by simp
next
  case (VUint32 x)
  with assms uint_bounds32 [of x] show ?thesis by simp
qed (use assms in \<open>auto simp: getter_defs\<close>)

text \<open>
  C37: What the getters of 32 bits give for every integer out of their range.
  \<open>ten_value_get_int32\<close> returns, without an error, the lowest byte of an \<open>int64\<close> that
  does not fit, because the failed test falls through to the case of \<open>uint8\<close>, which has
  none; it returns the least \<open>int32\<close> as it is, and an error for a \<open>uint32\<close> or
  \<open>uint64\<close> that does not fit. \<open>ten_value_get_uint32\<close> returns a negative number of at most
  32 bits, without an error, with 2 to the power of its width added, because the next wider
  signed case sees it without its sign; it returns the lowest one, two or four bytes of a
  \<open>uint64\<close> that does not fit, without an error, if one of these is not negative as a signed
  number, and an error otherwise; and an error for an \<open>int64\<close> that does not fit.
\<close>

theorem getters_fall_through:
  assumes "int_content v = Some i"
  shows "(INT32_MAX < \<bar>i\<bar> \<longrightarrow>
      ten_value_get_int32 v =
        (case ten_value_get_type v of
           TEN_TYPE_INT32 \<Rightarrow> Inr (word_of_int i)
         | TEN_TYPE_INT64 \<Rightarrow> Inr (word_of_int (i mod 256))
         | _ \<Rightarrow> Inl (unfit v))) \<and>
    (i < 0 \<or> UINT32_MAX < i \<longrightarrow>
      ten_value_get_uint32 v =
        (case ten_value_get_type v of
           TEN_TYPE_INT8 \<Rightarrow> Inr (word_of_int (i + 256))
         | TEN_TYPE_INT16 \<Rightarrow> Inr (word_of_int (i + 65536))
         | TEN_TYPE_INT32 \<Rightarrow> Inr (word_of_int (i + 4294967296))
         | TEN_TYPE_UINT64 \<Rightarrow>
             if i mod 256 < 128 then Inr (word_of_int (i mod 256))
             else if i mod 65536 < 32768 then Inr (word_of_int (i mod 65536))
             else if i mod 4294967296 < 2147483648 then Inr (word_of_int (i mod 4294967296))
             else Inl (unfit v)
         | _ \<Rightarrow> Inl (unfit v)))"
  using get_int32_beyond [OF assms] get_uint32_beyond [OF assms] by blast

theorem getters_fall_through_witness:
  "ten_value_get_int32 (VInt64 4294967338) = Inr 42 \<and>
   ten_value_get_uint32 (VInt8 (- 1)) = Inr 255 \<and>
   ten_value_get_uint32 (VUint64 1099511627781) = Inr 5"
  using getters_fall_through [of "VInt64 4294967338" 4294967338]
    getters_fall_through [of "VInt8 (- 1)" "- 1"]
    getters_fall_through [of "VUint64 1099511627781" 1099511627781]
  by simp

end
