(* ===== verification/Value_Json.thy ===== *)
theory Value_Json
  imports Value_Get
begin

text \<open>
  Values and JSON: core/src/ten_utils/value/value_json.c over the JSON interface of
  core/src/ten_utils/lib/sys/general/json.c, and what these use of the jansson library in
  third_party/jansson/src (value.c and utf.c): creation, ordered objects, UTF-8 checks.

  A JSON object is the list of its pairs in insertion order, which is the order of
  iteration. A JSON string holds no NUL byte. Memory is never exhausted; the branches for a
  failed allocation are left out.
\<close>

section \<open>JSON\<close>

datatype json =
    JSON_NULL
  | JSON_TRUE
  | JSON_FALSE
  | JSON_INTEGER "64 word"
  | JSON_REAL fp
  | JSON_STRING string
  | JSON_ARRAY "json list"
  | JSON_OBJECT "(string \<times> json) list"

text \<open>A nonnegative integer is reported as unsigned.\<close>

definition ten_json_get_type :: "json \<Rightarrow> ten_type" where
  "ten_json_get_type j =
     (case j of
        JSON_OBJECT kvs \<Rightarrow> TEN_TYPE_OBJECT
      | JSON_ARRAY js \<Rightarrow> TEN_TYPE_ARRAY
      | JSON_STRING s \<Rightarrow> TEN_TYPE_STRING
      | JSON_INTEGER n \<Rightarrow> (if 0 \<le> sint n then TEN_TYPE_UINT64 else TEN_TYPE_INT64)
      | JSON_REAL x \<Rightarrow> TEN_TYPE_FLOAT64
      | JSON_TRUE \<Rightarrow> TEN_TYPE_BOOL
      | JSON_FALSE \<Rightarrow> TEN_TYPE_BOOL
      | JSON_NULL \<Rightarrow> TEN_TYPE_NULL)"

definition ten_json_is_object :: "json \<Rightarrow> bool" where
  "ten_json_is_object j = (case j of JSON_OBJECT _ \<Rightarrow> True | _ \<Rightarrow> False)"

section \<open>UTF-8\<close>

abbreviation byte :: "char \<Rightarrow> int" where "byte c \<equiv> of_char c"

definition utf8_check_first :: "char \<Rightarrow> nat" where
  "utf8_check_first c =
     (let u = byte c in
      if u < 0x80 then 1
      else if 0x80 \<le> u \<and> u \<le> 0xBF then 0
      else if u = 0xC0 \<or> u = 0xC1 then 0
      else if 0xC2 \<le> u \<and> u \<le> 0xDF then 2
      else if 0xE0 \<le> u \<and> u \<le> 0xEF then 3
      else if 0xF0 \<le> u \<and> u \<le> 0xF4 then 4
      else 0)"

text \<open>The loop over the continuation bytes: the code point, or nothing if one is bad.\<close>

fun utf8_continue :: "int \<Rightarrow> string \<Rightarrow> int option" where
  "utf8_continue value [] = Some value"
| "utf8_continue value (c # cs) =
     (if byte c < 0x80 \<or> byte c > 0xBF then None
      else utf8_continue (value * 64 + byte c mod 64) cs)"

definition utf8_check_full :: "string \<Rightarrow> nat \<Rightarrow> bool" where
  "utf8_check_full buffer sz =
     (let u = byte (hd buffer);
          start = (if sz = 2 then Some (u mod 32) else if sz = 3 then Some (u mod 16)
                   else if sz = 4 then Some (u mod 8) else None)
      in case start of
           None \<Rightarrow> False
         | Some v0 \<Rightarrow>
             (case utf8_continue v0 (take (sz - 1) (tl buffer)) of
                None \<Rightarrow> False
              | Some v \<Rightarrow>
                  if v > 0x10FFFF then False
                  else if 0xD800 \<le> v \<and> v \<le> 0xDFFF then False
                  else \<not> (sz = 2 \<and> v < 0x80 \<or> sz = 3 \<and> v < 0x800 \<or>
                          sz = 4 \<and> v < 0x10000)))"

function utf8_check_string :: "string \<Rightarrow> bool" where
  "utf8_check_string [] = True"
| "utf8_check_string (c # cs) =
     (let count = utf8_check_first c in
      if count = 0 then False
      else if count > 1 then
        (if count > length (c # cs) then False
         else if \<not> utf8_check_full (c # cs) count then False
         else utf8_check_string (drop (count - 1) cs))
      else utf8_check_string cs)"
  by pat_completeness auto
termination by (relation "measure length") auto

declare utf8_check_string.simps(2) [simp del]

lemma utf8_ascii [simp]:
  "byte c < 128 \<Longrightarrow> utf8_check_string (c # cs) = utf8_check_string cs"
  by (simp add: utf8_check_string.simps utf8_check_first_def)

section \<open>Building JSON\<close>

text \<open>
  jansson refuses a string that is no UTF-8 and a real that is not finite. Adding nothing
  to an array or under a key, and setting a key that is no UTF-8, leave the container as it
  was; the callers ignore the result.
\<close>

definition ten_json_create_string :: "string \<Rightarrow> json option" where
  "ten_json_create_string s = (if utf8_check_string s then Some (JSON_STRING s) else None)"

definition ten_json_create_real :: "fp \<Rightarrow> json option" where
  "ten_json_create_real x =
     (case x of Fp_nan \<Rightarrow> None | Fp_inf _ \<Rightarrow> None | _ \<Rightarrow> Some (JSON_REAL x))"

definition json_array_append_new :: "json list \<Rightarrow> json option \<Rightarrow> json list" where
  "json_array_append_new js v = (case v of None \<Rightarrow> js | Some j \<Rightarrow> js @ [j])"

definition json_object_set_new ::
  "(string \<times> json) list \<Rightarrow> string \<Rightarrow> json option \<Rightarrow> (string \<times> json) list"
where
  "json_object_set_new kvs key v =
     (if \<not> utf8_check_string key then kvs
      else case v of None \<Rightarrow> kvs | Some j \<Rightarrow> alist_put key j kvs)"

text \<open>
  The array and object loops carry the JSON container built so far. An unsigned number
  above the largest \<open>int64\<close> is stored by its bits.
\<close>

fun ten_value_to_json :: "ten_value \<Rightarrow> json option"
  and ten_value_array_to_json :: "json list \<Rightarrow> ten_value list \<Rightarrow> json list"
  and ten_value_object_to_json :: "(string \<times> json) list \<Rightarrow> ten_value_kv list \<Rightarrow> (string \<times> json) list"
where
  "ten_value_to_json VInvalid = None"
| "ten_value_to_json (VInt8 w) = Some (JSON_INTEGER (scast w))"
| "ten_value_to_json (VInt16 w) = Some (JSON_INTEGER (scast w))"
| "ten_value_to_json (VInt32 w) = Some (JSON_INTEGER (scast w))"
| "ten_value_to_json (VInt64 w) = Some (JSON_INTEGER w)"
| "ten_value_to_json (VUint8 w) = Some (JSON_INTEGER (ucast w))"
| "ten_value_to_json (VUint16 w) = Some (JSON_INTEGER (ucast w))"
| "ten_value_to_json (VUint32 w) = Some (JSON_INTEGER (ucast w))"
| "ten_value_to_json (VUint64 w) = Some (JSON_INTEGER w)"
| "ten_value_to_json (VFloat32 x) = ten_json_create_real (float_to_double x)"
| "ten_value_to_json (VFloat64 x) = ten_json_create_real x"
| "ten_value_to_json (VPtr p) = Some JSON_NULL"
| "ten_value_to_json (VBuf b) = Some JSON_NULL"
| "ten_value_to_json (VString s) = ten_json_create_string s"
| "ten_value_to_json (VObject kvs) = Some (JSON_OBJECT (ten_value_object_to_json [] kvs))"
| "ten_value_to_json (VArray vs) = Some (JSON_ARRAY (ten_value_array_to_json [] vs))"
| "ten_value_to_json VNull = Some JSON_NULL"
| "ten_value_to_json (VBool b) = Some (if b then JSON_TRUE else JSON_FALSE)"
| "ten_value_array_to_json acc [] = acc"
| "ten_value_array_to_json acc (v # vs) =
     ten_value_array_to_json (json_array_append_new acc (ten_value_to_json v)) vs"
| "ten_value_object_to_json acc [] = acc"
| "ten_value_object_to_json acc ((k, v) # kvs) =
     ten_value_object_to_json (json_object_set_new acc k (ten_value_to_json v)) kvs"

section \<open>Reading JSON\<close>

text \<open>
  Every type of JSON has its case, so the conversion always yields a value. The key of a
  pair goes through \<open>ten_value_kv_create_empty\<close>, that is, through printf.
\<close>

fun ten_value_from_json :: "json \<Rightarrow> ten_value"
  and ten_value_array_from_json :: "json list \<Rightarrow> ten_value list"
  and ten_value_object_from_json :: "(string \<times> json) list \<Rightarrow> ten_value_kv list"
  and ten_value_kv_from_json :: "string \<times> json \<Rightarrow> ten_value_kv"
where
  "ten_value_from_json (JSON_INTEGER n) =
     (if 0 \<le> sint n then ten_value_init_uint64 n else ten_value_init_int64 n)"
| "ten_value_from_json (JSON_REAL x) = ten_value_init_float64 x"
| "ten_value_from_json JSON_TRUE = ten_value_init_bool True"
| "ten_value_from_json JSON_FALSE = ten_value_init_bool False"
| "ten_value_from_json JSON_NULL = ten_value_init_null"
| "ten_value_from_json (JSON_STRING s) = ten_value_init_string_with_size s (length s)"
| "ten_value_from_json (JSON_ARRAY js) = VArray (ten_value_array_from_json js)"
| "ten_value_from_json (JSON_OBJECT kvs) = VObject (ten_value_object_from_json kvs)"
| "ten_value_array_from_json [] = []"
| "ten_value_array_from_json (j # js) = ten_value_from_json j # ten_value_array_from_json js"
| "ten_value_object_from_json [] = []"
| "ten_value_object_from_json (kv # kvs) =
     ten_value_kv_from_json kv # ten_value_object_from_json kvs"
| "ten_value_kv_from_json (k, j) = (ten_value_kv_create_empty k, ten_value_from_json j)"

text \<open>
  Setting an existing value keeps its type. The result is whether it was set, and the
  value. Each setter meets the tag it asserts, so it never fails here.
\<close>

definition set_int_from_json :: "ten_type \<Rightarrow> json \<Rightarrow> (64 word \<Rightarrow> ten_value) \<Rightarrow> ten_value \<Rightarrow> bool \<times> ten_value" where
  "set_int_from_json ty j mk v =
     (case j of
        JSON_INTEGER n \<Rightarrow>
          (if type_min ty \<le> sint n \<and> sint n \<le> type_max ty then (True, mk n) else (False, v))
      | _ \<Rightarrow> (False, v))"

definition ten_value_set_from_json :: "ten_value \<Rightarrow> json \<Rightarrow> bool \<times> ten_value" where
  "ten_value_set_from_json v j =
     (case v of
        VBool _ \<Rightarrow>
          (case j of JSON_TRUE \<Rightarrow> (True, VBool True) | JSON_FALSE \<Rightarrow> (True, VBool False)
                   | _ \<Rightarrow> (False, v))
      | VInt8 _ \<Rightarrow> set_int_from_json TEN_TYPE_INT8 j (\<lambda>n. VInt8 (scast n)) v
      | VInt16 _ \<Rightarrow> set_int_from_json TEN_TYPE_INT16 j (\<lambda>n. VInt16 (scast n)) v
      | VInt32 _ \<Rightarrow> set_int_from_json TEN_TYPE_INT32 j (\<lambda>n. VInt32 (scast n)) v
      | VInt64 _ \<Rightarrow> (case j of JSON_INTEGER n \<Rightarrow> (True, VInt64 n) | _ \<Rightarrow> (False, v))
      | VUint8 _ \<Rightarrow> set_int_from_json TEN_TYPE_UINT8 j (\<lambda>n. VUint8 (scast n)) v
      | VUint16 _ \<Rightarrow> set_int_from_json TEN_TYPE_UINT16 j (\<lambda>n. VUint16 (scast n)) v
      | VUint32 _ \<Rightarrow> set_int_from_json TEN_TYPE_UINT32 j (\<lambda>n. VUint32 (scast n)) v
      | VUint64 _ \<Rightarrow>
          (case j of
             JSON_INTEGER n \<Rightarrow> (if 0 \<le> sint n then (True, VUint64 n) else (False, v))
           | _ \<Rightarrow> (False, v))
      | VFloat32 _ \<Rightarrow>
          (case j of JSON_REAL x \<Rightarrow> (True, VFloat32 (fp_convert float32_fmt x)) | _ \<Rightarrow> (False, v))
      | VFloat64 _ \<Rightarrow> (case j of JSON_REAL x \<Rightarrow> (True, VFloat64 x) | _ \<Rightarrow> (False, v))
      | VString _ \<Rightarrow> (case j of JSON_STRING s \<Rightarrow> (True, VString s) | _ \<Rightarrow> (False, v))
      | VArray _ \<Rightarrow>
          (case j of JSON_ARRAY js \<Rightarrow> (True, VArray (ten_value_array_from_json js)) | _ \<Rightarrow> (False, v))
      | VObject _ \<Rightarrow>
          (case j of JSON_OBJECT kvs \<Rightarrow> (True, VObject (ten_value_object_from_json kvs))
                   | _ \<Rightarrow> (False, v))
      | _ \<Rightarrow> (False, v))"

section \<open>Well-formed JSON\<close>

text \<open>
  What a parser yields and this library can carry: valid text, finite reals, and in each
  object distinct keys without percent signs.
\<close>

definition json_key_ok :: "string \<Rightarrow> bool" where
  "json_key_ok k \<longleftrightarrow> utf8_check_string k \<and> plain_key k"

fun json_ok :: "json \<Rightarrow> bool" where
  "json_ok (JSON_STRING s) \<longleftrightarrow> utf8_check_string s"
| "json_ok (JSON_REAL x) \<longleftrightarrow> ten_json_create_real x \<noteq> None"
| "json_ok (JSON_ARRAY js) \<longleftrightarrow> (\<forall>j \<in> set js. json_ok j)"
| "json_ok (JSON_OBJECT kvs) \<longleftrightarrow>
     distinct (map fst kvs) \<and> (\<forall>(k, j) \<in> set kvs. json_key_ok k \<and> json_ok j)"
| "json_ok _ \<longleftrightarrow> True"

lemma json_roundtrip:
  "json_ok j \<Longrightarrow> ten_value_to_json (ten_value_from_json j) = Some j"
  "\<forall>j \<in> set js. json_ok j \<Longrightarrow>
   ten_value_array_to_json acc (ten_value_array_from_json js) = acc @ js"
  "\<forall>(k, j) \<in> set kvs. json_key_ok k \<and> json_ok j \<Longrightarrow> distinct (map fst (obj @ kvs)) \<Longrightarrow>
   ten_value_object_to_json obj (ten_value_object_from_json kvs) = obj @ kvs"
  "json_key_ok (fst kv) \<and> json_ok (snd kv) \<Longrightarrow>
   ten_value_kv_from_json kv = (fst kv, ten_value_from_json (snd kv)) \<and>
   ten_value_to_json (ten_value_from_json (snd kv)) = Some (snd kv)"
proof (induction j and js and kvs and kv arbitrary: and acc and obj and
    rule: ten_value_from_json_ten_value_array_from_json_ten_value_object_from_json_ten_value_kv_from_json.induct)
  case (12 kv kvs)
  obtain k j where kv: "kv = (k, j)" by (cases kv)
  with 12 have "ten_value_kv_from_json kv = (k, ten_value_from_json j)"
      "ten_value_to_json (ten_value_from_json j) = Some j" by auto
  moreover have "json_object_set_new obj k (Some j) = obj @ [(k, j)]"
    using 12(3,4) by (simp add: kv json_object_set_new_def json_key_ok_def alist_put_new)
  ultimately show ?case
    using 12(2) [where obj = "obj @ [(k, j)]"] 12(3,4) by (simp add: kv)
qed (auto simp: ten_value_init_string_with_size_def ten_json_create_string_def
       ten_json_create_real_def json_array_append_new_def json_key_ok_def split: fp.splits)

section \<open>Properties\<close>

text \<open>
  C34: A well-formed JSON document survives the way into a value and back: the types of its
  numbers, the order of its keys and its nesting included.
\<close>

theorem json_value_roundtrip:
  "json_ok j \<Longrightarrow> ten_value_to_json (ten_value_from_json j) = Some j"
  by (rule json_roundtrip)

theorem json_value_roundtrip_witness:
  "ten_value_to_json (ten_value_from_json
     (JSON_OBJECT [(''b'', JSON_ARRAY [JSON_INTEGER (- 1), JSON_NULL]), (''a'', JSON_STRING ''x'')])) =
   Some (JSON_OBJECT [(''b'', JSON_ARRAY [JSON_INTEGER (- 1), JSON_NULL]), (''a'', JSON_STRING ''x'')])"
  by (rule json_value_roundtrip) (simp add: json_key_ok_def plain_key_def)

text \<open>
  C38: An integer value written to JSON and read again holds the same number up to the
  largest \<open>int64\<close>; above it, the number comes back reduced by two to the 64, as a
  negative \<open>int64\<close>.
\<close>

theorem integer_through_json:
  assumes "int_content v = Some i"
  shows "\<exists>j. ten_value_to_json v = Some j \<and>
             int_content (ten_value_from_json j) =
               Some (if i \<le> INT64_MAX then i else i - 2 ^ 64)"
proof -
  have read: "int_content (ten_value_from_json (JSON_INTEGER w)) = Some (sint w)" for w
    by (simp add: uint_eq_sint_fits)
  show ?thesis
  proof (cases "\<exists>w. v = VUint64 w")
    case True
    then obtain w where v: "v = VUint64 w" by blast
    have "sint w = (if uint w \<le> INT64_MAX then uint w else uint w - 2 ^ 64)"
      using sint_as_uint [of w] sint_bounds64 [of w] uint_bounds64 [of w]
      by (simp split: if_splits)
    with v assms read show ?thesis by (simp del: ten_value_from_json.simps)
  next
    case False
    then show ?thesis
      using assms int_content_bounds [OF assms] read
      by (cases v) (auto simp: fits simp del: ten_value_from_json.simps)
  qed
qed

theorem integer_through_json_witness:
  "\<exists>j. ten_value_to_json (VUint64 9223372036854775808) = Some j \<and>
       int_content (ten_value_from_json j) = Some (- 9223372036854775808)"
  using integer_through_json [of "VUint64 9223372036854775808" 9223372036854775808] by simp

text \<open>
  Setting a value of an integer type from a JSON integer succeeds exactly when the
  number fits the type; the type stays and the number is stored, and a failure leaves the
  value alone.
\<close>

lemma set_integer_from_json:
  assumes "int_content v = Some i"
  shows "if sint n \<in> {type_min (ten_value_get_type v)..type_max (ten_value_get_type v)}
         then \<exists>w. ten_value_set_from_json v (JSON_INTEGER n) = (True, w) \<and>
                  ten_value_get_type w = ten_value_get_type v \<and> int_content w = Some (sint n)
         else ten_value_set_from_json v (JSON_INTEGER n) = (False, v)"
  using assms sint_bounds64 [of n]
  by (cases v) (auto simp: ten_value_set_from_json_def set_int_from_json_def fits uint_eq_sint_fits)

end
