(* ===== verification/Value_Object.thy ===== *)
theory Value_Object
  imports Value_Json
begin

text \<open>
  Objects: lookup and update by key (core/src/ten_utils/value/value_object.c) and the three
  merges (value_merge.c), into an object from another by moving, by cloning and from JSON.

  A branch that asserts false and then returns is modelled by what it returns. The outer
  \<open>None\<close> of the merge by moving is the use of a NULL value.
\<close>

section \<open>Lookup and update\<close>

definition ten_value_object_peek :: "ten_value \<Rightarrow> string \<Rightarrow> ten_value option" where
  "ten_value_object_peek v key = (case v of VObject kvs \<Rightarrow> alist_peek key kvs | _ \<Rightarrow> None)"

text \<open>
  The caller's error is inspected after the call, so an error that was already set counts
  as a failure.
\<close>

definition ten_value_object_get_bool :: "ten_value \<Rightarrow> string \<Rightarrow> ten_error \<Rightarrow> bool \<times> ten_error" where
  "ten_value_object_get_bool self key err =
     (case ten_value_object_peek self key of
        None \<Rightarrow> (False, ten_error_set err TEN_ERRNO_GENERIC (key @ '' does not exist.''))
      | Some v \<Rightarrow>
          let failed = (False, ten_error_set err TEN_ERRNO_GENERIC
                          (''Failed to get boolean value from '' @ key))
          in case ten_value_get_bool v of
               Inl e \<Rightarrow> failed
             | Inr result \<Rightarrow> if ten_error_is_success err then (result, err) else failed)"

definition ten_value_object_peek_string :: "ten_value \<Rightarrow> string \<Rightarrow> string option" where
  "ten_value_object_peek_string self key =
     (case ten_value_object_peek self key of
        None \<Rightarrow> None
      | Some v \<Rightarrow> if \<not> ten_value_is_string v then None else ten_value_peek_raw_str (Some v))"

definition ten_value_object_peek_array :: "ten_value \<Rightarrow> string \<Rightarrow> ten_value list option" where
  "ten_value_object_peek_array self key =
     (case ten_value_object_peek self key of
        None \<Rightarrow> None
      | Some v \<Rightarrow> if \<not> ten_value_is_array v then None else ten_value_peek_array (Some v))"

text \<open>The loop does not stop at the first match.\<close>

definition reset_all :: "string \<Rightarrow> ten_value \<Rightarrow> ten_value_kv list \<Rightarrow> ten_value_kv list" where
  "reset_all key value kvs = map (\<lambda>(k, v). if k = key then (k, value) else (k, v)) kvs"

definition ten_value_object_move :: "ten_value \<Rightarrow> string \<Rightarrow> ten_value \<Rightarrow> bool \<times> ten_value" where
  "ten_value_object_move self key value =
     (case self of
        VObject kvs \<Rightarrow>
          (if key \<in> set (map fst kvs) then (True, VObject (reset_all key value kvs))
           else (True, VObject (kvs @ [ten_value_kv_create key value])))
      | _ \<Rightarrow> (False, self))"

lemma reset_all_put:
  "distinct (map fst kvs) \<Longrightarrow> key \<in> set (map fst kvs) \<Longrightarrow>
   reset_all key value kvs = alist_put key value kvs"
proof (induction kvs)
  case (Cons kv kvs)
  have "map (\<lambda>(k, v). if k = key then (k, value) else (k, v)) kvs = kvs"
    if "key \<notin> set (map fst kvs)"
    using that by (induction kvs) auto
  with Cons show ?case by (cases kv) (auto simp: reset_all_def)
qed simp

section \<open>A store with keys\<close>

text \<open>
  What a caller expects of a store that is written and read by key: the last write of a key
  is what a read finds, and the others are as before.
\<close>

locale keyed_store =
  fixes put :: "'k \<Rightarrow> 'v \<Rightarrow> 's \<Rightarrow> 's"
    and get :: "'k \<Rightarrow> 's \<Rightarrow> 'v option"
    and ok :: "'k \<Rightarrow> bool"
    and inv :: "'s \<Rightarrow> bool"
  assumes get_put: "inv s \<Longrightarrow> ok k \<Longrightarrow> get k' (put k v s) = (if k' = k then Some v else get k' s)"
    and inv_put: "inv s \<Longrightarrow> ok k \<Longrightarrow> inv (put k v s)"
begin

definition put_all :: "('k \<times> 'v) list \<Rightarrow> 's \<Rightarrow> 's" where
  "put_all kvs s = fold (\<lambda>(k, v). put k v) kvs s"

lemma inv_put_all: "inv s \<Longrightarrow> \<forall>(k, v) \<in> set kvs. ok k \<Longrightarrow> inv (put_all kvs s)"
  by (induction kvs arbitrary: s) (auto simp: put_all_def inv_put)

lemma get_put_all:
  "inv s \<Longrightarrow> \<forall>(k, v) \<in> set kvs. ok k \<Longrightarrow>
   get k (put_all kvs s) = (case map_of (rev kvs) k of Some v \<Rightarrow> Some v | None \<Rightarrow> get k s)"
proof (induction kvs arbitrary: s)
  case (Cons kv kvs)
  then show ?case
    by (cases kv)
       (auto simp: put_all_def inv_put get_put map_add_def split: option.splits)
qed (simp add: put_all_def)

lemma put_overwrites:
  "inv s \<Longrightarrow> ok k \<Longrightarrow> get k' (put k v (put k u s)) = get k' (put k v s)"
  by (simp add: get_put inv_put)

end

interpretation object_store: keyed_store
  "\<lambda>k v obj. snd (ten_value_object_move obj k v)" "\<lambda>k obj. ten_value_object_peek obj k"
  plain_key "\<lambda>obj. \<exists>kvs. obj = VObject kvs \<and> distinct (map fst kvs)"
proof unfold_locales
  fix s :: ten_value and k k' v
  assume "\<exists>kvs. s = VObject kvs \<and> distinct (map fst kvs)" and k: "plain_key k"
  then obtain kvs where s: "s = VObject kvs" and d: "distinct (map fst kvs)" by blast
  have move: "snd (ten_value_object_move s k v) = VObject (alist_put k v kvs)"
    using d k by (auto simp: ten_value_object_move_def s reset_all_put alist_put_new)
  show "ten_value_object_peek (snd (ten_value_object_move s k v)) k' =
      (if k' = k then Some v else ten_value_object_peek s k')"
    by (simp only: move) (simp add: ten_value_object_peek_def s alist_peek_put)
  show "\<exists>kvs. snd (ten_value_object_move s k v) = VObject kvs \<and> distinct (map fst kvs)"
    by (simp only: move) (simp add: d alist_put_distinct)
qed

interpretation json_store: keyed_store
  "\<lambda>k j obj. json_object_set_new obj k (Some j)" alist_peek utf8_check_string "\<lambda>_. True"
  by unfold_locales (simp_all add: json_object_set_new_def alist_peek_put)

section \<open>Merging by cloning\<close>

abbreviation kvs_size :: "ten_value_kv list \<Rightarrow> nat" where
  "kvs_size \<equiv> size_list (size_prod (\<lambda>_. 0) size)"

text \<open>The loop over the source, and for one source item the loop over the destination.\<close>

function (sequential) merge_clone :: "ten_value_kv list \<Rightarrow> ten_value_kv list \<Rightarrow> ten_value_kv list"
  and merge_clone_item :: "string \<Rightarrow> ten_value \<Rightarrow> ten_value_kv list \<Rightarrow> ten_value_kv list"
where
  "merge_clone dest [] = dest"
| "merge_clone dest ((k, v) # src) = merge_clone (merge_clone_item k v dest) src"
| "merge_clone_item k v [] = [ten_value_kv_clone (k, v)]"
| "merge_clone_item k v ((dk, dv) # ds) =
     (if k = dk then
        (dk, case (v, dv) of
               (VObject s, VObject d) \<Rightarrow> VObject (merge_clone d s)
             | _ \<Rightarrow> ten_value_clone v) # ds
      else (dk, dv) # merge_clone_item k v ds)"
  by pat_completeness auto
termination
  by (relation "measures [\<lambda>x. case x of Inl (d, s) \<Rightarrow> kvs_size s | Inr (k, v, d) \<Rightarrow> size v,
                          \<lambda>x. case x of Inl (d, s) \<Rightarrow> 0 | Inr (k, v, d) \<Rightarrow> length d]") auto

definition ten_value_object_merge_with_clone :: "ten_value \<Rightarrow> ten_value \<Rightarrow> bool \<times> ten_value" where
  "ten_value_object_merge_with_clone dest src =
     (case (dest, src) of
        (VObject d, VObject s) \<Rightarrow> (True, VObject (merge_clone d s))
      | _ \<Rightarrow> (False, dest))"

section \<open>Merging by moving\<close>

text \<open>
  The loop over the destination goes on after a match. What is left of the source value is
  carried along: all of it, an emptied object after a merge of two objects, or nothing
  after it was moved, and a further match then uses the NULL value. The result is the new
  destination and whether a match was found; an unmatched source node moves to the end.
\<close>

function (sequential) merge_move ::
    "ten_value_kv list \<Rightarrow> ten_value_kv list \<Rightarrow> ten_value_kv list option"
  and merge_move_item ::
    "string \<Rightarrow> ten_value option \<Rightarrow> bool \<Rightarrow> ten_value_kv list \<Rightarrow> (ten_value_kv list \<times> bool) option"
where
  "merge_move dest [] = Some dest"
| "merge_move dest ((k, v) # src) =
     (case merge_move_item k (Some v) False dest of
        None \<Rightarrow> None
      | Some (dest', found) \<Rightarrow> merge_move (if found then dest' else dest' @ [(k, v)]) src)"
| "merge_move_item k vo found [] = Some ([], found)"
| "merge_move_item k vo found ((dk, dv) # ds) =
     (if k \<noteq> dk then
        map_option (\<lambda>(ds', f). ((dk, dv) # ds', f)) (merge_move_item k vo found ds)
      else case vo of
        None \<Rightarrow> None
      | Some v \<Rightarrow>
          (case (v, dv) of
             (VObject s, VObject d) \<Rightarrow>
               (case merge_move d s of
                  None \<Rightarrow> None
                | Some d' \<Rightarrow>
                    map_option (\<lambda>(ds', f). ((dk, VObject d') # ds', f))
                      (merge_move_item k (Some (VObject [])) True ds))
           | _ \<Rightarrow>
               map_option (\<lambda>(ds', f). ((dk, v) # ds', f)) (merge_move_item k None True ds)))"
  by pat_completeness auto
termination
  by (relation "measures [\<lambda>x. case x of Inl (d, s) \<Rightarrow> kvs_size s
                                   | Inr (k, vo, f, d) \<Rightarrow> (case vo of None \<Rightarrow> 0 | Some v \<Rightarrow> size v),
                          \<lambda>x. case x of Inl (d, s) \<Rightarrow> 0 | Inr (k, vo, f, d) \<Rightarrow> length d]") auto

text \<open>The second component of the result is what is left of the source.\<close>

definition ten_value_object_merge_with_move ::
  "ten_value \<Rightarrow> ten_value \<Rightarrow> (bool \<times> ten_value \<times> ten_value) option"
where
  "ten_value_object_merge_with_move dest src =
     (case (dest, src) of
        (VObject d, VObject s) \<Rightarrow>
          map_option (\<lambda>d'. (True, VObject d', VObject [])) (merge_move d s)
      | _ \<Rightarrow> Some (False, dest, src))"

section \<open>Merging from JSON\<close>

abbreviation jkvs_size :: "(string \<times> json) list \<Rightarrow> nat" where
  "jkvs_size \<equiv> size_list (size_prod (\<lambda>_. 0) size)"

function (sequential) merge_json ::
    "ten_value_kv list \<Rightarrow> (string \<times> json) list \<Rightarrow> ten_value_kv list"
  and merge_json_item :: "string \<Rightarrow> json \<Rightarrow> ten_value_kv list \<Rightarrow> ten_value_kv list"
where
  "merge_json dest [] = dest"
| "merge_json dest ((k, j) # src) =
     merge_json
       (if k \<in> set (map fst dest) then merge_json_item k j dest
        else merge_json_item k j dest @ [ten_value_kv_create k (ten_value_from_json j)]) src"
| "merge_json_item k j [] = []"
| "merge_json_item k j ((dk, dv) # ds) =
     (if k = dk then
        (dk, case (j, dv) of
               (JSON_OBJECT s, VObject d) \<Rightarrow> VObject (merge_json d s)
             | _ \<Rightarrow> ten_value_from_json j)
      else (dk, dv)) # merge_json_item k j ds"
  by pat_completeness auto
termination
  by (relation "measures [\<lambda>x. case x of Inl (d, s) \<Rightarrow> jkvs_size s | Inr (k, j, d) \<Rightarrow> size j,
                          \<lambda>x. case x of Inl (d, s) \<Rightarrow> 0 | Inr (k, j, d) \<Rightarrow> length d]") auto

definition ten_value_object_merge_with_json :: "ten_value \<Rightarrow> json \<Rightarrow> bool \<times> ten_value" where
  "ten_value_object_merge_with_json dest src =
     (case (dest, src) of
        (VObject d, JSON_OBJECT s) \<Rightarrow> (True, VObject (merge_json d s))
      | _ \<Rightarrow> (False, dest))"

fun the_kvs :: "ten_value \<Rightarrow> ten_value_kv list" where
  "the_kvs (VObject kvs) = kvs"
| "the_kvs _ = []"

section \<open>Well-formed values\<close>

text \<open>In every object the keys are distinct and have no percent sign.\<close>

fun wf_value :: "ten_value \<Rightarrow> bool" where
  "wf_value (VArray vs) \<longleftrightarrow> (\<forall>v \<in> set vs. wf_value v)"
| "wf_value (VObject kvs) \<longleftrightarrow>
     distinct (map fst kvs) \<and> (\<forall>(k, v) \<in> set kvs. plain_key k \<and> wf_value v)"
| "wf_value _ \<longleftrightarrow> True"

abbreviation wf_kvs :: "ten_value_kv list \<Rightarrow> bool" where
  "wf_kvs kvs \<equiv> wf_value (VObject kvs)"

lemma copy_object_keys:
  "\<forall>(k, v) \<in> set kvs. plain_key k \<Longrightarrow> map fst (ten_value_copy_object kvs) = map fst kvs"
  by (induction kvs) auto

lemma wf_clone:
  "wf_value v \<Longrightarrow> wf_value (ten_value_clone v)"
  "\<forall>v \<in> set vs. wf_value v \<Longrightarrow> \<forall>v \<in> set (ten_value_copy_array vs). wf_value v"
  "\<forall>(k, v) \<in> set kvs. plain_key k \<and> wf_value v \<Longrightarrow>
   \<forall>(k, v) \<in> set (ten_value_copy_object kvs). plain_key k \<and> wf_value v"
  "plain_key (fst kv) \<and> wf_value (snd kv) \<Longrightarrow>
   plain_key (fst (ten_value_kv_clone kv)) \<and> wf_value (snd (ten_value_kv_clone kv))"
proof (induction v and vs and kvs and kv
    rule: ten_value_clone_ten_value_copy_array_ten_value_copy_object_ten_value_kv_clone.induct)
  case (2 kvs)
  then have "map fst (ten_value_copy_object kvs) = map fst kvs"
    by (intro copy_object_keys) auto
  with 2 show ?case by simp
qed auto

lemma wf_from_json:
  "json_ok j \<Longrightarrow> wf_value (ten_value_from_json j) \<and> settled (ten_value_from_json j)"
  "\<forall>j \<in> set js. json_ok j \<Longrightarrow>
   \<forall>v \<in> set (ten_value_array_from_json js). wf_value v \<and> settled v"
  "\<forall>(k, j) \<in> set kvs. json_key_ok k \<and> json_ok j \<Longrightarrow>
   map fst (ten_value_object_from_json kvs) = map fst kvs \<and>
   (\<forall>(k, v) \<in> set (ten_value_object_from_json kvs). plain_key k \<and> wf_value v \<and> settled v)"
  "json_key_ok (fst kv) \<and> json_ok (snd kv) \<Longrightarrow>
   fst (ten_value_kv_from_json kv) = fst kv \<and> plain_key (fst kv) \<and>
   wf_value (snd (ten_value_kv_from_json kv)) \<and> settled (snd (ten_value_kv_from_json kv))"
  by (induction j and js and kvs and kv
        rule: ten_value_from_json_ten_value_array_from_json_ten_value_object_from_json_ten_value_kv_from_json.induct)
     (auto simp: json_key_ok_def ten_value_init_string_with_size_def)

section \<open>What a merge computes\<close>

text \<open>What a source value becomes under its key, given what the destination has there.\<close>

definition merge_value :: "ten_value option \<Rightarrow> ten_value \<Rightarrow> ten_value" where
  "merge_value old v =
     (case (v, old) of
        (VObject s, Some (VObject d)) \<Rightarrow> VObject (merge_clone d s)
      | _ \<Rightarrow> ten_value_clone v)"

lemma merge_value_cases:
  obtains s d where "v = VObject s" "old = Some (VObject d)"
      "merge_value old v = VObject (merge_clone d s)"
  | "merge_value old v = ten_value_clone v" "\<not> (\<exists>s d. v = VObject s \<and> old = Some (VObject d))"
  by (cases v; cases old; simp add: merge_value_def; cases "the old"; simp)

lemma merge_value_None [simp]: "merge_value None v = ten_value_clone v"
  by (cases v) (simp_all add: merge_value_def)

lemma merge_clone_item_Cons:
  "merge_clone_item k v ((dk, dv) # ds) =
     (if k = dk then (dk, merge_value (Some dv) v) # ds else (dk, dv) # merge_clone_item k v ds)"
  by (cases v; cases dv; simp add: merge_value_def)

declare merge_clone_item.simps(2) [simp del]

lemma merge_clone_item_put:
  "plain_key k \<Longrightarrow>
   merge_clone_item k v ds = alist_put k (merge_value (alist_peek k ds) v) ds"
  by (induction ds) (auto simp: merge_clone_item_Cons)

lemma merge_clone_peek:
  assumes "distinct (map fst src)" and "\<forall>(k, v) \<in> set src. plain_key k"
  shows "alist_peek key (merge_clone dest src) =
     (case alist_peek key src of
        None \<Rightarrow> alist_peek key dest
      | Some v \<Rightarrow> Some (merge_value (alist_peek key dest) v))"
  using assms
proof (induction src arbitrary: dest)
  case (Cons kv src)
  obtain k v where kv: "kv = (k, v)" by (cases kv)
  from Cons.prems have plain: "plain_key k" and new: "k \<notin> set (map fst src)"
    by (auto simp: kv)
  have none: "alist_peek k src = None" using new by (simp add: alist_peek_None_iff)
  have put: "alist_peek key (merge_clone_item k v dest) =
      (if key = k then Some (merge_value (alist_peek k dest) v) else alist_peek key dest)"
    using plain by (simp add: merge_clone_item_put alist_peek_put)
  have "alist_peek key (merge_clone dest (kv # src)) =
     (case alist_peek key src of
        None \<Rightarrow> alist_peek key (merge_clone_item k v dest)
      | Some u \<Rightarrow> Some (merge_value (alist_peek key (merge_clone_item k v dest)) u))"
    using Cons by (simp add: kv)
  with put none show ?case by (cases "key = k") (simp_all add: kv split: option.splits)
qed simp

lemma wf_kvs_put: "wf_kvs ds \<Longrightarrow> plain_key k \<Longrightarrow> wf_value v \<Longrightarrow> wf_kvs (alist_put k v ds)"
proof -
  have "set (alist_put k v ds) \<subseteq> insert (k, v) (set ds)"
    by (induction ds) (auto split: if_splits)
  then show "wf_kvs ds \<Longrightarrow> plain_key k \<Longrightarrow> wf_value v \<Longrightarrow> wf_kvs (alist_put k v ds)"
    using alist_put_distinct [of ds k v] by auto
qed

lemma wf_merge_value:
  assumes "wf_value v"
    and "\<And>s d. v = VObject s \<Longrightarrow> old = Some (VObject d) \<Longrightarrow> wf_kvs (merge_clone d s)"
  shows "wf_value (merge_value old v)"
  by (rule merge_value_cases [of v old]) (use assms wf_clone(1) [of v] in auto)

text \<open>The induction of the two loops, with the nested objects named.\<close>

lemma merge_clone_induct [case_names nil cons item_nil item]:
  assumes "\<And>dest. P dest []"
    and "\<And>dest k v src. Q k v dest \<Longrightarrow> P (merge_clone_item k v dest) src \<Longrightarrow> P dest ((k, v) # src)"
    and "\<And>k v. Q k v []"
    and "\<And>k v dk dv ds.
           (\<And>s d. k = dk \<Longrightarrow> v = VObject s \<Longrightarrow> dv = VObject d \<Longrightarrow> P d s) \<Longrightarrow>
           (k \<noteq> dk \<Longrightarrow> Q k v ds) \<Longrightarrow> Q k v ((dk, dv) # ds)"
  shows "P dest src" and "Q k v ds"
proof (induction dest src and k v ds rule: merge_clone_merge_clone_item.induct)
  case (4 k v dk dv ds)
  show ?case
  proof (rule assms(4))
    show "P d s" if "k = dk" "v = VObject s" "dv = VObject d" for s d
      using that 4(1) [OF that(1) refl that(2,3)] by blast
    show "Q k v ds" if "k \<noteq> dk" using that by (rule 4(2))
  qed
qed (use assms in blast)+

lemma merge_clone_wf:
  "wf_kvs dest \<Longrightarrow> wf_kvs src \<Longrightarrow> wf_kvs (merge_clone dest src)"
  "plain_key k \<Longrightarrow> wf_value v \<Longrightarrow> wf_kvs ds \<Longrightarrow> wf_kvs (merge_clone_item k v ds)"
proof (induction dest src and k v ds rule: merge_clone_induct)
  case (item k v dk dv ds)
  show ?case
  proof (cases "k = dk")
    case True
    have "wf_value (merge_value (Some dv) v)"
    proof (rule wf_merge_value)
      show "wf_kvs (merge_clone d s)" if "v = VObject s" "Some dv = Some (VObject d)" for s d
        using item.IH(1) [of s d] item.prems that True by simp
    qed (rule item.prems)
    with item.prems True show ?thesis by (simp add: merge_clone_item_Cons)
  next
    case False
    then have "merge_clone_item k v ((dk, dv) # ds) = (dk, dv) # merge_clone_item k v ds"
      by (simp add: merge_clone_item_Cons)
    moreover have "set (map fst (merge_clone_item k v ds)) \<subseteq> insert k (set (map fst ds))"
      using item.prems(1) by (auto simp: merge_clone_item_put alist_put_keys simp del: set_map)
    moreover have "wf_kvs (merge_clone_item k v ds)" using item False by simp
    ultimately show ?thesis using item.prems False by auto
  qed
next
  case (item_nil k v)
  then show ?case using wf_clone(1) [of v] by simp
qed simp_all

lemma merge_move_item_absent:
  "k \<notin> set (map fst ds) \<Longrightarrow> merge_move_item k vo found ds = Some (ds, found)"
  by (induction ds) auto

lemma merge_move_item_Cons:
  "merge_move_item k (Some v) found ((dk, dv) # ds) =
     (if k \<noteq> dk then
        map_option (\<lambda>(ds', f). ((dk, dv) # ds', f)) (merge_move_item k (Some v) found ds)
      else if ten_value_is_object v \<and> ten_value_is_object dv then
        (case merge_move (the_kvs dv) (the_kvs v) of
           None \<Rightarrow> None
         | Some d' \<Rightarrow>
             map_option (\<lambda>(ds', f). ((dk, VObject d') # ds', f))
               (merge_move_item k (Some (VObject [])) True ds))
      else map_option (\<lambda>(ds', f). ((dk, v) # ds', f)) (merge_move_item k None True ds))"
  by (cases v; cases dv; simp add: ten_value_is_object_def)

declare merge_move_item.simps(2) [simp del]

lemma merge_move_is_clone:
  "wf_kvs dest \<Longrightarrow> wf_kvs src \<Longrightarrow> settled (VObject src) \<Longrightarrow>
   merge_move dest src = Some (merge_clone dest src)"
  "wf_kvs ds \<Longrightarrow> plain_key k \<Longrightarrow> wf_value v \<Longrightarrow> settled v \<Longrightarrow>
   merge_move_item k (Some v) False ds =
     Some (if k \<in> set (map fst ds) then (merge_clone_item k v ds, True) else (ds, False))"
proof (induction dest src and k v ds rule: merge_clone_induct)
  case (cons dest k v src)
  have item: "merge_move_item k (Some v) False dest =
      Some (if k \<in> set (map fst dest) then (merge_clone_item k v dest, True) else (dest, False))"
    using cons by simp
  have wf: "wf_kvs (merge_clone_item k v dest)"
    using cons.prems by (intro merge_clone_wf) simp_all
  have new: "merge_clone_item k v dest = dest @ [(k, v)]" if "k \<notin> set (map fst dest)"
  proof -
    have "alist_peek k dest = None" using that by (simp add: alist_peek_None_iff)
    with that cons.prems show ?thesis
      by (simp add: merge_clone_item_put alist_put_new ten_value_clone_settled)
  qed
  have "merge_move (merge_clone_item k v dest) src = Some (merge_clone (merge_clone_item k v dest) src)"
    using cons.IH(2) cons.prems wf by simp
  with item new show ?case by (cases "k \<in> set (map fst dest)") simp_all
next
  case (item k v dk dv ds)
  show ?case
  proof (cases "k = dk")
    case True
    with item.prems have absent: "k \<notin> set (map fst ds)" by auto
    show ?thesis
    proof (rule merge_value_cases [of v "Some dv"])
      fix s d
      assume "v = VObject s" "Some dv = Some (VObject d)"
        "merge_value (Some dv) v = VObject (merge_clone d s)"
      with item.IH(1) [of s d] item.prems True absent show ?thesis
        by (simp add: merge_move_item_Cons merge_clone_item_Cons merge_move_item_absent)
    next
      assume "merge_value (Some dv) v = ten_value_clone v"
        "\<not> (\<exists>s d. v = VObject s \<and> Some dv = Some (VObject d))"
      with item.prems True absent show ?thesis
        by (auto simp: merge_move_item_Cons merge_clone_item_Cons merge_move_item_absent
              ten_value_is_object_iff ten_value_clone_settled)
    qed
  next
    case False
    with item show ?thesis by (simp add: merge_move_item_Cons merge_clone_item_Cons)
  qed
qed simp_all

lemma merge_json_item_absent:
  "k \<notin> set (map fst ds) \<Longrightarrow> merge_json_item k j ds = ds"
  by (induction ds) auto

lemma merge_json_item_Cons:
  "merge_json_item k j ((dk, dv) # ds) =
     (if k = dk then
        (dk, case j of
               JSON_OBJECT s \<Rightarrow>
                 if ten_value_is_object dv then VObject (merge_json (the_kvs dv) s)
                 else ten_value_from_json j
             | _ \<Rightarrow> ten_value_from_json j)
      else (dk, dv)) # merge_json_item k j ds"
  by (cases j; cases dv; simp add: ten_value_is_object_def)

declare merge_json_item.simps(2) [simp del]

lemma from_json_object: "ten_value_from_json j = VObject s \<Longrightarrow> \<exists>kvs. j = JSON_OBJECT kvs"
  by (cases j) (simp_all add: ten_value_init_string_with_size_def split: if_splits)

lemma merge_json_is_clone:
  "wf_kvs dest \<Longrightarrow> json_ok (JSON_OBJECT src) \<Longrightarrow>
   merge_json dest src = merge_clone dest (ten_value_object_from_json src)"
  "wf_kvs ds \<Longrightarrow> json_key_ok k \<Longrightarrow> json_ok j \<Longrightarrow>
   (if k \<in> set (map fst ds) then merge_json_item k j ds
    else merge_json_item k j ds @ [ten_value_kv_create k (ten_value_from_json j)]) =
   merge_clone_item k (ten_value_from_json j) ds"
proof (induction dest src and k j ds rule: merge_json_merge_json_item.induct)
  case (2 dest k j src)
  let ?v = "ten_value_from_json j"
  have v: "wf_value ?v" and k: "plain_key k" using "2.prems" wf_from_json(1) [of j]
    by (auto simp: json_key_ok_def)
  have item: "(if k \<in> set (map fst dest) then merge_json_item k j dest
      else merge_json_item k j dest @ [ten_value_kv_create k ?v]) = merge_clone_item k ?v dest"
    using "2.IH"(1,2) "2.prems" by (cases "k \<in> set (map fst dest)") simp_all
  have "wf_kvs (merge_clone_item k ?v dest)"
    using "2.prems"(1) v k by (intro merge_clone_wf)
  with "2.IH"(3) "2.prems"(2) item
  have "merge_json (merge_clone_item k ?v dest) src =
      merge_clone (merge_clone_item k ?v dest) (ten_value_object_from_json src)"
    by (simp split del: if_split)
  with item k show ?case by (simp split del: if_split)
next
  case (3 k j)
  then show ?case
    using wf_from_json(1) [of j] by (simp add: json_key_ok_def ten_value_clone_settled)
next
  case (4 k j dk dv ds)
  let ?v = "ten_value_from_json j"
  show ?case
  proof (cases "k = dk")
    case True
    with 4(3) have "k \<notin> set (map fst ds)" by auto
    then have rest: "merge_json_item k j ds = ds" by (rule merge_json_item_absent)
    have settled: "ten_value_clone ?v = ?v"
      using 4(5) wf_from_json(1) [of j] by (simp add: ten_value_clone_settled)
    show ?thesis
    proof (cases "\<exists>s d. j = JSON_OBJECT s \<and> dv = VObject d")
      case both: True
      then obtain s d where sd: "j = JSON_OBJECT s" "dv = VObject d" by blast
      have "merge_json d s = merge_clone d (ten_value_object_from_json s)"
        using 4(1) [OF True refl sd] 4(3,5) sd by simp
      with sd True rest show ?thesis
        by (simp add: merge_json_item_Cons merge_clone_item_Cons merge_value_def)
    next
      case False
      have "merge_value (Some dv) ?v = ?v"
        by (rule merge_value_cases [of ?v "Some dv"])
           (use False settled from_json_object [of j] in auto)
      with False True rest show ?thesis
        by (auto simp: merge_json_item_Cons merge_clone_item_Cons ten_value_is_object_iff
              split: json.splits)
    qed
  next
    case False
    with 4(2) 4(3-5) show ?thesis
      by (simp add: merge_json_item_Cons merge_clone_item_Cons split: if_splits)
  qed
qed simp_all

section \<open>Properties\<close>

text \<open>
  C32: What a merge by cloning leaves under each key: what the source has, where it has the
  key, or else what the destination had; where both have an object the two are merged in
  turn. The merged object is again well-formed.
\<close>

theorem merge_by_key:
  assumes "wf_value (VObject d)" and "wf_value (VObject s)"
  shows "\<exists>r. ten_value_object_merge_with_clone (VObject d) (VObject s) = (True, r) \<and> wf_value r \<and>
     (\<forall>key. ten_value_object_peek r key =
        (case (ten_value_object_peek (VObject s) key, ten_value_object_peek (VObject d) key) of
           (None, old) \<Rightarrow> old
         | (Some (VObject s'), Some (VObject d')) \<Rightarrow>
             Some (snd (ten_value_object_merge_with_clone (VObject d') (VObject s')))
         | (Some v, old) \<Rightarrow> Some (ten_value_clone v)))"
proof -
  have "alist_peek key (merge_clone d s) =
      (case alist_peek key s of None \<Rightarrow> alist_peek key d
       | Some v \<Rightarrow> Some (merge_value (alist_peek key d) v))" for key
    using assms(2) by (intro merge_clone_peek) auto
  then show ?thesis
    using merge_clone_wf(1) [OF assms]
    by (auto simp: ten_value_object_merge_with_clone_def ten_value_object_peek_def merge_value_def
          split: option.splits ten_value.splits)
qed

theorem merge_by_key_witness:
  "ten_value_object_peek
     (snd (ten_value_object_merge_with_clone
        (VObject [(''a'', VInt8 1), (''o'', VObject [(''x'', VInt8 2)])])
        (VObject [(''o'', VObject [(''y'', VNull)])]))) ''o'' =
   Some (VObject [(''x'', VInt8 2), (''y'', VNull)])"
  using merge_by_key [of "[(''a'', VInt8 1), (''o'', VObject [(''x'', VInt8 2)])]"
      "[(''o'', VObject [(''y'', VNull)])]"]
  by (auto simp: plain_key_def ten_value_object_peek_def ten_value_object_merge_with_clone_def
        merge_clone_item_Cons merge_value_def)

text \<open>
  C33: On well-formed objects whose buffers are their own copies the three merges agree:
  moving never meets the NULL value and gives what cloning gives, and merging a JSON
  document gives what cloning its value gives.
\<close>

theorem merges_agree:
  assumes "wf_value (VObject d)" and "wf_value (VObject s)" and "settled (VObject s)"
    and "json_ok (JSON_OBJECT js)"
  shows "ten_value_object_merge_with_move (VObject d) (VObject s) =
           Some (True, snd (ten_value_object_merge_with_clone (VObject d) (VObject s)), VObject [])
         \<and> ten_value_object_merge_with_json (VObject d) (JSON_OBJECT js) =
           ten_value_object_merge_with_clone (VObject d) (ten_value_from_json (JSON_OBJECT js))"
  using assms merge_move_is_clone(1) [of d s] merge_json_is_clone(1) [of d js]
  by (simp add: ten_value_object_merge_with_move_def ten_value_object_merge_with_clone_def
        ten_value_object_merge_with_json_def)

theorem merges_agree_witness:
  "ten_value_object_merge_with_move
     (VObject [(''o'', VObject [(''x'', VInt8 2)])]) (VObject [(''o'', VObject [(''y'', VNull)])]) =
   Some (True, VObject [(''o'', VObject [(''x'', VInt8 2), (''y'', VNull)])], VObject [])"
  using merges_agree [of "[(''o'', VObject [(''x'', VInt8 2)])]"
      "[(''o'', VObject [(''y'', VNull)])]" "[]"]
  by (simp add: plain_key_def ten_value_object_merge_with_clone_def merge_clone_item_Cons
        merge_value_def)

text \<open>
  After any sequence of moves of values into a well-formed object under keys without
  percent signs, a lookup finds the last value moved under the key, or what was there.
\<close>

lemma object_moves_then_peek:
  assumes "wf_value (VObject obj)" and "\<forall>(k, v) \<in> set kvs. plain_key k"
  shows "ten_value_object_peek
           (fold (\<lambda>(k, v) ob. snd (ten_value_object_move ob k v)) kvs (VObject obj)) key =
         (case map_of (rev kvs) key of
            Some v \<Rightarrow> Some v
          | None \<Rightarrow> ten_value_object_peek (VObject obj) key)"
  using object_store.get_put_all [of "VObject obj" kvs key] assms
  by (simp add: object_store.put_all_def)

end
