(* ===== verification/Value_Path.thy ===== *)
theory Value_Path
  imports Value_Object
begin

text \<open>
  Paths into a value, as in \<open>a.b[3].c\<close>: parsing, lookup and update
  (core/src/ten_utils/value/value_path.c), with the string splitting they use
  (core/src/ten_utils/lib/sys/general/string.c). The item tag INVALID, which only a failed
  parse creates and then destroys, is left out.

  For the content \<open>]\<close> the parser reads the byte before its buffer. What it finds
  there is not defined, and the outer \<open>None\<close> of the parser stands for that read.
\<close>

section \<open>Splitting\<close>

text \<open>\<open>strtok_r\<close> with one delimiter: the maximal runs without it, none of them empty.\<close>

lemma length_after_token:
  assumes "dropWhile (\<lambda>c. c = d) src \<noteq> []"
  shows "length (dropWhile (\<lambda>c. c \<noteq> d) (dropWhile (\<lambda>c. c = d) src)) < length src"
proof -
  obtain c cs where src: "dropWhile (\<lambda>c. c = d) src = c # cs"
    using assms by (cases "dropWhile (\<lambda>c. c = d) src") auto
  then have "c \<noteq> d" using hd_dropWhile [OF assms] by simp
  then have "length (dropWhile (\<lambda>c. c \<noteq> d) (c # cs)) \<le> length cs"
    by (simp add: length_dropWhile_le)
  also have "\<dots> < length src"
    using src length_dropWhile_le [of "\<lambda>c. c = d" src] by simp
  finally show ?thesis by (simp add: src)
qed

function ten_c_string_split :: "string \<Rightarrow> char \<Rightarrow> string list" where
  "ten_c_string_split src d =
     (let s = dropWhile (\<lambda>c. c = d) src
      in if s = [] then []
         else takeWhile (\<lambda>c. c \<noteq> d) s # ten_c_string_split (dropWhile (\<lambda>c. c \<noteq> d) s) d)"
  by pat_completeness simp
termination
  by (relation "measure (\<lambda>(src, d). length src)") (simp_all add: length_after_token)

declare ten_c_string_split.simps [simp del]

section \<open>Parsing\<close>

datatype ten_value_path_item =
    PATH_OBJECT_ITEM string
  | PATH_ARRAY_ITEM nat

text \<open>
  A segment between two brackets; its content is never empty. The first one is a key, each
  other one must end in exactly one closing bracket. The index is a \<open>size_t\<close> made from
  a \<open>long\<close>.
\<close>

definition ten_value_path_parse_between_bracket ::
  "string \<Rightarrow> bool \<Rightarrow> ten_value_path_item option option"
where
  "ten_value_path_parse_between_bracket content is_first =
     (if is_first then Some (Some (PATH_OBJECT_ITEM content))
      else if last content \<noteq> CHR '']'' then Some None
      else let erased = butlast content in
        if erased = [] then None
        else if last erased = CHR '']'' then Some None
        else Some (Some (PATH_ARRAY_ITEM (unat (word_of_int (c_strtol erased) :: 64 word)))))"

text \<open>The loop over the segments, with the position of the current one.\<close>

fun parse_brackets ::
  "nat \<Rightarrow> string list \<Rightarrow> ten_value_path_item list option option"
where
  "parse_brackets index [] = Some (Some [])"
| "parse_brackets index (content # contents) =
     (case ten_value_path_parse_between_bracket content (index = 0) of
        None \<Rightarrow> None
      | Some None \<Rightarrow> Some None
      | Some (Some item) \<Rightarrow>
          map_option (map_option (\<lambda>items. item # items)) (parse_brackets (Suc index) contents))"

definition ten_value_path_parse_between_colon ::
  "string \<Rightarrow> ten_value_path_item list option option"
where
  "ten_value_path_parse_between_colon path =
     parse_brackets 0 (ten_c_string_split path CHR ''['')"

text \<open>The loop over the parts; a part that does not parse clears the result.\<close>

fun parse_colons :: "string list \<Rightarrow> ten_value_path_item list option option" where
  "parse_colons [] = Some (Some [])"
| "parse_colons (content # contents) =
     (case ten_value_path_parse_between_colon content of
        None \<Rightarrow> None
      | Some None \<Rightarrow> Some None
      | Some (Some items) \<Rightarrow>
          map_option (map_option (\<lambda>more. items @ more)) (parse_colons contents))"

text \<open>Only an empty path sets the error.\<close>

definition ten_value_path_parse ::
  "string \<Rightarrow> ten_error \<Rightarrow> (ten_value_path_item list option \<times> ten_error) option"
where
  "ten_value_path_parse path err =
     (if path = [] then
        Some (None, ten_error_set err TEN_ERRNO_INVALID_ARGUMENT ''path should not be empty.'')
      else map_option (\<lambda>r. (r, err)) (parse_colons (ten_c_string_split path CHR ''.'')))"

section \<open>Lookup\<close>

text \<open>
  The loop over the items. An item that is not found leaves the base where it was, and the
  loop goes on with the next item.
\<close>

fun peek_items :: "ten_value \<Rightarrow> ten_value_path_item list \<Rightarrow> ten_value option" where
  "peek_items base [] = None"
| "peek_items base (PATH_OBJECT_ITEM key # rest) =
     (case base of
        VObject kvs \<Rightarrow>
          (case alist_peek key kvs of
             Some v \<Rightarrow> if rest \<noteq> [] then peek_items v rest else Some v
           | None \<Rightarrow> peek_items base rest)
      | _ \<Rightarrow> None)"
| "peek_items base (PATH_ARRAY_ITEM index # rest) =
     (case base of
        VArray vs \<Rightarrow>
          (if index < length vs then
             (if rest \<noteq> [] then peek_items (vs ! index) rest else Some (vs ! index))
           else peek_items base rest)
      | _ \<Rightarrow> None)"

text \<open>Whatever error was set on the way is overwritten when nothing was found.\<close>

definition ten_value_peek_from_path :: "ten_value \<Rightarrow> string \<Rightarrow> (ten_error + ten_value) option" where
  "ten_value_peek_from_path base path =
     map_option
       (\<lambda>(items, err).
          case (case items of None \<Rightarrow> None | Some its \<Rightarrow> peek_items base its) of
            Some v \<Rightarrow> Inr v
          | None \<Rightarrow> Inl (generic_error (''Failed to find property: '' @ path)))
       (ten_value_path_parse path ten_error_init)"

section \<open>Update\<close>

text \<open>
  What stands at the current item once the next one is known: the present value if it is a
  container of the right kind, else a new empty one.
\<close>

definition container_for :: "ten_value_path_item \<Rightarrow> ten_value option \<Rightarrow> ten_value" where
  "container_for next old =
     (case next of
        PATH_OBJECT_ITEM _ \<Rightarrow>
          (case old of Some (VObject kvs) \<Rightarrow> VObject kvs | _ \<Rightarrow> VObject [])
      | PATH_ARRAY_ITEM _ \<Rightarrow>
          (case old of Some (VArray vs) \<Rightarrow> VArray vs | _ \<Rightarrow> VArray []))"

text \<open>
  The value under construction is returned with the outcome. A new key is created from its
  name; an index behind the end first pads the array with invalid values.
\<close>

fun set_items :: "ten_value \<Rightarrow> ten_value_path_item list \<Rightarrow> ten_value \<Rightarrow> bool \<times> ten_value" where
  "set_items base [] value = (True, base)"
| "set_items base (PATH_OBJECT_ITEM key # rest) value =
     (case base of
        VObject kvs \<Rightarrow>
          (case alist_peek key kvs of
             Some old \<Rightarrow>
               (case (if rest = [] then (True, value)
                      else set_items (container_for (hd rest) (Some old)) rest value) of
                  (ok, new) \<Rightarrow> (ok, VObject (alist_put key new kvs)))
           | None \<Rightarrow>
               (case (if rest = [] then (True, value)
                      else set_items (container_for (hd rest) None) rest value) of
                  (ok, new) \<Rightarrow> (ok, VObject (kvs @ [ten_value_kv_create key new]))))
      | _ \<Rightarrow> (False, base))"
| "set_items base (PATH_ARRAY_ITEM index # rest) value =
     (case base of
        VArray vs \<Rightarrow>
          (if index < length vs then
             (case (if rest = [] then (True, value)
                    else set_items (container_for (hd rest) (Some (vs ! index))) rest value) of
                (ok, new) \<Rightarrow> (ok, VArray (vs[index := new])))
           else
             (case (if rest = [] then (True, value)
                    else set_items (container_for (hd rest) None) rest value) of
                (ok, new) \<Rightarrow>
                  (ok, VArray (vs @ replicate (index - length vs) VInvalid @ [new]))))
      | _ \<Rightarrow> (False, base))"

definition ten_value_set_from_path_list_with_move ::
  "ten_value \<Rightarrow> ten_value_path_item list \<Rightarrow> ten_value \<Rightarrow> bool \<times> ten_value"
where
  "ten_value_set_from_path_list_with_move base paths value = set_items base paths value"

text \<open>The outcome of the update is dropped, and so is that of the parser.\<close>

definition ten_value_set_from_path_str_with_move ::
  "ten_value \<Rightarrow> string \<Rightarrow> ten_value \<Rightarrow> ten_error \<Rightarrow> (bool \<times> ten_value \<times> ten_error) option"
where
  "ten_value_set_from_path_str_with_move base path value err =
     map_option
       (\<lambda>(items, err').
          (True,
           (case items of
              None \<Rightarrow> base
            | Some its \<Rightarrow> snd (ten_value_set_from_path_list_with_move base its value)),
           err'))
       (ten_value_path_parse path err)"

section \<open>Facts about lookup and update\<close>

text \<open>An item applies to a base of its kind.\<close>

fun item_fits :: "ten_value_path_item \<Rightarrow> ten_value \<Rightarrow> bool" where
  "item_fits (PATH_OBJECT_ITEM _) v \<longleftrightarrow> ten_value_is_object v"
| "item_fits (PATH_ARRAY_ITEM _) v \<longleftrightarrow> ten_value_is_array v"

fun plain_item :: "ten_value_path_item \<Rightarrow> bool" where
  "plain_item (PATH_OBJECT_ITEM key) \<longleftrightarrow> plain_key key"
| "plain_item (PATH_ARRAY_ITEM _) \<longleftrightarrow> True"

lemma container_fits [simp]: "item_fits it (container_for it old)"
  by (cases it) (simp_all add: container_for_def split: option.splits ten_value.splits)

lemma set_items_ok:
  "items \<noteq> [] \<Longrightarrow> item_fits (hd items) base \<Longrightarrow> fst (set_items base items val)"
proof (induction items arbitrary: base)
  case (Cons item rest)
  then show ?case
    by (cases item)
       (auto simp: ten_value_is_object_iff ten_value_is_array_iff split_beta split: option.splits)
qed simp

lemma set_items_misfit:
  "items \<noteq> [] \<Longrightarrow> \<not> item_fits (hd items) base \<Longrightarrow> set_items base items val = (False, base)"
  by (cases items; cases "hd items"; cases base; simp)

lemma peek_set_items:
  "items \<noteq> [] \<Longrightarrow> \<forall>item \<in> set items. plain_item item \<Longrightarrow> item_fits (hd items) base \<Longrightarrow>
   peek_items (snd (set_items base items val)) items = Some val"
proof (induction items arbitrary: base)
  case (Cons item rest)
  show ?case
  proof (cases item)
    case (PATH_OBJECT_ITEM key)
    with Cons.prems obtain kvs where base: "base = VObject kvs"
      by (auto simp: ten_value_is_object_iff)
    show ?thesis
      using Cons PATH_OBJECT_ITEM
      by (cases "rest = []"; cases "alist_peek key kvs")
         (simp_all add: base split_beta alist_peek_put alist_peek_append)
  next
    case (PATH_ARRAY_ITEM index)
    with Cons.prems obtain vs where base: "base = VArray vs"
      by (auto simp: ten_value_is_array_iff)
    show ?thesis
      using Cons PATH_ARRAY_ITEM
      by (cases "rest = []"; cases "index < length vs")
         (simp_all add: base split_beta nth_append)
  qed
qed simp

section \<open>Printing a path\<close>

text \<open>
  The reference for the parser: a path is a list of segments, each a key and the indices
  behind it.
\<close>

fun join_with :: "char \<Rightarrow> string list \<Rightarrow> string" where
  "join_with d [] = []"
| "join_with d (t # ts) = t @ concat (map (\<lambda>u. d # u) ts)"

lemma split_delim: "ten_c_string_split (d # s) d = ten_c_string_split s d"
  by (simp add: ten_c_string_split.simps)

lemma split_end:
  assumes "t \<noteq> []" and "d \<notin> set t"
  shows "ten_c_string_split t d = [t]"
proof -
  have "dropWhile (\<lambda>c. c = d) t = t" "takeWhile (\<lambda>c. c \<noteq> d) t = t" "dropWhile (\<lambda>c. c \<noteq> d) t = []"
    using assms by (auto simp: dropWhile_eq_self_iff takeWhile_eq_all_conv dest: hd_in_set)
  with assms show ?thesis
    by (subst ten_c_string_split.simps) (simp add: ten_c_string_split.simps [of "[]"] del: dropWhile_eq_Nil_conv)
qed

lemma split_token:
  assumes "t \<noteq> []" and "d \<notin> set t"
  shows "ten_c_string_split (t @ d # s) d = t # ten_c_string_split s d"
proof -
  have first: "dropWhile (\<lambda>c. c = d) (t @ d # s) = t @ d # s"
    using assms by (cases t) auto
  have rest: "takeWhile (\<lambda>c. c \<noteq> d) (t @ d # s) = t" "dropWhile (\<lambda>c. c \<noteq> d) (t @ d # s) = d # s"
    using assms(2) by (induction t) auto
  show ?thesis
    by (simp add: ten_c_string_split.simps [of "t @ d # s"] first rest split_delim)
qed

lemma split_join_Cons:
  "\<forall>u \<in> set (t # ts). u \<noteq> [] \<and> d \<notin> set u \<Longrightarrow>
   ten_c_string_split (t @ concat (map (\<lambda>u. d # u) ts)) d = t # ts"
  by (induction ts arbitrary: t) (simp_all add: split_end split_token)

lemma split_join:
  "\<forall>t \<in> set ts. t \<noteq> [] \<and> d \<notin> set t \<Longrightarrow> ten_c_string_split (join_with d ts) d = ts"
  by (cases ts) (simp_all add: split_join_Cons ten_c_string_split.simps [of "[]"])

type_synonym segment = "string \<times> nat list"

definition render_segment :: "segment \<Rightarrow> string" where
  "render_segment seg =
     join_with CHR ''['' (fst seg # map (\<lambda>n. dec_of_nat n @ '']'') (snd seg))"

definition render_path :: "segment list \<Rightarrow> string" where
  "render_path segs = join_with CHR ''.'' (map render_segment segs)"

definition segment_items :: "segment \<Rightarrow> ten_value_path_item list" where
  "segment_items seg = PATH_OBJECT_ITEM (fst seg) # map PATH_ARRAY_ITEM (snd seg)"

definition segment_ok :: "segment \<Rightarrow> bool" where
  "segment_ok seg \<longleftrightarrow>
     fst seg \<noteq> [] \<and> CHR ''.'' \<notin> set (fst seg) \<and> CHR ''['' \<notin> set (fst seg) \<and>
     (\<forall>n \<in> set (snd seg). int n \<le> INT64_MAX)"

lemma parse_index:
  assumes "int n \<le> INT64_MAX"
  shows "ten_value_path_parse_between_bracket (dec_of_nat n @ '']'') False =
     Some (Some (PATH_ARRAY_ITEM n))"
proof -
  have "c_isdigit (last (dec_of_nat n))" by (rule dec_of_nat_digits [of _ n]) simp
  then have "last (dec_of_nat n) \<noteq> CHR '']''" by (auto simp: c_isdigit_def)
  then show ?thesis
    using assms
    by (simp add: ten_value_path_parse_between_bracket_def c_strtol_dec unat_of_nat)
qed

lemma parse_indices:
  "\<forall>n \<in> set ns. int n \<le> INT64_MAX \<Longrightarrow>
   parse_brackets (Suc i) (map (\<lambda>n. dec_of_nat n @ '']'') ns) = Some (Some (map PATH_ARRAY_ITEM ns))"
  by (induction ns arbitrary: i) (simp_all add: parse_index)

lemma dec_of_nat_no: "\<not> c_isdigit d \<Longrightarrow> d \<notin> set (dec_of_nat n)"
  using dec_of_nat_digits by blast

lemma parse_segment:
  assumes "segment_ok seg"
  shows "ten_value_path_parse_between_colon (render_segment seg) = Some (Some (segment_items seg))"
proof -
  have "ten_c_string_split (render_segment seg) CHR ''['' =
      fst seg # map (\<lambda>n. dec_of_nat n @ '']'') (snd seg)"
    unfolding render_segment_def
    using assms by (intro split_join) (auto simp: segment_ok_def dec_of_nat_no c_isdigit_def)
  with assms show ?thesis
    by (simp add: ten_value_path_parse_between_colon_def segment_ok_def segment_items_def
          parse_indices ten_value_path_parse_between_bracket_def)
qed

lemma parse_segments:
  "\<forall>seg \<in> set segs. segment_ok seg \<Longrightarrow>
   parse_colons (map render_segment segs) = Some (Some (concat (map segment_items segs)))"
  by (induction segs) (simp_all add: parse_segment)

lemma render_segment_chars:
  assumes "segment_ok seg"
  shows "render_segment seg \<noteq> []" and "CHR ''.'' \<notin> set (render_segment seg)"
  using assms by (auto simp: segment_ok_def render_segment_def dec_of_nat_no c_isdigit_def)

lemma parse_render:
  assumes "segs \<noteq> []" and "\<forall>seg \<in> set segs. segment_ok seg"
  shows "ten_value_path_parse (render_path segs) err = Some (Some (concat (map segment_items segs)), err)"
proof -
  have "ten_c_string_split (render_path segs) CHR ''.'' = map render_segment segs"
    unfolding render_path_def
    using assms(2) by (intro split_join) (auto dest: render_segment_chars)
  moreover have "render_path segs \<noteq> []"
    using assms render_segment_chars(1) by (cases segs) (auto simp: render_path_def)
  ultimately show ?thesis using assms(2) by (simp add: ten_value_path_parse_def parse_segments)
qed

section \<open>Properties\<close>

text \<open>
  C35: Parsing a printed path gives its items back, for keys that are not empty and hold
  neither a dot nor an opening bracket, and indices up to the largest \<open>long\<close>.
\<close>

theorem path_parse_roundtrip:
  assumes "segs \<noteq> []" and "\<forall>seg \<in> set segs. segment_ok seg"
  shows "ten_value_path_parse (render_path segs) err =
           Some (Some (concat (map segment_items segs)), err)"
  using assms by (rule parse_render)

theorem path_parse_roundtrip_witness:
  "render_path [(''a'', [3, 0]), (''b'', [])] = ''a[3][0].b'' \<and>
   ten_value_path_parse ''a[3][0].b'' ten_error_init =
     Some (Some [PATH_OBJECT_ITEM ''a'', PATH_ARRAY_ITEM 3, PATH_ARRAY_ITEM 0,
       PATH_OBJECT_ITEM ''b''], ten_error_init)"
proof -
  have r: "render_path [(''a'', [3, 0]), (''b'', [])] = ''a[3][0].b''" by code_simp
  show ?thesis
    using path_parse_roundtrip [of "[(''a'', [3, 0]), (''b'', [])]" ten_error_init]
    by (simp add: r segment_ok_def segment_items_def)
qed

text \<open>
  C31: Setting a value under a path into an object, and then looking the path up, finds the
  value, whatever was there before: missing containers are created, containers of the wrong
  kind are replaced and short arrays are padded.
\<close>

theorem path_set_then_peek:
  assumes "segs \<noteq> []" and "\<forall>seg \<in> set segs. segment_ok seg \<and> plain_key (fst seg)"
  shows "\<exists>base'.
     ten_value_set_from_path_str_with_move (VObject kvs) (render_path segs) v err =
       Some (True, base', err) \<and>
     ten_value_peek_from_path base' (render_path segs) = Some (Inr v)"
proof -
  let ?items = "concat (map segment_items segs)"
  have parse: "ten_value_path_parse (render_path segs) e = Some (Some ?items, e)" for e
    using assms by (intro parse_render) auto
  have "?items \<noteq> [] \<and> item_fits (hd ?items) (VObject kvs)"
    using assms(1) by (cases segs) (auto simp: segment_items_def)
  moreover have "\<forall>item \<in> set ?items. plain_item item"
    using assms(2) by (auto simp: segment_items_def)
  ultimately have "peek_items (snd (set_items (VObject kvs) ?items v)) ?items = Some v"
    by (intro peek_set_items) auto
  then show ?thesis
    by (simp add: ten_value_set_from_path_str_with_move_def parse ten_value_peek_from_path_def
          ten_value_set_from_path_list_with_move_def)
qed

theorem path_set_then_peek_witness:
  "\<exists>base'.
     ten_value_set_from_path_str_with_move (VObject []) ''a[2].b'' VNull ten_error_init =
       Some (True, base', ten_error_init) \<and>
     ten_value_peek_from_path base' ''a[2].b'' = Some (Inr VNull)"
proof -
  have "render_path [(''a'', [2]), (''b'', [])] = ''a[2].b''" by code_simp
  then show ?thesis
    using path_set_then_peek [of "[(''a'', [2]), (''b'', [])]" "[]" VNull ten_error_init]
    by (simp add: segment_ok_def plain_key_def)
qed

text \<open>
  A path into a value that is no object changes nothing, and the update still reports
  success and sets no error.
\<close>

lemma path_set_misfit_reports_success:
  assumes "segs \<noteq> []" and "\<forall>seg \<in> set segs. segment_ok seg" and "\<not> ten_value_is_object base"
  shows "ten_value_set_from_path_str_with_move base (render_path segs) v err =
           Some (True, base, err)"
proof -
  let ?items = "concat (map segment_items segs)"
  have "?items \<noteq> [] \<and> \<not> item_fits (hd ?items) base"
    using assms(1,3) by (cases segs) (auto simp: segment_items_def)
  then have "set_items base ?items v = (False, base)" by (intro set_items_misfit) auto
  then show ?thesis
    by (simp add: ten_value_set_from_path_str_with_move_def parse_render [OF assms(1,2)]
          ten_value_set_from_path_list_with_move_def)
qed

text \<open>
  C39: A key that is not found on the way does not end a lookup. The loop goes on with the
  next item on the same object, so the path \<open>missing.b\<close> finds what the object has
  under \<open>b\<close>.
\<close>

theorem path_peek_skips_missing_key:
  assumes "alist_peek ''missing'' kvs = None" and "alist_peek ''b'' kvs = Some v"
  shows "ten_value_peek_from_path (VObject kvs) ''missing.b'' = Some (Inr v)"
proof -
  have "render_path [(''missing'', []), (''b'', [])] = ''missing.b''" by code_simp
  then have "ten_value_path_parse ''missing.b'' e =
      Some (Some [PATH_OBJECT_ITEM ''missing'', PATH_OBJECT_ITEM ''b''], e)" for e
    using parse_render [of "[(''missing'', []), (''b'', [])]" e]
    by (simp add: segment_ok_def segment_items_def)
  with assms show ?thesis by (simp add: ten_value_peek_from_path_def)
qed

theorem path_peek_skips_missing_key_witness:
  "ten_value_peek_from_path (VObject [(''b'', VInt8 1)]) ''missing.b'' = Some (Inr (VInt8 1))"
  by (rule path_peek_skips_missing_key) simp_all

end
