(* ===== verification/Ten_Schema.thy ===== *)
theory Ten_Schema
  imports Value_Object
begin

text \<open>
  Schemas (core/src/ten_utils/schema/schema.c and keywords/): creation from a value,
  validation of a value, adjustment of the number types in a value, and compatibility of a
  source schema with a target schema.

  A schema is the list of its keywords in the order of the hash table, which is the order
  in which they were added; keys are taken to be distinct, as they are in a parsed JSON
  object. The caches of keywords in the schema structures are the keywords themselves.

  Where only an assertion stands between a NULL keyword, or a keyword on a schema of the
  wrong kind, and its use, the result is the outer \<open>None\<close>.
\<close>

section \<open>The data\<close>

datatype ten_schema = Schema "ten_schema_keyword list"
  and ten_schema_keyword =
    Kw_type ten_type
  | Kw_properties "(string \<times> ten_schema) list"
  | Kw_items ten_schema
  | Kw_required "string list"

text \<open>The keyword tags, ordered as in the enumeration.\<close>

datatype TEN_SCHEMA_KEYWORD =
    TEN_SCHEMA_KEYWORD_TYPE
  | TEN_SCHEMA_KEYWORD_PROPERTIES
  | TEN_SCHEMA_KEYWORD_ITEMS
  | TEN_SCHEMA_KEYWORD_REQUIRED

fun keyword_rank :: "TEN_SCHEMA_KEYWORD \<Rightarrow> nat" where
  "keyword_rank TEN_SCHEMA_KEYWORD_TYPE = 1"
| "keyword_rank TEN_SCHEMA_KEYWORD_PROPERTIES = 2"
| "keyword_rank TEN_SCHEMA_KEYWORD_ITEMS = 3"
| "keyword_rank TEN_SCHEMA_KEYWORD_REQUIRED = 4"

lemma keyword_rank_inj: "keyword_rank a = keyword_rank b \<Longrightarrow> a = b"
  by (cases a; cases b; simp)

instantiation TEN_SCHEMA_KEYWORD :: linorder
begin

definition less_eq_TEN_SCHEMA_KEYWORD :: "TEN_SCHEMA_KEYWORD \<Rightarrow> TEN_SCHEMA_KEYWORD \<Rightarrow> bool" where
  "less_eq_TEN_SCHEMA_KEYWORD a b \<longleftrightarrow> keyword_rank a \<le> keyword_rank b"

definition less_TEN_SCHEMA_KEYWORD :: "TEN_SCHEMA_KEYWORD \<Rightarrow> TEN_SCHEMA_KEYWORD \<Rightarrow> bool" where
  "less_TEN_SCHEMA_KEYWORD a b \<longleftrightarrow> keyword_rank a < keyword_rank b"

instance
  by standard
     (auto simp: less_eq_TEN_SCHEMA_KEYWORD_def less_TEN_SCHEMA_KEYWORD_def
        intro: keyword_rank_inj)

end

text \<open>The loop of the compatibility check runs over the tags from the first to the last.\<close>

definition ten_schema_keywords :: "TEN_SCHEMA_KEYWORD list" where
  "ten_schema_keywords =
     [TEN_SCHEMA_KEYWORD_TYPE, TEN_SCHEMA_KEYWORD_PROPERTIES, TEN_SCHEMA_KEYWORD_ITEMS,
      TEN_SCHEMA_KEYWORD_REQUIRED]"

lemma ten_schema_keywords_sorted: "sorted ten_schema_keywords \<and> tag \<in> set ten_schema_keywords"
  by (cases tag)
     (simp_all add: ten_schema_keywords_def less_eq_TEN_SCHEMA_KEYWORD_def)

fun keyword_tag :: "ten_schema_keyword \<Rightarrow> TEN_SCHEMA_KEYWORD" where
  "keyword_tag (Kw_type _) = TEN_SCHEMA_KEYWORD_TYPE"
| "keyword_tag (Kw_properties _) = TEN_SCHEMA_KEYWORD_PROPERTIES"
| "keyword_tag (Kw_items _) = TEN_SCHEMA_KEYWORD_ITEMS"
| "keyword_tag (Kw_required _) = TEN_SCHEMA_KEYWORD_REQUIRED"

definition ten_schema_peek_keyword_by_type ::
  "ten_schema_keyword list \<Rightarrow> TEN_SCHEMA_KEYWORD \<Rightarrow> ten_schema_keyword option"
where
  "ten_schema_peek_keyword_by_type kws tag = List.find (\<lambda>kw. keyword_tag kw = tag) kws"

lemma peek_keyword_size:
  "ten_schema_peek_keyword_by_type kws tag = Some kw \<Longrightarrow> size kw < size_list size kws"
  by (induction kws) (auto simp: ten_schema_peek_keyword_by_type_def split: if_splits)

record ten_schema_error =
  se_err :: ten_error
  se_path :: string

definition ten_schema_error_init :: "ten_error \<Rightarrow> ten_schema_error" where
  "ten_schema_error_init err = \<lparr>se_err = err, se_path = []\<rparr>"

definition ten_schema_error_reset :: "ten_schema_error \<Rightarrow> ten_schema_error" where
  "ten_schema_error_reset e = \<lparr>se_err = ten_error_reset (se_err e), se_path = []\<rparr>"

abbreviation fail_with :: "ten_schema_error \<Rightarrow> string \<Rightarrow> ten_schema_error" where
  "fail_with e msg \<equiv> e\<lparr>se_err := ten_error_set (se_err e) TEN_ERRNO_GENERIC msg\<rparr>"

abbreviation prepend_path :: "ten_schema_error \<Rightarrow> string \<Rightarrow> ten_schema_error" where
  "prepend_path e p \<equiv> e\<lparr>se_path := p @ se_path e\<rparr>"

definition index_path :: "nat \<Rightarrow> string" where
  "index_path i = ''['' @ dec_of_nat i @ '']''"

section \<open>Creation\<close>

text \<open>
  The type decides which structure is allocated; a keyword is stored through a cast of it.
  The inner \<open>None\<close> is the NULL result for a missing or unknown type; a value that is no
  object has no type.
\<close>

fun required_names :: "ten_value list \<Rightarrow> string list option" where
  "required_names [] = Some []"
| "required_names (v # vs) =
     (case v of VString s \<Rightarrow> map_option (\<lambda>ss. s # ss) (required_names vs) | _ \<Rightarrow> None)"

function ten_schema_create_from_value :: "ten_value \<Rightarrow> ten_schema option option"
  and create_keywords :: "ten_type \<Rightarrow> ten_value_kv list \<Rightarrow> ten_schema_keyword list option"
  and create_keyword :: "ten_type \<Rightarrow> string \<Rightarrow> ten_value \<Rightarrow> ten_schema_keyword option"
  and create_properties :: "ten_value_kv list \<Rightarrow> (string \<times> ten_schema) list option"
where
  "ten_schema_create_from_value v =
     (case v of
        VObject kvs \<Rightarrow>
          (case ten_value_object_peek_string v ''type'' of
             None \<Rightarrow> Some None
           | Some name \<Rightarrow>
               if ten_type_from_string name \<in> {TEN_TYPE_INVALID, TEN_TYPE_NULL} then Some None
               else map_option (\<lambda>kws. Some (Schema kws))
                      (create_keywords (ten_type_from_string name) kvs))
      | _ \<Rightarrow> Some None)"
| "create_keywords ty [] = Some []"
| "create_keywords ty ((k, v) # kvs) =
     (case create_keyword ty k v of
        None \<Rightarrow> None
      | Some kw \<Rightarrow> map_option (\<lambda>kws. kw # kws) (create_keywords ty kvs))"
| "create_keyword ty k v =
     (if k = ''type'' then
        (case v of
           VString s \<Rightarrow>
             if ten_type_from_string s = TEN_TYPE_INVALID then None
             else Some (Kw_type (ten_type_from_string s))
         | _ \<Rightarrow> None)
      else if k = ''properties'' then
        (case v of
           VObject members \<Rightarrow>
             if ty = TEN_TYPE_OBJECT then map_option Kw_properties (create_properties members)
             else None
         | _ \<Rightarrow> None)
      else if k = ''items'' then
        (case v of
           VObject members \<Rightarrow>
             if ty = TEN_TYPE_ARRAY then
               (case ten_schema_create_from_value v of
                  Some (Some s) \<Rightarrow> Some (Kw_items s)
                | _ \<Rightarrow> None)
             else None
         | _ \<Rightarrow> None)
      else if k = ''required'' then
        (case v of
           VArray vs \<Rightarrow>
             if ty = TEN_TYPE_OBJECT then
               (case required_names vs of
                  Some names \<Rightarrow> if names = [] then None else Some (Kw_required names)
                | None \<Rightarrow> None)
             else None
         | _ \<Rightarrow> None)
      else None)"
| "create_properties [] = Some []"
| "create_properties ((k, v) # kvs) =
     (case ten_schema_create_from_value v of
        Some (Some s) \<Rightarrow> map_option (\<lambda>ps. (k, s) # ps) (create_properties kvs)
      | _ \<Rightarrow> None)"
  by pat_completeness auto
termination
  by (relation "measures
        [\<lambda>x. case x of
               Inl (Inl v) \<Rightarrow> size v
             | Inl (Inr (ty, kvs)) \<Rightarrow> kvs_size kvs
             | Inr (Inl (ty, k, v)) \<Rightarrow> size v
             | Inr (Inr kvs) \<Rightarrow> kvs_size kvs,
         \<lambda>x. case x of Inr (Inl _) \<Rightarrow> 1 | _ \<Rightarrow> 0]") auto

declare ten_schema_create_from_value.simps [simp del]
declare create_keyword.simps [simp del]

abbreviation props_size :: "(string \<times> ten_schema) list \<Rightarrow> nat" where
  "props_size \<equiv> size_list (size_prod (\<lambda>_. 0) size)"

lemma peek_schema_size: "alist_peek k ps = Some s \<Longrightarrow> size s < props_size ps"
  by (induction ps) (auto split: if_splits)

section \<open>Validation\<close>

definition expected_object :: "ten_value \<Rightarrow> string" where
  "expected_object v =
     ''the value should be an object, but is: '' @ ten_type_to_string (ten_value_get_type v)"

definition expected_array :: "ten_value \<Rightarrow> string" where
  "expected_array v =
     ''the value should be an array, but is: '' @ ten_type_to_string (ten_value_get_type v)"

definition ten_schema_keyword_type_validate_value ::
  "ten_type \<Rightarrow> ten_value \<Rightarrow> ten_schema_error \<Rightarrow> bool \<times> ten_schema_error"
where
  "ten_schema_keyword_type_validate_value ty v e =
     (if \<not> ten_type_is_compatible (ten_value_get_type v) ty then
        (False, fail_with e
           (''the value type does not match the schema type, given: '' @
            ten_type_to_string (ten_value_get_type v) @ '', expected: '' @ ten_type_to_string ty))
      else (True, e))"

text \<open>The text of the absent keys: all but the last property end in a comma.\<close>

fun absent_keys :: "ten_value \<Rightarrow> string list \<Rightarrow> string" where
  "absent_keys v [] = []"
| "absent_keys v (p # ps) =
     (if ten_value_object_peek v p = None then
        (if ps = [] then CHR 0x27 # p @ [CHR 0x27] else CHR 0x27 # p @ CHR 0x27 # '', '')
      else []) @ absent_keys v ps"

definition ten_schema_keyword_required_validate_value ::
  "string list \<Rightarrow> ten_value \<Rightarrow> ten_schema_error \<Rightarrow> bool \<times> ten_schema_error"
where
  "ten_schema_keyword_required_validate_value ps v e =
     (if \<not> ten_value_is_object v then (False, fail_with e ''the value should be an object'')
      else if ps = [] then (False, e)
      else if absent_keys v ps \<noteq> [] then
        (False, fail_with e (''the required properties are absent: '' @ absent_keys v ps))
      else (True, e))"

function ten_schema_validate_value_with_schema_error ::
    "ten_schema \<Rightarrow> ten_value \<Rightarrow> ten_schema_error \<Rightarrow> bool \<times> ten_schema_error"
  and validate_keywords ::
    "ten_schema_keyword list \<Rightarrow> ten_value \<Rightarrow> ten_schema_error \<Rightarrow> bool \<times> ten_schema_error"
  and keyword_validate_value ::
    "ten_schema_keyword \<Rightarrow> ten_value \<Rightarrow> ten_schema_error \<Rightarrow> bool \<times> ten_schema_error"
  and validate_properties ::
    "(string \<times> ten_schema) list \<Rightarrow> ten_value_kv list \<Rightarrow> ten_schema_error \<Rightarrow> bool \<times> ten_schema_error"
  and validate_items ::
    "ten_schema \<Rightarrow> nat \<Rightarrow> ten_value list \<Rightarrow> ten_schema_error \<Rightarrow> bool \<times> ten_schema_error"
where
  "ten_schema_validate_value_with_schema_error (Schema kws) v e = validate_keywords kws v e"
| "validate_keywords [] v e = (True, e)"
| "validate_keywords (kw # kws) v e =
     (case keyword_validate_value kw v e of
        (success, e') \<Rightarrow> if \<not> success then (False, e') else validate_keywords kws v e')"
| "keyword_validate_value (Kw_type ty) v e = ten_schema_keyword_type_validate_value ty v e"
| "keyword_validate_value (Kw_required ps) v e = ten_schema_keyword_required_validate_value ps v e"
| "keyword_validate_value (Kw_properties ps) v e =
     (case v of
        VObject kvs \<Rightarrow> validate_properties ps kvs e
      | _ \<Rightarrow> (False, fail_with e (expected_object v)))"
| "keyword_validate_value (Kw_items s) v e =
     (case v of
        VArray vs \<Rightarrow> validate_items s 0 vs e
      | _ \<Rightarrow> (False, fail_with e (expected_array v)))"
| "validate_properties ps [] e = (True, e)"
| "validate_properties ps ((k, x) # kvs) e =
     (case alist_peek k ps of
        None \<Rightarrow> validate_properties ps kvs e
      | Some s \<Rightarrow>
          (case ten_schema_validate_value_with_schema_error s x e of
             (success, e') \<Rightarrow>
               if \<not> success then (False, prepend_path e' (''.'' @ k))
               else validate_properties ps kvs e'))"
| "validate_items s i [] e = (True, e)"
| "validate_items s i (x # xs) e =
     (case ten_schema_validate_value_with_schema_error s x e of
        (success, e') \<Rightarrow>
          if \<not> success then (False, prepend_path e' (index_path i))
          else validate_items s (Suc i) xs e')"
  by pat_completeness auto
termination
  by (relation "measures
        [\<lambda>x. case x of
               Inl (Inl (s, v, e)) \<Rightarrow> size s
             | Inl (Inr (kws, v, e)) \<Rightarrow> size_list size kws
             | Inr (Inl (kw, v, e)) \<Rightarrow> size kw
             | Inr (Inr (Inl (ps, kvs, e))) \<Rightarrow> props_size ps
             | Inr (Inr (Inr (s, i, vs, e))) \<Rightarrow> size s,
         \<lambda>x. case x of
               Inl _ \<Rightarrow> 0
             | Inr (Inl _) \<Rightarrow> 0
             | Inr (Inr (Inl (ps, kvs, e))) \<Rightarrow> Suc (length kvs)
             | Inr (Inr (Inr (s, i, vs, e))) \<Rightarrow> Suc (length vs)]")
     (auto dest: peek_schema_size)

text \<open>The caller's error gets the path in front of its message. A NULL value is \<open>None\<close>.\<close>

definition with_path :: "bool \<times> ten_schema_error \<Rightarrow> bool \<times> ten_error" where
  "with_path r =
     (case r of (result, e) \<Rightarrow>
        (result,
         if \<not> result \<and> se_path e \<noteq> [] then ten_error_prepend_errmsg (se_err e) (se_path e @ '': '')
         else se_err e))"

definition ten_schema_validate_value ::
  "ten_schema \<Rightarrow> ten_value option \<Rightarrow> ten_error \<Rightarrow> bool \<times> ten_error"
where
  "ten_schema_validate_value self v err =
     (case v of
        None \<Rightarrow> (False, ten_error_set err TEN_ERRNO_GENERIC ''Value is required.'')
      | Some x \<Rightarrow>
          with_path (ten_schema_validate_value_with_schema_error self x (ten_schema_error_init err)))"

section \<open>Adjustment\<close>

text \<open>
  The number types of the value are converted to those of the schema, in place: a failure
  leaves what was converted before it.
\<close>

definition ten_schema_keyword_type_adjust_value ::
  "c_target \<Rightarrow> ten_type \<Rightarrow> ten_value \<Rightarrow> ten_schema_error \<Rightarrow> bool \<times> ten_value \<times> ten_schema_error"
where
  "ten_schema_keyword_type_adjust_value tg ty v e =
     (if ten_value_get_type v = ty then (True, v, e)
      else
        case (case ty of
                TEN_TYPE_INT8 \<Rightarrow> ten_value_convert_to_int8 v
              | TEN_TYPE_INT16 \<Rightarrow> ten_value_convert_to_int16 v
              | TEN_TYPE_INT32 \<Rightarrow> ten_value_convert_to_int32 v
              | TEN_TYPE_INT64 \<Rightarrow> ten_value_convert_to_int64 v
              | TEN_TYPE_UINT8 \<Rightarrow> ten_value_convert_to_uint8 v
              | TEN_TYPE_UINT16 \<Rightarrow> ten_value_convert_to_uint16 v
              | TEN_TYPE_UINT32 \<Rightarrow> ten_value_convert_to_uint32 v
              | TEN_TYPE_UINT64 \<Rightarrow> ten_value_convert_to_uint64 v
              | TEN_TYPE_FLOAT32 \<Rightarrow> ten_value_convert_to_float32 tg v
              | TEN_TYPE_FLOAT64 \<Rightarrow> ten_value_convert_to_float64 tg v
              | _ \<Rightarrow> Inl (unsupported_conversion v (ten_type_to_string ty))) of
          Inl err \<Rightarrow> (False, v, e\<lparr>se_err := err\<rparr>)
        | Inr w \<Rightarrow> (True, w, e))"

function ten_schema_adjust_value_type_with_schema_error ::
    "c_target \<Rightarrow> ten_schema \<Rightarrow> ten_value \<Rightarrow> ten_schema_error \<Rightarrow>
     bool \<times> ten_value \<times> ten_schema_error"
  and adjust_keywords ::
    "c_target \<Rightarrow> ten_schema_keyword list \<Rightarrow> ten_value \<Rightarrow> ten_schema_error \<Rightarrow>
     bool \<times> ten_value \<times> ten_schema_error"
  and keyword_adjust_value ::
    "c_target \<Rightarrow> ten_schema_keyword \<Rightarrow> ten_value \<Rightarrow> ten_schema_error \<Rightarrow>
     bool \<times> ten_value \<times> ten_schema_error"
  and adjust_properties ::
    "c_target \<Rightarrow> (string \<times> ten_schema) list \<Rightarrow> ten_value_kv list \<Rightarrow> ten_schema_error \<Rightarrow>
     bool \<times> ten_value_kv list \<times> ten_schema_error"
  and adjust_items ::
    "c_target \<Rightarrow> ten_schema \<Rightarrow> nat \<Rightarrow> ten_value list \<Rightarrow> ten_schema_error \<Rightarrow>
     bool \<times> ten_value list \<times> ten_schema_error"
where
  "ten_schema_adjust_value_type_with_schema_error tg (Schema kws) v e = adjust_keywords tg kws v e"
| "adjust_keywords tg [] v e = (True, v, e)"
| "adjust_keywords tg (kw # kws) v e =
     (case keyword_adjust_value tg kw v e of
        (success, v', e') \<Rightarrow>
          if \<not> success then (False, v', e') else adjust_keywords tg kws v' e')"
| "keyword_adjust_value tg (Kw_type ty) v e = ten_schema_keyword_type_adjust_value tg ty v e"
| "keyword_adjust_value tg (Kw_required ps) v e = (True, v, e)"
| "keyword_adjust_value tg (Kw_properties ps) v e =
     (case v of
        VObject kvs \<Rightarrow>
          (case adjust_properties tg ps kvs e of
             (success, kvs', e') \<Rightarrow> (success, VObject kvs', e'))
      | _ \<Rightarrow> (False, v, fail_with e (expected_object v)))"
| "keyword_adjust_value tg (Kw_items s) v e =
     (case v of
        VArray vs \<Rightarrow>
          (case adjust_items tg s 0 vs e of (success, vs', e') \<Rightarrow> (success, VArray vs', e'))
      | _ \<Rightarrow> (False, v, fail_with e (expected_array v)))"
| "adjust_properties tg ps [] e = (True, [], e)"
| "adjust_properties tg ps ((k, x) # kvs) e =
     (case alist_peek k ps of
        None \<Rightarrow>
          (case adjust_properties tg ps kvs e of
             (success, kvs', e') \<Rightarrow> (success, (k, x) # kvs', e'))
      | Some s \<Rightarrow>
          (case ten_schema_adjust_value_type_with_schema_error tg s x e of
             (success, x', e') \<Rightarrow>
               if \<not> success then (False, (k, x') # kvs, prepend_path e' (''.'' @ k))
               else (case adjust_properties tg ps kvs e' of
                       (success', kvs', e'') \<Rightarrow> (success', (k, x') # kvs', e''))))"
| "adjust_items tg s i [] e = (True, [], e)"
| "adjust_items tg s i (x # xs) e =
     (case ten_schema_adjust_value_type_with_schema_error tg s x e of
        (success, x', e') \<Rightarrow>
          if \<not> success then (False, x' # xs, prepend_path e' (index_path i))
          else (case adjust_items tg s (Suc i) xs e' of
                  (success', xs', e'') \<Rightarrow> (success', x' # xs', e'')))"
  by pat_completeness auto
termination
  by (relation "measures
        [\<lambda>x. case x of
               Inl (Inl (tg, s, v, e)) \<Rightarrow> size s
             | Inl (Inr (tg, kws, v, e)) \<Rightarrow> size_list size kws
             | Inr (Inl (tg, kw, v, e)) \<Rightarrow> size kw
             | Inr (Inr (Inl (tg, ps, kvs, e))) \<Rightarrow> props_size ps
             | Inr (Inr (Inr (tg, s, i, vs, e))) \<Rightarrow> size s,
         \<lambda>x. case x of
               Inl _ \<Rightarrow> 0
             | Inr (Inl _) \<Rightarrow> 0
             | Inr (Inr (Inl (tg, ps, kvs, e))) \<Rightarrow> Suc (length kvs)
             | Inr (Inr (Inr (tg, s, i, vs, e))) \<Rightarrow> Suc (length vs)]")
     (auto dest: peek_schema_size)

definition ten_schema_adjust_value_type ::
  "c_target \<Rightarrow> ten_schema \<Rightarrow> ten_value option \<Rightarrow> ten_error \<Rightarrow> bool \<times> ten_value option \<times> ten_error"
where
  "ten_schema_adjust_value_type tg self v err =
     (case v of
        None \<Rightarrow> (False, None, ten_error_set err TEN_ERRNO_GENERIC ''Value is required.'')
      | Some x \<Rightarrow>
          (case ten_schema_adjust_value_type_with_schema_error tg self x (ten_schema_error_init err) of
             (result, x', e) \<Rightarrow>
               (case with_path (result, e) of (r, err') \<Rightarrow> (r, Some x', err'))))"

section \<open>Compatibility\<close>

definition ten_schema_keyword_type_is_compatible ::
  "ten_type \<Rightarrow> ten_type \<Rightarrow> ten_schema_error \<Rightarrow> bool \<times> ten_schema_error"
where
  "ten_schema_keyword_type_is_compatible self target e =
     (if ten_type_is_compatible self target then (True, e)
      else (False, fail_with e
              (''type is incompatible, source is ['' @ ten_type_to_string self @
               ''], but target is ['' @ ten_type_to_string target @ '']'')))"

definition missing_keys :: "string list \<Rightarrow> string list \<Rightarrow> string" where
  "missing_keys self target =
     concat (map (\<lambda>p. CHR 0x27 # p @ CHR 0x27 # '', '') (filter (\<lambda>p. p \<notin> set self) target))"

definition ten_schema_keyword_required_is_compatible ::
  "string list option \<Rightarrow> string list option \<Rightarrow> ten_schema_error \<Rightarrow> bool \<times> ten_schema_error"
where
  "ten_schema_keyword_required_is_compatible self target e =
     (case self of
        None \<Rightarrow> (False, fail_with e ''the `required` in the source schema is undefined'')
      | Some ps \<Rightarrow>
          (case target of
             None \<Rightarrow> (True, e)
           | Some qs \<Rightarrow>
               if length ps < length qs then
                 (False, fail_with e (''required is incompatible, the size of the source can not be '' @
                                      ''less than the target.''))
               else if missing_keys ps qs \<noteq> [] then
                 (False, fail_with e
                    (''required is incompatible, the properties ['' @ missing_keys ps qs @
                     ''] are defined in the source but not in the target''))
               else (True, e)))"

text \<open>
  The loop over the properties of the source collects the text of the incompatible ones and
  resets the error after each comparison. A NULL target is used for each property.
\<close>

function ten_schema_is_compatible_with_schema_error ::
    "ten_schema \<Rightarrow> ten_schema \<Rightarrow> ten_schema_error \<Rightarrow> (bool \<times> ten_schema_error) option"
  and compatible_keywords ::
    "TEN_SCHEMA_KEYWORD list \<Rightarrow> ten_schema_keyword list \<Rightarrow> ten_schema_keyword list \<Rightarrow>
     ten_schema_error \<Rightarrow> (bool \<times> ten_schema_error) option"
  and keyword_is_compatible ::
    "ten_schema_keyword option \<Rightarrow> ten_schema_keyword option \<Rightarrow> ten_schema_error \<Rightarrow>
     (bool \<times> ten_schema_error) option"
  and compatible_properties ::
    "(string \<times> ten_schema) list \<Rightarrow> (string \<times> ten_schema) list \<Rightarrow> string \<Rightarrow> ten_schema_error \<Rightarrow>
     (string \<times> ten_schema_error) option"
where
  "ten_schema_is_compatible_with_schema_error (Schema ks) (Schema ts) e =
     compatible_keywords ten_schema_keywords ks ts e"
| "compatible_keywords [] ks ts e = Some (True, e)"
| "compatible_keywords (tag # tags) ks ts e =
     (if ten_schema_peek_keyword_by_type ks tag = None \<and>
         ten_schema_peek_keyword_by_type ts tag = None
      then compatible_keywords tags ks ts e
      else case keyword_is_compatible (ten_schema_peek_keyword_by_type ks tag)
                  (ten_schema_peek_keyword_by_type ts tag) e of
             None \<Rightarrow> None
           | Some (result, e') \<Rightarrow>
               if \<not> result then Some (False, e') else compatible_keywords tags ks ts e')"
| "keyword_is_compatible self target e =
     (case (self, target) of
        (Some (Kw_type a), Some (Kw_type b)) \<Rightarrow> Some (ten_schema_keyword_type_is_compatible a b e)
      | (Some (Kw_required ps), None) \<Rightarrow>
          Some (ten_schema_keyword_required_is_compatible (Some ps) None e)
      | (None, Some (Kw_required qs)) \<Rightarrow>
          Some (ten_schema_keyword_required_is_compatible None (Some qs) e)
      | (Some (Kw_required ps), Some (Kw_required qs)) \<Rightarrow>
          Some (ten_schema_keyword_required_is_compatible (Some ps) (Some qs) e)
      | (Some (Kw_items s), Some (Kw_items t)) \<Rightarrow>
          (case ten_schema_is_compatible_with_schema_error s t e of
             None \<Rightarrow> None
           | Some (success, e') \<Rightarrow>
               Some (success, if \<not> success then prepend_path e' ''[]'' else e'))
      | (Some (Kw_properties ps), Some (Kw_properties qs)) \<Rightarrow>
          (case compatible_properties ps qs [] e of
             None \<Rightarrow> None
           | Some (incompatible_fields, e') \<Rightarrow>
               Some (if incompatible_fields = [] then (True, e')
                     else (False, fail_with e' (''{ '' @ incompatible_fields @ '' }''))))
      | (Some (Kw_properties ps), None) \<Rightarrow> if ps = [] then Some (True, e) else None
      | _ \<Rightarrow> None)"
| "compatible_properties [] qs acc e = Some (acc, e)"
| "compatible_properties ((n, s) # ps) qs acc e =
     (case alist_peek n qs of
        None \<Rightarrow> compatible_properties ps qs acc e
      | Some t \<Rightarrow>
          (case ten_schema_is_compatible_with_schema_error s t e of
             None \<Rightarrow> None
           | Some (success, e') \<Rightarrow>
               compatible_properties ps qs
                 (if success then acc
                  else acc @ (if acc = [] then [] else ''; '') @ ''.'' @ n @ se_path e' @ '': '' @
                       err_msg (se_err e'))
                 (ten_schema_error_reset e')))"
  by pat_completeness auto
termination
  by (relation "measures
        [\<lambda>x. case x of
               Inl (Inl (s, t, e)) \<Rightarrow> size s
             | Inl (Inr (tags, ks, ts, e)) \<Rightarrow> size_list size ks
             | Inr (Inl (self, target, e)) \<Rightarrow> (case self of None \<Rightarrow> 0 | Some kw \<Rightarrow> size kw)
             | Inr (Inr (ps, qs, acc, e)) \<Rightarrow> props_size ps,
         \<lambda>x. case x of
               Inl (Inl _) \<Rightarrow> 0
             | Inl (Inr (tags, ks, ts, e)) \<Rightarrow> Suc (length tags)
             | Inr _ \<Rightarrow> 0]")
     (auto simp: less_eq_Suc_le dest: peek_keyword_size split: option.splits)

definition ten_schema_is_compatible ::
  "ten_schema \<Rightarrow> ten_schema \<Rightarrow> ten_error \<Rightarrow> (bool \<times> ten_error) option"
where
  "ten_schema_is_compatible self target err =
     map_option with_path
       (ten_schema_is_compatible_with_schema_error self target (ten_schema_error_init err))"

section \<open>Schemas and values from JSON text\<close>

text \<open>
  The parser of the JSON library is a parameter: it gives a document or the text of an
  error.
\<close>

definition ten_json_from_string ::
  "(string \<Rightarrow> string + json) \<Rightarrow> string \<Rightarrow> ten_error \<Rightarrow> json option \<times> ten_error"
where
  "ten_json_from_string json_loads msg err =
     (if msg = [] then (None, err)
      else case json_loads msg of
             Inl txt \<Rightarrow> (None, ten_error_set err TEN_ERRNO_INVALID_JSON (msg @ '': '' @ txt))
           | Inr json \<Rightarrow> (Some json, err))"

definition ten_schema_create_from_json :: "json \<Rightarrow> ten_schema option option" where
  "ten_schema_create_from_json json = ten_schema_create_from_value (ten_value_from_json json)"

text \<open>The second component is what is written to \<open>err_msg\<close>, if anything is.\<close>

definition ten_schema_create_from_json_string ::
  "(string \<Rightarrow> string + json) \<Rightarrow> string \<Rightarrow> (ten_schema option \<times> string option) option"
where
  "ten_schema_create_from_json_string json_loads json_string =
     (case ten_json_from_string json_loads json_string ten_error_init of
        (json, err) \<Rightarrow>
          (case (case json of
                   None \<Rightarrow> Some (None, err)
                 | Some j \<Rightarrow>
                     if \<not> ten_json_is_object j then
                       Some (None, ten_error_set err TEN_ERRNO_GENERIC ''Invalid schema json.'')
                     else map_option (\<lambda>schema. (schema, err)) (ten_schema_create_from_json j)) of
             None \<Rightarrow> None
           | Some (schema, err') \<Rightarrow>
               Some (schema, if \<not> ten_error_is_success err' then Some (err_msg err') else None)))"

definition ten_schema_adjust_and_validate_json_string ::
  "c_target \<Rightarrow> (string \<Rightarrow> string + json) \<Rightarrow> ten_schema \<Rightarrow> string \<Rightarrow> bool \<times> string option"
where
  "ten_schema_adjust_and_validate_json_string tg json_loads self json_string =
     (let err =
        (case ten_json_from_string json_loads json_string ten_error_init of
           (None, err) \<Rightarrow> err
         | (Some json, err) \<Rightarrow>
             (case ten_schema_adjust_value_type tg self (Some (ten_value_from_json json)) err of
                (adjusted, value, err') \<Rightarrow>
                  if \<not> adjusted then err' else snd (ten_schema_validate_value self value err')))
      in if ten_error_is_success err then (True, None) else (False, Some (err_msg err)))"

end
