(* ===== verification/Schema_Value.thy ===== *)
theory Schema_Value
  imports Ten_Schema
begin

text \<open>
  What a schema means for a value: validation decides conformance, well-formed schemas, and
  adjustment, which makes the number types exact and then changes nothing more.
\<close>

section \<open>What a schema means\<close>

text \<open>
  The reference for validation: a value conforms to a schema when it conforms to each of
  its keywords. The test of the types and whether the required properties count are
  parameters.
\<close>

function conforms_with :: "(ten_type \<Rightarrow> ten_type \<Rightarrow> bool) \<Rightarrow> bool \<Rightarrow> ten_schema \<Rightarrow> ten_value \<Rightarrow> bool"
  and keyword_conforms ::
    "(ten_type \<Rightarrow> ten_type \<Rightarrow> bool) \<Rightarrow> bool \<Rightarrow> ten_schema_keyword \<Rightarrow> ten_value \<Rightarrow> bool"
where
  "conforms_with tc rq (Schema kws) v \<longleftrightarrow> (\<forall>kw \<in> set kws. keyword_conforms tc rq kw v)"
| "keyword_conforms tc rq (Kw_type ty) v \<longleftrightarrow> tc (ten_value_get_type v) ty"
| "keyword_conforms tc rq (Kw_required ps) v \<longleftrightarrow>
     (rq \<longrightarrow> ten_value_is_object v \<and> ps \<noteq> [] \<and> (\<forall>p \<in> set ps. ten_value_object_peek v p \<noteq> None))"
| "keyword_conforms tc rq (Kw_properties ps) v \<longleftrightarrow>
     (case v of
        VObject kvs \<Rightarrow>
          (\<forall>(k, x) \<in> set kvs.
             case alist_peek k ps of None \<Rightarrow> True | Some s \<Rightarrow> conforms_with tc rq s x)
      | _ \<Rightarrow> False)"
| "keyword_conforms tc rq (Kw_items s) v \<longleftrightarrow>
     (case v of VArray vs \<Rightarrow> (\<forall>x \<in> set vs. conforms_with tc rq s x) | _ \<Rightarrow> False)"
  by pat_completeness auto
termination
  by (relation "measure (\<lambda>x. case x of
                   Inl (tc, rq, s, v) \<Rightarrow> size s
                 | Inr (tc, rq, kw, v) \<Rightarrow> size kw)")
     (auto simp: less_Suc_eq_le intro: size_list_estimation' dest: peek_schema_size)

abbreviation conforms :: "ten_schema \<Rightarrow> ten_value \<Rightarrow> bool" where
  "conforms \<equiv> conforms_with ten_type_is_compatible True"

lemma absent_keys_empty:
  "absent_keys v ps = [] \<longleftrightarrow> (\<forall>p \<in> set ps. ten_value_object_peek v p \<noteq> None)"
  by (induction ps) auto

lemma validate_conforms:
  "ten_schema_validate_value_with_schema_error s v e = (b, e') \<Longrightarrow>
   b = conforms s v \<and> (b \<longrightarrow> e' = e)"
  "validate_keywords kws v e = (b, e') \<Longrightarrow>
   b = (\<forall>kw \<in> set kws. keyword_conforms ten_type_is_compatible True kw v) \<and> (b \<longrightarrow> e' = e)"
  "keyword_validate_value kw v e = (b, e') \<Longrightarrow>
   b = keyword_conforms ten_type_is_compatible True kw v \<and> (b \<longrightarrow> e' = e)"
  "validate_properties ps kvs e = (b, e') \<Longrightarrow>
   b = (\<forall>(k, x) \<in> set kvs. case alist_peek k ps of None \<Rightarrow> True | Some s \<Rightarrow> conforms s x) \<and>
   (b \<longrightarrow> e' = e)"
  "validate_items s i vs e = (b, e') \<Longrightarrow> b = (\<forall>x \<in> set vs. conforms s x) \<and> (b \<longrightarrow> e' = e)"
proof (induction s v e and kws v e and kw v e and ps kvs e and s i vs e
    arbitrary: b e' and b e' and b e' and b e' and b e'
    rule: ten_schema_validate_value_with_schema_error_validate_keywords_keyword_validate_value_validate_properties_validate_items.induct)
  case (4 ty v e)
  then show ?case by (auto simp: ten_schema_keyword_type_validate_value_def split: if_splits)
next
  case (5 ps v e)
  then show ?case
    by (auto simp: ten_schema_keyword_required_validate_value_def absent_keys_empty split: if_splits)
next
  case (6 ps v e)
  then show ?case by (cases v) auto
next
  case (7 s v e)
  then show ?case by (cases v) auto
next
  case (3 kw kws v e)
  obtain b1 e1 where step: "keyword_validate_value kw v e = (b1, e1)" by fastforce
  show ?case
    using 3(1) [OF step] 3(2) [OF step [symmetric]] 3(3) step by (cases b1) auto
next
  case (9 ps k x kvs e)
  show ?case
  proof (cases "alist_peek k ps")
    case None
    with 9(1) [OF None] 9(4) show ?thesis by auto
  next
    case (Some s)
    obtain b1 e1 where step: "ten_schema_validate_value_with_schema_error s x e = (b1, e1)"
      by fastforce
    show ?thesis
      using 9(2) [OF Some step] 9(3) [OF Some step [symmetric]] 9(4) Some step by (cases b1) auto
  qed
next
  case (11 s i x xs e)
  obtain b1 e1 where step: "ten_schema_validate_value_with_schema_error s x e = (b1, e1)"
    by fastforce
  show ?case
    using 11(1) [OF step] 11(2) [OF step [symmetric]] 11(3) step by (cases b1) auto
qed auto

section \<open>Well-formed schemas\<close>

text \<open>
  No keyword occurs twice, there is a type, and the other keywords are those of a schema
  of that type.
\<close>

fun keyword_fits :: "ten_type \<Rightarrow> ten_schema_keyword \<Rightarrow> bool" where
  "keyword_fits ty (Kw_type t) \<longleftrightarrow> t = ty"
| "keyword_fits ty (Kw_properties ps) \<longleftrightarrow> ty = TEN_TYPE_OBJECT"
| "keyword_fits ty (Kw_items s) \<longleftrightarrow> ty = TEN_TYPE_ARRAY"
| "keyword_fits ty (Kw_required ps) \<longleftrightarrow> ty = TEN_TYPE_OBJECT \<and> ps \<noteq> []"

definition keywords_ok :: "ten_type \<Rightarrow> ten_schema_keyword list \<Rightarrow> bool" where
  "keywords_ok ty kws \<longleftrightarrow>
     ty \<notin> {TEN_TYPE_INVALID, TEN_TYPE_NULL} \<and> distinct (map keyword_tag kws) \<and>
     (\<forall>kw \<in> set kws. keyword_fits ty kw)"

definition schema_type :: "ten_schema_keyword list \<Rightarrow> ten_type" where
  "schema_type kws =
     (case ten_schema_peek_keyword_by_type kws TEN_SCHEMA_KEYWORD_TYPE of
        Some (Kw_type ty) \<Rightarrow> ty
      | _ \<Rightarrow> TEN_TYPE_INVALID)"

function wf_schema :: "ten_schema \<Rightarrow> bool" and wf_keyword :: "ten_schema_keyword \<Rightarrow> bool" where
  "wf_schema (Schema kws) \<longleftrightarrow>
     keywords_ok (schema_type kws) kws \<and> (\<forall>kw \<in> set kws. wf_keyword kw)"
| "wf_keyword (Kw_type ty) \<longleftrightarrow> True"
| "wf_keyword (Kw_required ps) \<longleftrightarrow> True"
| "wf_keyword (Kw_properties ps) \<longleftrightarrow>
     distinct (map fst ps) \<and> (\<forall>(n, s) \<in> set ps. wf_schema s)"
| "wf_keyword (Kw_items s) \<longleftrightarrow> wf_schema s"
  by pat_completeness auto
termination
  by (relation "measure (\<lambda>x. case x of Inl s \<Rightarrow> size s | Inr kw \<Rightarrow> size kw)")
     (auto simp: less_Suc_eq_le intro: size_list_estimation')

abbreviation exact :: "ten_schema \<Rightarrow> ten_value \<Rightarrow> bool" where
  "exact \<equiv> conforms_with (=) False"

abbreviation keyword_exact :: "ten_schema_keyword \<Rightarrow> ten_value \<Rightarrow> bool" where
  "keyword_exact \<equiv> keyword_conforms (=) False"

lemma convert_to_float_type:
  "ten_value_convert_to_float32 tg v = Inr w \<Longrightarrow> ten_value_get_type w = TEN_TYPE_FLOAT32"
  "ten_value_convert_to_float64 tg v = Inr w \<Longrightarrow> ten_value_get_type w = TEN_TYPE_FLOAT64"
  by (cases v; auto simp: ten_value_convert_to_float32_def ten_value_convert_to_float64_def
        Let_def split: if_splits)+

lemmas conversion_types =
  int8_conv.result(1) int16_conv.result(1) int32_conv.result(1) int64_conv.result(1)
  uint8_conv.result(1) uint16_conv.result(1) uint32_conv.result(1) uint64_conv.result(1)
  convert_to_float_type

lemma type_adjust_exact:
  assumes "ten_schema_keyword_type_adjust_value tg ty v e = (True, v', e')"
  shows "ten_value_get_type v' = ty \<and> e' = e \<and>
         (ty \<in> {TEN_TYPE_OBJECT, TEN_TYPE_ARRAY} \<longrightarrow> v' = v)"
  using assms
  by (cases ty)
     (auto simp: ten_schema_keyword_type_adjust_value_def conversion_types
        split: if_splits sum.splits)

lemma peek_in_set: "alist_peek k ps = Some s \<Longrightarrow> (k, s) \<in> set ps"
  by (induction ps) (auto split: if_splits)

lemma keyword_exact_stable:
  assumes "keyword_adjust_value tg kw v e = (True, v', e')"
    and "keyword_fits ty kw" and "keyword_fits ty kw'" and "keyword_tag kw' \<noteq> keyword_tag kw"
    and "keyword_exact kw' v"
  shows "keyword_exact kw' v'"
proof (cases kw)
  case (Kw_type t)
  with assms show ?thesis
    using type_adjust_exact [of tg t v e v' e'] by (cases kw') auto
next
  case (Kw_properties ps)
  with assms show ?thesis by (cases v; cases kw') (auto split: prod.splits)
next
  case (Kw_items s)
  with assms show ?thesis by (cases v; cases kw') (auto split: prod.splits)
next
  case (Kw_required ps)
  with assms show ?thesis by auto
qed

lemma adjust_exact:
  "ten_schema_adjust_value_type_with_schema_error tg s v e = (True, v', e') \<Longrightarrow> wf_schema s \<Longrightarrow>
   exact s v' \<and> e' = e"
  "adjust_keywords tg kws v e = (True, v', e') \<Longrightarrow> keywords_ok ty kws \<Longrightarrow>
   \<forall>kw \<in> set kws. wf_keyword kw \<Longrightarrow>
   (\<forall>kw \<in> set kws. keyword_exact kw v') \<and> e' = e \<and>
   (\<forall>kw. keyword_fits ty kw \<and> keyword_tag kw \<notin> keyword_tag ` set kws \<and> keyword_exact kw v \<longrightarrow>
         keyword_exact kw v')"
  "keyword_adjust_value tg kw v e = (True, v', e') \<Longrightarrow> wf_keyword kw \<Longrightarrow>
   keyword_exact kw v' \<and> e' = e"
  "adjust_properties tg ps kvs e = (True, kvs', e') \<Longrightarrow> \<forall>(n, s) \<in> set ps. wf_schema s \<Longrightarrow>
   (\<forall>(k, x) \<in> set kvs'. case alist_peek k ps of None \<Rightarrow> True | Some s \<Rightarrow> exact s x) \<and> e' = e"
  "adjust_items tg s i vs e = (True, vs', e') \<Longrightarrow> wf_schema s \<Longrightarrow>
   (\<forall>x \<in> set vs'. exact s x) \<and> e' = e"
proof (induction tg s v e and tg kws v e and tg kw v e and tg ps kvs e and tg s i vs e
    arbitrary: v' e' and v' e' ty and v' e' and kvs' e' and vs' e'
    rule: ten_schema_adjust_value_type_with_schema_error_adjust_keywords_keyword_adjust_value_adjust_properties_adjust_items.induct)
  case (1 tg kws v e)
  then have "adjust_keywords tg kws v e = (True, v', e')" and "keywords_ok (schema_type kws) kws"
    by simp_all
  from 1(1) [OF this] 1(3) show ?case by simp
next
  case (3 tg kw kws v e)
  obtain b1 v1 e1 where step: "keyword_adjust_value tg kw v e = (b1, v1, e1)"
    by (metis prod_cases3)
  with 3(3) have b1: "b1" and rest: "adjust_keywords tg kws v1 e1 = (True, v', e')"
    by (auto split: if_splits)
  have ok: "keywords_ok ty kws" using 3(4) by (simp add: keywords_ok_def)
  have kw: "keyword_exact kw v1 \<and> e1 = e" using 3(1) step b1 3(5) by simp
  have tail: "(\<forall>kw \<in> set kws. keyword_exact kw v') \<and> e' = e1 \<and>
      (\<forall>kw. keyword_fits ty kw \<and> keyword_tag kw \<notin> keyword_tag ` set kws \<and> keyword_exact kw v1 \<longrightarrow>
            keyword_exact kw v')"
    using 3(2) [OF step [symmetric] refl _ rest ok] b1 3(5) by simp
  have fits: "keyword_fits ty kw" and new: "keyword_tag kw \<notin> keyword_tag ` set kws"
    using 3(4) by (auto simp: keywords_ok_def)
  have "keyword_exact kw2 v'"
    if "keyword_fits ty kw2" "keyword_tag kw2 \<notin> keyword_tag ` set (kw # kws)" "keyword_exact kw2 v"
    for kw2
    using that tail keyword_exact_stable [of tg kw v e v1 e1 ty kw2] step b1 fits by auto
  with kw tail fits new show ?case by auto
next
  case (4 tg ty v e)
  then show ?case using type_adjust_exact by simp
next
  case (6 tg ps v e)
  then show ?case by (cases v) (auto split: prod.splits)
next
  case (7 tg s v e)
  then show ?case by (cases v) (auto split: prod.splits)
next
  case (9 tg ps k x kvs e)
  show ?case
  proof (cases "alist_peek k ps")
    case None
    with 9(4) obtain kvs1 where rest: "adjust_properties tg ps kvs e = (True, kvs1, e')"
      and kvs': "kvs' = (k, x) # kvs1"
      by (auto split: prod.splits)
    from 9(1) [OF None rest 9(5)] None kvs' show ?thesis by auto
  next
    case (Some s)
    obtain b1 x1 e1 where step:
      "ten_schema_adjust_value_type_with_schema_error tg s x e = (b1, x1, e1)"
      by (metis prod_cases3)
    with 9(4) Some obtain kvs1 where b1: "b1"
      and rest: "adjust_properties tg ps kvs e1 = (True, kvs1, e')" and kvs': "kvs' = (k, x1) # kvs1"
      by (auto split: if_splits prod.splits)
    have "wf_schema s" using 9(5) peek_in_set [OF Some] by auto
    then have "exact s x1 \<and> e1 = e" using 9(2) [OF Some] step b1 by simp
    with 9(3) [OF Some step [symmetric] refl _ rest 9(5)] b1 kvs' Some show ?thesis by auto
  qed
next
  case (11 tg s i x xs e)
  obtain b1 x1 e1 where step:
    "ten_schema_adjust_value_type_with_schema_error tg s x e = (b1, x1, e1)"
    by (metis prod_cases3)
  with 11(3) obtain xs1 where b1: "b1"
    and rest: "adjust_items tg s (Suc i) xs e1 = (True, xs1, e')" and vs': "vs' = x1 # xs1"
    by (auto split: if_splits prod.splits)
  have "exact s x1 \<and> e1 = e" using 11(1) step b1 11(4) by simp
  with 11(2) [OF step [symmetric] refl _ rest 11(4)] b1 vs' show ?case by auto
qed auto

lemma adjust_unchanged:
  "exact s v \<Longrightarrow> ten_schema_adjust_value_type_with_schema_error tg s v e = (True, v, e)"
  "\<forall>kw \<in> set kws. keyword_exact kw v \<Longrightarrow> adjust_keywords tg kws v e = (True, v, e)"
  "keyword_exact kw v \<Longrightarrow> keyword_adjust_value tg kw v e = (True, v, e)"
  "\<forall>(k, x) \<in> set kvs. case alist_peek k ps of None \<Rightarrow> True | Some s \<Rightarrow> exact s x \<Longrightarrow>
   adjust_properties tg ps kvs e = (True, kvs, e)"
  "\<forall>x \<in> set vs. exact s x \<Longrightarrow> adjust_items tg s i vs e = (True, vs, e)"
proof (induction tg s v e and tg kws v e and tg kw v e and tg ps kvs e and tg s i vs e
    rule: ten_schema_adjust_value_type_with_schema_error_adjust_keywords_keyword_adjust_value_adjust_properties_adjust_items.induct)
  case (4 tg ty v e)
  then show ?case by (simp add: ten_schema_keyword_type_adjust_value_def)
next
  case (6 tg ps v e)
  then show ?case by (cases v) auto
next
  case (7 tg s v e)
  then show ?case by (cases v) auto
next
  case (9 tg ps k x kvs e)
  then show ?case by (cases "alist_peek k ps") auto
qed auto

lemma conforms_with_mono:
  "wf_schema s \<Longrightarrow> exact s v \<Longrightarrow> conforms_with ten_type_is_compatible False s v"
  "wf_keyword kw \<Longrightarrow> keyword_fits ty kw \<Longrightarrow> ty \<notin> {TEN_TYPE_INVALID, TEN_TYPE_NULL} \<Longrightarrow>
   keyword_exact kw v \<Longrightarrow> keyword_conforms ten_type_is_compatible False kw v"
proof (induction "(=) :: ten_type \<Rightarrow> ten_type \<Rightarrow> bool" False s v
    and "(=) :: ten_type \<Rightarrow> ten_type \<Rightarrow> bool" False kw v arbitrary: and ty
    rule: conforms_with_keyword_conforms.induct)
  case (1 kws v)
  then show ?case by (auto simp: keywords_ok_def)
next
  case (2 ty v)
  then show ?case by (simp add: ten_type_is_compatible_refl)
next
  case (4 ps v)
  have "wf_schema s" if "alist_peek k ps = Some s" for k s
    using 4(2) peek_in_set [OF that] by auto
  with 4 show ?case by (cases v) (auto split: option.splits)
next
  case (5 s v)
  then show ?case by (cases v) auto
qed auto

text \<open>A failed validation sets the error; only an empty list of required names would not.\<close>

lemma validate_sets_error:
  "ten_schema_validate_value_with_schema_error s v e = (False, e') \<Longrightarrow> wf_schema s \<Longrightarrow>
   err_no (se_err e') = TEN_ERRNO_GENERIC"
  "validate_keywords kws v e = (False, e') \<Longrightarrow>
   \<forall>kw \<in> set kws. wf_keyword kw \<and> kw \<noteq> Kw_required [] \<Longrightarrow>
   err_no (se_err e') = TEN_ERRNO_GENERIC"
  "keyword_validate_value kw v e = (False, e') \<Longrightarrow> wf_keyword kw \<Longrightarrow> kw \<noteq> Kw_required [] \<Longrightarrow>
   err_no (se_err e') = TEN_ERRNO_GENERIC"
  "validate_properties ps kvs e = (False, e') \<Longrightarrow> \<forall>(n, s) \<in> set ps. wf_schema s \<Longrightarrow>
   err_no (se_err e') = TEN_ERRNO_GENERIC"
  "validate_items s i vs e = (False, e') \<Longrightarrow> wf_schema s \<Longrightarrow>
   err_no (se_err e') = TEN_ERRNO_GENERIC"
proof (induction s v e and kws v e and kw v e and ps kvs e and s i vs e
    arbitrary: e' and e' and e' and e' and e'
    rule: ten_schema_validate_value_with_schema_error_validate_keywords_keyword_validate_value_validate_properties_validate_items.induct)
  case (1 kws v e)
  have "\<forall>kw \<in> set kws. wf_keyword kw \<and> kw \<noteq> Kw_required []"
    using 1(3) by (auto simp: keywords_ok_def)
  with 1 show ?case by simp
next
  case (3 kw kws v e)
  obtain b1 e1 where step: "keyword_validate_value kw v e = (b1, e1)" by fastforce
  show ?case
    using 3(1) [of e1] 3(2) [OF step [symmetric]] 3(3,4) step by (cases b1) simp_all
next
  case (4 ty v e)
  then show ?case by (auto simp: ten_schema_keyword_type_validate_value_def split: if_splits)
next
  case (5 ps v e)
  then show ?case
    by (auto simp: ten_schema_keyword_required_validate_value_def split: if_splits)
next
  case (6 ps v e)
  then show ?case by (cases v) auto
next
  case (7 s v e)
  then show ?case by (cases v) auto
next
  case (9 ps k x kvs e)
  show ?case
  proof (cases "alist_peek k ps")
    case None
    with 9(1) [OF None] 9(4,5) show ?thesis by simp
  next
    case (Some s)
    obtain b1 e1 where step: "ten_schema_validate_value_with_schema_error s x e = (b1, e1)"
      by fastforce
    have "wf_schema s" using 9(5) peek_in_set [OF Some] by auto
    then show ?thesis
      using 9(2) [OF Some] 9(3) [OF Some step [symmetric]] 9(4,5) Some step by (cases b1) auto
  qed
next
  case (11 s i x xs e)
  obtain b1 e1 where step: "ten_schema_validate_value_with_schema_error s x e = (b1, e1)"
    by fastforce
  show ?case
    using 11(1) [of e1] 11(2) [OF step [symmetric]] 11(3,4) step by (cases b1) auto
qed simp_all

section \<open>Properties\<close>

lemma with_path_eq:
  "with_path (True, e) = (True, se_err e)"
  "fst (with_path (b, e)) = b"
  "err_no (snd (with_path (b, e))) = err_no (se_err e)"
  by (auto simp: with_path_def ten_error_prepend_errmsg_def)

lemma validated_value:
  assumes "wf_schema s"
  shows "if conforms s v then ten_schema_validate_value s (Some v) err = (True, err)
    else \<exists>err'. ten_schema_validate_value s (Some v) err = (False, err') \<and>
           err_no err' = TEN_ERRNO_GENERIC"
proof -
  obtain b e where run:
    "ten_schema_validate_value_with_schema_error s v (ten_schema_error_init err) = (b, e)"
    by fastforce
  note spec = validate_conforms(1) [OF run]
  have "err_no (se_err e) = TEN_ERRNO_GENERIC" if "\<not> conforms s v"
    using spec that validate_sets_error(1) [of s v "ten_schema_error_init err" e] run assms by simp
  moreover have "ten_schema_validate_value s (Some v) err = (b, snd (with_path (b, e)))"
    using run prod.collapse [of "with_path (b, e)"] with_path_eq(2) [of b e]
    by (simp add: ten_schema_validate_value_def)
  moreover have "with_path (b, e) = (True, err)" if "conforms s v"
    using spec that by (simp add: with_path_eq ten_schema_error_init_def)
  ultimately show ?thesis using spec with_path_eq(3) [of b e] by auto
qed

text \<open>
  C15: Validation implements conformance: it succeeds exactly when the value conforms to the
  schema, at every depth; it then leaves the caller's error alone, and sets it otherwise.
\<close>

theorem validate_refines_conforms:
  assumes "wf_schema s"
  shows "fst (ten_schema_validate_value s (Some v) err) = conforms s v \<and>
         (conforms s v \<longrightarrow> snd (ten_schema_validate_value s (Some v) err) = err) \<and>
         (\<not> conforms s v \<longrightarrow>
            err_no (snd (ten_schema_validate_value s (Some v) err)) = TEN_ERRNO_GENERIC)"
  using validated_value [OF assms, of v err] by (auto split: if_splits)

text \<open>A schema of an object with a required member and an array of numbers.\<close>

definition sample_schema :: ten_schema where
  "sample_schema =
     Schema
       [Kw_type TEN_TYPE_OBJECT,
        Kw_properties
          [(''a'', Schema [Kw_type TEN_TYPE_INT32]),
           (''b'', Schema [Kw_type TEN_TYPE_ARRAY, Kw_items (Schema [Kw_type TEN_TYPE_UINT8])])],
        Kw_required [''a'']]"

lemma sample_schema_wf: "wf_schema sample_schema"
  by (simp add: sample_schema_def keywords_ok_def schema_type_def
        ten_schema_peek_keyword_by_type_def)

theorem validate_refines_conforms_witness:
  "ten_schema_validate_value sample_schema (Some (VObject [(''a'', VInt64 5)])) ten_error_init =
     (True, ten_error_init) \<and>
   fst (ten_schema_validate_value sample_schema
          (Some (VObject [(''b'', VArray [VInt8 1, VBool True])])) ten_error_init) = False"
  using validate_refines_conforms [OF sample_schema_wf, of "VObject [(''a'', VInt64 5)]" ten_error_init]
    validate_refines_conforms [OF sample_schema_wf,
      of "VObject [(''b'', VArray [VInt8 1, VBool True])]" ten_error_init]
  by (auto simp: sample_schema_def ten_value_object_peek_def ten_type_is_compatible_def
        is_integer_type_def prod_eq_iff)

lemma adjusted_value:
  assumes "wf_schema s"
    and "ten_schema_adjust_value_type tg s (Some v) err = (True, Some v', err')"
  shows "err' = err \<and> exact s v' \<and> conforms_with ten_type_is_compatible False s v' \<and>
         ten_schema_adjust_value_type tg s (Some v') err = (True, Some v', err)"
proof -
  from assms(2) obtain e where run:
    "ten_schema_adjust_value_type_with_schema_error tg s v (ten_schema_error_init err) = (True, v', e)"
    and err': "err' = se_err e"
    by (auto simp: ten_schema_adjust_value_type_def with_path_def split: prod.splits)
  from adjust_exact(1) [OF run assms(1)] have "exact s v'" and "e = ten_schema_error_init err"
    by simp_all
  with conforms_with_mono(1) [OF assms(1)] adjust_unchanged(1) [of s v' tg] err' show ?thesis
    by (simp add: ten_schema_adjust_value_type_def with_path_eq ten_schema_error_init_def)
qed

text \<open>
  C17: An adjustment that succeeds leaves the caller's error alone and gives a value whose
  types are exactly those of the schema at every depth, so that it also passes the type
  checks of validation, and a second adjustment changes nothing.
\<close>

theorem adjust_makes_types_exact:
  assumes "wf_schema s"
    and "ten_schema_adjust_value_type tg s (Some v) err = (True, Some v', err')"
  shows "err' = err \<and> exact s v' \<and> conforms_with ten_type_is_compatible False s v' \<and>
         ten_schema_adjust_value_type tg s (Some v') err = (True, Some v', err)"
  by (rule adjusted_value [OF assms])

theorem adjust_makes_types_exact_witness:
  "ten_schema_adjust_value_type saturating_target sample_schema
     (Some (VObject [(''b'', VArray [VInt64 7])])) ten_error_init =
     (True, Some (VObject [(''b'', VArray [VUint8 7])]), ten_error_init) \<and>
   ten_schema_adjust_value_type saturating_target sample_schema
     (Some (VObject [(''b'', VArray [VUint8 7])])) ten_error_init =
     (True, Some (VObject [(''b'', VArray [VUint8 7])]), ten_error_init)"
proof -
  have "ten_schema_adjust_value_type saturating_target sample_schema
     (Some (VObject [(''b'', VArray [VInt64 7])])) ten_error_init =
     (True, Some (VObject [(''b'', VArray [VUint8 7])]), ten_error_init)"
    by code_simp
  with adjust_makes_types_exact [OF sample_schema_wf this] show ?thesis by simp
qed

text \<open>The range of each integer type.\<close>

definition integer_bounds :: "ten_type \<Rightarrow> (int \<times> int) option" where
  "integer_bounds ty =
     (case ty of
        TEN_TYPE_INT8 \<Rightarrow> Some (INT8_MIN, INT8_MAX)
      | TEN_TYPE_INT16 \<Rightarrow> Some (INT16_MIN, INT16_MAX)
      | TEN_TYPE_INT32 \<Rightarrow> Some (INT32_MIN, INT32_MAX)
      | TEN_TYPE_INT64 \<Rightarrow> Some (INT64_MIN, INT64_MAX)
      | TEN_TYPE_UINT8 \<Rightarrow> Some (0, UINT8_MAX)
      | TEN_TYPE_UINT16 \<Rightarrow> Some (0, UINT16_MAX)
      | TEN_TYPE_UINT32 \<Rightarrow> Some (0, UINT32_MAX)
      | TEN_TYPE_UINT64 \<Rightarrow> Some (0, UINT64_MAX)
      | _ \<Rightarrow> None)"

text \<open>One step of the adjustment, for every integer conversion.\<close>

context int_conversion
begin

lemma adjust_step:
  assumes "int_content v = Some i"
    and "step = (if ten_value_get_type v = ty then (True, v, e)
                 else case conv v of
                        Inl err \<Rightarrow> (False, v, e\<lparr>se_err := err\<rparr>)
                      | Inr w \<Rightarrow> (True, w, e))"
  shows "if lo \<le> i \<and> i \<le> hi then
           \<exists>w. step = (True, w, e) \<and> ten_value_get_type w = ty \<and> int_content w = Some i
         else step = (False, v, e\<lparr>se_err := out_of_range (ten_type_to_string ty)\<rparr>)"
proof (cases "lo \<le> i \<and> i \<le> hi")
  case True
  then show ?thesis using conv_in_range [OF assms(1)] assms by auto
next
  case False
  then have "ten_value_get_type v \<noteq> ty" using type_range [of v] assms(1) by auto
  with False show ?thesis using conv_out_of_range [OF assms(1)] assms(2) by auto
qed

end

lemma type_adjust_integer:
  assumes "integer_bounds ty = Some (lo, hi)" and "int_content v = Some i"
  shows "if lo \<le> i \<and> i \<le> hi then
           \<exists>w. ten_schema_keyword_type_adjust_value tg ty v e = (True, w, e) \<and>
               ten_value_get_type w = ty \<and> int_content w = Some i
         else ten_schema_keyword_type_adjust_value tg ty v e =
                (False, v, e\<lparr>se_err := out_of_range (ten_type_to_string ty)\<rparr>)"
  using assms(1) unfolding integer_bounds_def ten_schema_keyword_type_adjust_value_def
  by (cases ty; simp only: ten_type.case option.inject prod.inject option.distinct)
     (elim conjE, hypsubst, rule
        int8_conv.adjust_step [OF assms(2) refl] int16_conv.adjust_step [OF assms(2) refl]
        int32_conv.adjust_step [OF assms(2) refl] int64_conv.adjust_step [OF assms(2) refl]
        uint8_conv.adjust_step [OF assms(2) refl] uint16_conv.adjust_step [OF assms(2) refl]
        uint32_conv.adjust_step [OF assms(2) refl] uint64_conv.adjust_step [OF assms(2) refl])+

text \<open>
  C28: A schema that only names an integer type adjusts an integer value exactly when the
  number fits the type, to that type and the same number; otherwise the value is unchanged
  and the error is set.
\<close>

theorem adjust_integer:
  assumes "integer_bounds ty = Some (lo, hi)" and "int_content v = Some i"
  shows "(if lo \<le> i \<and> i \<le> hi then
            \<exists>w. ten_schema_adjust_value_type tg (Schema [Kw_type ty]) (Some v) err = (True, Some w, err) \<and>
                ten_value_get_type w = ty \<and> int_content w = Some i
          else ten_schema_adjust_value_type tg (Schema [Kw_type ty]) (Some v) err =
                 (False, Some v, out_of_range (ten_type_to_string ty)))"
  using type_adjust_integer [OF assms, of tg "ten_schema_error_init err"]
  by (auto simp: ten_schema_adjust_value_type_def with_path_def ten_schema_error_init_def
      split: if_splits)

theorem adjust_integer_witness:
  "(\<exists>w. ten_schema_adjust_value_type saturating_target (Schema [Kw_type TEN_TYPE_UINT8])
          (Some (VInt64 255)) ten_error_init = (True, Some w, ten_error_init) \<and>
        ten_value_get_type w = TEN_TYPE_UINT8 \<and> int_content w = Some 255) \<and>
   ten_schema_adjust_value_type saturating_target (Schema [Kw_type TEN_TYPE_UINT8])
     (Some (VInt64 256)) ten_error_init =
     (False, Some (VInt64 256), out_of_range (ten_type_to_string TEN_TYPE_UINT8))"
  using adjust_integer [of TEN_TYPE_UINT8 0 UINT8_MAX "VInt64 255" 255 saturating_target ten_error_init]
    adjust_integer [of TEN_TYPE_UINT8 0 UINT8_MAX "VInt64 256" 256 saturating_target ten_error_init]
  by (simp add: integer_bounds_def)

context int_conversion
begin

lemma failure_generic: "conv v = Inl err \<Longrightarrow> err_no err = TEN_ERRNO_GENERIC"
proof (cases "int_content v")
  case None
  then show "conv v = Inl err \<Longrightarrow> ?thesis" by (auto simp: conv_unsupported unsupported_conversion_def)
next
  case (Some i)
  then show "conv v = Inl err \<Longrightarrow> ?thesis"
    using conv_in_range [OF Some] conv_out_of_range [OF Some]
    by (cases "lo \<le> i \<and> i \<le> hi") (auto simp: out_of_range_def)
qed

end

lemma convert_to_float_failure:
  "ten_value_convert_to_float32 tg v = Inl err \<Longrightarrow> err_no err = TEN_ERRNO_GENERIC"
  "ten_value_convert_to_float64 tg v = Inl err \<Longrightarrow> err_no err = TEN_ERRNO_GENERIC"
  by (cases v; auto simp: ten_value_convert_to_float32_def ten_value_convert_to_float64_def
        unsupported_conversion_def out_of_range_def Let_def split: if_splits)+

lemmas conversion_failures =
  int8_conv.failure_generic int16_conv.failure_generic int32_conv.failure_generic
  int64_conv.failure_generic uint8_conv.failure_generic uint16_conv.failure_generic
  uint32_conv.failure_generic uint64_conv.failure_generic convert_to_float_failure

lemma type_adjust_failure:
  "ten_schema_keyword_type_adjust_value tg ty v e = (False, v', e') \<Longrightarrow>
   err_no (se_err e') = TEN_ERRNO_GENERIC"
  by (cases ty)
     (auto simp: ten_schema_keyword_type_adjust_value_def unsupported_conversion_def
        dest: conversion_failures split: if_splits sum.splits)

lemma adjust_sets_error:
  "ten_schema_adjust_value_type_with_schema_error tg s v e = (False, v', e') \<Longrightarrow>
   err_no (se_err e') = TEN_ERRNO_GENERIC"
  "adjust_keywords tg kws v e = (False, v', e') \<Longrightarrow> err_no (se_err e') = TEN_ERRNO_GENERIC"
  "keyword_adjust_value tg kw v e = (False, v', e') \<Longrightarrow> err_no (se_err e') = TEN_ERRNO_GENERIC"
  "adjust_properties tg ps kvs e = (False, kvs', e') \<Longrightarrow> err_no (se_err e') = TEN_ERRNO_GENERIC"
  "adjust_items tg s i vs e = (False, vs', e') \<Longrightarrow> err_no (se_err e') = TEN_ERRNO_GENERIC"
proof (induction tg s v e and tg kws v e and tg kw v e and tg ps kvs e and tg s i vs e
    arbitrary: v' e' and v' e' and v' e' and kvs' e' and vs' e'
    rule: ten_schema_adjust_value_type_with_schema_error_adjust_keywords_keyword_adjust_value_adjust_properties_adjust_items.induct)
  case (3 tg kw kws v e)
  obtain b1 v1 e1 where step: "keyword_adjust_value tg kw v e = (b1, v1, e1)"
    by (metis prod_cases3)
  show ?case using 3(1) [of v1 e1] 3(2) [OF step [symmetric] refl] 3(3) step by (cases b1) auto
next
  case (4 tg ty v e)
  then show ?case by (simp add: type_adjust_failure)
next
  case (6 tg ps v e)
  then show ?case by (cases v) (auto split: prod.splits)
next
  case (7 tg s v e)
  then show ?case by (cases v) (auto split: prod.splits)
next
  case (9 tg ps k x kvs e)
  show ?case
  proof (cases "alist_peek k ps")
    case None
    with 9(1) [OF None] 9(4) show ?thesis by (auto split: prod.splits)
  next
    case (Some s)
    obtain b1 x1 e1 where step:
      "ten_schema_adjust_value_type_with_schema_error tg s x e = (b1, x1, e1)"
      by (metis prod_cases3)
    show ?thesis
      using 9(2) [OF Some] 9(3) [OF Some step [symmetric] refl] 9(4) Some step
      by (cases b1) (auto split: prod.splits)
  qed
next
  case (11 tg s i x xs e)
  obtain b1 x1 e1 where step:
    "ten_schema_adjust_value_type_with_schema_error tg s x e = (b1, x1, e1)"
    by (metis prod_cases3)
  show ?case
    using 11(1) 11(2) [OF step [symmetric] refl] 11(3) step
    by (cases b1) (auto split: prod.splits)
qed simp_all

lemma adjust_value_error:
  assumes "ten_schema_adjust_value_type tg s (Some v) err = (b, v', err')" and "wf_schema s"
  shows "if b then err' = err else err_no err' = TEN_ERRNO_GENERIC"
proof -
  obtain b1 v1 e1 where run:
    "ten_schema_adjust_value_type_with_schema_error tg s v (ten_schema_error_init err) = (b1, v1, e1)"
    by (metis prod_cases3)
  show ?thesis
    using assms run adjust_exact(1) [of tg s v "ten_schema_error_init err" v1 e1]
      adjust_sets_error(1) [of tg s v "ten_schema_error_init err" v1 e1]
    by (cases b1)
       (auto simp: ten_schema_adjust_value_type_def with_path_def ten_schema_error_init_def
          ten_error_prepend_errmsg_def split: if_splits)
qed

lemma validate_value_error:
  assumes "wf_schema s"
  shows "ten_error_is_success (snd (ten_schema_validate_value s (Some v) ten_error_init)) =
         conforms s v"
proof -
  obtain b e where run:
    "ten_schema_validate_value_with_schema_error s v (ten_schema_error_init ten_error_init) = (b, e)"
    by fastforce
  show ?thesis
    using validate_conforms(1) [OF run] run assms
      validate_sets_error(1) [of s v "ten_schema_error_init ten_error_init" e]
    by (cases b)
       (auto simp: ten_schema_validate_value_def with_path_eq ten_schema_error_init_def
          ten_error_is_success_def ten_error_init_def)
qed

text \<open>
  C19: A JSON text passes the combined check exactly when it is empty, or parses to a document
  whose value can be adjusted to a value that conforms to the schema. In particular the empty
  text, which is no JSON document, passes without an error for every schema.
\<close>

theorem adjust_and_validate_json:
  assumes "wf_schema s"
  shows "fst (ten_schema_adjust_and_validate_json_string tg json_loads s txt) \<longleftrightarrow>
           txt = [] \<or>
           (\<exists>json v err. json_loads txt = Inr json \<and>
              ten_schema_adjust_value_type tg s (Some (ten_value_from_json json)) ten_error_init =
                (True, Some v, err) \<and>
              conforms s v)"
proof (cases "json_loads txt")
  case (Inl e)
  then show ?thesis
    by (simp add: ten_schema_adjust_and_validate_json_string_def ten_json_from_string_def
        ten_error_is_success_def ten_error_init_def)
next
  case (Inr json)
  obtain b1 v1 e1 where run:
    "ten_schema_adjust_value_type_with_schema_error tg s (ten_value_from_json json)
       (ten_schema_error_init ten_error_init) = (b1, v1, e1)"
    by (metis prod_cases3)
  then obtain err where adjust:
    "ten_schema_adjust_value_type tg s (Some (ten_value_from_json json)) ten_error_init =
       (b1, Some v1, err)"
    by (auto simp: ten_schema_adjust_value_type_def with_path_def)
  show ?thesis
    using adjust_value_error [OF adjust assms] validate_value_error [OF assms, of v1] Inr adjust
    by (cases b1)
       (auto simp: ten_schema_adjust_and_validate_json_string_def ten_json_from_string_def
          ten_error_is_success_def ten_error_init_def)
qed

theorem adjust_and_validate_json_witness:
  "fst (ten_schema_adjust_and_validate_json_string saturating_target (\<lambda>_. Inl ''no parser'')
      sample_schema []) \<and>
   \<not> fst (ten_schema_adjust_and_validate_json_string saturating_target (\<lambda>_. Inr (JSON_INTEGER 1))
      (Schema [Kw_type TEN_TYPE_BOOL]) ''1'')"
proof -
  have wf: "wf_schema (Schema [Kw_type TEN_TYPE_BOOL])"
    by (simp add: keywords_ok_def schema_type_def ten_schema_peek_keyword_by_type_def)
  have "fst (ten_schema_adjust_value_type saturating_target (Schema [Kw_type TEN_TYPE_BOOL])
          (Some (ten_value_from_json (JSON_INTEGER 1))) ten_error_init) = False"
    by code_simp
  then show ?thesis
    using adjust_and_validate_json [OF sample_schema_wf, of saturating_target "\<lambda>_. Inl ''no parser''" "[]"]
      adjust_and_validate_json [OF wf, of saturating_target "\<lambda>_. Inr (JSON_INTEGER 1)" "''1''"]
    by auto
qed

end
