(* ===== verification/Schema_Compat.thy ===== *)
theory Schema_Compat
  imports Schema_Value
begin

text \<open>
  Compatibility of schemas: it is sound for the values whose members the source describes,
  every well-formed schema is compatible with itself, and creation gives well-formed schemas.
\<close>

section \<open>What compatibilitymeans\<close>

text \<open>Every member of every object in the value has a schema.\<close>

function described :: "ten_schema \<Rightarrow> ten_value \<Rightarrow> bool"
  and keyword_describes :: "ten_schema_keyword \<Rightarrow> ten_value \<Rightarrow> bool"
where
  "described (Schema kws) v \<longleftrightarrow> (\<forall>kw \<in> set kws. keyword_describes kw v)"
| "keyword_describes (Kw_type ty) v \<longleftrightarrow> True"
| "keyword_describes (Kw_required ps) v \<longleftrightarrow> True"
| "keyword_describes (Kw_properties ps) v \<longleftrightarrow>
     (case v of
        VObject kvs \<Rightarrow>
          (\<forall>(k, x) \<in> set kvs.
             case alist_peek k ps of None \<Rightarrow> False | Some s \<Rightarrow> described s x)
      | _ \<Rightarrow> True)"
| "keyword_describes (Kw_items s) v \<longleftrightarrow>
     (case v of VArray vs \<Rightarrow> (\<forall>x \<in> set vs. described s x) | _ \<Rightarrow> True)"
  by pat_completeness auto
termination
  by (relation "measure (\<lambda>x. case x of Inl (s, v) \<Rightarrow> size s | Inr (kw, v) \<Rightarrow> size kw)")
     (auto simp: less_Suc_eq_le intro: size_list_estimation' dest: peek_schema_size)

lemma missing_keys_empty: "missing_keys ps qs = [] \<longleftrightarrow> set qs \<subseteq> set ps"
  by (auto simp: missing_keys_def filter_empty_conv)

lemma peek_keyword_in:
  "ten_schema_peek_keyword_by_type kws tag = Some kw \<Longrightarrow> kw \<in> set kws \<and> keyword_tag kw = tag"
  by (auto simp: ten_schema_peek_keyword_by_type_def find_Some_iff)

lemma peek_keyword_distinct:
  "distinct (map keyword_tag kws) \<Longrightarrow> kw \<in> set kws \<Longrightarrow>
   ten_schema_peek_keyword_by_type kws (keyword_tag kw) = Some kw"
  by (induction kws) (auto simp: ten_schema_peek_keyword_by_type_def)

text \<open>Each tag was compared, or neither schema has it.\<close>

lemma compatible_keywords_each:
  "compatible_keywords tags ks ts e = Some (True, e') \<Longrightarrow> tag \<in> set tags \<Longrightarrow>
   ten_schema_peek_keyword_by_type ts tag = Some t \<Longrightarrow>
   \<exists>e1 e2. keyword_is_compatible (ten_schema_peek_keyword_by_type ks tag) (Some t) e1 = Some (True, e2)"
proof (induction tags arbitrary: e)
  case (Cons tag' tags)
  show ?case
  proof (cases "ten_schema_peek_keyword_by_type ks tag' = None \<and>
                ten_schema_peek_keyword_by_type ts tag' = None")
    case True
    with Cons show ?thesis by auto
  next
    case False
    with Cons.prems(1) obtain e1 where
      "keyword_is_compatible (ten_schema_peek_keyword_by_type ks tag')
         (ten_schema_peek_keyword_by_type ts tag') e = Some (True, e1)"
      "compatible_keywords tags ks ts e1 = Some (True, e')"
      by (auto simp del: keyword_is_compatible.simps split: option.splits prod.splits if_splits)
    with Cons show ?thesis by (cases "tag = tag'") auto
  qed
qed simp

lemma compatible_properties_grows:
  "compatible_properties ps qs acc e = Some (acc', e') \<Longrightarrow> acc \<noteq> [] \<Longrightarrow> acc' \<noteq> []"
proof (induction ps arbitrary: acc e)
  case (Cons p ps)
  then show ?case
    by (cases p) (auto split: option.splits prod.splits if_splits)
qed simp

definition covers :: "ten_schema \<Rightarrow> ten_schema \<Rightarrow> bool" where
  "covers s t \<longleftrightarrow> (\<forall>v. conforms s v \<longrightarrow> described s v \<longrightarrow> conforms t v)"

definition keyword_covers :: "ten_schema_keyword option \<Rightarrow> ten_schema_keyword \<Rightarrow> bool" where
  "keyword_covers self t \<longleftrightarrow>
     (\<exists>k. self = Some k \<and>
        (\<forall>v. keyword_conforms ten_type_is_compatible True k v \<longrightarrow> keyword_describes k v \<longrightarrow>
             keyword_conforms ten_type_is_compatible True t v))"

lemma covers_schema:
  assumes "distinct (map keyword_tag ts)"
    and "\<And>tag t. ten_schema_peek_keyword_by_type ts tag = Some t \<Longrightarrow>
           keyword_covers (ten_schema_peek_keyword_by_type ks tag) t"
  shows "covers (Schema ks) (Schema ts)"
  unfolding covers_def
proof (intro allI impI)
  fix v
  assume c: "conforms (Schema ks) v" and d: "described (Schema ks) v"
  have "keyword_conforms ten_type_is_compatible True t v" if t: "t \<in> set ts" for t
  proof -
    obtain k where
      k: "ten_schema_peek_keyword_by_type ks (keyword_tag t) = Some k"
      "keyword_conforms ten_type_is_compatible True k v \<Longrightarrow> keyword_describes k v \<Longrightarrow>
       keyword_conforms ten_type_is_compatible True t v"
      using assms(2) [OF peek_keyword_distinct [OF assms(1) t]]
      by (auto simp: keyword_covers_def)
    with c d peek_keyword_in [OF k(1)] show ?thesis by simp
  qed
  then show "conforms (Schema ts) v" by simp
qed

lemma covers_properties:
  assumes "\<And>n s t. (n, s) \<in> set ps \<Longrightarrow> alist_peek n qs = Some t \<Longrightarrow> covers s t"
  shows "keyword_covers (Some (Kw_properties ps)) (Kw_properties qs)"
  unfolding keyword_covers_def
proof (intro exI conjI allI impI)
  fix v
  assume c: "keyword_conforms ten_type_is_compatible True (Kw_properties ps) v"
    and d: "keyword_describes (Kw_properties ps) v"
  from c obtain kvs where v: "v = VObject kvs" by (cases v) auto
  have "conforms t x" if "(k, x) \<in> set kvs" "alist_peek k qs = Some t" for k x t
  proof -
    from that(1) d v obtain s where s: "alist_peek k ps = Some s" "described s x"
      by (auto split: option.splits)
    with that(1) c v have "conforms s x" by (auto split: option.splits)
    with assms [OF peek_in_set [OF s(1)] that(2)] s(2) show ?thesis by (simp add: covers_def)
  qed
  then show "keyword_conforms ten_type_is_compatible True (Kw_properties qs) v"
    by (auto simp: v split: option.splits)
qed simp

lemma covers_items:
  "covers s t \<Longrightarrow> keyword_covers (Some (Kw_items s)) (Kw_items t)"
  unfolding keyword_covers_def
proof (intro exI conjI allI impI)
  fix v
  assume "covers s t" "keyword_conforms ten_type_is_compatible True (Kw_items s) v"
    "keyword_describes (Kw_items s) v"
  then show "keyword_conforms ten_type_is_compatible True (Kw_items t) v"
    by (cases v) (auto simp: covers_def)
qed simp

lemma covers_type:
  "fst (ten_schema_keyword_type_is_compatible a b e) \<Longrightarrow>
   keyword_covers (Some (Kw_type a)) (Kw_type b)"
  by (auto simp: keyword_covers_def ten_schema_keyword_type_is_compatible_def
        intro: ten_type_is_compatible_trans split: if_splits)

lemma covers_required:
  "fst (ten_schema_keyword_required_is_compatible (Some ps) (Some qs) e) \<Longrightarrow> qs \<noteq> [] \<Longrightarrow>
   keyword_covers (Some (Kw_required ps)) (Kw_required qs)"
  by (auto simp: keyword_covers_def ten_schema_keyword_required_is_compatible_def
        missing_keys_empty split: if_splits)

lemma compatible_covers:
  "ten_schema_is_compatible_with_schema_error s t e = Some (True, e') \<Longrightarrow> wf_schema t \<Longrightarrow>
   covers s t"
  "compatible_keywords tags ks ts e = Some (True, e') \<Longrightarrow> wf_schema (Schema ts) \<Longrightarrow>
   tag \<in> set tags \<Longrightarrow> ten_schema_peek_keyword_by_type ts tag = Some t' \<Longrightarrow>
   keyword_covers (ten_schema_peek_keyword_by_type ks tag) t'"
  "keyword_is_compatible self target e = Some (True, e') \<Longrightarrow> target = Some t' \<Longrightarrow> wf_keyword t' \<Longrightarrow>
   keyword_fits ty t' \<Longrightarrow> keyword_covers self t'"
  "compatible_properties ps qs acc e = Some ([], e') \<Longrightarrow> \<forall>(n, t) \<in> set qs. wf_schema t \<Longrightarrow>
   (n, s') \<in> set ps \<Longrightarrow> alist_peek n qs = Some t'' \<Longrightarrow> covers s' t''"
proof (induction s t e and tags ks ts e and self target e and ps qs acc e
    arbitrary: e' and e' tag t' and e' t' ty and e' n s' t''
    rule: ten_schema_is_compatible_with_schema_error_compatible_keywords_keyword_is_compatible_compatible_properties.induct)
  case (1 ks ts e)
  then have run: "compatible_keywords ten_schema_keywords ks ts e = Some (True, e')" by simp
  show ?case
  proof (rule covers_schema)
    show "distinct (map keyword_tag ts)" using 1(3) by (simp add: keywords_ok_def)
    show "keyword_covers (ten_schema_peek_keyword_by_type ks tag) t"
      if "ten_schema_peek_keyword_by_type ts tag = Some t" for tag t
      using 1(1) [OF run 1(3) _ that] ten_schema_keywords_sorted by blast
  qed
next
  case (3 tag0 tags ks ts e)
  show ?case
  proof (cases "ten_schema_peek_keyword_by_type ks tag0 = None \<and>
                ten_schema_peek_keyword_by_type ts tag0 = None")
    case True
    with 3(1) [OF True] 3(4-) show ?thesis by auto
  next
    case False
    from False 3(4) obtain e1 where
      kw: "keyword_is_compatible (ten_schema_peek_keyword_by_type ks tag0)
             (ten_schema_peek_keyword_by_type ts tag0) e = Some (True, e1)"
      and rest: "compatible_keywords tags ks ts e1 = Some (True, e')"
      by (auto simp del: keyword_is_compatible.simps split: option.splits prod.splits if_splits)
    show ?thesis
    proof (cases "tag = tag0")
      case True
      with 3(7) have t': "ten_schema_peek_keyword_by_type ts tag0 = Some t'" by simp
      with 3(5) peek_keyword_in [OF t']
      have "wf_keyword t'" "keyword_fits (schema_type ts) t'" by (auto simp: keywords_ok_def)
      with 3(2) [OF False kw t'] True show ?thesis by simp
    next
      case other: False
      with 3(6) have "tag \<in> set tags" by simp
      with 3(3) [OF False kw refl _ rest 3(5) _ 3(7)] show ?thesis by simp
    qed
  qed
next
  case (4 self target e)
  note run = 4(3) [unfolded 4(4)]
  show ?case
  proof (cases t')
    case (Kw_type b)
    with run obtain a where "self = Some (Kw_type a)"
      by (cases self; cases "the self") auto
    with run Kw_type covers_type [of a b e] show ?thesis by simp
  next
    case (Kw_required qs)
    with run obtain ps where "self = Some (Kw_required ps)"
      by (cases self; cases "the self")
         (auto simp: ten_schema_keyword_required_is_compatible_def)
    with run 4(6) Kw_required covers_required [of ps qs e] show ?thesis by simp
  next
    case (Kw_items t)
    with run obtain s where self: "self = Some (Kw_items s)"
      by (cases self; cases "the self") auto
    with run Kw_items obtain e1
      where step: "ten_schema_is_compatible_with_schema_error s t e = Some (True, e1)"
      by (auto split: option.splits prod.splits)
    have "covers s t" using 4(2) [OF refl self refl 4(4) Kw_items step] 4(5) Kw_items by simp
    with self Kw_items show ?thesis by (simp add: covers_items)
  next
    case (Kw_properties qs)
    with run obtain ps where self: "self = Some (Kw_properties ps)"
      by (cases self; cases "the self") auto
    with run Kw_properties obtain e1 where step: "compatible_properties ps qs [] e = Some ([], e1)"
      by (auto split: option.splits prod.splits if_splits)
    have "covers s t" if "(n, s) \<in> set ps" "alist_peek n qs = Some t" for n s t
      using 4(1) [OF refl self refl 4(4) Kw_properties step] 4(5) Kw_properties that by simp
    with self Kw_properties show ?thesis by (auto intro!: covers_properties)
  qed
next
  case (6 n0 s ps qs acc e)
  show ?case
  proof (cases "alist_peek n0 qs")
    case None
    with 6 show ?thesis by auto
  next
    case (Some t)
    with 6(4) obtain ok e1 where
      step: "ten_schema_is_compatible_with_schema_error s t e = Some (ok, e1)"
      by (auto split: option.splits prod.splits)
    have ok: "ok"
    proof (rule ccontr)
      assume "\<not> ok"
      with 6(4) Some step show False
        by (auto dest!: compatible_properties_grows)
    qed
    with 6(4) Some step have rest:
      "compatible_properties ps qs acc (ten_schema_error_reset e1) = Some ([], e')"
      by simp
    have "wf_schema t" using 6(5) peek_in_set [OF Some] by auto
    with 6(2) [OF Some] step ok have "covers s t" by simp
    moreover have "covers s' t''" if "(n, s') \<in> set ps"
      using 6(3) [OF Some step refl] rest ok 6(5) that 6(7) by simp
    ultimately show ?thesis using 6(6,7) Some by auto
  qed
qed auto

section \<open>Every well-formed schema is compatible with itself\<close>

lemma alist_peek_distinct:
  "distinct (map fst ps) \<Longrightarrow> (n, s) \<in> set ps \<Longrightarrow> alist_peek n ps = Some s"
  by (simp add: alist_peek_map_of)

lemma compatible_properties_refl:
  assumes "\<And>n s e. (n, s) \<in> set ps \<Longrightarrow>
      alist_peek n qs = Some s \<and>
      (\<exists>e'. ten_schema_is_compatible_with_schema_error s s e = Some (True, e'))"
  shows "\<exists>e'. compatible_properties ps qs [] e = Some ([], e')"
  using assms
proof (induction ps arbitrary: e)
  case (Cons p ps)
  obtain n s where p: "p = (n, s)" by (cases p)
  from Cons.prems [of n s e] obtain e1 where
    "alist_peek n qs = Some s" "ten_schema_is_compatible_with_schema_error s s e = Some (True, e1)"
    by (auto simp: p)
  moreover have "\<exists>e'. compatible_properties ps qs [] (ten_schema_error_reset e1) = Some ([], e')"
    by (rule Cons.IH) (use Cons.prems in auto)
  ultimately show ?case by (simp add: p)
qed simp

lemma compatible_keywords_refl:
  assumes "\<And>kw e. kw \<in> set kws \<Longrightarrow>
      \<exists>e'. keyword_is_compatible (Some kw) (Some kw) e = Some (True, e')"
  shows "\<exists>e'. compatible_keywords tags kws kws e = Some (True, e')"
proof (induction tags arbitrary: e)
  case (Cons tag tags)
  show ?case
  proof (cases "ten_schema_peek_keyword_by_type kws tag")
    case None
    with Cons show ?thesis by simp
  next
    case (Some kw)
    then have "kw \<in> set kws" by (simp add: peek_keyword_in)
    with assms obtain e1 where "keyword_is_compatible (Some kw) (Some kw) e = Some (True, e1)"
      by blast
    with Some Cons show ?thesis by (simp del: keyword_is_compatible.simps)
  qed
qed simp

lemma compatible_refl:
  "wf_schema s \<Longrightarrow> \<exists>e'. ten_schema_is_compatible_with_schema_error s s e = Some (True, e')"
  "wf_keyword kw \<Longrightarrow> keyword_fits ty kw \<Longrightarrow> ty \<notin> {TEN_TYPE_INVALID, TEN_TYPE_NULL} \<Longrightarrow>
   \<exists>e'. keyword_is_compatible (Some kw) (Some kw) e = Some (True, e')"
proof (induction s and kw arbitrary: e and e ty rule: ten_schema.induct ten_schema_keyword.induct)
  case (Schema kws)
  have "\<exists>e'. keyword_is_compatible (Some kw) (Some kw) e = Some (True, e')" if "kw \<in> set kws" for kw e
    using Schema that by (auto simp: keywords_ok_def simp del: keyword_is_compatible.simps)
  then show ?case using compatible_keywords_refl by simp
next
  case (Kw_type t)
  then show ?case
    by (simp add: ten_schema_keyword_type_is_compatible_def ten_type_is_compatible_refl)
next
  case (Kw_properties ps)
  have "\<exists>e'. compatible_properties ps ps [] e = Some ([], e')"
  proof (rule compatible_properties_refl)
    fix n s e
    assume "(n, s) \<in> set ps"
    with Kw_properties show "alist_peek n ps = Some s \<and>
        (\<exists>e'. ten_schema_is_compatible_with_schema_error s s e = Some (True, e'))"
      by (fastforce simp: alist_peek_distinct)
  qed
  then show ?case by auto
next
  case (Kw_items s)
  then have "wf_schema s" by simp
  with Kw_items.IH obtain e1 where "ten_schema_is_compatible_with_schema_error s s e = Some (True, e1)"
    by blast
  then show ?case by simp
next
  case (Kw_required ps)
  then show ?case by (simp add: ten_schema_keyword_required_is_compatible_def missing_keys_empty)
qed

section \<open>Created schemas are well-formed\<close>

fun keyword_name :: "TEN_SCHEMA_KEYWORD \<Rightarrow> string" where
  "keyword_name TEN_SCHEMA_KEYWORD_TYPE = ''type''"
| "keyword_name TEN_SCHEMA_KEYWORD_PROPERTIES = ''properties''"
| "keyword_name TEN_SCHEMA_KEYWORD_ITEMS = ''items''"
| "keyword_name TEN_SCHEMA_KEYWORD_REQUIRED = ''required''"

lemma keyword_name_eq [simp]: "keyword_name a = keyword_name b \<longleftrightarrow> a = b"
  by (cases a; cases b; simp)

lemma peek_string_found:
  "ten_value_object_peek_string v k = Some s \<Longrightarrow> ten_value_object_peek v k = Some (VString s)"
  by (auto simp: ten_value_object_peek_string_def ten_value_peek_raw_str_def ten_value_is_string_iff
        split: option.splits if_splits)

text \<open>Where a created keyword comes from; a keyword of type stands for its own name.\<close>

definition from_members :: "ten_type \<Rightarrow> ten_value_kv list \<Rightarrow> ten_schema_keyword \<Rightarrow> bool" where
  "from_members ty kvs kw \<longleftrightarrow>
     (case kw of
        Kw_type t \<Rightarrow> \<exists>name. (''type'', VString name) \<in> set kvs \<and> t = ten_type_from_string name
      | _ \<Rightarrow> keyword_fits ty kw)"

lemma from_members_mono:
  "from_members ty kvs kw \<Longrightarrow> set kvs \<subseteq> set kvs' \<Longrightarrow> from_members ty kvs' kw"
  by (cases kw) (auto simp: from_members_def)

lemma create_keyword_cases:
  assumes "create_keyword ty k v = Some kw"
  obtains
    (type_kw) s where "k = ''type''" "v = VString s" "kw = Kw_type (ten_type_from_string s)"
  | (properties) members ps where "k = ''properties''" "v = VObject members" "ty = TEN_TYPE_OBJECT"
      "create_properties members = Some ps" "kw = Kw_properties ps"
  | (items) members s where "k = ''items''" "v = VObject members" "ty = TEN_TYPE_ARRAY"
      "ten_schema_create_from_value v = Some (Some s)" "kw = Kw_items s"
  | (required) names where "k = ''required''" "ty = TEN_TYPE_OBJECT" "names \<noteq> []"
      "kw = Kw_required names"
proof -
  consider "k = ''type''" | "k = ''properties''" | "k = ''items''" | "k = ''required''"
    using assms unfolding create_keyword.simps [of ty k v] by (auto split: if_splits)
  then show thesis
  proof cases
    case 1
    then show thesis
      using assms type_kw by (cases v) (simp_all add: create_keyword.simps split: if_splits)
  next
    case 2
    then show thesis
      using assms properties by (cases v) (auto simp: create_keyword.simps split: if_splits)
  next
    case 3
    then show thesis
      using assms items
      by (cases v) (auto simp: create_keyword.simps split: if_splits option.splits)
  next
    case 4
    then show thesis
      using assms required
      by (cases v) (auto simp: create_keyword.simps split: if_splits option.splits)
  qed
qed

lemma create_schema_cases:
  assumes "ten_schema_create_from_value v = Some (Some s)"
  obtains kvs name kws where "v = VObject kvs"
    "ten_value_object_peek_string v ''type'' = Some name"
    "ten_type_from_string name \<notin> {TEN_TYPE_INVALID, TEN_TYPE_NULL}"
    "create_keywords (ten_type_from_string name) kvs = Some kws" "s = Schema kws"
  using assms unfolding ten_schema_create_from_value.simps [of v]
  by (cases v) (auto split: option.splits if_splits)

lemma created_keywords_ok:
  assumes name: "ten_value_object_peek_string (VObject kvs) ''type'' = Some name"
    and ty: "ten_type_from_string name \<notin> {TEN_TYPE_INVALID, TEN_TYPE_NULL}"
    and dist: "distinct (map fst kvs)"
    and each: "\<And>kw. kw \<in> set kws \<Longrightarrow> wf_keyword kw \<and> from_members (ten_type_from_string name) kvs kw"
    and names: "map (\<lambda>kw. keyword_name (keyword_tag kw)) kws = map fst kvs"
  shows "wf_schema (Schema kws)"
proof -
  have mem: "(''type'', VString name) \<in> set kvs"
    using peek_in_set [of "''type''" kvs] peek_string_found [OF name]
    by (simp add: ten_value_object_peek_def)
  have only: "name' = name" if "(''type'', VString name') \<in> set kvs" for name'
    using eq_key_imp_eq_value [OF dist that mem] by simp
  have fits: "keyword_fits (ten_type_from_string name) kw" if "kw \<in> set kws" for kw
    using each [OF that] only by (cases kw) (auto simp: from_members_def)
  have tags: "distinct (map keyword_tag kws)"
  proof -
    have "distinct (map keyword_name (map keyword_tag kws))"
      using dist names by (simp add: o_def del: keyword_name.simps)
    then show ?thesis by (simp only: distinct_map)
  qed
  have "''type'' \<in> set (map fst kvs)" using mem by force
  then have "''type'' \<in> set (map (\<lambda>kw. keyword_name (keyword_tag kw)) kws)" by (simp only: names)
  then obtain kw where kw: "kw \<in> set kws" "keyword_name (keyword_tag kw) = ''type''" by auto
  from kw(2) have tag: "keyword_tag kw = TEN_SCHEMA_KEYWORD_TYPE"
    by (cases "keyword_tag kw") simp_all
  then have "kw = Kw_type (ten_type_from_string name)"
    using fits [OF kw(1)] by (cases kw) auto
  then have "schema_type kws = ten_type_from_string name"
    using peek_keyword_distinct [OF tags kw(1)] tag by (simp add: schema_type_def)
  with each fits tags ty show ?thesis by (simp add: keywords_ok_def)
qed

lemma create_wf:
  "ten_schema_create_from_value v = Some (Some s) \<Longrightarrow> wf_value v \<Longrightarrow> wf_schema s"
  "create_keywords ty kvs = Some kws \<Longrightarrow> \<forall>(k, v) \<in> set kvs. wf_value v \<Longrightarrow>
   (\<forall>kw \<in> set kws. wf_keyword kw \<and> from_members ty kvs kw) \<and>
   map (\<lambda>kw. keyword_name (keyword_tag kw)) kws = map fst kvs"
  "create_keyword ty k v = Some kw \<Longrightarrow> wf_value v \<Longrightarrow>
   wf_keyword kw \<and> keyword_name (keyword_tag kw) = k \<and> from_members ty [(k, v)] kw"
  "create_properties kvs = Some ps \<Longrightarrow> \<forall>(k, v) \<in> set kvs. wf_value v \<Longrightarrow>
   map fst ps = map fst kvs \<and> (\<forall>(n, s) \<in> set ps. wf_schema s)"
proof (induction v and ty kvs and ty k v and kvs arbitrary: s and kws and kw and ps
    rule: ten_schema_create_from_value_create_keywords_create_keyword_create_properties.induct)
  case (1 v)
  from 1(2) show ?case
  proof (cases rule: create_schema_cases)
    case (1 kvs name kws)
    with "1.prems"(2) have "\<forall>(k, v) \<in> set kvs. wf_value v" and "distinct (map fst kvs)" by auto
    with "1.IH" [OF 1(1-4)]
    have "\<And>kw. kw \<in> set kws \<Longrightarrow> wf_keyword kw \<and> from_members (ten_type_from_string name) kvs kw"
      and "map (\<lambda>kw. keyword_name (keyword_tag kw)) kws = map fst kvs"
      by simp_all
    from created_keywords_ok [OF 1(2) [unfolded 1(1)] 1(3) \<open>distinct (map fst kvs)\<close> this] 1(5)
    show ?thesis by simp
  qed
next
  case (3 ty k v kvs)
  from 3(3) obtain kw kws1 where first: "create_keyword ty k v = Some kw"
      and rest: "create_keywords ty kvs = Some kws1" and kws: "kws = kw # kws1"
    by (auto split: option.splits)
  have wf: "wf_value v" "\<forall>(k, v) \<in> set kvs. wf_value v" using 3(4) by simp_all
  note one = 3(1) [OF first wf(1)] and others = 3(2) [OF first rest wf(2)]
  have "from_members ty ((k, v) # kvs) kw"
  proof (rule from_members_mono)
    show "from_members ty [(k, v)] kw" using one by simp
  qed simp
  moreover have "wf_keyword kw' \<and> from_members ty ((k, v) # kvs) kw'" if "kw' \<in> set kws1" for kw'
  proof
    from others that show "wf_keyword kw'" by blast
    show "from_members ty ((k, v) # kvs) kw'"
    proof (rule from_members_mono)
      from others that show "from_members ty kvs kw'" by blast
    qed auto
  qed
  moreover have "map (\<lambda>kw. keyword_name (keyword_tag kw)) (kw # kws1) = map fst ((k, v) # kvs)"
    using one others by (simp only: list.map fst_conv)
  ultimately show ?case unfolding kws using one by (simp only: list.set ball_simps) blast
next
  case (4 ty k v)
  from 4(3) show ?case
  proof (cases rule: create_keyword_cases)
    case (type_kw s)
    then show ?thesis by (simp add: from_members_def)
  next
    case (properties members ps)
    with "4.prems"(2) have "\<forall>(k, v) \<in> set members. wf_value v" "distinct (map fst members)" by auto
    with properties(5) "4.IH"(1) [OF _ properties(1-4)] show ?thesis
      by (simp add: from_members_def properties(1,3))
  next
    case (items members s)
    with "4.IH"(2) [OF _ _ items(1-4)] "4.prems"(2) have "wf_schema s" by simp
    then show ?thesis by (simp add: from_members_def items(1,3,5))
  next
    case (required names)
    then show ?thesis by (simp add: from_members_def)
  qed
next
  case (6 k v kvs)
  from 6(3) obtain s ps1 where first: "ten_schema_create_from_value v = Some (Some s)"
      and rest: "create_properties kvs = Some ps1" and ps: "ps = (k, s) # ps1"
    by (auto split: option.splits)
  have wf: "wf_value v" "\<forall>(k, v) \<in> set kvs. wf_value v" using 6(4) by simp_all
  show ?case using 6(1) [OF first wf(1)] 6(2) [OF first refl rest wf(2)] by (simp add: ps)
qed simp_all

section \<open>Properties\<close>

text \<open>
  C16: Compatibility is sound: when the check of a source against a well-formed target
  succeeds, every value that conforms to the source, and whose members the source describes,
  conforms to the target.
\<close>

theorem compatible_sound:
  assumes "wf_schema t" and "ten_schema_is_compatible s t err = Some (True, err')"
    and "conforms s v" and "described s v"
  shows "conforms t v"
proof -
  from assms(2) obtain e where
    "ten_schema_is_compatible_with_schema_error s t (ten_schema_error_init err) = Some (True, e)"
    by (auto simp: ten_schema_is_compatible_def with_path_def split: prod.splits)
  from compatible_covers(1) [OF this assms(1)] assms(3,4) show ?thesis by (simp add: covers_def)
qed

definition narrow_schema :: ten_schema where
  "narrow_schema =
     Schema [Kw_type TEN_TYPE_OBJECT, Kw_properties [(''a'', Schema [Kw_type TEN_TYPE_INT8])]]"

theorem compatible_sound_witness:
  "\<exists>err'. ten_schema_is_compatible sample_schema narrow_schema ten_error_init = Some (True, err') \<and>
     conforms narrow_schema (VObject [(''a'', VInt32 5)])"
proof -
  have run: "ten_schema_is_compatible sample_schema narrow_schema ten_error_init =
      Some (True, ten_error_init)"
    by code_simp
  have wf: "wf_schema narrow_schema"
    by (simp add: narrow_schema_def keywords_ok_def schema_type_def
          ten_schema_peek_keyword_by_type_def)
  have "conforms sample_schema (VObject [(''a'', VInt32 5)])"
    "described sample_schema (VObject [(''a'', VInt32 5)])"
    by (simp_all add: sample_schema_def ten_value_object_peek_def ten_type_is_compatible_def)
  from compatible_sound [OF wf run this] run show ?thesis by blast
qed

text \<open>
  C29: Every well-formed schema is compatible with itself, so a property can always be
  connected to itself.
\<close>

theorem compatible_reflexive:
  assumes "wf_schema s"
  shows "\<exists>err'. ten_schema_is_compatible s s err = Some (True, err')"
proof -
  from compatible_refl(1) [OF assms] obtain e where
    "ten_schema_is_compatible_with_schema_error s s (ten_schema_error_init err) = Some (True, e)"
    by blast
  then show ?thesis by (simp add: ten_schema_is_compatible_def with_path_eq)
qed

theorem compatible_reflexive_witness:
  "\<exists>err'. ten_schema_is_compatible sample_schema sample_schema ten_error_init = Some (True, err')"
  by (rule compatible_reflexive [OF sample_schema_wf])

text \<open>
  C30: A target with \<open>properties\<close> or \<open>items\<close> against a source of the same type without
  them dereferences NULL: the comparison is called with no source keyword.
\<close>

theorem compatible_missing_source_keyword:
  assumes "ten_schema_peek_keyword_by_type ks TEN_SCHEMA_KEYWORD_TYPE = Some (Kw_type a)"
    and "ten_schema_peek_keyword_by_type ts TEN_SCHEMA_KEYWORD_TYPE = Some (Kw_type b)"
    and "ten_type_is_compatible a b"
    and "ten_schema_peek_keyword_by_type ks TEN_SCHEMA_KEYWORD_PROPERTIES = None"
    and "ten_schema_peek_keyword_by_type ts TEN_SCHEMA_KEYWORD_PROPERTIES = Some (Kw_properties ps) \<or>
         ten_schema_peek_keyword_by_type ts TEN_SCHEMA_KEYWORD_PROPERTIES = None \<and>
         ten_schema_peek_keyword_by_type ks TEN_SCHEMA_KEYWORD_ITEMS = None \<and>
         ten_schema_peek_keyword_by_type ts TEN_SCHEMA_KEYWORD_ITEMS = Some (Kw_items t)"
  shows "ten_schema_is_compatible (Schema ks) (Schema ts) err = None"
  using assms
  by (auto simp: ten_schema_is_compatible_def ten_schema_keywords_def
        ten_schema_keyword_type_is_compatible_def)

theorem compatible_missing_source_keyword_witness:
  "ten_schema_is_compatible (Schema [Kw_type TEN_TYPE_OBJECT]) sample_schema ten_error_init = None \<and>
   ten_schema_is_compatible (Schema [Kw_type TEN_TYPE_ARRAY])
     (Schema [Kw_type TEN_TYPE_ARRAY, Kw_items (Schema [Kw_type TEN_TYPE_BOOL])])
     ten_error_init = None"
  unfolding sample_schema_def
  using compatible_missing_source_keyword [of "[Kw_type TEN_TYPE_OBJECT]" TEN_TYPE_OBJECT
      "[Kw_type TEN_TYPE_OBJECT, Kw_properties ps, Kw_required [''a'']]" TEN_TYPE_OBJECT ps
      "Schema []" ten_error_init for ps]
    compatible_missing_source_keyword [of "[Kw_type TEN_TYPE_ARRAY]" TEN_TYPE_ARRAY
      "[Kw_type TEN_TYPE_ARRAY, Kw_items (Schema [Kw_type TEN_TYPE_BOOL])]" TEN_TYPE_ARRAY "[]"
      "Schema [Kw_type TEN_TYPE_BOOL]" ten_error_init]
  by (simp add: ten_schema_peek_keyword_by_type_def ten_type_is_compatible_def is_integer_type_def
      is_float_type_def)

text \<open>
  C18: A schema created from a well-formed value is well-formed: its type is known, no keyword
  occurs twice, every keyword belongs to its type, and so on for the schemas inside.
\<close>

theorem created_schema_wf:
  assumes "wf_value v" and "ten_schema_create_from_value v = Some (Some s)"
  shows "wf_schema s"
  by (rule create_wf(1) [OF assms(2,1)])

theorem created_schema_wf_witness:
  "ten_schema_create_from_value
     (VObject [(''type'', VString ''object''), (''required'', VArray [VString ''a''])]) =
     Some (Some (Schema [Kw_type TEN_TYPE_OBJECT, Kw_required [''a'']])) \<and>
   wf_schema (Schema [Kw_type TEN_TYPE_OBJECT, Kw_required [''a'']])"
proof -
  have "ten_schema_create_from_value
     (VObject [(''type'', VString ''object''), (''required'', VArray [VString ''a''])]) =
     Some (Some (Schema [Kw_type TEN_TYPE_OBJECT, Kw_required [''a'']]))"
    by code_simp
  moreover have "wf_value
     (VObject [(''type'', VString ''object''), (''required'', VArray [VString ''a''])])"
    by (simp add: plain_key_def)
  ultimately show ?thesis using created_schema_wf by blast
qed

end
