(* ===== verification/Ten_Loc.thy ===== *)
theory Ten_Loc
  imports Value_Object
begin

text \<open>
  Locations (core/src/ten_runtime/common/loc.c): an application, a graph, an extension group
  and an extension, each by name, with their forms as a value and as JSON.

  A NULL name is \<open>None\<close>. A value or JSON node of the wrong type trips an assertion; without
  assertions the name stays empty, except that a nested name that is no string is printed
  from NULL, which is the outer \<open>None\<close>.
\<close>

record ten_loc =
  app_uri :: string
  graph_id :: string
  extension_group_name :: string
  extension_name :: string

abbreviation or_empty :: "string option \<Rightarrow> string" where
  "or_empty s \<equiv> (case s of None \<Rightarrow> [] | Some t \<Rightarrow> t)"

definition ten_loc_check_integrity :: "ten_loc \<Rightarrow> bool" where
  "ten_loc_check_integrity l \<longleftrightarrow> \<not> (extension_name l \<noteq> [] \<and> extension_group_name l = [])"

definition ten_loc_init_empty :: ten_loc where
  "ten_loc_init_empty =
     \<lparr>app_uri = [], graph_id = [], extension_group_name = [], extension_name = []\<rparr>"

definition ten_loc_set ::
  "string option \<Rightarrow> string option \<Rightarrow> string option \<Rightarrow> string option \<Rightarrow> ten_loc"
where
  "ten_loc_set app graph grp ext =
     \<lparr>app_uri = or_empty app, graph_id = or_empty graph, extension_group_name = or_empty grp,
      extension_name = or_empty ext\<rparr>"

definition ten_loc_init_from_loc :: "ten_loc \<Rightarrow> ten_loc" where
  "ten_loc_init_from_loc src =
     ten_loc_set (Some (app_uri src)) (Some (graph_id src)) (Some (extension_group_name src))
       (Some (extension_name src))"

definition ten_loc_clone :: "ten_loc \<Rightarrow> ten_loc" where
  "ten_loc_clone src =
     ten_loc_set (Some (app_uri src)) (Some (graph_id src)) (Some (extension_group_name src))
       (Some (extension_name src))"

definition ten_loc_is_empty :: "ten_loc \<Rightarrow> bool" where
  "ten_loc_is_empty l \<longleftrightarrow>
     app_uri l = [] \<and> graph_id l = [] \<and> extension_group_name l = [] \<and> extension_name l = []"

definition ten_loc_clear :: "ten_loc \<Rightarrow> ten_loc" where
  "ten_loc_clear l =
     l\<lparr>app_uri := [], graph_id := [], extension_group_name := [], extension_name := []\<rparr>"

definition ten_loc_is_equal :: "ten_loc \<Rightarrow> ten_loc \<Rightarrow> bool" where
  "ten_loc_is_equal a b \<longleftrightarrow>
     app_uri a = app_uri b \<and> graph_id a = graph_id b \<and>
     extension_group_name a = extension_group_name b \<and> extension_name a = extension_name b"

definition ten_loc_is_equal_with_value ::
  "ten_loc \<Rightarrow> string \<Rightarrow> string \<Rightarrow> string \<Rightarrow> string \<Rightarrow> bool"
where
  "ten_loc_is_equal_with_value l app graph grp ext \<longleftrightarrow>
     app_uri l = app \<and> graph_id l = graph \<and> extension_group_name l = grp \<and>
     extension_name l = ext"

definition ten_loc_to_string :: "ten_loc \<Rightarrow> string" where
  "ten_loc_to_string l =
     ''app: '' @ app_uri l @ '', graph: '' @ graph_id l @ '', group: '' @
     extension_group_name l @ '', extension: '' @ extension_name l"

lemma loc_copies [simp]: "ten_loc_init_from_loc l = l" "ten_loc_clone l = l"
  by (simp_all add: ten_loc_init_from_loc_def ten_loc_clone_def ten_loc_set_def)

section \<open>As JSON\<close>

abbreviation set_name :: "string \<Rightarrow> string \<Rightarrow> (string \<times> json) list \<Rightarrow> (string \<times> json) list" where
  "set_name k name kvs \<equiv>
     (if name \<noteq> [] then json_object_set_new kvs k (ten_json_create_string name) else kvs)"

definition ten_loc_to_json :: "ten_loc \<Rightarrow> json" where
  "ten_loc_to_json l =
     JSON_OBJECT
       (set_name ''extension'' (extension_name l)
         (set_name ''extension_group'' (extension_group_name l)
           (set_name ''graph'' (graph_id l) (set_name ''app'' (app_uri l) []))))"

definition ten_json_object_peek :: "json \<Rightarrow> string \<Rightarrow> json option" where
  "ten_json_object_peek j k = (case j of JSON_OBJECT kvs \<Rightarrow> alist_peek k kvs | _ \<Rightarrow> None)"

definition ten_json_object_peek_string :: "json \<Rightarrow> string \<Rightarrow> string option" where
  "ten_json_object_peek_string j k =
     (case ten_json_object_peek j k of Some (JSON_STRING s) \<Rightarrow> Some s | _ \<Rightarrow> None)"

text \<open>A group and an extension are given by name, or by an object that holds the name.\<close>

definition loc_name_from_json :: "json option \<Rightarrow> string option" where
  "loc_name_from_json j =
     (case j of
        Some (JSON_OBJECT kvs) \<Rightarrow>
          (case alist_peek ''name'' kvs of Some (JSON_STRING s) \<Rightarrow> Some s | _ \<Rightarrow> None)
      | Some (JSON_STRING s) \<Rightarrow> Some s
      | _ \<Rightarrow> Some [])"

definition ten_loc_init_from_json :: "json \<Rightarrow> ten_loc option" where
  "ten_loc_init_from_json j =
     (case loc_name_from_json (ten_json_object_peek j ''extension_group'') of
        None \<Rightarrow> None
      | Some grp \<Rightarrow>
          (case loc_name_from_json (ten_json_object_peek j ''extension'') of
             None \<Rightarrow> None
           | Some ext \<Rightarrow>
               Some \<lparr>app_uri = or_empty (ten_json_object_peek_string j ''app''),
                     graph_id = or_empty (ten_json_object_peek_string j ''graph''),
                     extension_group_name = grp, extension_name = ext\<rparr>))"

section \<open>As a value\<close>

abbreviation name_field :: "string \<Rightarrow> string \<Rightarrow> ten_value_kv list" where
  "name_field k name \<equiv>
     (if name \<noteq> [] then [ten_value_kv_create k (ten_value_create_string name)] else [])"

definition ten_loc_set_value :: "ten_loc \<Rightarrow> ten_value" where
  "ten_loc_set_value l =
     ten_value_init_object_with_move
       (Some (name_field ''app'' (app_uri l) @ name_field ''graph'' (graph_id l) @
              name_field ''extension_group'' (extension_group_name l) @
              name_field ''extension'' (extension_name l)))"

definition ten_loc_to_value :: "ten_loc \<Rightarrow> ten_value" where
  "ten_loc_to_value l = ten_loc_set_value l"

definition loc_name_from_value :: "ten_value option \<Rightarrow> string" where
  "loc_name_from_value v =
     (case v of None \<Rightarrow> [] | Some x \<Rightarrow> or_empty (ten_value_peek_raw_str (Some x)))"

definition ten_loc_init_from_value :: "ten_value \<Rightarrow> ten_loc" where
  "ten_loc_init_from_value v =
     \<lparr>app_uri = loc_name_from_value (ten_value_object_peek v ''app''),
      graph_id = loc_name_from_value (ten_value_object_peek v ''graph''),
      extension_group_name = loc_name_from_value (ten_value_object_peek v ''extension_group''),
      extension_name = loc_name_from_value (ten_value_object_peek v ''extension'')\<rparr>"

section \<open>Properties\<close>

definition loc_utf8 :: "ten_loc \<Rightarrow> bool" where
  "loc_utf8 l \<longleftrightarrow>
     utf8_check_string (app_uri l) \<and> utf8_check_string (graph_id l) \<and>
     utf8_check_string (extension_group_name l) \<and> utf8_check_string (extension_name l)"

text \<open>
  C27: A location whose names are UTF-8 is unchanged by the way through JSON, and any location
  by the way through a value.
\<close>

theorem loc_roundtrips:
  assumes "loc_utf8 l"
  shows "ten_loc_init_from_json (ten_loc_to_json l) = Some l \<and>
         ten_loc_init_from_value (ten_loc_to_value l) = l"
proof
  have keys: "utf8_check_string ''app''" "utf8_check_string ''graph''"
    "utf8_check_string ''extension_group''" "utf8_check_string ''extension''"
    by simp_all
  show "ten_loc_init_from_json (ten_loc_to_json l) = Some l"
    using assms keys
    by (cases l)
       (auto simp: loc_utf8_def ten_loc_init_from_json_def ten_loc_to_json_def
          ten_json_object_peek_def ten_json_object_peek_string_def loc_name_from_json_def
          json_object_set_new_def ten_json_create_string_def)
  show "ten_loc_init_from_value (ten_loc_to_value l) = l"
    by (cases l)
       (auto simp: ten_loc_init_from_value_def ten_loc_to_value_def ten_loc_set_value_def
          loc_name_from_value_def ten_value_object_peek_def ten_value_peek_raw_str_def
          ten_value_init_object_with_move_def plain_key_def)
qed

theorem loc_roundtrips_witness:
  "ten_loc_to_json (ten_loc_set (Some ''a'') None (Some ''g'') (Some ''e'')) =
     JSON_OBJECT [(''app'', JSON_STRING ''a''), (''extension_group'', JSON_STRING ''g''),
                  (''extension'', JSON_STRING ''e'')] \<and>
   ten_loc_init_from_json (ten_loc_to_json (ten_loc_set (Some ''a'') None (Some ''g'') (Some ''e''))) =
     Some (ten_loc_set (Some ''a'') None (Some ''g'') (Some ''e''))"
proof
  show "ten_loc_to_json (ten_loc_set (Some ''a'') None (Some ''g'') (Some ''e'')) =
     JSON_OBJECT [(''app'', JSON_STRING ''a''), (''extension_group'', JSON_STRING ''g''),
                  (''extension'', JSON_STRING ''e'')]"
    by (simp add: ten_loc_to_json_def ten_loc_set_def json_object_set_new_def
          ten_json_create_string_def)
  show "ten_loc_init_from_json (ten_loc_to_json (ten_loc_set (Some ''a'') None (Some ''g'') (Some ''e''))) =
     Some (ten_loc_set (Some ''a'') None (Some ''g'') (Some ''e''))"
    using loc_roundtrips [of "ten_loc_set (Some ''a'') None (Some ''g'') (Some ''e'')"]
    by (simp add: loc_utf8_def ten_loc_set_def)
qed

end
