(* ===== verification/Ten_Msg.thy ===== *)
theory Ten_Msg
  imports Ten_Loc
begin

text \<open>
  Messages (core/src/ten_runtime/msg/): the header of every message, commands, and command
  results, as far as the routing of results uses them.

  The header of a structure is its first member, so the records extend each other the way
  the structures do. A result handler with its data is a number. A result is held by value:
  of a result that a path keeps, only the status code is read again, and no holder of the
  shared result changes that.
\<close>

section \<open>The structures\<close>

datatype TEN_MSG_TYPE =
    TEN_MSG_TYPE_INVALID
  | TEN_MSG_TYPE_CMD
  | TEN_MSG_TYPE_CMD_RESULT
  | TEN_MSG_TYPE_CMD_CLOSE_APP
  | TEN_MSG_TYPE_CMD_START_GRAPH
  | TEN_MSG_TYPE_CMD_STOP_GRAPH
  | TEN_MSG_TYPE_CMD_TIMER
  | TEN_MSG_TYPE_CMD_TIMEOUT
  | TEN_MSG_TYPE_DATA
  | TEN_MSG_TYPE_VIDEO_FRAME
  | TEN_MSG_TYPE_AUDIO_FRAME

abbreviation TEN_STATUS_CODE_INVALID :: "32 word" where "TEN_STATUS_CODE_INVALID \<equiv> - 1"
abbreviation TEN_STATUS_CODE_OK :: "32 word" where "TEN_STATUS_CODE_OK \<equiv> 0"
abbreviation TEN_STATUS_CODE_ERROR :: "32 word" where "TEN_STATUS_CODE_ERROR \<equiv> 1"

record ten_msg =
  msg_type :: TEN_MSG_TYPE
  msg_name :: string
  src_loc :: ten_loc
  dest_loc :: "ten_loc list"
  properties :: ten_value

record ten_cmd_base = ten_msg +
  parent_cmd_id :: string
  cmd_id :: string
  seq_id :: string
  result_handler :: "nat option"

record ten_cmd_result = ten_cmd_base +
  original_cmd_type :: TEN_MSG_TYPE
  original_cmd_name :: string
  status_code :: "32 word"
  is_final :: bool

section \<open>The kinds of messages\<close>

definition ten_raw_msg_is_cmd :: "TEN_MSG_TYPE \<Rightarrow> bool" where
  "ten_raw_msg_is_cmd ty =
     (case ty of
        TEN_MSG_TYPE_CMD_CLOSE_APP \<Rightarrow> True
      | TEN_MSG_TYPE_CMD_STOP_GRAPH \<Rightarrow> True
      | TEN_MSG_TYPE_CMD_START_GRAPH \<Rightarrow> True
      | TEN_MSG_TYPE_CMD_TIMER \<Rightarrow> True
      | TEN_MSG_TYPE_CMD_TIMEOUT \<Rightarrow> True
      | TEN_MSG_TYPE_CMD \<Rightarrow> True
      | _ \<Rightarrow> False)"

definition ten_raw_msg_is_cmd_and_result :: "TEN_MSG_TYPE \<Rightarrow> bool" where
  "ten_raw_msg_is_cmd_and_result ty =
     (case ty of
        TEN_MSG_TYPE_CMD_CLOSE_APP \<Rightarrow> True
      | TEN_MSG_TYPE_CMD_STOP_GRAPH \<Rightarrow> True
      | TEN_MSG_TYPE_CMD_START_GRAPH \<Rightarrow> True
      | TEN_MSG_TYPE_CMD_TIMER \<Rightarrow> True
      | TEN_MSG_TYPE_CMD_TIMEOUT \<Rightarrow> True
      | TEN_MSG_TYPE_CMD \<Rightarrow> True
      | TEN_MSG_TYPE_CMD_RESULT \<Rightarrow> True
      | _ \<Rightarrow> False)"

text \<open>The column of the table of message kinds.\<close>

definition create_in_path :: "TEN_MSG_TYPE \<Rightarrow> bool" where
  "create_in_path ty =
     (case ty of
        TEN_MSG_TYPE_CMD \<Rightarrow> True
      | TEN_MSG_TYPE_CMD_START_GRAPH \<Rightarrow> True
      | TEN_MSG_TYPE_CMD_TIMER \<Rightarrow> True
      | _ \<Rightarrow> False)"

section \<open>Locations of a message\<close>

text \<open>The destinations; not those in the JSON text that the msgpack protocol keeps in a property.\<close>

definition ten_msg_clear_dest :: "'a ten_msg_scheme \<Rightarrow> 'a ten_msg_scheme" where
  "ten_msg_clear_dest m = m\<lparr>dest_loc := []\<rparr>"

definition ten_msg_clear_and_set_dest_to_loc ::
  "ten_loc \<Rightarrow> 'a ten_msg_scheme \<Rightarrow> 'a ten_msg_scheme"
where
  "ten_msg_clear_and_set_dest_to_loc loc m =
     m\<lparr>dest_loc :=
         [ten_loc_set (Some (app_uri loc)) (Some (graph_id loc))
            (Some (extension_group_name loc)) (Some (extension_name loc))]\<rparr>"

definition ten_msg_set_src_to_loc :: "ten_loc \<Rightarrow> 'a ten_msg_scheme \<Rightarrow> 'a ten_msg_scheme" where
  "ten_msg_set_src_to_loc loc m = m\<lparr>src_loc := ten_loc_init_from_loc loc\<rparr>"

lemma ten_msg_dest_eq [simp]:
  "ten_msg_clear_and_set_dest_to_loc loc m = m\<lparr>dest_loc := [loc]\<rparr>"
  by (simp add: ten_msg_clear_and_set_dest_to_loc_def ten_loc_set_def)

section \<open>Commands\<close>

text \<open>A new command id is a random one, given by the caller.\<close>

definition ten_cmd_base_gen_new_cmd_id_forcibly ::
  "string \<Rightarrow> 'a ten_cmd_base_scheme \<Rightarrow> 'a ten_cmd_base_scheme"
where
  "ten_cmd_base_gen_new_cmd_id_forcibly uuid c = c\<lparr>cmd_id := uuid\<rparr>"

definition ten_cmd_base_save_cmd_id_to_parent_cmd_id ::
  "'a ten_cmd_base_scheme \<Rightarrow> 'a ten_cmd_base_scheme"
where
  "ten_cmd_base_save_cmd_id_to_parent_cmd_id c = c\<lparr>parent_cmd_id := cmd_id c\<rparr>"

definition ten_cmd_base_get_parent_cmd_id :: "'a ten_cmd_base_scheme \<Rightarrow> string option" where
  "ten_cmd_base_get_parent_cmd_id c = (if parent_cmd_id c = [] then None else Some (parent_cmd_id c))"

definition ten_cmd_base_reset_parent_cmd_id ::
  "'a ten_cmd_base_scheme \<Rightarrow> 'a ten_cmd_base_scheme"
where
  "ten_cmd_base_reset_parent_cmd_id c = c\<lparr>parent_cmd_id := []\<rparr>"

definition ten_cmd_base_set_result_handler ::
  "nat option \<Rightarrow> 'a ten_cmd_base_scheme \<Rightarrow> 'a ten_cmd_base_scheme"
where
  "ten_cmd_base_set_result_handler handler c = c\<lparr>result_handler := handler\<rparr>"

text \<open>
  The fields of a command are copied one by one, the properties by merging clones of them
  into an empty object. A clone then gets an id of its own, and remembers the old one.
\<close>

definition ten_raw_cmd_custom_as_msg_clone :: "ten_cmd_base \<Rightarrow> ten_cmd_base" where
  "ten_raw_cmd_custom_as_msg_clone c =
     \<lparr>msg_type = msg_type c, msg_name = msg_name c,
      src_loc = ten_loc_init_from_loc (src_loc c),
      dest_loc = map ten_loc_clone (dest_loc c),
      properties = snd (ten_value_object_merge_with_clone (VObject []) (properties c)),
      parent_cmd_id = [], cmd_id = cmd_id c, seq_id = seq_id c,
      result_handler = result_handler c\<rparr>"

definition ten_msg_clone :: "string \<Rightarrow> ten_cmd_base \<Rightarrow> ten_cmd_base" where
  "ten_msg_clone uuid c =
     ten_cmd_base_gen_new_cmd_id_forcibly uuid
       (ten_cmd_base_save_cmd_id_to_parent_cmd_id (ten_raw_cmd_custom_as_msg_clone c))"

lemma ten_msg_clone_fields [simp]:
  "msg_type (ten_msg_clone uuid c) = msg_type c"
  "msg_name (ten_msg_clone uuid c) = msg_name c"
  "src_loc (ten_msg_clone uuid c) = src_loc c"
  "dest_loc (ten_msg_clone uuid c) = dest_loc c"
  "parent_cmd_id (ten_msg_clone uuid c) = cmd_id c"
  "cmd_id (ten_msg_clone uuid c) = uuid"
  "result_handler (ten_msg_clone uuid c) = result_handler c"
  by (simp_all add: ten_msg_clone_def ten_cmd_base_gen_new_cmd_id_forcibly_def
        ten_cmd_base_save_cmd_id_to_parent_cmd_id_def ten_raw_cmd_custom_as_msg_clone_def map_idI)

section \<open>Command results\<close>

definition ten_cmd_result_create :: "32 word \<Rightarrow> ten_cmd_result" where
  "ten_cmd_result_create code =
     \<lparr>msg_type = TEN_MSG_TYPE_CMD_RESULT, msg_name = ''ten:result'',
      src_loc = ten_loc_init_empty, dest_loc = [], properties = VObject [],
      parent_cmd_id = [], cmd_id = [], seq_id = [], result_handler = None,
      original_cmd_type = TEN_MSG_TYPE_INVALID, original_cmd_name = [],
      status_code = code, is_final = True\<rparr>"

definition ten_cmd_result_create_from_cmd ::
  "32 word \<Rightarrow> 'a ten_cmd_base_scheme option \<Rightarrow> ten_cmd_result"
where
  "ten_cmd_result_create_from_cmd code original =
     (case original of
        None \<Rightarrow> ten_cmd_result_create code
      | Some c \<Rightarrow>
          let r = (ten_cmd_result_create code)
                    \<lparr>cmd_id := cmd_id c, seq_id := seq_id c, original_cmd_type := msg_type c\<rparr>;
              r' = (case dest_loc c of [loc] \<Rightarrow> ten_msg_set_src_to_loc loc r | _ \<Rightarrow> r)
          in ten_msg_clear_and_set_dest_to_loc (src_loc c) r')"

definition ten_cmd_result_set_original_cmd_name ::
  "string \<Rightarrow> ten_cmd_result \<Rightarrow> ten_cmd_result"
where
  "ten_cmd_result_set_original_cmd_name name r = r\<lparr>original_cmd_name := name\<rparr>"

definition ten_cmd_result_set_final :: "bool \<Rightarrow> ten_cmd_result \<Rightarrow> ten_cmd_result" where
  "ten_cmd_result_set_final b r = r\<lparr>is_final := b\<rparr>"

end
