(* ===== verification/Ten_Path.thy ===== *)
theory Ten_Path
  imports Ten_Msg
begin

text \<open>
  The path table of an extension or an engine (core/src/ten_runtime/path/): an IN path for
  every command received and an OUT path for every command sent, along which the results
  find their way back, and the groups of paths whose results become one.

  A path or a group has an address. The table owns its paths through its two lists; a group
  holds the addresses of its members and a path that of its group. An address that is in no
  list is freed memory: reading through it is the outer \<open>None\<close>, as is the use of NULL where
  only an assertion stands before it. A group that no path refers to stays in the map, where
  nothing reaches it.

  The conversion of results is a parameter, stored in the path as a function. So are the
  clock and the random ids.
\<close>

section \<open>The structures\<close>

datatype TEN_PATH_TYPE = TEN_PATH_INVALID | TEN_PATH_IN | TEN_PATH_OUT

datatype TEN_PATH_GROUP_POLICY =
    TEN_PATH_GROUP_POLICY_INVALID
  | TEN_PATH_GROUP_POLICY_ONE_FAIL_RETURN_AND_ALL_OK_RETURN_FIRST
  | TEN_PATH_GROUP_POLICY_ONE_FAIL_RETURN_AND_ALL_OK_RETURN_LAST

type_synonym ten_msg_conversion = "ten_cmd_result \<Rightarrow> ten_error + ten_cmd_result"

record ten_path =
  path_addr :: nat
  path_cmd_name :: string
  original_cmd_id :: string
  path_cmd_id :: string
  path_src_loc :: ten_loc
  path_dest_loc :: ten_loc
  path_group :: "nat option"
  cached_cmd_result :: "ten_cmd_result option"
  result_conversion :: "ten_msg_conversion option"
  expired_time_us :: "64 word"
  path_result_handler :: "nat option"

record ten_path_group =
  policy :: TEN_PATH_GROUP_POLICY
  has_been_processed :: bool
  members :: "nat list"

text \<open>
  A table attached to an extension has the timeouts of its IN and OUT paths, one attached to
  an engine has none.
\<close>

record ten_path_table =
  path_timeouts :: "(64 word \<times> 64 word) option"
  in_paths :: "ten_path list"
  out_paths :: "ten_path list"
  path_groups :: "nat \<Rightarrow> ten_path_group option"
  next_addr :: nat

definition ten_path_table_create :: "(64 word \<times> 64 word) option \<Rightarrow> ten_path_table" where
  "ten_path_table_create timeouts =
     \<lparr>path_timeouts = timeouts, in_paths = [], out_paths = [], path_groups = (\<lambda>_. None),
      next_addr = 1\<rparr>"

definition paths_of :: "TEN_PATH_TYPE \<Rightarrow> ten_path_table \<Rightarrow> ten_path list" where
  "paths_of ty t = (if ty = TEN_PATH_IN then in_paths t else out_paths t)"

definition set_paths :: "TEN_PATH_TYPE \<Rightarrow> ten_path list \<Rightarrow> ten_path_table \<Rightarrow> ten_path_table" where
  "set_paths ty ps t =
     (if ty = TEN_PATH_IN then t\<lparr>in_paths := ps\<rparr> else t\<lparr>out_paths := ps\<rparr>)"

definition path_at :: "ten_path_table \<Rightarrow> nat \<Rightarrow> ten_path option" where
  "path_at t a = List.find (\<lambda>p. path_addr p = a) (in_paths t @ out_paths t)"

abbreviation on_path :: "nat \<Rightarrow> (ten_path \<Rightarrow> ten_path) \<Rightarrow> ten_path \<Rightarrow> ten_path" where
  "on_path a f p \<equiv> (if path_addr p = a then f p else p)"

definition update_path :: "nat \<Rightarrow> (ten_path \<Rightarrow> ten_path) \<Rightarrow> ten_path_table \<Rightarrow> ten_path_table" where
  "update_path a f t =
     t\<lparr>in_paths := map (on_path a f) (in_paths t), out_paths := map (on_path a f) (out_paths t)\<rparr>"

fun remove_node :: "nat \<Rightarrow> ten_path list \<Rightarrow> ten_path list" where
  "remove_node a [] = []"
| "remove_node a (p # ps) = (if path_addr p = a then ps else p # remove_node a ps)"

section \<open>Adding paths\<close>

definition ten_path_table_find_path_from_cmd_id ::
  "TEN_PATH_TYPE \<Rightarrow> string option \<Rightarrow> ten_path_table \<Rightarrow> ten_path option"
where
  "ten_path_table_find_path_from_cmd_id ty cid t =
     List.find (\<lambda>p. case cid of Some i \<Rightarrow> path_cmd_id p = i | None \<Rightarrow> True) (paths_of ty t)"

definition ten_path_init ::
  "nat \<Rightarrow> string \<Rightarrow> string option \<Rightarrow> string \<Rightarrow> ten_loc \<Rightarrow> ten_loc \<Rightarrow> ten_path"
where
  "ten_path_init addr name parent_id cid src dest =
     \<lparr>path_addr = addr, path_cmd_name = name,
      original_cmd_id = (case parent_id of Some p \<Rightarrow> p | None \<Rightarrow> []), path_cmd_id = cid,
      path_src_loc = ten_loc_init_from_loc src, path_dest_loc = ten_loc_init_from_loc dest,
      path_group = None, cached_cmd_result = None, result_conversion = None,
      expired_time_us = - 1, path_result_handler = None\<rparr>"

definition ten_path_in_create ::
  "nat \<Rightarrow> string \<Rightarrow> string option \<Rightarrow> string \<Rightarrow> ten_loc \<Rightarrow> ten_loc \<Rightarrow>
   ten_msg_conversion option \<Rightarrow> ten_path"
where
  "ten_path_in_create addr name parent_id cid src dest conversion =
     (ten_path_init addr name parent_id cid src dest)\<lparr>result_conversion := conversion\<rparr>"

definition ten_path_out_create ::
  "nat \<Rightarrow> string \<Rightarrow> string option \<Rightarrow> string \<Rightarrow> ten_loc \<Rightarrow> ten_loc \<Rightarrow> nat option \<Rightarrow> ten_path"
where
  "ten_path_out_create addr name parent_id cid src dest handler =
     (ten_path_init addr name parent_id cid src dest)
       \<lparr>path_result_handler := handler, result_conversion := None\<rparr>"

definition ten_path_set_expired_time :: "64 word \<Rightarrow> ten_path \<Rightarrow> ten_path" where
  "ten_path_set_expired_time us p = p\<lparr>expired_time_us := us\<rparr>"

text \<open>The clock is a nonnegative \<open>int64\<close>, read as \<open>uint64\<close>.\<close>

definition get_expired_time :: "64 word \<Rightarrow> 64 word \<Rightarrow> 64 word" where
  "get_expired_time now timeout_duration =
     (if timeout_duration > - 1 - now then - 1 else now + timeout_duration)"

definition ten_path_table_get_path_timeout_duration ::
  "TEN_PATH_TYPE \<Rightarrow> ten_path_table \<Rightarrow> 64 word"
where
  "ten_path_table_get_path_timeout_duration ty t =
     (case path_timeouts t of
        None \<Rightarrow> - 1
      | Some (in_timeout, out_timeout) \<Rightarrow>
          (case ty of TEN_PATH_IN \<Rightarrow> in_timeout | TEN_PATH_OUT \<Rightarrow> out_timeout
                    | TEN_PATH_INVALID \<Rightarrow> - 1))"

definition push_path :: "TEN_PATH_TYPE \<Rightarrow> ten_path \<Rightarrow> ten_path_table \<Rightarrow> ten_path_table" where
  "push_path ty p t = (set_paths ty (paths_of ty t @ [p]) t)\<lparr>next_addr := Suc (next_addr t)\<rparr>"

text \<open>
  An IN path whose id is taken gets a new id, if the message is a custom command. The
  command comes back without its parent id.
\<close>

definition ten_path_table_add_in_path ::
  "64 word \<Rightarrow> string \<Rightarrow> ten_cmd_base \<Rightarrow> ten_msg_conversion option \<Rightarrow> ten_path_table \<Rightarrow>
   (nat \<times> ten_cmd_base \<times> ten_path_table) option"
where
  "ten_path_table_add_in_path now uuid cmd conversion t =
     (let cmd' =
        (if ten_path_table_find_path_from_cmd_id TEN_PATH_IN (Some (cmd_id cmd)) t \<noteq> None \<and>
            ten_raw_msg_is_cmd (msg_type cmd) \<and> msg_type cmd = TEN_MSG_TYPE_CMD
         then ten_cmd_base_gen_new_cmd_id_forcibly uuid (ten_cmd_base_save_cmd_id_to_parent_cmd_id cmd)
         else cmd)
      in case dest_loc cmd' of
           [] \<Rightarrow> None
         | dest # _ \<Rightarrow>
             let p = ten_path_set_expired_time
                   (get_expired_time now (ten_path_table_get_path_timeout_duration TEN_PATH_IN t))
                   (ten_path_in_create (next_addr t) (msg_name cmd')
                      (ten_cmd_base_get_parent_cmd_id cmd') (cmd_id cmd') (src_loc cmd') dest
                      conversion)
             in Some (next_addr t, ten_cmd_base_reset_parent_cmd_id cmd', push_path TEN_PATH_IN p t))"

definition ten_path_table_add_out_path ::
  "64 word \<Rightarrow> ten_cmd_base \<Rightarrow> ten_path_table \<Rightarrow> (nat \<times> ten_cmd_base \<times> ten_path_table) option"
where
  "ten_path_table_add_out_path now cmd t =
     (case dest_loc cmd of
        [] \<Rightarrow> None
      | dest # _ \<Rightarrow>
          let p = ten_path_set_expired_time
                (get_expired_time now (ten_path_table_get_path_timeout_duration TEN_PATH_OUT t))
                (ten_path_out_create (next_addr t) (msg_name cmd)
                   (ten_cmd_base_get_parent_cmd_id cmd) (cmd_id cmd) (src_loc cmd) dest
                   (result_handler cmd))
          in Some (next_addr t,
                   ten_cmd_base_set_result_handler None (ten_cmd_base_reset_parent_cmd_id cmd),
                   push_path TEN_PATH_OUT p t))"

section \<open>Groups\<close>

definition ten_path_is_in_a_group :: "ten_path \<Rightarrow> bool" where
  "ten_path_is_in_a_group p \<longleftrightarrow> path_group p \<noteq> None"

definition ten_path_group_create :: "TEN_PATH_GROUP_POLICY \<Rightarrow> ten_path_group" where
  "ten_path_group_create pol = \<lparr>policy = pol, has_been_processed = False, members = []\<rparr>"

text \<open>The paths of a new group are given by their addresses.\<close>

definition ten_paths_create_group ::
  "nat list \<Rightarrow> TEN_PATH_GROUP_POLICY \<Rightarrow> ten_path_table \<Rightarrow> ten_path_table"
where
  "ten_paths_create_group paths pol t =
     (fold (\<lambda>a. update_path a (\<lambda>p. p\<lparr>path_group := Some (next_addr t)\<rparr>)) paths t)
       \<lparr>path_groups := (path_groups t)(next_addr t \<mapsto> (ten_path_group_create pol)\<lparr>members := paths\<rparr>),
        next_addr := Suc (next_addr t)\<rparr>"

text \<open>
  The loop over the members: the first with a failed result, and whether every member before
  the end has a result.
\<close>

fun first_failed :: "ten_path_table \<Rightarrow> nat list \<Rightarrow> bool \<Rightarrow> (nat option \<times> bool) option" where
  "first_failed t [] received_all = Some (None, received_all)"
| "first_failed t (a # as) received_all =
     (case path_at t a of
        None \<Rightarrow> None
      | Some p \<Rightarrow>
          (case cached_cmd_result p of
             Some r \<Rightarrow>
               if status_code r \<noteq> TEN_STATUS_CODE_OK then Some (Some a, received_all)
               else first_failed t as received_all
           | None \<Rightarrow> first_failed t as False))"

definition ten_path_group_resolve_in_one_fail_and_all_ok_return ::
  "nat list \<Rightarrow> bool \<Rightarrow> ten_path_table \<Rightarrow> nat option option"
where
  "ten_path_group_resolve_in_one_fail_and_all_ok_return ms return_last t =
     (case first_failed t ms True of
        None \<Rightarrow> None
      | Some (Some a, _) \<Rightarrow> Some (Some a)
      | Some (None, received_all) \<Rightarrow>
          if received_all then
            (if ms = [] then None else Some (Some (if return_last then last ms else hd ms)))
          else Some None)"

definition ten_path_group_resolve :: "nat \<Rightarrow> ten_path_table \<Rightarrow> nat option option" where
  "ten_path_group_resolve g t =
     (case path_groups t g of
        None \<Rightarrow> None
      | Some grp \<Rightarrow>
          (case policy grp of
             TEN_PATH_GROUP_POLICY_ONE_FAIL_RETURN_AND_ALL_OK_RETURN_FIRST \<Rightarrow>
               ten_path_group_resolve_in_one_fail_and_all_ok_return (members grp) False t
           | TEN_PATH_GROUP_POLICY_ONE_FAIL_RETURN_AND_ALL_OK_RETURN_LAST \<Rightarrow>
               ten_path_group_resolve_in_one_fail_and_all_ok_return (members grp) True t
           | TEN_PATH_GROUP_POLICY_INVALID \<Rightarrow> Some None))"

definition update_group ::
  "nat \<Rightarrow> (ten_path_group \<Rightarrow> ten_path_group) \<Rightarrow> ten_path_table \<Rightarrow> ten_path_table"
where
  "update_group g f t = t\<lparr>path_groups := (path_groups t)(g := map_option f (path_groups t g))\<rparr>"

definition ten_path_mark_belonging_group_processed :: "nat \<Rightarrow> ten_path_table \<Rightarrow> ten_path_table" where
  "ten_path_mark_belonging_group_processed g t =
     update_group g (\<lambda>grp. grp\<lparr>has_been_processed := True\<rparr>) t"

text \<open>Whether every member has a result, up to the first that has none.\<close>

fun all_cached :: "ten_path_table \<Rightarrow> nat list \<Rightarrow> bool option" where
  "all_cached t [] = Some True"
| "all_cached t (a # as) =
     (case path_at t a of
        None \<Rightarrow> None
      | Some p \<Rightarrow> if cached_cmd_result p = None then Some False else all_cached t as)"

fun remove_members :: "nat list \<Rightarrow> ten_path list \<Rightarrow> ten_path list option" where
  "remove_members [] ps = Some ps"
| "remove_members (a # as) ps =
     (if a \<notin> path_addr ` set ps then None else remove_members as (remove_node a ps))"

definition ten_path_table_remove_group_and_all_its_paths_if_needed ::
  "TEN_PATH_TYPE \<Rightarrow> nat \<Rightarrow> ten_path_table \<Rightarrow> (bool \<times> ten_path_table) option"
where
  "ten_path_table_remove_group_and_all_its_paths_if_needed ty g t =
     (case path_groups t g of
        None \<Rightarrow> None
      | Some grp \<Rightarrow>
          if \<not> has_been_processed grp then Some (False, t)
          else case all_cached t (members grp) of
                 None \<Rightarrow> None
               | Some False \<Rightarrow> Some (False, t)
               | Some True \<Rightarrow>
                   map_option (\<lambda>ps. (True, set_paths ty ps t))
                     (remove_members (members grp) (paths_of ty t)))"

section \<open>Results\<close>

text \<open>
  Caching a result replaces an older one. After a failed conversion the code clones NULL.
  The path of a group becomes its last member.
\<close>

definition converted_result :: "ten_path \<Rightarrow> ten_cmd_result \<Rightarrow> ten_cmd_result option" where
  "converted_result p r =
     (case result_conversion p of
        None \<Rightarrow> Some r
      | Some convert \<Rightarrow> (case convert r of Inl _ \<Rightarrow> None | Inr r' \<Rightarrow> Some r'))"

definition ten_path_set_result ::
  "nat \<Rightarrow> ten_cmd_result \<Rightarrow> ten_path_table \<Rightarrow> ten_path_table option"
where
  "ten_path_set_result a r t =
     (case path_at t a of
        None \<Rightarrow> None
      | Some p \<Rightarrow>
          (case converted_result p r of
             None \<Rightarrow> None
           | Some r' \<Rightarrow>
               let t' = update_path a (\<lambda>p. p\<lparr>cached_cmd_result := Some r'\<rparr>) t in
               (case path_group p of
                  None \<Rightarrow> Some t'
                | Some g \<Rightarrow>
                    (case path_groups t g of
                       None \<Rightarrow> None
                     | Some grp \<Rightarrow>
                         if a \<notin> set (members grp) then None
                         else Some (update_group g
                                (\<lambda>grp. grp\<lparr>members := remove1 a (members grp) @ [a]\<rparr>) t')))))"

definition ten_path_table_find_path ::
  "TEN_PATH_TYPE \<Rightarrow> ten_cmd_result \<Rightarrow> ten_path_table \<Rightarrow> ten_path option"
where
  "ten_path_table_find_path ty r t =
     (case ty of
        TEN_PATH_INVALID \<Rightarrow> None
      | _ \<Rightarrow> ten_path_table_find_path_from_cmd_id ty (Some (cmd_id r)) t)"

definition ten_path_table_set_result ::
  "TEN_PATH_TYPE \<Rightarrow> ten_cmd_result \<Rightarrow> ten_path_table \<Rightarrow> (nat option \<times> ten_path_table) option"
where
  "ten_path_table_set_result ty r t =
     (case ten_path_table_find_path ty r t of
        None \<Rightarrow> Some (None, t)
      | Some p \<Rightarrow>
          (case ten_path_set_result (path_addr p) r t of
             None \<Rightarrow> None
           | Some t' \<Rightarrow>
               (case path_group p of
                  None \<Rightarrow> Some (Some (path_addr p), t')
                | Some g \<Rightarrow>
                    (case ten_path_table_remove_group_and_all_its_paths_if_needed ty g t' of
                       None \<Rightarrow> None
                     | Some (removed, t'') \<Rightarrow>
                         Some (if removed then None else Some (path_addr p), t'')))))"

text \<open>A result that leaves along a path: its ids, its destination and its handler.\<close>

definition route_result :: "TEN_PATH_TYPE \<Rightarrow> ten_path \<Rightarrow> ten_cmd_result \<Rightarrow> ten_cmd_result" where
  "route_result ty p r =
     (let r1 = ten_cmd_result_set_original_cmd_name (path_cmd_name p) r;
          r2 = (if original_cmd_id p \<noteq> [] then r1\<lparr>cmd_id := original_cmd_id p\<rparr> else r1);
          r3 = ten_msg_clear_and_set_dest_to_loc (path_src_loc p) r2
      in if ty = TEN_PATH_OUT then ten_cmd_base_set_result_handler (path_result_handler p) r3
         else r3)"

definition ten_path_table_determine_actual_cmd_result ::
  "TEN_PATH_TYPE \<Rightarrow> nat \<Rightarrow> bool \<Rightarrow> ten_path_table \<Rightarrow> (ten_cmd_result option \<times> ten_path_table) option"
where
  "ten_path_table_determine_actual_cmd_result ty a remove_path t =
     (case path_at t a of
        None \<Rightarrow> None
      | Some p \<Rightarrow>
          (case (case path_group p of None \<Rightarrow> Some (Some a) | Some g \<Rightarrow> ten_path_group_resolve g t) of
             None \<Rightarrow> None
           | Some None \<Rightarrow> Some (None, t)
           | Some (Some b) \<Rightarrow>
               (case path_at t b of
                  None \<Rightarrow> None
                | Some q \<Rightarrow>
                    (case cached_cmd_result q of
                       None \<Rightarrow> None
                     | Some r \<Rightarrow>
                         let r' = route_result ty q r;
                             t' = update_path b (\<lambda>q. q\<lparr>cached_cmd_result := Some r'\<rparr>) t
                         in case path_group q of
                              None \<Rightarrow>
                                Some (Some r',
                                      if remove_path then
                                        set_paths ty (remove_node b (paths_of ty t')) t'
                                      else t')
                            | Some g \<Rightarrow>
                                map_option (\<lambda>(_, t''). (Some r', t''))
                                  (ten_path_table_remove_group_and_all_its_paths_if_needed ty g
                                    (ten_path_mark_belonging_group_processed g t'))))))"

text \<open>
  The two calls that every receiver of a result makes, in this order: a result without a path
  is dropped.
\<close>

definition result_arrives ::
  "TEN_PATH_TYPE \<Rightarrow> ten_cmd_result \<Rightarrow> bool \<Rightarrow> ten_path_table \<Rightarrow>
   (ten_cmd_result option \<times> ten_path_table) option"
where
  "result_arrives ty r remove_path t =
     (case ten_path_table_set_result ty r t of
        None \<Rightarrow> None
      | Some (None, t') \<Rightarrow> Some (None, t')
      | Some (Some a, t') \<Rightarrow> ten_path_table_determine_actual_cmd_result ty a remove_path t')"

end
