(* ===== verification/Path_Facts.thy ===== *)
theory Path_Facts
  imports Ten_Path "HOL-Library.Multiset"
begin

text \<open>
  The well-formedness of a path table, what the lookups give in a well-formed table, and that
  every operation keeps it well-formed.
\<close>

section \<open>Well-formed tables\<close>

text \<open>
  The members of a group are the addresses of the paths of one list that refer to it.
\<close>

definition group_ok :: "(nat \<Rightarrow> ten_path_group option) \<Rightarrow> ten_path list \<Rightarrow> nat \<Rightarrow> bool" where
  "group_ok G ps g \<longleftrightarrow>
     (\<exists>grp. G g = Some grp \<and> distinct (members grp) \<and>
        policy grp \<noteq> TEN_PATH_GROUP_POLICY_INVALID \<and>
        set (members grp) = path_addr ` {q \<in> set ps. path_group q = Some g})"

definition groups_ok :: "(nat \<Rightarrow> ten_path_group option) \<Rightarrow> ten_path list \<Rightarrow> bool" where
  "groups_ok G ps \<longleftrightarrow> (\<forall>p \<in> set ps. \<forall>g. path_group p = Some g \<longrightarrow> group_ok G ps g)"

definition all_paths :: "ten_path_table \<Rightarrow> ten_path list" where
  "all_paths t = in_paths t @ out_paths t"

definition table_ok :: "ten_path_table \<Rightarrow> bool" where
  "table_ok t \<longleftrightarrow>
     distinct (map path_addr (all_paths t)) \<and>
     (\<forall>p \<in> set (all_paths t). path_addr p < next_addr t) \<and>
     (\<forall>p \<in> set (all_paths t). \<forall>g. path_group p = Some g \<longrightarrow> g < next_addr t) \<and>
     groups_ok (path_groups t) (in_paths t) \<and> groups_ok (path_groups t) (out_paths t)"

lemma find_distinct:
  "distinct (map f xs) \<Longrightarrow> List.find (\<lambda>x. f x = a) xs = Some x \<longleftrightarrow> x \<in> set xs \<and> f x = a"
  by (induction xs) (auto simp: image_iff)

lemma path_at_iff:
  "distinct (map path_addr (all_paths t)) \<Longrightarrow>
   path_at t a = Some p \<longleftrightarrow> p \<in> set (all_paths t) \<and> path_addr p = a"
  unfolding path_at_def all_paths_def by (rule find_distinct)

lemma table_ok_path_at:
  "table_ok t \<Longrightarrow> path_at t a = Some p \<longleftrightarrow> p \<in> set (all_paths t) \<and> path_addr p = a"
  by (simp add: table_ok_def path_at_iff)

lemma find_SomeD: "List.find P xs = Some x \<Longrightarrow> P x \<and> x \<in> set xs"
  by (induction xs) (auto split: if_splits)

lemma path_at_addr: "path_at t a = Some p \<Longrightarrow> path_addr p = a \<and> p \<in> set (all_paths t)"
  unfolding path_at_def all_paths_def by (drule find_SomeD) simp

lemma paths_of_subset: "set (paths_of ty t) \<subseteq> set (all_paths t)"
  by (auto simp: paths_of_def all_paths_def)

lemma table_ok_lists:
  assumes "table_ok t"
  shows "distinct (map path_addr (paths_of ty t))" "groups_ok (path_groups t) (paths_of ty t)"
  using assms by (auto simp: table_ok_def all_paths_def paths_of_def)

lemma table_okD:
  assumes "table_ok t"
  shows "distinct (map path_addr (all_paths t))"
    and "p \<in> set (all_paths t) \<Longrightarrow> path_addr p < next_addr t"
    and "p \<in> set (all_paths t) \<Longrightarrow> path_group p = Some g \<Longrightarrow> g < next_addr t"
    and "groups_ok (path_groups t) (in_paths t)" and "groups_ok (path_groups t) (out_paths t)"
  using assms by (simp_all add: table_ok_def)

lemma table_okI:
  assumes "distinct (map path_addr (all_paths t))"
    and "\<And>p. p \<in> set (all_paths t) \<Longrightarrow> path_addr p < next_addr t"
    and "\<And>p g. p \<in> set (all_paths t) \<Longrightarrow> path_group p = Some g \<Longrightarrow> g < next_addr t"
    and "groups_ok (path_groups t) (in_paths t)" and "groups_ok (path_groups t) (out_paths t)"
  shows "table_ok t"
  using assms by (simp add: table_ok_def)

lemma path_of_list:
  "table_ok t \<Longrightarrow> p \<in> set (paths_of ty t) \<Longrightarrow> path_at t (path_addr p) = Some p"
  using paths_of_subset by (auto simp: table_ok_path_at)

text \<open>The members of the group of a path are paths of its list.\<close>

lemma group_members:
  assumes "table_ok t" and "p \<in> set (paths_of ty t)" and "path_group p = Some g"
  obtains grp where "path_groups t g = Some grp" and "distinct (members grp)"
    and "policy grp \<noteq> TEN_PATH_GROUP_POLICY_INVALID"
    and "set (members grp) = path_addr ` {q \<in> set (paths_of ty t). path_group q = Some g}"
proof -
  from table_ok_lists(2) [OF assms(1), of ty] assms(2,3)
  have "group_ok (path_groups t) (paths_of ty t) g" by (simp add: groups_ok_def)
  with that show thesis by (auto simp only: group_ok_def)
qed

lemma member_path:
  assumes "table_ok t" and "path_groups t g = Some grp"
    and "set (members grp) = path_addr ` {q \<in> set (paths_of ty t). path_group q = Some g}"
    and "a \<in> set (members grp)"
  shows "\<exists>q. path_at t a = Some q \<and> q \<in> set (paths_of ty t) \<and> path_group q = Some g"
  using assms path_of_list by fastforce

section \<open>Updates\<close>

lemma map_on_path_addr [simp]:
  "(\<And>p. path_addr (f p) = path_addr p) \<Longrightarrow>
   map (path_addr \<circ> on_path a f) ps = map path_addr ps"
  by (induction ps) auto

lemma all_paths_update [simp]:
  "all_paths (update_path a f t) = map (on_path a f) (all_paths t)"
  by (simp add: all_paths_def update_path_def)

lemma paths_of_update [simp]:
  "paths_of ty (update_path a f t) = map (on_path a f) (paths_of ty t)"
  by (simp add: paths_of_def update_path_def)

lemma update_path_fields [simp]:
  "path_groups (update_path a f t) = path_groups t"
  "next_addr (update_path a f t) = next_addr t"
  "path_timeouts (update_path a f t) = path_timeouts t"
  by (simp_all add: update_path_def)

lemma update_group_fields [simp]:
  "in_paths (update_group g f t) = in_paths t" "out_paths (update_group g f t) = out_paths t"
  "next_addr (update_group g f t) = next_addr t"
  "path_groups (update_group g f t) = (path_groups t)(g := map_option f (path_groups t g))"
  by (simp_all add: update_group_def)

lemma update_group_paths [simp]:
  "all_paths (update_group g f t) = all_paths t" "paths_of ty (update_group g f t) = paths_of ty t"
  "path_at (update_group g f t) a = path_at t a"
  by (simp_all add: all_paths_def paths_of_def path_at_def)

lemma path_at_update:
  assumes "\<And>p. path_addr (f p) = path_addr p"
  shows "path_at (update_path a f t) b = map_option (on_path a f) (path_at t b)"
proof -
  have "List.find (\<lambda>p. path_addr p = b) (map (on_path a f) ps) =
        map_option (on_path a f) (List.find (\<lambda>p. path_addr p = b) ps)" for ps
    by (induction ps) (auto simp: assms)
  then show ?thesis
    by (simp add: path_at_def update_path_def flip: map_append)
qed

lemma groups_ok_map:
  assumes "groups_ok G ps" and "\<And>p. path_addr (h p) = path_addr p"
    and "\<And>p. path_group (h p) = path_group p"
  shows "groups_ok G (map h ps)"
  unfolding groups_ok_def
proof (intro ballI allI impI)
  fix p g
  assume "p \<in> set (map h ps)" and g: "path_group p = Some g"
  then obtain q where "q \<in> set ps" "path_group q = Some g" using assms(3) by auto
  with assms(1) have "group_ok G ps g" by (simp add: groups_ok_def)
  moreover have "{q \<in> set (map h ps). path_group q = Some g} = h ` {q \<in> set ps. path_group q = Some g}"
    using assms(3) by auto
  moreover have "path_addr ` h ` A = path_addr ` A" for A
    by (simp add: image_image assms(2))
  ultimately show "group_ok G (map h ps) g" by (simp only: group_ok_def)
qed

lemma groups_ok_update:
  assumes "groups_ok G ps" and "\<And>p. path_addr (f p) = path_addr p"
    and "\<And>p. path_group (f p) = path_group p"
  shows "groups_ok G (map (on_path a f) ps)"
  by (rule groups_ok_map [OF assms(1)]) (simp_all add: assms(2,3))

lemma table_ok_update:
  assumes ok: "table_ok t" and f: "\<And>p. path_addr (f p) = path_addr p"
    "\<And>p. path_group (f p) = path_group p"
  shows "table_ok (update_path a f t)"
proof (rule table_okI)
  note old = table_okD [OF ok]
  show "distinct (map path_addr (all_paths (update_path a f t)))"
    using old(1) f(1) by simp
  fix p
  assume "p \<in> set (all_paths (update_path a f t))"
  then obtain q where q: "q \<in> set (all_paths t)" and p: "p = on_path a f q"
    unfolding all_paths_update by auto
  have same: "path_addr p = path_addr q" "path_group p = path_group q" unfolding p using f by auto
  show "path_addr p < next_addr (update_path a f t)" unfolding same using old(2) [OF q] by simp
  show "g < next_addr (update_path a f t)" if "path_group p = Some g" for g
    using that old(3) [OF q] unfolding same by simp
next
  show "groups_ok (path_groups (update_path a f t)) (in_paths (update_path a f t))"
    unfolding update_path_def
    using groups_ok_update [of "path_groups t" "in_paths t" f a] table_okD(4) [OF ok] f by simp
  show "groups_ok (path_groups (update_path a f t)) (out_paths (update_path a f t))"
    unfolding update_path_def
    using groups_ok_update [of "path_groups t" "out_paths t" f a] table_okD(5) [OF ok] f by simp
qed

text \<open>Changing a group in place: its members may only be reordered.\<close>

lemma groups_ok_group:
  assumes "groups_ok G ps"
    and "\<And>grp. distinct (members (f grp)) = distinct (members grp) \<and>
           set (members (f grp)) = set (members grp) \<and> policy (f grp) = policy grp"
  shows "groups_ok (G(g := map_option f (G g))) ps"
proof -
  have "group_ok (G(g := map_option f (G g))) ps g'" if "group_ok G ps g'" for g'
    using that assms(2) by (cases "g' = g") (auto simp: group_ok_def)
  with assms(1) show ?thesis by (auto simp: groups_ok_def)
qed

lemma table_ok_group:
  assumes "table_ok t"
    and "\<And>grp. distinct (members (f grp)) = distinct (members grp) \<and>
           set (members (f grp)) = set (members grp) \<and> policy (f grp) = policy grp"
  shows "table_ok (update_group g f t)"
  using assms groups_ok_group [of "path_groups t" _ f g]
  by (auto simp: table_ok_def)

section \<open>Removal\<close>

lemma remove_node_filter:
  "distinct (map path_addr ps) \<Longrightarrow> remove_node a ps = filter (\<lambda>p. path_addr p \<noteq> a) ps"
proof (induction ps)
  case (Cons p ps)
  then show ?case by (auto simp: image_iff intro!: sym [OF filter_True])
qed simp

lemma remove_members_filter:
  "distinct (map path_addr ps) \<Longrightarrow> distinct as \<Longrightarrow> set as \<subseteq> path_addr ` set ps \<Longrightarrow>
   remove_members as ps = Some (filter (\<lambda>p. path_addr p \<notin> set as) ps)"
proof (induction as arbitrary: ps)
  case (Cons a as)
  let ?qs = "filter (\<lambda>p. path_addr p \<noteq> a) ps"
  have "distinct (map path_addr ?qs)" using Cons.prems(1) by (simp add: distinct_map_filter)
  moreover have "set as \<subseteq> path_addr ` set ?qs" using Cons.prems(2,3) by fastforce
  ultimately have "remove_members as ?qs = Some (filter (\<lambda>p. path_addr p \<notin> set as) ?qs)"
    using Cons.IH Cons.prems(2) by simp
  moreover have "filter (\<lambda>p. path_addr p \<notin> set as) ?qs = filter (\<lambda>p. path_addr p \<notin> set (a # as)) ps"
    by (auto intro: filter_cong)
  ultimately show ?case using Cons.prems by (simp add: remove_node_filter)
qed simp

lemma paths_of_set_paths:
  "paths_of ty (set_paths ty ps t) = ps"
  by (simp add: paths_of_def set_paths_def)

lemma set_paths_fields [simp]:
  "path_groups (set_paths ty ps t) = path_groups t" "next_addr (set_paths ty ps t) = next_addr t"
  by (simp_all add: set_paths_def)

text \<open>Paths may go if the groups that stay keep all their paths.\<close>

lemma groups_ok_filter:
  assumes "groups_ok G ps"
    and "\<And>p q g. p \<in> set ps \<Longrightarrow> q \<in> set ps \<Longrightarrow> path_group p = Some g \<Longrightarrow> path_group q = Some g \<Longrightarrow>
           P p \<Longrightarrow> P q"
  shows "groups_ok G (filter P ps)"
  unfolding groups_ok_def
proof (intro ballI allI impI)
  fix p g
  assume p: "p \<in> set (filter P ps)" "path_group p = Some g"
  then have "group_ok G ps g" using assms(1) by (auto simp: groups_ok_def)
  moreover have "{q \<in> set (filter P ps). path_group q = Some g} = {q \<in> set ps. path_group q = Some g}"
    using p assms(2) by auto
  ultimately show "group_ok G (filter P ps) g" by (simp add: group_ok_def)
qed

lemma table_ok_filter:
  assumes ok: "table_ok t"
    and closed: "\<And>p q g. p \<in> set (paths_of ty t) \<Longrightarrow> q \<in> set (paths_of ty t) \<Longrightarrow>
           path_group p = Some g \<Longrightarrow> path_group q = Some g \<Longrightarrow> P p \<Longrightarrow> P q"
  shows "table_ok (set_paths ty (filter P (paths_of ty t)) t)"
proof (rule table_okI)
  let ?t = "set_paths ty (filter P (paths_of ty t)) t"
  note old = table_okD [OF ok]
  show "distinct (map path_addr (all_paths ?t))"
    using old(1) by (auto simp: all_paths_def set_paths_def paths_of_def distinct_map_filter)
  have sub: "set (all_paths ?t) \<subseteq> set (all_paths t)"
    by (auto simp: all_paths_def set_paths_def paths_of_def split: if_splits)
  fix p
  assume "p \<in> set (all_paths ?t)"
  then have p: "p \<in> set (all_paths t)" using sub by blast
  show "path_addr p < next_addr ?t" using old(2) [OF p] by simp
  show "g < next_addr ?t" if "path_group p = Some g" for g using old(3) [OF p that] by simp
next
  have "groups_ok (path_groups t) (filter P (paths_of ty t))"
    by (rule groups_ok_filter [OF table_ok_lists(2) [OF ok] closed])
  then show "groups_ok (path_groups (set_paths ty (filter P (paths_of ty t)) t))
      (in_paths (set_paths ty (filter P (paths_of ty t)) t))"
    "groups_ok (path_groups (set_paths ty (filter P (paths_of ty t)) t))
      (out_paths (set_paths ty (filter P (paths_of ty t)) t))"
    using table_okD(4,5) [OF ok] by (auto simp: set_paths_def paths_of_def)
qed

section \<open>The loops over the members of a group\<close>

definition failed :: "ten_path \<Rightarrow> bool" where
  "failed p \<longleftrightarrow> (case cached_cmd_result p of Some r \<Rightarrow> status_code r \<noteq> TEN_STATUS_CODE_OK | None \<Rightarrow> False)"

definition pending :: "ten_path \<Rightarrow> bool" where
  "pending p \<longleftrightarrow> cached_cmd_result p = None"

text \<open>
  Given the paths of the members, the loops find the first failed one, and a pending one.
\<close>

lemma first_failed_eq:
  "list_all2 (\<lambda>a p. path_at t a = Some p) ms ps \<Longrightarrow>
   \<exists>b'. first_failed t ms b = Some (map_option path_addr (List.find failed ps), b') \<and>
        (List.find failed ps = None \<longrightarrow> b' = (b \<and> (\<forall>p \<in> set ps. \<not> pending p)))"
proof (induction ms ps arbitrary: b rule: list_all2_induct)
  case (Cons a ms p ps)
  note IH = Cons.IH
  have addr: "path_addr p = a" using path_at_addr [OF Cons.hyps(1)] by simp
  show ?case
  proof (cases "cached_cmd_result p")
    case None
    then show ?thesis using IH [of False] Cons.hyps(1) by (auto simp: failed_def pending_def)
  next
    case (Some r)
    then show ?thesis using IH [of b] Cons.hyps(1) addr by (auto simp: failed_def pending_def)
  qed
qed simp

lemma all_cached_eq:
  "list_all2 (\<lambda>a p. path_at t a = Some p) ms ps \<Longrightarrow>
   all_cached t ms = Some (\<forall>p \<in> set ps. \<not> pending p)"
  by (induction ms ps rule: list_all2_induct) (auto simp: pending_def)

text \<open>The path that stands for a group, if its result is decided.\<close>

definition resolution :: "TEN_PATH_GROUP_POLICY \<Rightarrow> ten_path list \<Rightarrow> ten_path option" where
  "resolution pol ps =
     (case List.find failed ps of
        Some p \<Rightarrow> Some p
      | None \<Rightarrow>
          if \<exists>p \<in> set ps. pending p then None
          else Some (if pol = TEN_PATH_GROUP_POLICY_ONE_FAIL_RETURN_AND_ALL_OK_RETURN_LAST
                     then last ps else hd ps))"

lemma resolution_in: "resolution pol ps = Some p \<Longrightarrow> ps \<noteq> [] \<Longrightarrow> p \<in> set ps \<and> \<not> pending p"
  by (auto simp: resolution_def failed_def pending_def dest!: find_SomeD
        split: option.splits if_splits)

lemma list_all2_addr:
  "list_all2 (\<lambda>a p. path_at t a = Some p) ms ps \<Longrightarrow> ms = map path_addr ps"
  by (induction ms ps rule: list_all2_induct) (auto dest: path_at_addr)

lemma resolve_eq:
  assumes "path_groups t g = Some grp" and "policy grp \<noteq> TEN_PATH_GROUP_POLICY_INVALID"
    and "list_all2 (\<lambda>a p. path_at t a = Some p) (members grp) ps" and "ps \<noteq> []"
  shows "ten_path_group_resolve g t = Some (map_option path_addr (resolution (policy grp) ps))"
proof -
  obtain b' where "first_failed t (members grp) True =
      Some (map_option path_addr (List.find failed ps), b')"
    and "List.find failed ps = None \<longrightarrow> b' = (\<forall>p \<in> set ps. \<not> pending p)"
    using first_failed_eq [OF assms(3), of True] by auto
  then show ?thesis
    using assms list_all2_addr [OF assms(3)]
    by (cases "policy grp"; cases "List.find failed ps")
       (auto simp: ten_path_group_resolve_def resolution_def
          ten_path_group_resolve_in_one_fail_and_all_ok_return_def last_map hd_map)
qed

section \<open>What the operations do to a well-formed table\<close>

text \<open>The paths of the members of a group, in the order of the members.\<close>

lemma members_paths:
  assumes "table_ok t" and "p \<in> set (paths_of ty t)" and "path_group p = Some g"
  obtains grp ps where "path_groups t g = Some grp" and "distinct (members grp)"
    and "policy grp \<noteq> TEN_PATH_GROUP_POLICY_INVALID"
    and "list_all2 (\<lambda>a p. path_at t a = Some p) (members grp) ps"
    and "set ps = {q \<in> set (paths_of ty t). path_group q = Some g}" and "ps \<noteq> []"
proof -
  from group_members [OF assms] obtain grp where grp: "path_groups t g = Some grp"
    "distinct (members grp)" "policy grp \<noteq> TEN_PATH_GROUP_POLICY_INVALID"
    and set: "set (members grp) = path_addr ` {q \<in> set (paths_of ty t). path_group q = Some g}"
    by blast
  let ?ps = "map (\<lambda>a. the (path_at t a)) (members grp)"
  have each: "\<exists>q. path_at t a = Some q \<and> q \<in> set (paths_of ty t) \<and> path_group q = Some g"
    if "a \<in> set (members grp)" for a
    by (rule member_path [OF assms(1) grp(1) set that])
  have "list_all2 (\<lambda>a p. path_at t a = Some p) (members grp) ?ps"
    unfolding list_all2_map2
    by (rule list.rel_refl_strong) (use each in fastforce)
  moreover have "set ?ps = {q \<in> set (paths_of ty t). path_group q = Some g}"
  proof
    show "set ?ps \<subseteq> {q \<in> set (paths_of ty t). path_group q = Some g}"
      using each by fastforce
    show "{q \<in> set (paths_of ty t). path_group q = Some g} \<subseteq> set ?ps"
      using path_of_list [OF assms(1)] by (force simp: set)
  qed
  moreover from this have "?ps \<noteq> []" using assms(2,3) by auto
  ultimately show thesis using that [OF grp] by blast
qed

lemma remove_group_eq:
  assumes "table_ok t" and "p \<in> set (paths_of ty t)" and "path_group p = Some g"
  shows "ten_path_table_remove_group_and_all_its_paths_if_needed ty g t =
    Some (if has_been_processed (the (path_groups t g)) \<and>
             (\<forall>q \<in> set (paths_of ty t). path_group q = Some g \<longrightarrow> \<not> pending q)
          then (True, set_paths ty (filter (\<lambda>q. path_group q \<noteq> Some g) (paths_of ty t)) t)
          else (False, t))"
proof -
  from members_paths [OF assms] obtain grp ps where grp: "path_groups t g = Some grp"
    "distinct (members grp)" "list_all2 (\<lambda>a p. path_at t a = Some p) (members grp) ps"
    and ps: "set ps = {q \<in> set (paths_of ty t). path_group q = Some g}"
    by blast
  have ms: "set (members grp) = path_addr ` set ps"
    using list_all2_addr [OF grp(3)] by simp
  have dist: "distinct (map path_addr (paths_of ty t))" by (rule table_ok_lists [OF assms(1)])
  have "remove_members (members grp) (paths_of ty t) =
      Some (filter (\<lambda>p. path_addr p \<notin> set (members grp)) (paths_of ty t))"
    by (rule remove_members_filter [OF dist grp(2)]) (auto simp: ms ps)
  moreover have "filter (\<lambda>p. path_addr p \<notin> set (members grp)) (paths_of ty t) =
      filter (\<lambda>q. path_group q \<noteq> Some g) (paths_of ty t)"
    using dist by (intro filter_cong) (auto simp: ms ps distinct_map inj_on_def)
  ultimately show ?thesis
    using all_cached_eq [OF grp(3)] grp(1)
    by (auto simp: ten_path_table_remove_group_and_all_its_paths_if_needed_def ps split: bool.splits)
qed

lemma remove_group_ok:
  assumes "table_ok t" and "p \<in> set (paths_of ty t)" and "path_group p = Some g"
    and "ten_path_table_remove_group_and_all_its_paths_if_needed ty g t = Some (b, t')"
  shows "table_ok t'"
  using assms remove_group_eq [OF assms(1-3)]
  by (auto split: if_splits intro!: table_ok_filter)

text \<open>
  What happens to a list of paths: some go, the others keep everything but their cached
  result, and keep having one.
\<close>

definition recached :: "ten_path \<Rightarrow> ten_path \<Rightarrow> bool" where
  "recached p q \<longleftrightarrow> (\<exists>c. q = p\<lparr>cached_cmd_result := c\<rparr> \<and> (cached_cmd_result p \<noteq> None \<longrightarrow> c \<noteq> None))"

definition thinned :: "ten_path list \<Rightarrow> ten_path list \<Rightarrow> bool" where
  "thinned ps qs \<longleftrightarrow> (\<exists>P h. qs = map h (filter P ps) \<and> (\<forall>p. recached p (h p)))"

lemma recached_fields:
  assumes "recached p q"
  shows "path_addr q = path_addr p" "path_cmd_id q = path_cmd_id p" "path_group q = path_group p"
    "original_cmd_id q = original_cmd_id p" "result_conversion q = result_conversion p"
    "path_src_loc q = path_src_loc p" "path_cmd_name q = path_cmd_name p"
    "expired_time_us q = expired_time_us p" "path_result_handler q = path_result_handler p"
    "\<not> pending p \<Longrightarrow> \<not> pending q"
  using assms by (auto simp: recached_def pending_def)

lemma recached_refl [simp]: "recached p p"
  unfolding recached_def by (rule exI [of _ "cached_cmd_result p"]) simp

lemma recached_cache [simp]: "recached p (p\<lparr>cached_cmd_result := Some r\<rparr>)"
  unfolding recached_def by blast

lemma recached_trans: "recached p q \<Longrightarrow> recached q s \<Longrightarrow> recached p s"
  unfolding recached_def by (cases p) fastforce

lemma thinned_trans:
  assumes "thinned ps qs" and "thinned qs rs"
  shows "thinned ps rs"
proof -
  from assms obtain P h P' h' where "qs = map h (filter P ps)" "\<forall>p. recached p (h p)"
    and "rs = map h' (filter P' qs)" "\<forall>p. recached p (h' p)"
    unfolding thinned_def by blast
  then have "rs = map (h' \<circ> h) (filter (\<lambda>p. P p \<and> P' (h p)) ps)"
    by (simp add: filter_map comp_def conj_commute)
  moreover have "\<forall>p. recached p ((h' \<circ> h) p)"
    using \<open>\<forall>p. recached p (h p)\<close> \<open>\<forall>p. recached p (h' p)\<close> by (auto intro: recached_trans)
  ultimately show ?thesis unfolding thinned_def by blast
qed

lemma thinned_refl [simp]: "thinned ps ps"
  unfolding thinned_def by (rule exI [of _ "\<lambda>_. True"], rule exI [of _ "\<lambda>p. p"]) simp

lemma thinned_cache: "thinned ps (map (on_path a (\<lambda>p. p\<lparr>cached_cmd_result := Some r\<rparr>)) ps)"
  unfolding thinned_def
  by (rule exI [of _ "\<lambda>_. True"], rule exI [of _ "on_path a (\<lambda>p. p\<lparr>cached_cmd_result := Some r\<rparr>)"])
     simp

lemma thinned_filter: "thinned ps (filter P ps)"
  unfolding thinned_def by (rule exI [of _ P], rule exI [of _ "\<lambda>p. p"]) simp

lemma thinned_in:
  assumes "thinned ps qs" and "q \<in> set qs"
  obtains p where "p \<in> set ps" and "recached p q"
  using assms unfolding thinned_def by auto

lemma thinned_distinct:
  assumes "thinned ps qs" and "distinct (map path_cmd_id ps)"
  shows "distinct (map path_cmd_id qs)"
proof -
  from assms(1) obtain P h where qs: "qs = map h (filter P ps)" and h: "\<forall>p. recached p (h p)"
    unfolding thinned_def by blast
  have "path_cmd_id \<circ> h = path_cmd_id"
    using recached_fields(2) h by (auto simp: fun_eq_iff)
  then show ?thesis using assms(2) by (simp add: qs distinct_map_filter)
qed

section \<open>Results in a well-formed table\<close>

text \<open>A table after one step along the other: well-formed, and both lists thinned.\<close>

definition steps_to :: "ten_path_table \<Rightarrow> ten_path_table \<Rightarrow> bool" where
  "steps_to t t' \<longleftrightarrow>
     table_ok t' \<and> thinned (in_paths t) (in_paths t') \<and> thinned (out_paths t) (out_paths t') \<and>
     next_addr t' = next_addr t"

lemma steps_to_refl: "table_ok t \<Longrightarrow> steps_to t t"
  by (simp add: steps_to_def)

lemma steps_to_trans: "steps_to t u \<Longrightarrow> steps_to u v \<Longrightarrow> steps_to t v"
  unfolding steps_to_def by (auto intro: thinned_trans)

lemma steps_to_ok: "steps_to t t' \<Longrightarrow> table_ok t'"
  by (simp add: steps_to_def)

lemma steps_to_paths: "steps_to t t' \<Longrightarrow> thinned (paths_of ty t) (paths_of ty t')"
  by (simp add: steps_to_def paths_of_def)

abbreviation cache_at :: "nat \<Rightarrow> ten_cmd_result \<Rightarrow> ten_path_table \<Rightarrow> ten_path_table" where
  "cache_at a r \<equiv> update_path a (\<lambda>p. p\<lparr>cached_cmd_result := Some r\<rparr>)"

abbreviation move_last :: "nat \<Rightarrow> ten_path_group \<Rightarrow> ten_path_group" where
  "move_last a \<equiv> \<lambda>grp. grp\<lparr>members := remove1 a (members grp) @ [a]\<rparr>"

lemma steps_to_cache: "table_ok t \<Longrightarrow> steps_to t (cache_at a r t)"
  unfolding steps_to_def
  by (simp add: table_ok_update) (simp add: update_path_def thinned_cache)

lemma move_last_perm:
  assumes "a \<in> set (members grp)"
  shows "distinct (members (move_last a grp)) = distinct (members grp)"
    and "set (members (move_last a grp)) = set (members grp)"
    and "policy (move_last a grp) = policy grp"
proof -
  have "mset (remove1 a (members grp) @ [a]) = mset (members grp)" using assms by simp
  from mset_eq_imp_distinct_iff [OF this] mset_eq_setD [OF this]
  show "distinct (members (move_last a grp)) = distinct (members grp)"
    and "set (members (move_last a grp)) = set (members grp)"
    by simp_all
qed simp

lemma groups_ok_at:
  assumes "groups_ok G ps" and "G g = Some grp"
    and "distinct (members grp') = distinct (members grp)"
    and "set (members grp') = set (members grp)" and "policy grp' = policy grp"
  shows "groups_ok (G(g \<mapsto> grp')) ps"
proof -
  have "group_ok (G(g \<mapsto> grp')) ps g'" if "group_ok G ps g'" for g'
    using that assms(2-) by (cases "g' = g") (auto simp: group_ok_def)
  with assms(1) show ?thesis by (auto simp: groups_ok_def)
qed

lemma steps_to_group:
  assumes "table_ok t" and "path_groups t g = Some grp"
    and "distinct (members (f grp)) = distinct (members grp)"
    and "set (members (f grp)) = set (members grp)" and "policy (f grp) = policy grp"
  shows "steps_to t (update_group g f t)"
  using assms groups_ok_at [of "path_groups t" _ g grp "f grp"]
  by (simp add: steps_to_def table_ok_def)

lemma member_of_group:
  assumes "table_ok t" and "p \<in> set (paths_of ty t)" and "path_group p = Some g"
  obtains grp where "path_groups t g = Some grp" and "path_addr p \<in> set (members grp)"
proof -
  from group_members [OF assms] obtain grp where grp: "path_groups t g = Some grp"
    and "distinct (members grp)" and "policy grp \<noteq> TEN_PATH_GROUP_POLICY_INVALID"
    and set: "set (members grp) = path_addr ` {q \<in> set (paths_of ty t). path_group q = Some g}" .
  have "path_addr p \<in> set (members grp)"
    unfolding set by (rule imageI) (simp add: assms(2,3))
  with grp show thesis by (rule that)
qed

text \<open>Caching a result, and the path moved to the end of its group.\<close>

definition cached_table :: "ten_path \<Rightarrow> ten_cmd_result \<Rightarrow> ten_path_table \<Rightarrow> ten_path_table" where
  "cached_table p r t =
     (case path_group p of
        None \<Rightarrow> cache_at (path_addr p) r t
      | Some g \<Rightarrow> update_group g (move_last (path_addr p)) (cache_at (path_addr p) r t))"

lemma set_result_eq:
  assumes "table_ok t" and "p \<in> set (paths_of ty t)"
  shows "ten_path_set_result (path_addr p) r t =
    map_option (\<lambda>r'. cached_table p r' t) (converted_result p r)"
proof (cases "converted_result p r")
  case None
  then show ?thesis using path_of_list [OF assms] by (simp add: ten_path_set_result_def)
next
  case r: (Some r')
  show ?thesis
  proof (cases "path_group p")
    case None
    then show ?thesis
      using r path_of_list [OF assms] by (simp add: ten_path_set_result_def cached_table_def)
  next
    case (Some g)
    from member_of_group [OF assms Some] obtain grp where
      "path_groups t g = Some grp" "path_addr p \<in> set (members grp)" .
    then show ?thesis
      using r Some path_of_list [OF assms] by (simp add: ten_path_set_result_def cached_table_def)
  qed
qed

lemma cached_table_steps:
  assumes "table_ok t" and "p \<in> set (paths_of ty t)"
  shows "steps_to t (cached_table p r t)"
proof -
  have cached: "steps_to t (cache_at (path_addr p) r t)" by (rule steps_to_cache [OF assms(1)])
  show ?thesis
  proof (cases "path_group p")
    case None
    with cached show ?thesis by (simp add: cached_table_def)
  next
    case (Some g)
    from member_of_group [OF assms Some] obtain grp where grp:
      "path_groups t g = Some grp" "path_addr p \<in> set (members grp)" .
    have "steps_to (cache_at (path_addr p) r t)
        (update_group g (move_last (path_addr p)) (cache_at (path_addr p) r t))"
      by (rule steps_to_group [OF steps_to_ok [OF cached]]) (use grp move_last_perm in simp_all)
    with cached Some show ?thesis by (auto simp: cached_table_def intro: steps_to_trans)
  qed
qed

lemma steps_to_filter:
  assumes "table_ok t"
    and "\<And>p q g. p \<in> set (paths_of ty t) \<Longrightarrow> q \<in> set (paths_of ty t) \<Longrightarrow>
           path_group p = Some g \<Longrightarrow> path_group q = Some g \<Longrightarrow> P p \<Longrightarrow> P q"
  shows "steps_to t (set_paths ty (filter P (paths_of ty t)) t)"
  unfolding steps_to_def
  using table_ok_filter [OF assms] by (auto simp: set_paths_def paths_of_def thinned_filter)

lemma find_path_iff:
  "ten_path_table_find_path ty r t = Some p \<Longrightarrow> p \<in> set (paths_of ty t) \<and> path_cmd_id p = cmd_id r"
  by (cases ty)
     (auto simp: ten_path_table_find_path_def ten_path_table_find_path_from_cmd_id_def
        dest!: find_SomeD)

lemma cached_path:
  assumes "p \<in> set (paths_of ty t)"
  shows "p\<lparr>cached_cmd_result := Some r\<rparr> \<in> set (paths_of ty (cached_table p r t))"
  using assms
  by (cases "path_group p") (force simp: cached_table_def image_iff)+

lemma remove_group_steps:
  assumes "table_ok t" and "p \<in> set (paths_of ty t)" and "path_group p = Some g"
  obtains b t' where "ten_path_table_remove_group_and_all_its_paths_if_needed ty g t = Some (b, t')"
    and "steps_to t t'" and "\<not> b \<Longrightarrow> t' = t"
proof -
  have "steps_to t (set_paths ty (filter (\<lambda>q. path_group q \<noteq> Some g) (paths_of ty t)) t)"
    by (rule steps_to_filter [OF assms(1)]) simp
  note removed = this
  show thesis
  proof (cases "has_been_processed (the (path_groups t g)) \<and>
      (\<forall>q \<in> set (paths_of ty t). path_group q = Some g \<longrightarrow> \<not> pending q)")
    case True
    show thesis
      by (rule that [of True, OF _ removed]) (use remove_group_eq [OF assms] True in simp_all)
  next
    case False
    show thesis
      by (rule that [of False, OF _ steps_to_refl [OF assms(1)]])
         (use remove_group_eq [OF assms] False in auto)
  qed
qed

lemma mark_steps:
  assumes "table_ok t"
  shows "steps_to t (ten_path_mark_belonging_group_processed g t)"
proof (cases "path_groups t g")
  case None
  then have "ten_path_mark_belonging_group_processed g t = t"
    by (simp add: ten_path_mark_belonging_group_processed_def update_group_def fun_upd_idem)
  then show ?thesis using steps_to_refl [OF assms] by simp
next
  case (Some grp)
  show ?thesis
    unfolding ten_path_mark_belonging_group_processed_def
    by (rule steps_to_group [OF assms Some]) simp_all
qed

text \<open>
  The result of a path that is decided leaves along it, and the path or its group is removed
  when it is done.
\<close>

definition settled :: "TEN_PATH_TYPE \<Rightarrow> ten_path \<Rightarrow> bool \<Rightarrow> ten_path_table \<Rightarrow>
  (ten_cmd_result option \<times> ten_path_table) option"
where
  "settled ty q remove_path t =
     (let r' = route_result ty q (the (cached_cmd_result q)); t' = cache_at (path_addr q) r' t in
      case path_group q of
        None \<Rightarrow>
          Some (Some r',
                if remove_path then set_paths ty (remove_node (path_addr q) (paths_of ty t')) t' else t')
      | Some g \<Rightarrow>
          map_option (\<lambda>(_, t''). (Some r', t''))
            (ten_path_table_remove_group_and_all_its_paths_if_needed ty g
              (ten_path_mark_belonging_group_processed g t')))"

lemma determine_ungrouped:
  assumes "table_ok t" and "p \<in> set (paths_of ty t)" and "\<not> pending p" and "path_group p = None"
  shows "ten_path_table_determine_actual_cmd_result ty (path_addr p) rm t = settled ty p rm t"
proof -
  from assms(3) obtain y where y: "cached_cmd_result p = Some y" by (auto simp: pending_def)
  show ?thesis
    using assms path_of_list [OF assms(1,2)]
    by (simp add: ten_path_table_determine_actual_cmd_result_def settled_def y Let_def)
qed

lemma member_at:
  "list_all2 (\<lambda>a p. path_at t a = Some p) ms ps \<Longrightarrow> q \<in> set ps \<Longrightarrow> path_at t (path_addr q) = Some q"
  by (induction ms ps rule: list_all2_induct) (auto dest: path_at_addr)

lemma determine_grouped:
  assumes "table_ok t" and "p \<in> set (paths_of ty t)" and "path_group p = Some g"
    and "path_groups t g = Some grp" and "policy grp \<noteq> TEN_PATH_GROUP_POLICY_INVALID"
    and "list_all2 (\<lambda>a p. path_at t a = Some p) (members grp) ps" and "ps \<noteq> []"
  shows "ten_path_table_determine_actual_cmd_result ty (path_addr p) rm t =
    (case resolution (policy grp) ps of None \<Rightarrow> Some (None, t) | Some q \<Rightarrow> settled ty q rm t)"
proof (cases "resolution (policy grp) ps")
  case None
  then show ?thesis
    using assms path_of_list [OF assms(1,2)] resolve_eq [OF assms(4-7)]
    by (simp add: ten_path_table_determine_actual_cmd_result_def)
next
  case (Some q)
  then have q: "q \<in> set ps" "\<not> pending q" using resolution_in assms(7) by auto
  from q(2) obtain y where y: "cached_cmd_result q = Some y" by (auto simp: pending_def)
  from Some member_at [OF assms(6) q(1)] show ?thesis
    using assms(3) path_of_list [OF assms(1,2)] resolve_eq [OF assms(4-7)]
    by (simp add: ten_path_table_determine_actual_cmd_result_def settled_def y Let_def)
qed

lemma settled_steps:
  assumes "table_ok t" and "q \<in> set (paths_of ty t)"
  obtains r t' where "settled ty q rm t = Some (Some r, t')" and "steps_to t t'"
proof -
  let ?r = "route_result ty q (the (cached_cmd_result q))"
  let ?q = "q\<lparr>cached_cmd_result := Some ?r\<rparr>" and ?t = "cache_at (path_addr q) ?r t"
  have cached: "steps_to t ?t" by (rule steps_to_cache [OF assms(1)])
  have ok: "table_ok ?t" by (rule steps_to_ok [OF cached])
  show thesis
  proof (cases "path_group q")
    case None
    have "distinct (map path_addr (paths_of ty ?t))" by (rule table_ok_lists(1) [OF ok])
    then have "remove_node (path_addr q) (paths_of ty ?t) =
        filter (\<lambda>p. path_addr p \<noteq> path_addr q) (paths_of ty ?t)"
      by (rule remove_node_filter)
    moreover have "steps_to ?t (set_paths ty (filter (\<lambda>p. path_addr p \<noteq> path_addr q) (paths_of ty ?t)) ?t)"
    proof (rule steps_to_filter [OF ok])
      fix p s g
      assume s: "s \<in> set (paths_of ty ?t)" "path_group s = Some g"
      show "path_addr s \<noteq> path_addr q"
      proof
        assume "path_addr s = path_addr q"
        moreover obtain s0 where "s0 \<in> set (paths_of ty t)"
          "s = on_path (path_addr q) (\<lambda>p. p\<lparr>cached_cmd_result := Some ?r\<rparr>) s0"
          using s(1) by auto
        ultimately have "s0 = q" "path_group s = path_group s0"
          using assms(2) table_ok_lists(1) [OF assms(1), of ty]
          by (auto simp: distinct_map inj_on_def split: if_splits)
        with s(2) None show False by simp
      qed
    qed
    ultimately have removed:
      "steps_to t (set_paths ty (remove_node (path_addr q) (paths_of ty ?t)) ?t)"
      using steps_to_trans [OF cached] by simp
    show thesis
      by (rule that [of ?r "if rm then set_paths ty (remove_node (path_addr q) (paths_of ty ?t)) ?t
                            else ?t"])
         (use None removed cached in \<open>simp_all add: settled_def Let_def\<close>)
  next
    case (Some g)
    let ?u = "ten_path_mark_belonging_group_processed g ?t"
    have marked: "steps_to ?t ?u" by (rule mark_steps [OF ok])
    have "?q \<in> set (paths_of ty ?u)"
      using assms(2) by (force simp: ten_path_mark_belonging_group_processed_def image_iff)
    moreover have "path_group ?q = Some g" using Some by simp
    ultimately obtain b v where
      "ten_path_table_remove_group_and_all_its_paths_if_needed ty g ?u = Some (b, v)" "steps_to ?u v"
      using remove_group_steps [OF steps_to_ok [OF marked], of ?q ty g] by metis
    with Some have "settled ty q rm t = Some (Some ?r, v)" by (simp add: settled_def Let_def)
    moreover have "steps_to t v"
      using steps_to_trans [OF cached steps_to_trans [OF marked \<open>steps_to ?u v\<close>]] .
    ultimately show thesis by (rule that)
  qed
qed

lemma determine_steps:
  assumes "table_ok t" and "p \<in> set (paths_of ty t)" and "\<not> pending p"
  obtains res t' where
    "ten_path_table_determine_actual_cmd_result ty (path_addr p) rm t = Some (res, t')"
    and "steps_to t t'"
proof (cases "path_group p")
  case None
  from settled_steps [OF assms(1,2)] obtain r t' where
    "settled ty p rm t = Some (Some r, t')" "steps_to t t'" .
  with determine_ungrouped [OF assms None] show thesis by (intro that) simp_all
next
  case (Some g)
  from members_paths [OF assms(1,2) Some] obtain grp ps where grp1: "path_groups t g = Some grp"
    and "distinct (members grp)" and grp2: "policy grp \<noteq> TEN_PATH_GROUP_POLICY_INVALID"
    and grp3: "list_all2 (\<lambda>a p. path_at t a = Some p) (members grp) ps"
    and ps: "set ps = {q \<in> set (paths_of ty t). path_group q = Some g}" "ps \<noteq> []" .
  note grp = grp1 grp2 grp3
  note determine = determine_grouped [OF assms(1,2) Some grp ps(2)]
  show thesis
  proof (cases "resolution (policy grp) ps")
    case None
    with determine steps_to_refl [OF assms(1)] show thesis by (intro that) simp_all
  next
    case (Some q)
    then have "q \<in> set ps" using resolution_in [OF _ ps(2)] by blast
    then have "q \<in> set (paths_of ty t)" unfolding ps(1) by simp
    from settled_steps [OF assms(1) this] obtain r t' where
      "settled ty q rm t = Some (Some r, t')" "steps_to t t'" .
    with determine Some show thesis by (intro that) simp_all
  qed
qed

definition convertible :: "ten_path \<Rightarrow> bool" where
  "convertible p \<longleftrightarrow> (\<forall>f r. result_conversion p = Some f \<longrightarrow> (\<exists>r'. f r = Inr r'))"

lemma convertible_converted:
  assumes "convertible p"
  shows "\<exists>r'. converted_result p r = Some r'"
proof (cases "result_conversion p")
  case None
  then show ?thesis by (simp add: converted_result_def)
next
  case (Some f)
  with assms obtain r' where "f r = Inr r'" by (auto simp: convertible_def)
  with Some show ?thesis by (simp add: converted_result_def)
qed

lemma table_set_result_steps:
  assumes "table_ok t" and "\<And>p. p \<in> set (paths_of ty t) \<Longrightarrow> convertible p"
  obtains t' where "ten_path_table_set_result ty r t = Some (None, t')" and "steps_to t t'"
  | t' p where "ten_path_table_set_result ty r t = Some (Some (path_addr p), t')" and "steps_to t t'"
    and "p \<in> set (paths_of ty t')" and "\<not> pending p" and "path_cmd_id p = cmd_id r"
proof (cases "ten_path_table_find_path ty r t")
  case None
  then show thesis
    using that(1) steps_to_refl [OF assms(1)] by (simp add: ten_path_table_set_result_def)
next
  case (Some p)
  then have p: "p \<in> set (paths_of ty t)" "path_cmd_id p = cmd_id r"
    using find_path_iff by auto
  obtain r' where r': "converted_result p r = Some r'"
    using convertible_converted assms(2) p(1) by blast
  let ?t = "cached_table p r' t" and ?p = "p\<lparr>cached_cmd_result := Some r'\<rparr>"
  have set: "ten_path_set_result (path_addr p) r t = Some ?t"
    using set_result_eq [OF assms(1) p(1)] r' by simp
  have steps: "steps_to t ?t" by (rule cached_table_steps [OF assms(1) p(1)])
  have here: "?p \<in> set (paths_of ty ?t)" by (rule cached_path [OF p(1)])
  show thesis
  proof (cases "path_group p")
    case None
    show thesis
      by (rule that(2) [of ?p ?t])
         (use Some set steps here None p(2) in
           \<open>simp_all add: ten_path_table_set_result_def pending_def\<close>)
  next
    case g: (Some g)
    then have "path_group ?p = Some g" by simp
    from remove_group_steps [OF steps_to_ok [OF steps] here this] obtain b t' where
      removal: "ten_path_table_remove_group_and_all_its_paths_if_needed ty g ?t = Some (b, t')"
      "steps_to ?t t'" "\<not> b \<Longrightarrow> t' = ?t" by metis
    have steps': "steps_to t t'" by (rule steps_to_trans [OF steps removal(2)])
    show thesis
    proof (cases b)
      case True
      show thesis
        by (rule that(1) [OF _ steps'])
           (use Some set g removal(1) True in \<open>simp add: ten_path_table_set_result_def\<close>)
    next
      case False
      show thesis
        by (rule that(2) [of ?p t'])
           (use Some set g removal False here steps' p(2) in
             \<open>simp_all add: ten_path_table_set_result_def pending_def\<close>)
    qed
  qed
qed

lemma result_arrives_steps:
  assumes "table_ok t" and "\<And>p. p \<in> set (paths_of ty t) \<Longrightarrow> convertible p"
  obtains res t' where "result_arrives ty r rm t = Some (res, t')" and "steps_to t t'"
proof (rule table_set_result_steps [where r = r, OF assms])
  fix t'
  assume "ten_path_table_set_result ty r t = Some (None, t')" "steps_to t t'"
  then show thesis by (intro that) (simp_all add: result_arrives_def)
next
  fix t' p
  assume set: "ten_path_table_set_result ty r t = Some (Some (path_addr p), t')"
    and steps: "steps_to t t'" and p: "p \<in> set (paths_of ty t')" "\<not> pending p"
  from determine_steps [OF steps_to_ok [OF steps] p] obtain res u where
    "ten_path_table_determine_actual_cmd_result ty (path_addr p) rm t' = Some (res, u)"
    "steps_to t' u" .
  with set steps_to_trans [OF steps] show thesis by (intro that) (simp_all add: result_arrives_def)
qed

end
