(* ===== verification/Path_Group.thy ===== *)
theory Path_Group
  imports Path_Facts
begin

text \<open>
  How a group of paths collects the results of its members: the results that leave, against
  a specification that only sees the results in the order in which they arrive.
\<close>

section \<open>The members of a group\<close>

text \<open>The paths of the members of a group, in the order of the members.\<close>

definition roster :: "TEN_PATH_TYPE \<Rightarrow> ten_path_table \<Rightarrow> nat \<Rightarrow> ten_path_group \<Rightarrow> ten_path list \<Rightarrow> bool" where
  "roster ty t g grp ps \<longleftrightarrow>
     path_groups t g = Some grp \<and> members grp = map path_addr ps \<and>
     distinct (map path_addr ps) \<and> policy grp \<noteq> TEN_PATH_GROUP_POLICY_INVALID \<and>
     set ps = {q \<in> set (paths_of ty t). path_group q = Some g}"

lemma roster_list_all2:
  assumes "table_ok t" and "roster ty t g grp ps"
  shows "list_all2 (\<lambda>a p. path_at t a = Some p) (members grp) ps"
proof -
  have "\<forall>p \<in> set ps. path_at t (path_addr p) = Some p"
    using assms path_of_list [OF assms(1)] by (auto simp: roster_def)
  then show ?thesis
    using assms(2) by (auto simp: roster_def list_all2_map1 intro!: list.rel_refl_strong)
qed

lemma roster_determine:
  assumes "table_ok t" and "roster ty t g grp ps" and "p \<in> set ps"
  shows "ten_path_table_determine_actual_cmd_result ty (path_addr p) rm t =
    (case resolution (policy grp) ps of None \<Rightarrow> Some (None, t) | Some q \<Rightarrow> settled ty q rm t)"
proof -
  have p: "p \<in> set (paths_of ty t)" "path_group p = Some g" using assms(2,3) by (auto simp: roster_def)
  show ?thesis
    by (rule determine_grouped [OF assms(1) p _ _ roster_list_all2 [OF assms(1,2)]])
       (use assms(2,3) in \<open>auto simp: roster_def\<close>)
qed

lemma roster_remove:
  assumes "table_ok t" and "roster ty t g grp ps" and "ps \<noteq> []"
  shows "ten_path_table_remove_group_and_all_its_paths_if_needed ty g t =
    Some (if has_been_processed grp \<and> (\<forall>q \<in> set ps. \<not> pending q)
          then (True, set_paths ty (filter (\<lambda>q. path_group q \<noteq> Some g) (paths_of ty t)) t)
          else (False, t))"
proof -
  from assms(3) obtain p where "p \<in> set ps" by (cases ps) auto
  with assms(2) have p: "p \<in> set (paths_of ty t)" "path_group p = Some g" by (auto simp: roster_def)
  have "(\<forall>q \<in> set (paths_of ty t). path_group q = Some g \<longrightarrow> \<not> pending q) \<longleftrightarrow> (\<forall>q \<in> set ps. \<not> pending q)"
    using assms(2) by (auto simp: roster_def)
  with remove_group_eq [OF assms(1) p] assms(2) show ?thesis by (simp add: roster_def)
qed

text \<open>Caching a result at a member.\<close>

abbreviation with_result :: "ten_path \<Rightarrow> ten_cmd_result \<Rightarrow> ten_path" where
  "with_result p r \<equiv> p\<lparr>cached_cmd_result := Some r\<rparr>"

abbreviation recache_in :: "nat \<Rightarrow> ten_cmd_result \<Rightarrow> ten_path list \<Rightarrow> ten_path list" where
  "recache_in a r ps \<equiv> map (on_path a (\<lambda>p. with_result p r)) ps"

lemma recache_other: "a \<notin> path_addr ` set ps \<Longrightarrow> recache_in a r ps = ps"
  by (induction ps) auto

lemma image_group:
  assumes "\<And>p. path_group (h p) = path_group p"
  shows "h ` {q \<in> S. path_group q = g} = {q \<in> h ` S. path_group q = g}"
  using assms by auto

lemma roster_cache:
  assumes "roster ty t g grp ps"
  shows "roster ty (cache_at a r t) g grp (recache_in a r ps)"
proof -
  have "set ps = {q \<in> set (paths_of ty t). path_group q = Some g}"
    using assms unfolding roster_def by blast
  then have "set (recache_in a r ps) = {q \<in> set (paths_of ty (cache_at a r t)). path_group q = Some g}"
    unfolding paths_of_update list.set_map
    by (simp only:) (rule image_group, simp)
  moreover have "map path_addr (recache_in a r ps) = map path_addr ps" by simp
  ultimately show ?thesis using assms by (simp only: roster_def update_path_fields) simp
qed

lemma roster_group:
  assumes "roster ty t g grp ps" and "members (f grp) = map path_addr qs" and "mset qs = mset ps"
    and "policy (f grp) = policy grp"
  shows "roster ty (update_group g f t) g (f grp) qs"
proof -
  have "set qs = set ps" using mset_eq_setD [OF assms(3)] .
  moreover have "distinct (map path_addr qs)"
    using assms(1) mset_eq_imp_distinct_iff [of "map path_addr qs" "map path_addr ps"] assms(3)
    by (simp add: roster_def)
  ultimately show ?thesis using assms by (simp add: roster_def)
qed


text \<open>A path that takes a result.\<close>

lemma move_last_members:
  assumes "distinct (map path_addr (us @ p # vs))"
  shows "remove1 (path_addr p) (map path_addr (us @ p # vs)) @ [path_addr p] =
         map path_addr (us @ vs @ [p])"
  using assms by (simp add: remove1_append)

lemma roster_cached_table:
  assumes "table_ok t" and "roster ty t g grp (us @ p # vs)"
  shows "roster ty (cached_table p r t) g (move_last (path_addr p) grp) (us @ vs @ [with_result p r])"
proof -
  have dist: "distinct (map path_addr (us @ p # vs))" and grp: "members grp = map path_addr (us @ p # vs)"
    using assms(2) by (simp_all add: roster_def)
  have here: "path_group p = Some g" using assms(2) by (auto simp: roster_def)
  have "recache_in (path_addr p) r us = us" "recache_in (path_addr p) r vs = vs"
    using dist by (auto intro!: recache_other)
  then have cached: "roster ty (cache_at (path_addr p) r t) g grp (us @ with_result p r # vs)"
    using roster_cache [OF assms(2), of "path_addr p" r] by simp
  have "roster ty (update_group g (move_last (path_addr p)) (cache_at (path_addr p) r t)) g
      (move_last (path_addr p) grp) (us @ vs @ [with_result p r])"
    by (rule roster_group [OF cached]) (use move_last_members [OF dist] grp in simp_all)
  with here show ?thesis by (simp add: cached_table_def)
qed

lemma find_path_unique:
  assumes "p \<in> set (paths_of ty t)" and "distinct (map path_cmd_id (paths_of ty t))"
    and "path_cmd_id p = cmd_id r" and "ty \<noteq> TEN_PATH_INVALID"
  shows "ten_path_table_find_path ty r t = Some p"
proof -
  have "List.find (\<lambda>p. path_cmd_id p = cmd_id r) (paths_of ty t) = Some p"
    using assms(1-3) by (simp add: find_distinct)
  with assms(4) show ?thesis
    by (cases ty) (simp_all add: ten_path_table_find_path_def ten_path_table_find_path_from_cmd_id_def)
qed

lemma arrives_at_member:
  assumes ok: "table_ok t" and ros: "roster ty t g grp (us @ p # vs)"
    and ids: "distinct (map path_cmd_id (paths_of ty t))" "ty \<noteq> TEN_PATH_INVALID"
    and p: "path_cmd_id p = cmd_id r" "result_conversion p = None"
  shows "result_arrives ty r rm t =
    (let t1 = cached_table p r t in
     if has_been_processed grp \<and> (\<forall>q \<in> set (us @ vs). \<not> pending q)
     then Some (None, set_paths ty (filter (\<lambda>q. path_group q \<noteq> Some g) (paths_of ty t1)) t1)
     else case resolution (policy grp) (us @ vs @ [with_result p r]) of
            None \<Rightarrow> Some (None, t1)
          | Some q \<Rightarrow> settled ty q rm t1)"
proof -
  let ?t = "cached_table p r t" and ?w = "with_result p r"
  have here: "p \<in> set (paths_of ty t)" "path_group p = Some g"
    using ros by (auto simp: roster_def)
  have ros1: "roster ty ?t g (move_last (path_addr p) grp) (us @ vs @ [?w])"
    by (rule roster_cached_table [OF ok ros])
  have ok1: "table_ok ?t" by (rule steps_to_ok [OF cached_table_steps [OF ok here(1)]])
  have set: "ten_path_set_result (path_addr p) r t = Some ?t"
    using set_result_eq [OF ok here(1)] p(2) by (simp add: converted_result_def)
  have det: "ten_path_table_determine_actual_cmd_result ty (path_addr p) rm ?t =
      (case resolution (policy grp) (us @ vs @ [?w]) of
         None \<Rightarrow> Some (None, ?t) | Some q \<Rightarrow> settled ty q rm ?t)"
    using roster_determine [OF ok1 ros1, of ?w rm] by simp
  have "\<not> pending ?w" by (simp add: pending_def)
  then have rem: "ten_path_table_remove_group_and_all_its_paths_if_needed ty g ?t =
      Some (if has_been_processed grp \<and> (\<forall>q \<in> set (us @ vs). \<not> pending q)
            then (True, set_paths ty (filter (\<lambda>q. path_group q \<noteq> Some g) (paths_of ty ?t)) ?t)
            else (False, ?t))"
    using roster_remove [OF ok1 ros1] by simp
  show ?thesis
    unfolding result_arrives_def ten_path_table_set_result_def
    by (simp only: find_path_unique [OF here(1) ids(1) p(1) ids(2)] set here(2) rem
          option.case prod.case det Let_def split: if_splits) auto
qed

text \<open>The path that stands for the group.\<close>

lemma roster_mark:
  "roster ty t g grp ps \<Longrightarrow>
   roster ty (ten_path_mark_belonging_group_processed g t) g (grp\<lparr>has_been_processed := True\<rparr>) ps"
  unfolding ten_path_mark_belonging_group_processed_def
  by (rule roster_group) (auto simp: roster_def)

definition after_settling :: "TEN_PATH_TYPE \<Rightarrow> nat \<Rightarrow> ten_path \<Rightarrow> ten_path_table \<Rightarrow> ten_path_table" where
  "after_settling ty g q t =
     ten_path_mark_belonging_group_processed g
       (cache_at (path_addr q) (route_result ty q (the (cached_cmd_result q))) t)"

lemma after_settling_facts:
  assumes "table_ok t" and "roster ty t g grp ps"
  shows "steps_to t (after_settling ty g q t)"
    and "roster ty (after_settling ty g q t) g (grp\<lparr>has_been_processed := True\<rparr>)
           (recache_in (path_addr q) (route_result ty q (the (cached_cmd_result q))) ps)"
    and "paths_of ty (after_settling ty g q t) =
           recache_in (path_addr q) (route_result ty q (the (cached_cmd_result q))) (paths_of ty t)"
proof -
  let ?t = "cache_at (path_addr q) (route_result ty q (the (cached_cmd_result q))) t"
  have "steps_to t ?t" by (rule steps_to_cache [OF assms(1)])
  from this mark_steps [OF steps_to_ok [OF this]] show "steps_to t (after_settling ty g q t)"
    unfolding after_settling_def by (rule steps_to_trans)
  show "roster ty (after_settling ty g q t) g (grp\<lparr>has_been_processed := True\<rparr>)
      (recache_in (path_addr q) (route_result ty q (the (cached_cmd_result q))) ps)"
    unfolding after_settling_def by (rule roster_mark [OF roster_cache [OF assms(2)]])
qed (simp add: after_settling_def ten_path_mark_belonging_group_processed_def)

lemma settled_group:
  assumes ok: "table_ok t" and ros: "roster ty t g grp ps" and q: "q \<in> set ps" "\<not> pending q"
  shows "settled ty q rm t =
    (let t2 = after_settling ty g q t in
     Some (Some (route_result ty q (the (cached_cmd_result q))),
       if \<forall>p \<in> set ps. \<not> pending p
       then set_paths ty (filter (\<lambda>p. path_group p \<noteq> Some g) (paths_of ty t2)) t2 else t2))"
proof -
  let ?r = "route_result ty q (the (cached_cmd_result q))"
  let ?t = "after_settling ty g q t" and ?ps = "recache_in (path_addr q) ?r ps"
  note facts = after_settling_facts [OF ok ros, of q]
  have "path_group q = Some g" using ros q(1) by (auto simp: roster_def)
  moreover have "(\<forall>p \<in> set ?ps. \<not> pending p) \<longleftrightarrow> (\<forall>p \<in> set ps. \<not> pending p)"
  proof -
    have same: "pending (on_path (path_addr q) (\<lambda>p. with_result p ?r) p) \<longleftrightarrow> pending p" if "p \<in> set ps" for p
    proof (cases "path_addr p = path_addr q")
      case True
      then have "p = q" using ros q(1) that by (auto simp: roster_def distinct_map inj_on_def)
      with q(2) show ?thesis by (simp add: pending_def)
    qed simp
    have "(\<forall>p \<in> set ?ps. \<not> pending p) \<longleftrightarrow>
        (\<forall>p \<in> set ps. \<not> pending (on_path (path_addr q) (\<lambda>p. with_result p ?r) p))"
      unfolding list.set_map by blast
    also have "\<dots> \<longleftrightarrow> (\<forall>p \<in> set ps. \<not> pending p)"
      by (rule ball_cong [OF refl]) (simp only: same)
    finally show ?thesis .
  qed
  moreover have "?ps \<noteq> []" using q(1) by auto
  ultimately show ?thesis
    using roster_remove [OF steps_to_ok [OF facts(1)] facts(2)]
    by (simp add: settled_def Let_def after_settling_def)
qed

end
