(* ===== verification/Path_Result.thy ===== *)
theory Path_Result
  imports Path_Group
begin

text \<open>
  The results that leave a group, against a specification that only sees the results in the
  order in which they arrive.
\<close>

section \<open>The specification\<close>

text \<open>
  A result that arrives at a path, and what leaves: the first failure, again with every later
  arrival but the last; the first or the last result, once all have arrived without failure.
\<close>

abbreviation bad :: "ten_path \<times> ten_cmd_result \<Rightarrow> bool" where
  "bad a \<equiv> status_code (snd a) \<noteq> TEN_STATUS_CODE_OK"

definition group_output ::
  "TEN_PATH_TYPE \<Rightarrow> TEN_PATH_GROUP_POLICY \<Rightarrow> (ten_path \<times> ten_cmd_result) list \<Rightarrow>
   ten_path \<times> ten_cmd_result \<Rightarrow> bool \<Rightarrow> ten_cmd_result option"
where
  "group_output ty pol earlier a is_last =
     (let leaves = (\<lambda>(p, r). Some (route_result ty p r)) in
      case List.find bad earlier of
        Some b \<Rightarrow> if is_last then None else leaves b
      | None \<Rightarrow>
          if bad a then leaves a
          else if is_last then
            leaves (if pol = TEN_PATH_GROUP_POLICY_ONE_FAIL_RETURN_AND_ALL_OK_RETURN_LAST then a
                    else hd (earlier @ [a]))
          else None)"

fun group_outputs ::
  "TEN_PATH_TYPE \<Rightarrow> TEN_PATH_GROUP_POLICY \<Rightarrow> (ten_path \<times> ten_cmd_result) list \<Rightarrow>
   (ten_path \<times> ten_cmd_result) list \<Rightarrow> ten_cmd_result option list"
where
  "group_outputs ty pol earlier [] = []"
| "group_outputs ty pol earlier (a # as) =
     group_output ty pol earlier a (as = []) # group_outputs ty pol (earlier @ [a]) as"

text \<open>The arrival of several results, one after the other.\<close>

fun results_arrive ::
  "TEN_PATH_TYPE \<Rightarrow> bool \<Rightarrow> ten_cmd_result list \<Rightarrow> ten_path_table \<Rightarrow>
   (ten_cmd_result option list \<times> ten_path_table) option"
where
  "results_arrive ty rm [] t = Some ([], t)"
| "results_arrive ty rm (r # rs) t =
     (case result_arrives ty r rm t of
        None \<Rightarrow> None
      | Some (out, t') \<Rightarrow>
          map_option (\<lambda>(outs, t''). (out # outs, t'')) (results_arrive ty rm rs t'))"

section \<open>The invariant\<close>

definition done_path :: "TEN_PATH_TYPE \<Rightarrow> ten_path \<times> ten_cmd_result \<Rightarrow> ten_path \<Rightarrow> bool" where
  "done_path ty a q \<longleftrightarrow> q = with_result (fst a) (snd a) \<or>
     q = with_result (fst a) (route_result ty (fst a) (snd a))"

lemma route_status [simp]: "status_code (route_result ty p r) = status_code r"
  by (simp add: route_result_def Let_def ten_cmd_result_set_original_cmd_name_def
        ten_cmd_base_set_result_handler_def)

lemma route_twice [simp]: "route_result ty p (route_result ty p r) = route_result ty p r"
  by (simp add: route_result_def Let_def ten_cmd_result_set_original_cmd_name_def
        ten_cmd_base_set_result_handler_def)

lemma route_with_result [simp]: "route_result ty (with_result p x) r = route_result ty p r"
  by (simp add: route_result_def Let_def)

lemma done_path_facts:
  assumes "done_path ty a q"
  shows "failed q \<longleftrightarrow> bad a" "\<not> pending q"
    "route_result ty q (the (cached_cmd_result q)) = route_result ty (fst a) (snd a)"
    "path_addr q = path_addr (fst a)"
    "done_path ty a (with_result q (route_result ty (fst a) (snd a)))"
  using assms by (auto simp: done_path_def failed_def pending_def)

definition collecting ::
  "TEN_PATH_TYPE \<Rightarrow> nat \<Rightarrow> TEN_PATH_GROUP_POLICY \<Rightarrow> ten_path list \<Rightarrow>
   (ten_path \<times> ten_cmd_result) list \<Rightarrow> ten_path list \<Rightarrow> ten_path_table \<Rightarrow> bool"
where
  "collecting ty g pol others earlier pend t \<longleftrightarrow>
     table_ok t \<and> distinct (map path_cmd_id (paths_of ty t)) \<and>
     filter (\<lambda>q. path_group q \<noteq> Some g) (paths_of ty t) = others \<and>
     (\<forall>p \<in> set pend. pending p \<and> result_conversion p = None) \<and>
     (\<exists>grp qs. roster ty t g grp (pend @ qs) \<and> policy grp = pol \<and>
        has_been_processed grp = (\<exists>a \<in> set earlier. bad a) \<and>
        list_all2 (done_path ty) earlier qs)"

lemma find_failed_pending:
  "\<forall>p \<in> set us. pending p \<Longrightarrow> List.find failed (us @ qs) = List.find failed qs"
  by (induction us) (auto simp: failed_def pending_def)

lemma find_done:
  "list_all2 (done_path ty) as qs \<Longrightarrow>
   (case List.find bad as of
      None \<Rightarrow> List.find failed qs = None
    | Some a \<Rightarrow> \<exists>q. List.find failed qs = Some q \<and> done_path ty a q)"
  by (induction as qs rule: list_all2_induct)
     (auto simp: done_path_facts(1) split: option.splits)

lemma done_not_pending:
  "list_all2 (done_path ty) as qs \<Longrightarrow> \<forall>q \<in> set qs. \<not> pending q"
  by (induction as qs rule: list_all2_induct) (auto simp: done_path_facts(2))

lemma done_hd_last:
  assumes "list_all2 (done_path ty) as qs" and "as \<noteq> []"
  shows "done_path ty (hd as) (hd qs)" "done_path ty (last as) (last qs)" "qs \<noteq> []"
proof -
  show "qs \<noteq> []" using assms by auto
  have len: "length as = length qs" by (rule list_all2_lengthD [OF assms(1)])
  show "done_path ty (hd as) (hd qs)"
    using assms(1,2) by (cases as; cases qs) auto
  show "done_path ty (last as) (last qs)"
    using list_all2_nthD [OF assms(1), of "length as - 1"] assms(2) len \<open>qs \<noteq> []\<close>
    by (simp add: last_conv_nth)
qed

text \<open>The path that stands for the group, and the result that leaves along it.\<close>

definition representative ::
  "TEN_PATH_GROUP_POLICY \<Rightarrow> (ten_path \<times> ten_cmd_result) list \<Rightarrow> (ten_path \<times> ten_cmd_result)"
where
  "representative pol as =
     (case List.find bad as of
        Some b \<Rightarrow> b
      | None \<Rightarrow> if pol = TEN_PATH_GROUP_POLICY_ONE_FAIL_RETURN_AND_ALL_OK_RETURN_LAST then last as
                else hd as)"

lemma resolution_done:
  assumes "\<forall>p \<in> set pend. pending p" and "list_all2 (done_path ty) as qs" and "as \<noteq> []"
  shows "if pend \<noteq> [] \<and> \<not> (\<exists>a \<in> set as. bad a) then resolution pol (pend @ qs) = None
         else \<exists>q. resolution pol (pend @ qs) = Some q \<and> q \<in> set qs \<and>
                done_path ty (representative pol as) q"
proof -
  have none: "List.find bad as = None \<longleftrightarrow> \<not> (\<exists>a \<in> set as. bad a)"
    by (auto simp: find_None_iff)
  note find = find_failed_pending [OF assms(1), of qs] find_done [OF assms(2)]
  note ends = done_hd_last [OF assms(2,3)] and np = done_not_pending [OF assms(2)]
  show ?thesis
  proof (cases "List.find bad as")
    case None
    then have "List.find failed (pend @ qs) = None" using find by simp
    then show ?thesis
      using None none assms(1) ends np
      by (cases pend) (auto simp: resolution_def representative_def)
  next
    case (Some b)
    then obtain q where q: "List.find failed (pend @ qs) = Some q" "List.find failed qs = Some q"
      "done_path ty b q"
      using find by auto
    then have "q \<in> set qs" by (auto dest: find_SomeD)
    then show ?thesis using Some none q by (auto simp: resolution_def representative_def)
  qed
qed


section \<open>One arrival\<close>

lemma group_output_eq:
  assumes "\<not> (is_last \<and> (\<exists>b \<in> set earlier. bad b))"
  shows "group_output ty pol earlier a is_last =
    (if \<not> is_last \<and> \<not> (\<exists>b \<in> set (earlier @ [a]). bad b) then None
     else Some (route_result ty (fst (representative pol (earlier @ [a])))
                  (snd (representative pol (earlier @ [a])))))"
proof -
  have app: "List.find bad (earlier @ [a]) =
      (case List.find bad earlier of Some b \<Rightarrow> Some b | None \<Rightarrow> if bad a then Some a else None)"
    by (induction earlier) auto
  show ?thesis
  proof (cases "List.find bad earlier")
    case None
    then have "\<not> (\<exists>b \<in> set earlier. bad b)" by (auto simp: find_None_iff)
    with None show ?thesis
      unfolding group_output_def representative_def app by (simp add: split_def)
  next
    case (Some b)
    then have "bad b" "b \<in> set earlier" by (auto dest: find_SomeD)
    with Some assms show ?thesis
      unfolding group_output_def representative_def app by (auto simp: split_def)
  qed
qed

lemma recache_filter:
  "\<forall>q \<in> set ps. path_addr q = a \<longrightarrow> path_group q = Some g \<Longrightarrow>
   filter (\<lambda>q. path_group q \<noteq> Some g) (recache_in a r ps) = filter (\<lambda>q. path_group q \<noteq> Some g) ps"
  by (induction ps) auto

lemma recache_ids: "map path_cmd_id (recache_in a r ps) = map path_cmd_id ps"
  by (induction ps) auto

lemma recache_done:
  assumes "list_all2 (done_path ty) as qs" and "distinct (map path_addr qs)" and "q \<in> set qs"
  shows "list_all2 (done_path ty) as
    (recache_in (path_addr q) (route_result ty q (the (cached_cmd_result q))) qs)"
  unfolding list_all2_map2
proof (rule list.rel_mono_strong [OF assms(1)])
  fix a x
  assume x: "x \<in> set qs" "done_path ty a x"
  show "done_path ty a
      (on_path (path_addr q) (\<lambda>p. with_result p (route_result ty q (the (cached_cmd_result q)))) x)"
  proof (cases "path_addr x = path_addr q")
    case True
    with x(1) assms(2,3) have "x = q" by (auto simp: distinct_map inj_on_def)
    with done_path_facts(3,5) [OF x(2)] show ?thesis by simp
  qed (use x(2) in simp)
qed

lemma paths_of_cached_table:
  "paths_of ty (cached_table p r t) = recache_in (path_addr p) r (paths_of ty t)"
  by (cases "path_group p") (simp_all add: cached_table_def)

text \<open>The paths of a group share no address with another path.\<close>

lemma roster_addr:
  assumes "table_ok t" and "roster ty t g grp ps" and "p \<in> set ps"
  shows "\<forall>q \<in> set (paths_of ty t). path_addr q = path_addr p \<longrightarrow> path_group q = Some g"
proof -
  have "p \<in> set (paths_of ty t)" "path_group p = Some g"
    using assms(2,3) by (auto simp: roster_def)
  with table_ok_lists(1) [OF assms(1), of ty] show ?thesis by (auto simp: distinct_map inj_on_def)
qed

lemma others_keep:
  assumes "table_ok t" and "roster ty t g grp ps" and "p \<in> set ps"
    and "filter (\<lambda>q. path_group q \<noteq> Some g) (paths_of ty t) = others"
    and "distinct (map path_cmd_id (paths_of ty t))"
    and "paths_of ty t' = recache_in (path_addr p) r (paths_of ty t)"
  shows "filter (\<lambda>q. path_group q \<noteq> Some g) (paths_of ty t') = others"
    and "distinct (map path_cmd_id (paths_of ty t'))"
  unfolding assms(6) recache_ids
  using recache_filter [OF roster_addr [OF assms(1-3)]] assms(4,5) by simp_all

lemma removed_table:
  assumes "table_ok t" and "filter (\<lambda>q. path_group q \<noteq> Some g) (paths_of ty t) = others"
  defines "t' \<equiv> set_paths ty (filter (\<lambda>q. path_group q \<noteq> Some g) (paths_of ty t)) t"
  shows "table_ok t'" and "paths_of ty t' = others"
  unfolding t'_def
  using assms(2) table_ok_filter [OF assms(1), of ty "\<lambda>q. path_group q \<noteq> Some g"]
  by (auto simp: paths_of_set_paths)

definition collected ::
  "TEN_PATH_TYPE \<Rightarrow> nat \<Rightarrow> TEN_PATH_GROUP_POLICY \<Rightarrow> ten_path list \<Rightarrow>
   (ten_path \<times> ten_cmd_result) list \<Rightarrow> ten_path list \<Rightarrow> ten_path_table \<Rightarrow> bool"
where
  "collected ty g pol others earlier pend t \<longleftrightarrow>
     (if pend = [] then table_ok t \<and> paths_of ty t = others
      else collecting ty g pol others earlier pend t)"

lemma collecting_step:
  assumes col: "collecting ty g pol others earlier (us @ p # vs) t"
    and r: "path_cmd_id p = cmd_id r" and ty: "ty \<noteq> TEN_PATH_INVALID"
  shows "\<exists>t'. result_arrives ty r rm t =
      Some (group_output ty pol earlier (p, r) (us @ vs = []), t') \<and>
    collected ty g pol others (earlier @ [(p, r)]) (us @ vs) t'"
proof -
  from col obtain grp qs where ok: "table_ok t" and ids: "distinct (map path_cmd_id (paths_of ty t))"
    and others: "filter (\<lambda>q. path_group q \<noteq> Some g) (paths_of ty t) = others"
    and pend: "\<forall>p \<in> set (us @ p # vs). pending p \<and> result_conversion p = None"
    and ros: "roster ty t g grp (us @ p # (vs @ qs))" and pol: "policy grp = pol"
    and proc: "has_been_processed grp = (\<exists>a \<in> set earlier. bad a)"
    and finished: "list_all2 (done_path ty) earlier qs"
    by (auto simp: collecting_def)
  let ?w = "with_result p r" and ?t1 = "cached_table p r t" and ?as = "earlier @ [(p, r)]"
  let ?grp1 = "move_last (path_addr p) grp"
  have here: "p \<in> set (paths_of ty t)" using ros by (auto simp: roster_def)
  have ok1: "table_ok ?t1" by (rule steps_to_ok [OF cached_table_steps [OF ok here]])
  have ros1: "roster ty ?t1 g ?grp1 ((us @ vs) @ (qs @ [?w]))"
    using roster_cached_table [OF ok ros, of r] by simp
  have keep1: "filter (\<lambda>q. path_group q \<noteq> Some g) (paths_of ty ?t1) = others"
    "distinct (map path_cmd_id (paths_of ty ?t1))"
    by (rule others_keep [OF ok ros _ others ids paths_of_cached_table]; simp)+
  have done1: "list_all2 (done_path ty) ?as (qs @ [?w])"
    using finished by (auto simp: done_path_def intro: list_all2_appendI)
  have np: "(\<forall>q \<in> set (us @ vs @ qs). \<not> pending q) \<longleftrightarrow> us @ vs = []"
    using pend done_not_pending [OF finished] by (cases us; cases vs) auto
  have snoc_neq: "?as \<noteq> []" by simp
  have pc: "result_conversion p = None" using pend by simp
  have rest: "\<forall>q \<in> set (us @ vs). pending q \<and> result_conversion q = None" using pend by auto
  have arr: "result_arrives ty r rm t =
      (if (\<exists>a \<in> set earlier. bad a) \<and> us @ vs = []
       then Some (None, set_paths ty (filter (\<lambda>q. path_group q \<noteq> Some g) (paths_of ty ?t1)) ?t1)
       else case resolution pol ((us @ vs) @ (qs @ [?w])) of
              None \<Rightarrow> Some (None, ?t1) | Some q \<Rightarrow> settled ty q rm ?t1)"
    using arrives_at_member [OF ok ros ids ty r pc, of rm]
    unfolding Let_def proc pol np append_assoc .
  show ?thesis
  proof (cases "(\<exists>a \<in> set earlier. bad a) \<and> us @ vs = []")
    case True
    then have "List.find bad earlier \<noteq> None" unfolding find_None_iff by blast
    with True have "group_output ty pol earlier (p, r) (us @ vs = []) = None"
      by (auto simp: group_output_def)
    with True arr removed_table [OF ok1 keep1(1)] show ?thesis by (simp add: collected_def)
  next
    case False
    then have "\<not> (us @ vs = [] \<and> (\<exists>b \<in> set earlier. bad b))" by blast
    note out = group_output_eq [OF this, of ty pol "(p, r)"]
    have "\<forall>q \<in> set (us @ vs). pending q" using rest by simp
    note res = resolution_done [OF this done1, of pol, OF snoc_neq]
    show ?thesis
    proof (cases "us @ vs \<noteq> [] \<and> \<not> (\<exists>a \<in> set ?as. bad a)")
      case True
      have "collecting ty g pol others ?as (us @ vs) ?t1"
        unfolding collecting_def
        using ok1 keep1 rest ros1 True pol proc done1
        by (intro conjI exI [of _ ?grp1] exI [of _ "qs @ [?w]"]) simp_all
      then show ?thesis using arr out res [unfolded if_P [OF True]] True False by (auto simp: collected_def)
    next
      case some: False
      then obtain q where q: "resolution pol ((us @ vs) @ (qs @ [?w])) = Some q" "q \<in> set (qs @ [?w])"
        "done_path ty (representative pol ?as) q"
        using res [unfolded if_not_P [OF some]] by blast
      let ?t2 = "after_settling ty g q ?t1"
      let ?r2 = "route_result ty q (the (cached_cmd_result q))"
      have in1: "q \<in> set ((us @ vs) @ (qs @ [?w]))" using q(2) by auto
      have npq: "\<not> pending q" by (rule done_path_facts(2) [OF q(3)])
      note facts = after_settling_facts [OF ok1 ros1, of q]
      have dist1: "distinct (map path_addr ((us @ vs) @ (qs @ [?w])))"
        using ros1 by (simp add: roster_def)
      have keep2: "filter (\<lambda>q. path_group q \<noteq> Some g) (paths_of ty ?t2) = others"
        "distinct (map path_cmd_id (paths_of ty ?t2))"
        by (rule others_keep [OF ok1 ros1 in1 keep1 facts(3)])+
      have ros2: "roster ty ?t2 g (?grp1\<lparr>has_been_processed := True\<rparr>)
          ((us @ vs) @ recache_in (path_addr q) ?r2 (qs @ [?w]))"
      proof -
        have "recache_in (path_addr q) ?r2 (us @ vs) = us @ vs"
          by (rule recache_other) (use q(2) dist1 in auto)
        then show ?thesis using facts(2) by (simp only: map_append)
      qed
      have done2: "list_all2 (done_path ty) ?as (recache_in (path_addr q) ?r2 (qs @ [?w]))"
        by (rule recache_done [OF done1 _ q(2)]) (use dist1 in simp)
      have np1: "(\<forall>q \<in> set ((us @ vs) @ (qs @ [?w])). \<not> pending q) \<longleftrightarrow> us @ vs = []"
        using np by (auto simp: pending_def)
      have step: "result_arrives ty r rm t = Some (group_output ty pol earlier (p, r) (us @ vs = []),
          if us @ vs = [] then set_paths ty (filter (\<lambda>p. path_group p \<noteq> Some g) (paths_of ty ?t2)) ?t2
          else ?t2)"
        unfolding out if_not_P [OF some] arr if_not_P [OF False] q(1) option.case
          settled_group [OF ok1 ros1 in1 npq, of rm] Let_def np1 done_path_facts(3) [OF q(3)] ..
      show ?thesis
      proof (cases "us @ vs = []")
        case True
        with step removed_table [OF steps_to_ok [OF facts(1)] keep2(1)] show ?thesis
          by (simp add: collected_def)
      next
        case more: False
        have "collecting ty g pol others ?as (us @ vs) ?t2"
          unfolding collecting_def
          using steps_to_ok [OF facts(1)] keep2 rest ros2 pol done2 more some
          by (intro conjI exI [of _ "?grp1\<lparr>has_been_processed := True\<rparr>"]
                exI [of _ "recache_in (path_addr q) ?r2 (qs @ [?w])"]) simp_all
        with step more show ?thesis by (auto simp: collected_def)
      qed
    qed
  qed
qed


section \<open>All arrivals\<close>

lemma collecting_all:
  assumes "collecting ty g pol others earlier pend t" and "pend \<noteq> []"
    and "mset (map fst arr) = mset pend" and "\<forall>(p, r) \<in> set arr. path_cmd_id p = cmd_id r"
    and "ty \<noteq> TEN_PATH_INVALID"
  shows "\<exists>t'. results_arrive ty rm (map snd arr) t = Some (group_outputs ty pol earlier arr, t') \<and>
    table_ok t' \<and> paths_of ty t' = others"
  using assms(1-4)
proof (induction arr arbitrary: earlier pend t)
  case (Cons a arr)
  obtain p r where a: "a = (p, r)" by (cases a)
  from Cons.prems(3) have "p \<in># mset pend" by (simp add: a flip: Cons.prems(3))
  then obtain us vs where pend: "pend = us @ p # vs" using split_list by fastforce
  have rest: "mset (map fst arr) = mset (us @ vs)" using Cons.prems(3) by (simp add: a pend)
  then have last: "(us @ vs = []) = (arr = [])" by auto
  from Cons.prems(4) have r: "path_cmd_id p = cmd_id r" and later: "\<forall>(p, r) \<in> set arr. path_cmd_id p = cmd_id r"
    by (simp_all add: a)
  from collecting_step [OF Cons.prems(1) [unfolded pend] r assms(5), of rm] obtain t' where
    step: "result_arrives ty r rm t = Some (group_output ty pol earlier (p, r) (us @ vs = []), t')"
    and col: "collected ty g pol others (earlier @ [(p, r)]) (us @ vs) t'"
    by blast
  show ?case
  proof (cases "us @ vs = []")
    case True
    with col step last show ?thesis by (auto simp: collected_def a)
  next
    case False
    with col have "collecting ty g pol others (earlier @ [(p, r)]) (us @ vs) t'"
      by (simp only: collected_def if_False)
    from Cons.IH [OF this False rest later] step last show ?thesis by (auto simp: a)
  qed
qed simp

text \<open>A group none of whose members has a result yet.\<close>

definition waiting_group ::
  "TEN_PATH_TYPE \<Rightarrow> ten_path_table \<Rightarrow> nat \<Rightarrow> ten_path_group \<Rightarrow> ten_path list \<Rightarrow> bool"
where
  "waiting_group ty t g grp ps \<longleftrightarrow>
     table_ok t \<and> distinct (map path_cmd_id (paths_of ty t)) \<and> ty \<noteq> TEN_PATH_INVALID \<and>
     roster ty t g grp ps \<and> ps \<noteq> [] \<and> \<not> has_been_processed grp \<and>
     (\<forall>p \<in> set ps. pending p \<and> result_conversion p = None)"

text \<open>One result for each member, in any order.\<close>

definition one_each :: "ten_path list \<Rightarrow> (ten_path \<times> ten_cmd_result) list \<Rightarrow> bool" where
  "one_each ps arr \<longleftrightarrow>
     mset (map fst arr) = mset ps \<and> (\<forall>(p, r) \<in> set arr. path_cmd_id p = cmd_id r)"

lemma waiting_collects:
  assumes "waiting_group ty t g grp ps" and "one_each ps arr"
  shows "\<exists>t'. results_arrive ty rm (map snd arr) t =
      Some (group_outputs ty (policy grp) [] arr, t') \<and> table_ok t' \<and>
    paths_of ty t' = filter (\<lambda>q. path_group q \<noteq> Some g) (paths_of ty t)"
proof (rule collecting_all)
  show "collecting ty g (policy grp) (filter (\<lambda>q. path_group q \<noteq> Some g) (paths_of ty t)) [] ps t"
    using assms(1) by (auto simp: collecting_def waiting_group_def)
qed (use assms in \<open>auto simp: waiting_group_def one_each_def\<close>)

text \<open>How many results leave, by the position of the first failure.\<close>

abbreviation first_bad :: "(ten_path \<times> ten_cmd_result) list \<Rightarrow> nat" where
  "first_bad arr \<equiv> length (takeWhile (\<lambda>a. \<not> bad a) arr)"

definition delivered :: "ten_cmd_result option list \<Rightarrow> nat" where
  "delivered outs = length (filter (\<lambda>x. x \<noteq> None) outs)"

lemma delivered_after_bad:
  "List.find bad earlier \<noteq> None \<Longrightarrow> delivered (group_outputs ty pol earlier arr) = length arr - 1"
proof (induction arr arbitrary: earlier)
  case (Cons a arr)
  from Cons.prems obtain b where b: "List.find bad earlier = Some b" by auto
  moreover have "List.find bad (earlier @ [a]) = Some b" using b by (induction earlier) (auto split: if_splits)
  ultimately show ?case
    using Cons.IH [of "earlier @ [a]"]
    by (cases arr) (simp_all add: delivered_def group_output_def split_def)
qed (simp add: delivered_def)

lemma delivered_group:
  "List.find bad earlier = None \<Longrightarrow> arr \<noteq> [] \<Longrightarrow>
   delivered (group_outputs ty pol earlier arr) =
     (if first_bad arr < length arr then max 1 (length arr - 1 - first_bad arr) else 1)"
proof (induction arr arbitrary: earlier)
  case (Cons a arr)
  have find: "List.find bad (earlier @ [a]) = (if bad a then Some a else None)"
    using Cons.prems(1) by (induction earlier) (auto split: if_splits)
  show ?case
  proof (cases "bad a")
    case True
    then show ?thesis
      using delivered_after_bad [of "earlier @ [a]" ty pol arr] Cons.prems(1) find
      by (cases arr) (simp_all add: delivered_def group_output_def split_def)
  next
    case False
    then show ?thesis
      using Cons.IH [of "earlier @ [a]"] Cons.prems(1) find
      by (cases "arr = []") (simp_all add: delivered_def group_output_def split_def)
  qed
qed simp


section \<open>Properties\<close>

text \<open>
  C22: A group refines the collection of results: one result for each member, arriving in any
  order, leaves exactly the results of the specification, and then every path of the group is
  gone and the other paths of the list are as before.
\<close>

theorem group_refines_collection:
  assumes "waiting_group ty t g grp ps" and "one_each ps arr"
  shows "\<exists>t'. results_arrive ty rm (map snd arr) t =
      Some (group_outputs ty (policy grp) [] arr, t') \<and> table_ok t' \<and>
    paths_of ty t' = filter (\<lambda>q. path_group q \<noteq> Some g) (paths_of ty t)"
  by (rule waiting_collects [OF assms])

text \<open>Three paths of one group, for the witnesses.\<close>

definition sample_path :: "nat \<Rightarrow> ten_path" where
  "sample_path n =
     (ten_path_out_create n ''hello'' None (dec_of_nat n)
       (ten_loc_set None None (Some ''g'') (Some ''src''))
       (ten_loc_set None None (Some ''g'') (Some ''dest'')) None)\<lparr>path_group := Some 0\<rparr>"

definition sample_group :: ten_path_group where
  "sample_group =
     \<lparr>policy = TEN_PATH_GROUP_POLICY_ONE_FAIL_RETURN_AND_ALL_OK_RETURN_LAST,
      has_been_processed = False, members = [1, 2, 3]\<rparr>"

definition sample_table :: ten_path_table where
  "sample_table =
     \<lparr>path_timeouts = None, in_paths = [], out_paths = map sample_path [1, 2, 3],
      path_groups = [0 \<mapsto> sample_group], next_addr = 4\<rparr>"

definition sample_result :: "32 word \<Rightarrow> nat \<Rightarrow> ten_path \<times> ten_cmd_result" where
  "sample_result code n = (sample_path n, (ten_cmd_result_create code)\<lparr>cmd_id := dec_of_nat n\<rparr>)"

lemma sample_path_fields [simp]:
  "path_addr (sample_path n) = n" "path_cmd_id (sample_path n) = dec_of_nat n"
  "path_group (sample_path n) = Some 0" "cached_cmd_result (sample_path n) = None"
  "result_conversion (sample_path n) = None"
  by (simp_all add: sample_path_def ten_path_out_create_def ten_path_init_def)

lemma sample_waiting:
  "waiting_group TEN_PATH_OUT sample_table 0 sample_group (map sample_path [1, 2, 3])"
  by (auto simp: waiting_group_def sample_table_def sample_group_def table_ok_def all_paths_def
        groups_ok_def group_ok_def roster_def paths_of_def pending_def dec_of_nat.simps)
     (rule image_eqI, rule sym, rule sample_path_fields(1), simp)+

lemma sample_each:
  "set (map fst arr) = {sample_path 1, sample_path 2, sample_path 3} \<Longrightarrow>
   length arr = 3 \<Longrightarrow> \<forall>(p, r) \<in> set arr. path_cmd_id p = cmd_id r \<Longrightarrow>
   one_each (map sample_path [1, 2, 3]) arr"
proof -
  assume set: "set (map fst arr) = {sample_path 1, sample_path 2, sample_path 3}"
    and len: "length arr = 3" and ids: "\<forall>(p, r) \<in> set arr. path_cmd_id p = cmd_id r"
  have "distinct (map path_addr (map sample_path [1, 2, 3]))" by simp
  then have d: "distinct (map sample_path [1, 2, 3])" by (rule distinct_map [THEN iffD1, THEN conjunct1])
  have "card (set (map fst arr)) = 3" using distinct_card [OF d] set by simp
  with len have "distinct (map fst arr)" by (intro card_distinct) simp
  with d set have "mset (map fst arr) = mset (map sample_path [1, 2, 3])"
    by (intro set_eq_iff_mset_eq_distinct [THEN iffD1]) simp_all
  with ids show ?thesis by (simp add: one_each_def)
qed

theorem group_refines_collection_witness:
  "\<exists>t'. results_arrive TEN_PATH_OUT True
      (map snd [sample_result 0 2, sample_result 0 3, sample_result 0 1]) sample_table =
    Some ([None, None, Some (route_result TEN_PATH_OUT (sample_path 1) (snd (sample_result 0 1)))], t') \<and>
    table_ok t' \<and> paths_of TEN_PATH_OUT t' = []"
proof -
  let ?arr = "[sample_result 0 2, sample_result 0 3, sample_result 0 1]"
  have each: "one_each (map sample_path [1, 2, 3]) ?arr"
    by (rule sample_each) (auto simp: sample_result_def)
  have out: "group_outputs TEN_PATH_OUT (policy sample_group) [] ?arr =
      [None, None, Some (route_result TEN_PATH_OUT (sample_path 1) (snd (sample_result 0 1)))]"
    by (simp add: group_output_def sample_result_def sample_group_def ten_cmd_result_create_def)
  have none: "filter (\<lambda>q. path_group q \<noteq> Some 0) (paths_of TEN_PATH_OUT sample_table) = []"
    by (simp add: paths_of_def sample_table_def)
  show ?thesis
    using group_refines_collection [OF sample_waiting each, of True] unfolding out none .
qed

text \<open>
  C23: Exactly one result leaves a group whose members all succeed, but a failure leaves again
  with every later arrival except the last: if the first failure is followed by \<open>k > 1\<close>
  arrivals, it is delivered \<open>k\<close> times.
\<close>

theorem group_delivery_count:
  assumes "waiting_group ty t g grp ps" and "one_each ps arr"
  shows "\<exists>outs t'. results_arrive ty rm (map snd arr) t = Some (outs, t') \<and>
    delivered outs =
      (if first_bad arr < length arr then max 1 (length arr - 1 - first_bad arr) else 1)"
proof -
  have "arr \<noteq> []" using assms by (auto simp: waiting_group_def one_each_def)
  from delivered_group [OF _ this, of "[]" ty "policy grp"] waiting_collects [OF assms, of rm]
  show ?thesis by fastforce
qed

theorem group_delivery_count_witness:
  "\<exists>outs t'. results_arrive TEN_PATH_OUT True
      (map snd [sample_result 1 1, sample_result 0 2, sample_result 0 3]) sample_table =
    Some (outs, t') \<and> delivered outs = 2"
proof -
  let ?arr = "[sample_result 1 1, sample_result 0 2, sample_result 0 3]"
  have each: "one_each (map sample_path [1, 2, 3]) ?arr"
    by (rule sample_each) (auto simp: sample_result_def)
  have count: "(if first_bad ?arr < length ?arr then max 1 (length ?arr - 1 - first_bad ?arr) else 1) = 2"
    by (simp add: sample_result_def ten_cmd_result_create_def)
  show ?thesis
    using group_delivery_count [OF sample_waiting each, of True] unfolding count .
qed

end
