(* ===== verification/Ten_Hashtable.thy ===== *)
theory Ten_Hashtable
  imports Value_Object
begin

unbundle bit_operations_syntax

text \<open>
  The hash table of core/src/ten_utils/container/: the hash function, buckets that double in
  number when one of them gets long, and the list of all items in the order of insertion.

  A handle lives inside the item that it links; here it has an address, which stands for its
  identity, and holds the item. The two doubly linked lists a handle is in are HOL lists. A
  key is the bytes a handle points to. Counters have their width.
\<close>

section \<open>The hash function\<close>

type_synonym bytes = "8 word list"

definition hash_mix :: "32 word \<Rightarrow> 32 word \<Rightarrow> 32 word \<Rightarrow> 32 word \<times> 32 word \<times> 32 word" where
  "hash_mix a b c =
     (let a = a - b; a = a - c; a = a XOR drop_bit 13 c;
          b = b - c; b = b - a; b = b XOR push_bit 8 a;
          c = c - a; c = c - b; c = c XOR drop_bit 13 b;
          a = a - b; a = a - c; a = a XOR drop_bit 12 c;
          b = b - c; b = b - a; b = b XOR push_bit 16 a;
          c = c - a; c = c - b; c = c XOR drop_bit 5 b;
          a = a - b; a = a - c; a = a XOR drop_bit 3 c;
          b = b - c; b = b - a; b = b XOR push_bit 10 a;
          c = c - a; c = c - b; c = c XOR drop_bit 15 b
      in (a, b, c))"

definition shifted_byte :: "nat \<Rightarrow> 8 word \<Rightarrow> 32 word" where
  "shifted_byte n b = push_bit n (ucast b)"

definition word_at :: "nat \<Rightarrow> bytes \<Rightarrow> 32 word" where
  "word_at n key =
     shifted_byte 0 (key ! n) + shifted_byte 8 (key ! (n + 1)) + shifted_byte 16 (key ! (n + 2)) +
     shifted_byte 24 (key ! (n + 3))"

text \<open>The loop over blocks of twelve bytes; what is left is returned.\<close>

function hash_blocks ::
  "bytes \<Rightarrow> 32 word \<Rightarrow> 32 word \<Rightarrow> 32 word \<Rightarrow> bytes \<times> 32 word \<times> 32 word \<times> 32 word"
where
  "hash_blocks key i j hashval =
     (if 12 \<le> length key then
        case hash_mix (i + word_at 0 key) (j + word_at 4 key) (hashval + word_at 8 key) of
          (i', j', hashval') \<Rightarrow> hash_blocks (drop 12 key) i' j' hashval'
      else (key, i, j, hashval))"
  by pat_completeness auto
termination by (relation "measure (\<lambda>(key, _). length key)") auto

declare hash_blocks.simps [simp del]

text \<open>The switch over the number of bytes left falls through from its entry to its end.\<close>

definition tail_byte :: "bytes \<Rightarrow> nat \<Rightarrow> nat \<Rightarrow> 32 word" where
  "tail_byte key n shift = (if n < length key then shifted_byte shift (key ! n) else 0)"

definition ten_hash_function :: "bytes \<Rightarrow> 32 word \<Rightarrow> 32 word" where
  "ten_hash_function key keylen =
     (case hash_blocks key 0x9e3779b9 0x9e3779b9 0xfeedbeef of
        (rest, i, j, hashval) \<Rightarrow>
          (let h1 = hashval + keylen;
               h2 = h1 + tail_byte rest 10 24 + tail_byte rest 9 16 + tail_byte rest 8 8;
               j2 = j + tail_byte rest 7 24 + tail_byte rest 6 16 + tail_byte rest 5 8 +
                    tail_byte rest 4 0;
               i2 = i + tail_byte rest 3 24 + tail_byte rest 2 16 + tail_byte rest 1 8 +
                    tail_byte rest 0 0
           in case hash_mix i2 j2 h2 of (_, _, h3) \<Rightarrow> h3))"

definition ten_hash_get_bucket_idx :: "32 word \<Rightarrow> 32 word \<Rightarrow> nat" where
  "ten_hash_get_bucket_idx hashval bucket_cnt = unat (hashval AND (bucket_cnt - 1))"

section \<open>The structures\<close>

record 'v ten_hashhandle =
  hh_addr :: nat
  hh_key :: bytes
  hh_keylen :: "32 word"
  hh_hashval :: "32 word"
  hh_item :: 'v

record 'v ten_hashbucket =
  bkt_items :: "'v ten_hashhandle list"
  bkt_items_cnt :: "32 word"
  expand_mult :: "32 word"

record 'v ten_hashtable =
  bkts :: "'v ten_hashbucket list"
  app_list :: "'v ten_hashhandle list"
  bkts_cnt :: "32 word"
  bkts_cnt_in_log2 :: "32 word"
  items_cnt :: "32 word"
  ideal_chain_maxlen :: "32 word"
  non_ideal_items_cnt :: "32 word"
  ineff_expands_times :: "32 word"
  noexpand :: bool

definition empty_bucket :: "'v ten_hashbucket" where
  "empty_bucket = \<lparr>bkt_items = [], bkt_items_cnt = 0, expand_mult = 0\<rparr>"

text \<open>
  Initialisation leaves four fields as they are: in a table inside a structure that is not
  zeroed they are arbitrary, in a table from \<open>ten_hashtable_create\<close> they are zero.
\<close>

definition ten_hashtable_init :: "'v ten_hashtable \<Rightarrow> 'v ten_hashtable" where
  "ten_hashtable_init t =
     t\<lparr>bkts_cnt := 32, bkts_cnt_in_log2 := 5, bkts := replicate 32 empty_bucket, items_cnt := 0,
       app_list := []\<rparr>"

definition zeroed_hashtable :: "'v ten_hashtable" where
  "zeroed_hashtable =
     \<lparr>bkts = [], app_list = [], bkts_cnt = 0, bkts_cnt_in_log2 = 0, items_cnt = 0,
      ideal_chain_maxlen = 0, non_ideal_items_cnt = 0, ineff_expands_times = 0,
      noexpand = False\<rparr>"

definition ten_hashtable_create :: "'v ten_hashtable" where
  "ten_hashtable_create = ten_hashtable_init zeroed_hashtable"

definition ten_hashhandle_init :: "nat \<Rightarrow> bytes \<Rightarrow> 'v \<Rightarrow> 'v ten_hashhandle" where
  "ten_hashhandle_init addr key item =
     \<lparr>hh_addr = addr, hh_key = key, hh_keylen = of_nat (length key),
      hh_hashval = ten_hash_function key (of_nat (length key)), hh_item = item\<rparr>"

section \<open>Expansion\<close>

text \<open>
  The buckets are emptied front to back, each item going to the front of its new bucket, so
  the items of a bucket end up in the opposite order.
\<close>

definition spread_item ::
  "32 word \<Rightarrow> 32 word \<Rightarrow> 'v ten_hashhandle \<Rightarrow> 'v ten_hashbucket list \<times> 32 word \<Rightarrow>
   'v ten_hashbucket list \<times> 32 word"
where
  "spread_item cnt ideal hh st =
     (case st of (bs, non_ideal) \<Rightarrow>
        let idx = ten_hash_get_bucket_idx (hh_hashval hh) cnt;
            b = bs ! idx;
            n = bkt_items_cnt b + 1;
            (non_ideal', mult) =
              (if n > ideal then
                 (non_ideal + 1,
                  if n > expand_mult b * ideal then expand_mult b + 1 else expand_mult b)
               else (non_ideal, expand_mult b))
        in (bs[idx := \<lparr>bkt_items = hh # bkt_items b, bkt_items_cnt = n, expand_mult = mult\<rparr>],
            non_ideal'))"

definition ten_hashtable_expand_bkts :: "'v ten_hashtable \<Rightarrow> 'v ten_hashtable" where
  "ten_hashtable_expand_bkts t =
     (let cnt = bkts_cnt t * 2;
          ideal = drop_bit (unat (bkts_cnt_in_log2 t + 1)) (items_cnt t) +
                  (if items_cnt t AND (cnt - 1) \<noteq> 0 then 1 else 0);
          (bs, non_ideal) =
            fold (spread_item cnt ideal) (concat (map bkt_items (bkts t)))
              (replicate (2 * length (bkts t)) empty_bucket, 0);
          ineff = (if non_ideal > drop_bit 1 (items_cnt t) then ineff_expands_times t + 1 else 0)
      in t\<lparr>bkts := bs, bkts_cnt := cnt, bkts_cnt_in_log2 := bkts_cnt_in_log2 t + 1,
           ideal_chain_maxlen := ideal, non_ideal_items_cnt := non_ideal,
           ineff_expands_times := ineff, noexpand := (ineff > 1 \<or> noexpand t)\<rparr>)"

section \<open>Adding, finding and removing\<close>

text \<open>Adding to the front of a bucket may expand the table the bucket is in.\<close>

definition ten_hashbucket_add ::
  "nat \<Rightarrow> 'v ten_hashhandle \<Rightarrow> 'v ten_hashtable \<Rightarrow> 'v ten_hashtable"
where
  "ten_hashbucket_add idx hh t =
     (let b = bkts t ! idx; n = bkt_items_cnt b + 1;
          b' = b\<lparr>bkt_items_cnt := n, bkt_items := hh # bkt_items b\<rparr>;
          t' = t\<lparr>bkts := (bkts t)[idx := b']\<rparr>
      in if n \<ge> (expand_mult b + 1) * 10 \<and> \<not> noexpand t then ten_hashtable_expand_bkts t'
         else t')"

definition ten_hashtable_add_to_app_list ::
  "'v ten_hashhandle \<Rightarrow> 'v ten_hashtable \<Rightarrow> 'v ten_hashtable"
where
  "ten_hashtable_add_to_app_list hh t = t\<lparr>app_list := app_list t @ [hh]\<rparr>"

definition ten_hashtable_add_by_hash_val ::
  "'v ten_hashhandle \<Rightarrow> 32 word \<Rightarrow> 'v ten_hashtable \<Rightarrow> 'v ten_hashtable"
where
  "ten_hashtable_add_by_hash_val hh hashval t =
     ten_hashtable_add_to_app_list hh
       (ten_hashbucket_add (ten_hash_get_bucket_idx hashval (bkts_cnt t)) hh
         (t\<lparr>items_cnt := items_cnt t + 1\<rparr>))"

definition ten_hashtable_add_by_key ::
  "nat \<Rightarrow> bytes \<Rightarrow> 'v \<Rightarrow> 'v ten_hashtable \<Rightarrow> 'v ten_hashtable"
where
  "ten_hashtable_add_by_key addr key item t =
     (let hh = ten_hashhandle_init addr key item in
      ten_hashtable_add_by_hash_val hh (hh_hashval hh) t)"

definition ten_hashbucket_find ::
  "'v ten_hashbucket \<Rightarrow> 32 word \<Rightarrow> bytes \<Rightarrow> 32 word \<Rightarrow> 'v ten_hashhandle option"
where
  "ten_hashbucket_find b hashval key keylen =
     List.find (\<lambda>hh. hh_hashval hh = hashval \<and> hh_keylen hh = keylen \<and> hh_key hh = key)
       (bkt_items b)"

definition ten_hashtable_find ::
  "'v ten_hashtable \<Rightarrow> 32 word \<Rightarrow> bytes \<Rightarrow> 32 word \<Rightarrow> 'v ten_hashhandle option"
where
  "ten_hashtable_find t hashval key keylen =
     ten_hashbucket_find (bkts t ! ten_hash_get_bucket_idx hashval (bkts_cnt t)) hashval key keylen"

definition ten_hashtable_find_by_key :: "'v ten_hashtable \<Rightarrow> bytes \<Rightarrow> 'v ten_hashhandle option" where
  "ten_hashtable_find_by_key t key =
     ten_hashtable_find t (ten_hash_function key (of_nat (length key))) key (of_nat (length key))"

definition ten_hashbucket_del :: "'v ten_hashhandle \<Rightarrow> 'v ten_hashbucket \<Rightarrow> 'v ten_hashbucket" where
  "ten_hashbucket_del hh b =
     b\<lparr>bkt_items_cnt := bkt_items_cnt b - 1,
       bkt_items := filter (\<lambda>x. hh_addr x \<noteq> hh_addr hh) (bkt_items b)\<rparr>"

definition ten_hashhandle_del_from_app_list ::
  "'v ten_hashhandle \<Rightarrow> 'v ten_hashtable \<Rightarrow> 'v ten_hashtable"
where
  "ten_hashhandle_del_from_app_list hh t =
     t\<lparr>app_list := filter (\<lambda>x. hh_addr x \<noteq> hh_addr hh) (app_list t)\<rparr>"

definition ten_hashtable_del :: "'v ten_hashhandle \<Rightarrow> 'v ten_hashtable \<Rightarrow> 'v ten_hashtable" where
  "ten_hashtable_del hh t =
     (let idx = ten_hash_get_bucket_idx (hh_hashval hh) (bkts_cnt t);
          t1 = t\<lparr>bkts := (bkts t)[idx := ten_hashbucket_del hh (bkts t ! idx)]\<rparr>;
          t2 = ten_hashhandle_del_from_app_list hh t1
      in t2\<lparr>items_cnt := items_cnt t2 - 1\<rparr>)"

definition ten_hashtable_replace_by_hash_val ::
  "'v ten_hashhandle \<Rightarrow> 32 word \<Rightarrow> bytes \<Rightarrow> 32 word \<Rightarrow> 'v ten_hashtable \<Rightarrow> 'v ten_hashtable"
where
  "ten_hashtable_replace_by_hash_val hh hashval key keylen t =
     ten_hashtable_add_by_hash_val hh hashval
       (case ten_hashtable_find t hashval key keylen of
          Some replaced \<Rightarrow> ten_hashtable_del replaced t
        | None \<Rightarrow> t)"

definition ten_hashtable_replace_by_key ::
  "nat \<Rightarrow> bytes \<Rightarrow> 'v \<Rightarrow> 'v ten_hashtable \<Rightarrow> 'v ten_hashtable"
where
  "ten_hashtable_replace_by_key addr key item t =
     (let hh = ten_hashhandle_init addr key item in
      ten_hashtable_replace_by_hash_val hh (hh_hashval hh) key (hh_keylen hh) t)"

definition ten_hashtable_deinit :: "'v ten_hashtable \<Rightarrow> 'v ten_hashtable" where
  "ten_hashtable_deinit t =
     t\<lparr>bkts := [], bkts_cnt := 0, bkts_cnt_in_log2 := 0, app_list := []\<rparr>"

definition ten_hashtable_clear :: "'v ten_hashtable \<Rightarrow> 'v ten_hashtable" where
  "ten_hashtable_clear t = ten_hashtable_deinit (fold ten_hashtable_del (app_list t) t)"

definition ten_hashtable_concat ::
  "'v ten_hashtable \<Rightarrow> 'v ten_hashtable \<Rightarrow> 'v ten_hashtable \<times> 'v ten_hashtable"
where
  "ten_hashtable_concat t target =
     (fold (\<lambda>hh. ten_hashtable_add_by_key (hh_addr hh) (hh_key hh) (hh_item hh)) (app_list target) t,
      zeroed_hashtable)"

text \<open>The three kinds of keys: the characters of a string, and the bytes of an \<open>int32\<close>.\<close>

definition string_key :: "string \<Rightarrow> bytes" where
  "string_key s = map (\<lambda>c. of_nat (of_char c)) s"

definition int_key :: "32 word \<Rightarrow> bytes" where
  "int_key w = [ucast w, ucast (drop_bit 8 w), ucast (drop_bit 16 w), ucast (drop_bit 24 w)]"

definition ten_hashtable_add_string :: "nat \<Rightarrow> string \<Rightarrow> 'v \<Rightarrow> 'v ten_hashtable \<Rightarrow> 'v ten_hashtable" where
  "ten_hashtable_add_string addr str item t = ten_hashtable_add_by_key addr (string_key str) item t"

definition ten_hashtable_replace_string ::
  "nat \<Rightarrow> string \<Rightarrow> 'v \<Rightarrow> 'v ten_hashtable \<Rightarrow> 'v ten_hashtable"
where
  "ten_hashtable_replace_string addr str item t =
     ten_hashtable_replace_by_key addr (string_key str) item t"

definition ten_hashtable_find_string :: "'v ten_hashtable \<Rightarrow> string \<Rightarrow> 'v ten_hashhandle option" where
  "ten_hashtable_find_string t str = ten_hashtable_find_by_key t (string_key str)"

definition ten_hashtable_add_int :: "nat \<Rightarrow> 32 word \<Rightarrow> 'v \<Rightarrow> 'v ten_hashtable \<Rightarrow> 'v ten_hashtable" where
  "ten_hashtable_add_int addr value item t = ten_hashtable_add_by_key addr (int_key value) item t"

definition ten_hashtable_find_int :: "'v ten_hashtable \<Rightarrow> 32 word \<Rightarrow> 'v ten_hashhandle option" where
  "ten_hashtable_find_int t value = ten_hashtable_find_by_key t (int_key value)"

end
