(* ===== verification/Hashtable_Map.thy ===== *)
theory Hashtable_Map
  imports Ten_Hashtable "HOL-Library.Multiset"
begin

text \<open>
  The hash table as a map: its invariant, what each operation does to the list of its items,
  and that expansion changes neither.
\<close>

section \<open>Buckets\<close>

lemma bucket_idx_mod: "ten_hash_get_bucket_idx h (2 ^ n) = unat h mod 2 ^ n"
proof -
  have "h AND (2 ^ n - 1) = take_bit n h" by (simp only: take_bit_eq_mask mask_eq_exp_minus_1)
  then have "ten_hash_get_bucket_idx h (2 ^ n) = take_bit n (unat h)"
    by (simp only: ten_hash_get_bucket_idx_def unsigned_take_bit_eq)
  then show ?thesis by (simp only: take_bit_eq_mod)
qed

definition bucket_of :: "nat \<Rightarrow> 'v ten_hashhandle \<Rightarrow> nat" where
  "bucket_of n hh = unat (hh_hashval hh) mod n"

lemma bucket_of_less: "0 < n \<Longrightarrow> bucket_of n hh < n"
  by (simp add: bucket_of_def)

definition handle_ok :: "'v ten_hashhandle \<Rightarrow> bool" where
  "handle_ok hh \<longleftrightarrow> hh_keylen hh = of_nat (length (hh_key hh)) \<and>
     hh_hashval hh = ten_hash_function (hh_key hh) (of_nat (length (hh_key hh)))"

lemma handle_init_ok [simp]: "handle_ok (ten_hashhandle_init addr key item)"
  by (simp add: handle_ok_def ten_hashhandle_init_def)

lemma handle_init_fields [simp]:
  "hh_addr (ten_hashhandle_init addr key item) = addr"
  "hh_key (ten_hashhandle_init addr key item) = key"
  "hh_item (ten_hashhandle_init addr key item) = item"
  by (simp_all add: ten_hashhandle_init_def)

text \<open>A list of buckets that holds the items of a list, each where its hash value says.\<close>

definition bucket_ok :: "nat \<Rightarrow> 'v ten_hashhandle list \<Rightarrow> nat \<Rightarrow> 'v ten_hashbucket \<Rightarrow> bool" where
  "bucket_ok n xs i b \<longleftrightarrow>
     mset (bkt_items b) = mset (filter (\<lambda>hh. bucket_of n hh = i) xs) \<and>
     bkt_items_cnt b = of_nat (length (bkt_items b))"

definition buckets_ok :: "'v ten_hashbucket list \<Rightarrow> 'v ten_hashhandle list \<Rightarrow> bool" where
  "buckets_ok bs xs \<longleftrightarrow> (\<forall>i < length bs. bucket_ok (length bs) xs i (bs ! i))"

text \<open>The table: \<open>n\<close> is the logarithm of the number of buckets.\<close>

definition ht_shape :: "'v ten_hashtable \<Rightarrow> nat \<Rightarrow> bool" where
  "ht_shape t n \<longleftrightarrow> n < 32 \<and> bkts_cnt t = 2 ^ n \<and> bkts_cnt_in_log2 t = of_nat n \<and>
     length (bkts t) = 2 ^ n"

definition ht_ok :: "'v ten_hashtable \<Rightarrow> bool" where
  "ht_ok t \<longleftrightarrow>
     (\<exists>n. ht_shape t n) \<and> buckets_ok (bkts t) (app_list t) \<and>
     distinct (map hh_addr (app_list t)) \<and> (\<forall>hh \<in> set (app_list t). handle_ok hh) \<and>
     items_cnt t = of_nat (length (app_list t))"

lemma log2_bound: "ht_shape t n \<Longrightarrow> unat (bkts_cnt_in_log2 t) = n"
  by (simp add: ht_shape_def unsigned_of_nat take_bit_nat_eq_self)

text \<open>Fewer than the largest number of buckets a counter can hold after doubling.\<close>

definition ht_room :: "'v ten_hashtable \<Rightarrow> bool" where
  "ht_room t \<longleftrightarrow> unat (bkts_cnt_in_log2 t) < 31"

lemma bucket_okD:
  "buckets_ok bs xs \<Longrightarrow> i < length bs \<Longrightarrow>
   mset (bkt_items (bs ! i)) = mset (filter (\<lambda>hh. bucket_of (length bs) hh = i) xs) \<and>
   bkt_items_cnt (bs ! i) = of_nat (length (bkt_items (bs ! i)))"
  by (simp add: buckets_ok_def bucket_ok_def)

lemma ht_idx:
  "ht_shape t n \<Longrightarrow> ten_hash_get_bucket_idx (hh_hashval hh) (bkts_cnt t) = bucket_of (length (bkts t)) hh"
  by (simp add: ht_shape_def bucket_idx_mod bucket_of_def)

section \<open>Lists put into buckets\<close>

lemma mset_concat_buckets:
  assumes "\<forall>i < length xss. mset (xss ! i) = mset (filter (\<lambda>y. f y = i) ys)"
    and "\<forall>y \<in> set ys. f y < length xss"
  shows "mset (concat xss) = mset ys"
  using assms
proof (induction xss arbitrary: ys rule: rev_induct)
  case (snoc xs xss)
  let ?ys = "filter (\<lambda>y. f y < length xss) ys"
  have "\<forall>i < length xss. mset (xss ! i) = mset (filter (\<lambda>y. f y = i) ?ys)"
  proof (intro allI impI)
    fix i
    assume i: "i < length xss"
    then have "filter (\<lambda>y. f y = i) ?ys = filter (\<lambda>y. f y = i) ys" by (auto intro: filter_cong)
    then show "mset (xss ! i) = mset (filter (\<lambda>y. f y = i) ?ys)"
      using snoc.prems(1) [rule_format, of i] i by (simp add: nth_append)
  qed
  then have "mset (concat xss) = mset ?ys" by (rule snoc.IH) auto
  moreover have "mset xs = mset (filter (\<lambda>y. f y = length xss) ys)"
    using snoc.prems(1) by (force simp: nth_append)
  moreover have "filter (\<lambda>y. f y = length xss) ys = filter (\<lambda>y. \<not> f y < length xss) ys"
    using snoc.prems(2) by (intro filter_cong) auto
  moreover have "mset ?ys + mset (filter (\<lambda>y. \<not> f y < length xss) ys) = mset ys"
    using multiset_partition [of "mset ys" "\<lambda>y. f y < length xss"] by (simp flip: mset_filter)
  ultimately show ?case by simp
qed simp

lemma buckets_all:
  assumes "buckets_ok bs xs" and "bs \<noteq> []"
  shows "mset (concat (map bkt_items bs)) = mset xs"
  by (rule mset_concat_buckets [where f = "bucket_of (length bs)"])
     (use assms bucket_okD [OF assms(1)] in \<open>auto intro: bucket_of_less\<close>)

text \<open>Spreading items over buckets.\<close>

lemma spread_item_nth:
  assumes "n < 32" and "length bs = 2 ^ n"
  shows "length (fst (spread_item (2 ^ n) ideal hh (bs, m))) = 2 ^ n"
    and "i < 2 ^ n \<Longrightarrow>
      bkt_items (fst (spread_item (2 ^ n) ideal hh (bs, m)) ! i) =
        (if bucket_of (2 ^ n) hh = i then hh # bkt_items (bs ! i) else bkt_items (bs ! i)) \<and>
      bkt_items_cnt (fst (spread_item (2 ^ n) ideal hh (bs, m)) ! i) =
        (if bucket_of (2 ^ n) hh = i then bkt_items_cnt (bs ! i) + 1 else bkt_items_cnt (bs ! i))"
  using assms bucket_of_less [of "2 ^ n" hh]
  by (auto simp: spread_item_def Let_def bucket_idx_mod bucket_of_def nth_list_update)

lemma spread_fold:
  assumes "n < 32" and "length bs = 2 ^ n"
  shows "length (fst (fold (spread_item (2 ^ n) ideal) xs (bs, m))) = 2 ^ n \<and>
    (\<forall>i < 2 ^ n.
      bkt_items (fst (fold (spread_item (2 ^ n) ideal) xs (bs, m)) ! i) =
        rev (filter (\<lambda>hh. bucket_of (2 ^ n) hh = i) xs) @ bkt_items (bs ! i) \<and>
      bkt_items_cnt (fst (fold (spread_item (2 ^ n) ideal) xs (bs, m)) ! i) =
        of_nat (length (filter (\<lambda>hh. bucket_of (2 ^ n) hh = i) xs)) + bkt_items_cnt (bs ! i))"
  using assms(2)
proof (induction xs arbitrary: bs m)
  case (Cons x xs)
  obtain bs' m' where st: "spread_item (2 ^ n) ideal x (bs, m) = (bs', m')" by fastforce
  have len: "length bs' = 2 ^ n" using spread_item_nth(1) [OF assms(1) Cons.prems] st by (metis fst_conv)
  have step: "bkt_items (bs' ! i) = (if bucket_of (2 ^ n) x = i then x # bkt_items (bs ! i) else bkt_items (bs ! i)) \<and>
      bkt_items_cnt (bs' ! i) = (if bucket_of (2 ^ n) x = i then bkt_items_cnt (bs ! i) + 1 else bkt_items_cnt (bs ! i))"
    if "i < 2 ^ n" for i
    using spread_item_nth(2) [OF assms(1) Cons.prems that, of ideal x m] unfolding st by simp
  show ?case using Cons.IH [OF len, of m'] step by (simp add: st)
qed simp

lemma expand_facts:
  assumes shape: "ht_shape t n" and room: "n < 31"
  defines "t' \<equiv> ten_hashtable_expand_bkts t"
  shows "ht_shape t' (Suc n)" and "app_list t' = app_list t" and "items_cnt t' = items_cnt t"
    and "\<And>i. i < 2 ^ Suc n \<Longrightarrow>
      bkt_items (bkts t' ! i) =
        rev (filter (\<lambda>hh. bucket_of (2 ^ Suc n) hh = i) (concat (map bkt_items (bkts t)))) \<and>
      bkt_items_cnt (bkts t' ! i) = of_nat (length (bkt_items (bkts t' ! i)))"
proof -
  let ?ideal = "drop_bit (unat (bkts_cnt_in_log2 t + 1)) (items_cnt t) +
                (if items_cnt t AND (2 ^ Suc n - 1) \<noteq> 0 then 1 else 0)"
  let ?xs = "concat (map bkt_items (bkts t))"
  let ?st = "fold (spread_item (2 ^ Suc n) ?ideal) ?xs (replicate (2 ^ Suc n) empty_bucket, 0)"
  have cnt: "bkts_cnt t * 2 = 2 ^ Suc n" "length (bkts t) = 2 ^ n" using shape by (simp_all add: ht_shape_def)
  have bkts2: "2 * length (bkts t) = 2 ^ Suc n" using cnt(2) by simp
  obtain bs m where st: "?st = (bs, m)" by fastforce
  have bkts: "bkts t' = bs" "app_list t' = app_list t" "items_cnt t' = items_cnt t"
    "bkts_cnt t' = 2 ^ Suc n" "bkts_cnt_in_log2 t' = bkts_cnt_in_log2 t + 1"
    unfolding t'_def ten_hashtable_expand_bkts_def Let_def cnt(1) bkts2 st by simp_all
  have "Suc n < 32" using room by simp
  from spread_fold [OF this, of "replicate (2 ^ Suc n) empty_bucket" ?ideal ?xs 0] st
  have fold: "length bs = 2 ^ Suc n" "\<And>i. i < 2 ^ Suc n \<Longrightarrow>
      bkt_items (bs ! i) = rev (filter (\<lambda>hh. bucket_of (2 ^ Suc n) hh = i) ?xs) \<and>
      bkt_items_cnt (bs ! i) = of_nat (length (filter (\<lambda>hh. bucket_of (2 ^ Suc n) hh = i) ?xs))"
    by (simp_all add: empty_bucket_def)
  show "ht_shape t' (Suc n)" using shape fold(1) room bkts by (simp add: ht_shape_def)
  show "app_list t' = app_list t" "items_cnt t' = items_cnt t" by (fact bkts)+
  show "bkt_items (bkts t' ! i) = rev (filter (\<lambda>hh. bucket_of (2 ^ Suc n) hh = i) ?xs) \<and>
      bkt_items_cnt (bkts t' ! i) = of_nat (length (bkt_items (bkts t' ! i)))" if "i < 2 ^ Suc n" for i
    using fold(2) [OF that] bkts(1) by simp
qed

lemma expand_buckets_ok:
  assumes shape: "ht_shape t n" and room: "n < 31" and ok: "buckets_ok (bkts t) xs"
  shows "buckets_ok (bkts (ten_hashtable_expand_bkts t)) xs"
proof -
  note facts = expand_facts [OF shape room]
  have len: "length (bkts (ten_hashtable_expand_bkts t)) = 2 ^ Suc n" using facts(1) by (simp add: ht_shape_def)
  have "bkts t \<noteq> []" using shape by (auto simp: ht_shape_def)
  from buckets_all [OF ok this] have all: "mset (concat (map bkt_items (bkts t))) = mset xs" .
  show ?thesis
    unfolding buckets_ok_def bucket_ok_def len
  proof (intro allI impI conjI)
    fix i :: nat
    assume i: "i < 2 ^ Suc n"
    show "mset (bkt_items (bkts (ten_hashtable_expand_bkts t) ! i)) =
        mset (filter (\<lambda>hh. bucket_of (2 ^ Suc n) hh = i) xs)"
      using facts(4) [OF i] all by (simp add: mset_filter)
    show "bkt_items_cnt (bkts (ten_hashtable_expand_bkts t) ! i) =
        of_nat (length (bkt_items (bkts (ten_hashtable_expand_bkts t) ! i)))"
      using facts(4) [OF i] by simp
  qed
qed


section \<open>What the operations do to the list of items\<close>

lemma buckets_ok_add:
  assumes "buckets_ok bs xs" and "i = bucket_of (length bs) hh" and "0 < length bs"
  shows "buckets_ok (bs[i := (bs ! i)\<lparr>bkt_items_cnt := bkt_items_cnt (bs ! i) + 1,
      bkt_items := hh # bkt_items (bs ! i)\<rparr>]) (xs @ [hh])"
  using bucket_of_less [OF assms(3), of hh] bucket_okD [OF assms(1)] assms(2)
  unfolding buckets_ok_def bucket_ok_def by (auto simp: nth_list_update)

lemma add_by_hash_val_ok:
  assumes ok: "ht_ok t" and room: "ht_room t" and hh: "handle_ok hh"
    and fresh: "hh_addr hh \<notin> hh_addr ` set (app_list t)"
  defines "t' \<equiv> ten_hashtable_add_by_hash_val hh (hh_hashval hh) t"
  shows "ht_ok t'" and "app_list t' = app_list t @ [hh]"
proof -
  from ok obtain n where shape: "ht_shape t n" and bs: "buckets_ok (bkts t) (app_list t)"
    by (auto simp: ht_ok_def)
  have n: "n < 31" using room log2_bound [OF shape] by (simp add: ht_room_def)
  let ?i = "bucket_of (length (bkts t)) hh" and ?b = "bkts t ! bucket_of (length (bkts t)) hh"
  let ?t1 = "t\<lparr>items_cnt := items_cnt t + 1,
    bkts := (bkts t)[?i := ?b\<lparr>bkt_items_cnt := bkt_items_cnt ?b + 1, bkt_items := hh # bkt_items ?b\<rparr>]\<rparr>"
  have shape1: "ht_shape ?t1 n" using shape by (simp add: ht_shape_def)
  have "0 < length (bkts t)" using shape by (simp add: ht_shape_def)
  from buckets_ok_add [OF bs refl this] have bs1: "buckets_ok (bkts ?t1) (app_list t @ [hh])" by simp
  obtain u where u: "t' = ten_hashtable_add_to_app_list hh u"
    and cases: "u = ?t1 \<or> u = ten_hashtable_expand_bkts ?t1"
    unfolding t'_def ten_hashtable_add_by_hash_val_def ten_hashbucket_add_def Let_def
    by (simp add: ht_idx [OF shape])
  have items: "items_cnt t + 1 = of_nat (length (app_list t @ [hh]))" using ok by (simp add: ht_ok_def)
  have "(\<exists>m. ht_shape u m) \<and> buckets_ok (bkts u) (app_list t @ [hh]) \<and> app_list u = app_list t \<and>
      items_cnt u = of_nat (length (app_list t @ [hh]))"
    using cases
  proof
    assume u: "u = ?t1"
    show ?thesis
      unfolding u by (intro conjI exI [of _ n] shape1 bs1) (use items in simp_all)
  next
    assume u: "u = ten_hashtable_expand_bkts ?t1"
    show ?thesis
      unfolding u expand_facts(2,3) [OF shape1 n]
      by (intro conjI exI [of _ "Suc n"] expand_facts(1) [OF shape1 n]
            expand_buckets_ok [OF shape1 n bs1]) (use items in simp_all)
  qed
  then show "app_list t' = app_list t @ [hh]" and "ht_ok t'"
    using ok hh fresh by (auto simp: u ht_ok_def ten_hashtable_add_to_app_list_def ht_shape_def)
qed

lemma add_by_key_ok:
  assumes "ht_ok t" and "ht_room t" and "addr \<notin> hh_addr ` set (app_list t)"
  shows "ht_ok (ten_hashtable_add_by_key addr key item t)"
    and "app_list (ten_hashtable_add_by_key addr key item t) =
           app_list t @ [ten_hashhandle_init addr key item]"
  unfolding ten_hashtable_add_by_key_def Let_def
  using add_by_hash_val_ok [OF assms(1,2) handle_init_ok, of addr key item] assms(3) by simp_all

lemma same_addr:
  assumes "distinct (map hh_addr xs)" and "x \<in> set xs" and "y \<in> set xs" and "hh_addr x = hh_addr y"
  shows "x = y"
  using assms by (auto simp: distinct_map inj_on_def)

lemma filter_all_but:
  assumes "mset ys = mset (filter P xs)" and "distinct (map hh_addr xs)"
  shows "mset (filter (\<lambda>x. hh_addr x \<noteq> a) ys) = mset (filter P (filter (\<lambda>x. hh_addr x \<noteq> a) xs))"
proof -
  have "mset (filter (\<lambda>x. hh_addr x \<noteq> a) ys) = filter_mset (\<lambda>x. hh_addr x \<noteq> a) (mset (filter P xs))"
    by (simp only: mset_filter assms(1))
  then show ?thesis by (simp add: mset_filter filter_filter_mset conj_commute)
qed

lemma length_all_but:
  assumes "distinct (map hh_addr ys)" and "hh \<in> set ys"
  shows "length ys = Suc (length (filter (\<lambda>x. hh_addr x \<noteq> hh_addr hh) ys))"
proof -
  have "filter (\<lambda>x. hh_addr x = hh_addr hh) ys = [hh]"
    using assms by (induction ys) (auto simp: image_iff intro!: filter_False)
  then show ?thesis using sum_length_filter_compl [of "\<lambda>x. hh_addr x = hh_addr hh" ys] by simp
qed

lemma del_ok:
  assumes ok: "ht_ok t" and hh: "hh \<in> set (app_list t)"
  defines "t' \<equiv> ten_hashtable_del hh t"
  shows "ht_ok t'" and "app_list t' = filter (\<lambda>x. hh_addr x \<noteq> hh_addr hh) (app_list t)"
    and "bkts_cnt_in_log2 t' = bkts_cnt_in_log2 t"
proof -
  from ok obtain n where shape: "ht_shape t n" and bs: "buckets_ok (bkts t) (app_list t)"
    and dist: "distinct (map hh_addr (app_list t))"
    by (auto simp: ht_ok_def)
  let ?i = "bucket_of (length (bkts t)) hh" and ?keep = "\<lambda>x. hh_addr x \<noteq> hh_addr hh"
  have pos: "0 < length (bkts t)" using shape by (simp add: ht_shape_def)
  have t': "t' = t\<lparr>bkts := (bkts t)[?i := ten_hashbucket_del hh (bkts t ! ?i)],
      app_list := filter ?keep (app_list t), items_cnt := items_cnt t - 1\<rparr>"
    unfolding t'_def ten_hashtable_del_def Let_def ten_hashhandle_del_from_app_list_def
    by (simp add: ht_idx [OF shape])
  then show "app_list t' = filter ?keep (app_list t)" and "bkts_cnt_in_log2 t' = bkts_cnt_in_log2 t"
    by simp_all
  have "buckets_ok ((bkts t)[?i := ten_hashbucket_del hh (bkts t ! ?i)]) (filter ?keep (app_list t))"
    unfolding buckets_ok_def bucket_ok_def length_list_update
  proof (intro allI impI)
    fix i
    assume i: "i < length (bkts t)"
    note b = bucket_okD [OF bs i]
    let ?ys = "bkt_items (bkts t ! i)"
    have ys: "mset (filter ?keep ?ys) =
        mset (filter (\<lambda>x. bucket_of (length (bkts t)) x = i) (filter ?keep (app_list t)))"
      using filter_all_but [OF b [THEN conjunct1] dist] .
    show "mset (bkt_items ((bkts t)[?i := ten_hashbucket_del hh (bkts t ! ?i)] ! i)) =
        mset (filter (\<lambda>x. bucket_of (length (bkts t)) x = i) (filter ?keep (app_list t))) \<and>
      bkt_items_cnt ((bkts t)[?i := ten_hashbucket_del hh (bkts t ! ?i)] ! i) =
        of_nat (length (bkt_items ((bkts t)[?i := ten_hashbucket_del hh (bkts t ! ?i)] ! i)))"
    proof (cases "i = ?i")
      case True
      have "set ?ys = set (filter (\<lambda>x. bucket_of (length (bkts t)) x = i) (app_list t))"
        by (rule mset_eq_setD [OF b [THEN conjunct1]])
      moreover have "distinct (map hh_addr ?ys)"
        using mset_eq_imp_distinct_iff [of "map hh_addr ?ys"
            "map hh_addr (filter (\<lambda>x. bucket_of (length (bkts t)) x = i) (app_list t))"]
          b dist by (simp add: distinct_map_filter)
      ultimately have "length ?ys = Suc (length (filter ?keep ?ys))"
        using hh True by (intro length_all_but) auto
      then show ?thesis using True i b ys by (simp add: ten_hashbucket_del_def)
    next
      case False
      then have "filter ?keep ?ys = ?ys"
        using mset_eq_setD [OF b [THEN conjunct1]] same_addr [OF dist _ hh] by (auto intro!: filter_True)
      with False i b ys show ?thesis by simp
    qed
  qed
  moreover have "items_cnt t - 1 = of_nat (length (filter ?keep (app_list t)))"
    using ok length_all_but [OF dist hh] by (simp add: ht_ok_def)
  ultimately show "ht_ok t'"
    using ok shape by (auto simp: ht_ok_def t' ht_shape_def distinct_map_filter)
qed

section \<open>Finding\<close>

lemma find_by_key_in:
  assumes ok: "ht_ok t" and "ten_hashtable_find_by_key t key = Some hh"
  shows "hh \<in> set (app_list t) \<and> hh_key hh = key"
proof -
  from ok obtain n where shape: "ht_shape t n" and bs: "buckets_ok (bkts t) (app_list t)"
    by (auto simp: ht_ok_def)
  let ?h = "ten_hash_function key (of_nat (length key))"
  let ?i = "ten_hash_get_bucket_idx ?h (bkts_cnt t)"
  from assms(2) have "hh \<in> set (bkt_items (bkts t ! ?i))" "hh_key hh = key"
    by (auto simp: ten_hashtable_find_by_key_def ten_hashtable_find_def ten_hashbucket_find_def
          find_Some_iff set_conv_nth)
  moreover have i: "?i < length (bkts t)" using shape by (auto simp: ht_shape_def bucket_idx_mod)
  ultimately show ?thesis
    using mset_eq_setD [OF bucket_okD [OF bs i, THEN conjunct1]] by auto
qed

lemma find_by_key_found:
  assumes ok: "ht_ok t" and hh: "hh \<in> set (app_list t)" and "hh_key hh = key"
  shows "ten_hashtable_find_by_key t key \<noteq> None"
proof -
  from ok obtain n where shape: "ht_shape t n" and bs: "buckets_ok (bkts t) (app_list t)"
    and "handle_ok hh"
    using hh by (auto simp: ht_ok_def)
  let ?h = "ten_hash_function key (of_nat (length key))"
  have hash: "hh_hashval hh = ?h" "hh_keylen hh = of_nat (length key)"
    using \<open>handle_ok hh\<close> assms(3) by (simp_all add: handle_ok_def)
  have idx: "ten_hash_get_bucket_idx ?h (bkts_cnt t) = bucket_of (length (bkts t)) hh"
    using ht_idx [OF shape, of hh] hash by simp
  have "bucket_of (length (bkts t)) hh < length (bkts t)"
    using shape by (intro bucket_of_less) (simp add: ht_shape_def)
  from mset_eq_setD [OF bucket_okD [OF bs this, THEN conjunct1]] hh
  have "hh \<in> set (bkt_items (bkts t ! bucket_of (length (bkts t)) hh))" by simp
  then show ?thesis
    using hash assms(3)
    by (auto simp: ten_hashtable_find_by_key_def ten_hashtable_find_def ten_hashbucket_find_def idx
          find_None_iff)
qed

text \<open>The map that a table with distinct keys stands for.\<close>

definition ht_keys :: "'v ten_hashtable \<Rightarrow> bytes list" where
  "ht_keys t = map hh_key (app_list t)"

definition ht_map :: "'v ten_hashtable \<Rightarrow> bytes \<Rightarrow> 'v option" where
  "ht_map t = map_of (map (\<lambda>hh. (hh_key hh, hh_item hh)) (app_list t))"

definition ht_lookup :: "'v ten_hashtable \<Rightarrow> bytes \<Rightarrow> 'v option" where
  "ht_lookup t key = map_option hh_item (ten_hashtable_find_by_key t key)"

lemma lookup_map:
  assumes "ht_ok t" and "distinct (ht_keys t)"
  shows "ht_lookup t = ht_map t"
proof
  fix key
  have fst: "map fst (map (\<lambda>hh. (hh_key hh, hh_item hh)) (app_list t)) = ht_keys t"
    by (simp add: ht_keys_def comp_def)
  show "ht_lookup t key = ht_map t key"
  proof (cases "ten_hashtable_find_by_key t key")
    case None
    then have "key \<notin> set (ht_keys t)"
      using find_by_key_found [OF assms(1), of _ key] by (auto simp: ht_keys_def)
    then have "ht_map t key = None"
      by (simp add: ht_map_def map_of_eq_None_iff ht_keys_def image_image)
    with None show ?thesis by (simp add: ht_lookup_def)
  next
    case (Some hh)
    from find_by_key_in [OF assms(1) Some] have hh: "hh \<in> set (app_list t)" "hh_key hh = key" by simp_all
    have "map_of (map (\<lambda>hh. (hh_key hh, hh_item hh)) (app_list t)) key = Some (hh_item hh)"
      by (rule map_of_is_SomeI) (use assms(2) hh fst in auto)
    then show ?thesis using Some by (simp add: ht_lookup_def ht_map_def)
  qed
qed


section \<open>The operations on the map\<close>

lemma map_of_without:
  "map_of (map (\<lambda>hh. (hh_key hh, hh_item hh)) (filter (\<lambda>x. hh_key x \<noteq> k) xs)) =
   (map_of (map (\<lambda>hh. (hh_key hh, hh_item hh)) xs))(k := None)"
  by (induction xs) (auto simp: fun_eq_iff)

lemma del_map:
  assumes ok: "ht_ok t" and keys: "distinct (ht_keys t)" and hh: "hh \<in> set (app_list t)"
  shows "distinct (ht_keys (ten_hashtable_del hh t))"
    and "ht_map (ten_hashtable_del hh t) = (ht_map t)(hh_key hh := None)"
proof -
  have dist: "distinct (map hh_addr (app_list t))" using ok by (simp add: ht_ok_def)
  have "hh_addr x \<noteq> hh_addr hh \<longleftrightarrow> hh_key x \<noteq> hh_key hh" if "x \<in> set (app_list t)" for x
    using that hh dist keys by (auto simp: distinct_map inj_on_def ht_keys_def)
  then have app: "app_list (ten_hashtable_del hh t) = filter (\<lambda>x. hh_key x \<noteq> hh_key hh) (app_list t)"
    using del_ok(2) [OF ok hh] by (auto intro: filter_cong)
  show "distinct (ht_keys (ten_hashtable_del hh t))"
    using keys by (simp add: ht_keys_def app distinct_map_filter)
  show "ht_map (ten_hashtable_del hh t) = (ht_map t)(hh_key hh := None)"
    by (simp add: ht_map_def app map_of_without)
qed

lemma map_of_snoc: "map_of xs k = None \<Longrightarrow> map_of (xs @ [(k, v)]) = (map_of xs)(k \<mapsto> v)"
  by (auto simp: map_of_append map_add_def fun_eq_iff split: option.splits)

lemma add_map:
  assumes "ht_ok t" and "ht_room t" and "addr \<notin> hh_addr ` set (app_list t)"
    and "distinct (ht_keys t)" and "ht_map t key = None"
  shows "distinct (ht_keys (ten_hashtable_add_by_key addr key item t))"
    and "ht_map (ten_hashtable_add_by_key addr key item t) = (ht_map t)(key \<mapsto> item)"
  using assms(4,5) add_by_key_ok(2) [OF assms(1-3), of key item]
  by (simp_all add: ht_keys_def ht_map_def map_of_snoc del: map_of_append)
     (simp add: map_of_eq_None_iff image_image)

text \<open>A table that can take one more item at an address.\<close>

definition ht_ready :: "nat \<Rightarrow> 'v ten_hashtable \<Rightarrow> bool" where
  "ht_ready addr t \<longleftrightarrow>
     ht_ok t \<and> distinct (ht_keys t) \<and> ht_room t \<and> addr \<notin> hh_addr ` set (app_list t)"

lemma replace_map:
  fixes key and item
  assumes "ht_ready addr t"
  defines "t' \<equiv> ten_hashtable_replace_by_key addr key item t"
  shows "ht_ok t'" and "distinct (ht_keys t')" and "ht_map t' = (ht_map t)(key \<mapsto> item)"
proof -
  from assms(1) have t: "ht_ok t" "ht_room t" "addr \<notin> hh_addr ` set (app_list t)" "distinct (ht_keys t)"
    by (simp_all add: ht_ready_def)
  have look: "map_option hh_item (ten_hashtable_find_by_key t key) = ht_map t key"
    using lookup_map [OF t(1,4)] by (simp add: ht_lookup_def fun_eq_iff)
  have t': "t' = ten_hashtable_add_by_key addr key item
      (case ten_hashtable_find_by_key t key of Some r \<Rightarrow> ten_hashtable_del r t | None \<Rightarrow> t)"
    by (simp add: t'_def ten_hashtable_replace_by_key_def ten_hashtable_replace_by_hash_val_def
          ten_hashtable_add_by_key_def ten_hashtable_find_by_key_def Let_def ten_hashhandle_init_def
          cong: option.case_cong)
  have "ht_ok t' \<and> distinct (ht_keys t') \<and> ht_map t' = (ht_map t)(key \<mapsto> item)"
  proof (cases "ten_hashtable_find_by_key t key")
    case None
    with look have "ht_map t key = None" by simp
    with None t' add_by_key_ok(1) [OF t(1-3)] add_map [OF t] show ?thesis by simp
  next
    case (Some r)
    from find_by_key_in [OF t(1) Some] have r: "r \<in> set (app_list t)" "hh_key r = key" by simp_all
    let ?u = "ten_hashtable_del r t"
    note u = del_ok [OF t(1) r(1)] del_map [OF t(1,4) r(1)]
    have room: "ht_room ?u" using t(2) u(3) by (simp add: ht_room_def)
    have fresh: "addr \<notin> hh_addr ` set (app_list ?u)" using t(3) u(2) by auto
    have none: "ht_map ?u key = None" using u(5) r(2) by simp
    show ?thesis
      using Some t' add_by_key_ok(1) [OF u(1) room fresh] add_map [OF u(1) room fresh u(4) none] u(5) r(2)
      by simp
  qed
  then show "ht_ok t'" and "distinct (ht_keys t')" and "ht_map t' = (ht_map t)(key \<mapsto> item)" by simp_all
qed

lemma init_ok: "ht_ok (ten_hashtable_init t)" "app_list (ten_hashtable_init t) = []"
  "ht_room (ten_hashtable_init t)"
proof -
  have "ht_shape (ten_hashtable_init t) 5" by (simp add: ht_shape_def ten_hashtable_init_def)
  moreover have "buckets_ok (bkts (ten_hashtable_init t)) []"
    by (simp add: buckets_ok_def bucket_ok_def ten_hashtable_init_def empty_bucket_def)
  ultimately show "ht_ok (ten_hashtable_init t)"
    by (auto simp: ht_ok_def ten_hashtable_init_def)
qed (simp_all add: ten_hashtable_init_def ht_room_def)

lemma init_ready: "ht_ready addr (ten_hashtable_init t)" "ht_map (ten_hashtable_init t) = Map.empty"
  by (simp_all add: init_ok ht_ready_def ht_keys_def ht_map_def)

section \<open>Properties\<close>

text \<open>
  C26: A table with distinct keys refines a map: replacing updates it, adding a new key
  extends it, and removing what a lookup found deletes the key, whatever the hash function
  collides on and however often the buckets are expanded.
\<close>

theorem hashtable_refines_map:
  assumes "ht_ready addr t"
  shows "(let t' = ten_hashtable_replace_by_key addr key item t in
      ht_ok t' \<and> distinct (ht_keys t') \<and> ht_lookup t' = (ht_lookup t)(key \<mapsto> item)) \<and>
    (ht_lookup t key = None \<longrightarrow>
      (let t' = ten_hashtable_add_by_key addr key item t in
        ht_ok t' \<and> distinct (ht_keys t') \<and> ht_lookup t' = (ht_lookup t)(key \<mapsto> item))) \<and>
    (\<forall>hh. ten_hashtable_find_by_key t key = Some hh \<longrightarrow>
      (let t' = ten_hashtable_del hh t in
        ht_ok t' \<and> distinct (ht_keys t') \<and> ht_lookup t' = (ht_lookup t)(key := None)))"
proof -
  from assms have t: "ht_ok t" "ht_room t" "addr \<notin> hh_addr ` set (app_list t)" "distinct (ht_keys t)"
    by (simp_all add: ht_ready_def)
  note look = lookup_map [OF t(1,4)]
  have replace: "let t' = ten_hashtable_replace_by_key addr key item t in
      ht_ok t' \<and> distinct (ht_keys t') \<and> ht_lookup t' = (ht_lookup t)(key \<mapsto> item)"
    using replace_map [OF assms, of key item] lookup_map [OF replace_map(1,2) [OF assms], of key item] look
    by (simp add: Let_def)
  have add: "let t' = ten_hashtable_add_by_key addr key item t in
      ht_ok t' \<and> distinct (ht_keys t') \<and> ht_lookup t' = (ht_lookup t)(key \<mapsto> item)"
    if "ht_lookup t key = None"
  proof -
    have none: "ht_map t key = None" using that look by simp
    note added = add_by_key_ok(1) [OF t(1-3), of key item] add_map [OF t none, of item]
    show ?thesis using added lookup_map [OF added(1,2)] look by (simp add: Let_def)
  qed
  have del: "let t' = ten_hashtable_del hh t in
      ht_ok t' \<and> distinct (ht_keys t') \<and> ht_lookup t' = (ht_lookup t)(key := None)"
    if "ten_hashtable_find_by_key t key = Some hh" for hh
  proof -
    have hh: "hh \<in> set (app_list t)" "hh_key hh = key" using find_by_key_in [OF t(1) that] by simp_all
    note deleted = del_ok(1) [OF t(1) hh(1)] del_map [OF t(1,4) hh(1)]
    show ?thesis using deleted lookup_map [OF deleted(1,2)] look hh(2) by (simp add: Let_def)
  qed
  show ?thesis using replace add del by blast
qed

theorem hashtable_refines_map_witness:
  "ht_lookup (ten_hashtable_replace_by_key 0 (string_key ''k'') (7::nat) ten_hashtable_create)
     (string_key ''k'') = Some 7 \<and>
   ht_lookup (ten_hashtable_replace_by_key 0 (string_key ''k'') (7::nat) ten_hashtable_create)
     (string_key ''l'') = None"
proof -
  have "string_key ''k'' \<noteq> string_key ''l''" by (simp add: string_key_def)
  moreover have "ht_lookup (ten_hashtable_create :: nat ten_hashtable) = Map.empty"
    unfolding ten_hashtable_create_def
    by (subst lookup_map) (simp_all add: init_ok init_ready ht_keys_def)
  ultimately show ?thesis
    using hashtable_refines_map [of 0 ten_hashtable_create "string_key ''k''" "7::nat",
        unfolded ten_hashtable_create_def, OF init_ready(1)]
    by (simp add: Let_def ten_hashtable_create_def fun_eq_iff)
qed


section \<open>Keys that are added twice\<close>

definition add_same :: "bytes \<Rightarrow> (nat \<Rightarrow> 'v) \<Rightarrow> nat \<Rightarrow> 'v ten_hashtable" where
  "add_same key f n = fold (\<lambda>i. ten_hashtable_add_by_key i key (f i)) [0..<n] ten_hashtable_create"

abbreviation same_handles :: "bytes \<Rightarrow> (nat \<Rightarrow> 'v) \<Rightarrow> nat \<Rightarrow> 'v ten_hashhandle list" where
  "same_handles key f n \<equiv> map (\<lambda>i. ten_hashhandle_init i key (f i)) [0..<n]"

lemma same_hash [simp]:
  "hh_hashval (ten_hashhandle_init i key v) = ten_hash_function key (of_nat (length key))"
  "hh_keylen (ten_hashhandle_init i key v) = of_nat (length key)"
  by (simp_all add: ten_hashhandle_init_def)

text \<open>All items in one bucket.\<close>

definition one_bucket :: "bytes \<Rightarrow> 'v ten_hashhandle list \<Rightarrow> 'v ten_hashtable" where
  "one_bucket key hs =
     ten_hashtable_create
       \<lparr>items_cnt := of_nat (length hs), app_list := rev hs,
        bkts := (replicate 32 empty_bucket)
          [unat (ten_hash_function key (of_nat (length key))) mod 32 :=
             \<lparr>bkt_items = hs, bkt_items_cnt = of_nat (length hs), expand_mult = 0\<rparr>]\<rparr>"

lemma one_bucket_shape: "ht_shape (one_bucket key hs) 5"
  by (simp add: ht_shape_def one_bucket_def ten_hashtable_create_def ten_hashtable_init_def)

lemma one_bucket_nth:
  "bkts (one_bucket key hs) ! (unat (ten_hash_function key (of_nat (length key))) mod 32) =
     \<lparr>bkt_items = hs, bkt_items_cnt = of_nat (length hs), expand_mult = 0\<rparr>"
  by (simp add: one_bucket_def)

lemma one_bucket_concat: "concat (map bkt_items (bkts (one_bucket key hs))) = hs"
proof -
  have "concat (map bkt_items ((replicate n empty_bucket)[i := b])) = bkt_items b"
    if "i < n" for i n and b :: "'a ten_hashbucket"
    using that
  proof (induction n arbitrary: i)
    case (Suc n)
    have "concat (map bkt_items (replicate m empty_bucket)) = []" for m
      by (induction m) (simp_all add: empty_bucket_def)
    with Suc show ?case by (cases i) (simp_all add: empty_bucket_def)
  qed simp
  then show ?thesis by (simp add: one_bucket_def)
qed

text \<open>One more item, before the expansion of the table if there is one.\<close>

lemma add_one_bucket:
  fixes v :: 'v and key :: bytes
  defines "hh \<equiv> \<lambda>i. ten_hashhandle_init i key v"
  assumes "length hs < 10"
  shows "ten_hashtable_add_by_key i key v (one_bucket key hs) =
    (if length hs = 9
     then (ten_hashtable_expand_bkts ((one_bucket key (hh i # hs))\<lparr>app_list := rev hs\<rparr>))
            \<lparr>app_list := rev hs @ [hh i]\<rparr>
     else one_bucket key (hh i # hs))"
proof -
  let ?h = "ten_hash_function key (of_nat (length key))" and ?b = "one_bucket key hs"
  have idx: "ten_hash_get_bucket_idx ?h (bkts_cnt ?b) = unat ?h mod 32"
    using bucket_idx_mod [of ?h 5]
    by (simp add: one_bucket_def ten_hashtable_create_def ten_hashtable_init_def)
  have put: "?b\<lparr>items_cnt := items_cnt ?b + 1,
      bkts := (bkts ?b)[unat ?h mod 32 :=
        (bkts ?b ! (unat ?h mod 32))\<lparr>bkt_items_cnt := bkt_items_cnt (bkts ?b ! (unat ?h mod 32)) + 1,
          bkt_items := hh i # bkt_items (bkts ?b ! (unat ?h mod 32))\<rparr>]\<rparr> =
    (one_bucket key (hh i # hs))\<lparr>app_list := rev hs\<rparr>"
    by (simp add: one_bucket_nth)
       (simp add: one_bucket_def ten_hashtable_create_def ten_hashtable_init_def
          zeroed_hashtable_def add.commute)
  have large: "10 \<le> (of_nat (length hs) :: 32 word) + 1 \<longleftrightarrow> length hs = 9"
  proof -
    have "unat ((of_nat (length hs) :: 32 word) + 1) = length hs + 1"
      using assms(2) by (simp add: unat_word_ariths(1) unsigned_of_nat take_bit_nat_eq_self)
    then show ?thesis using assms(2) by (auto simp: word_le_nat_alt)
  qed
  have noexp: "\<not> noexpand ?b"
    by (simp add: one_bucket_def ten_hashtable_create_def ten_hashtable_init_def zeroed_hashtable_def)
  have apps: "app_list (ten_hashtable_expand_bkts u) = app_list u" for u :: "'v ten_hashtable"
    by (simp add: ten_hashtable_expand_bkts_def Let_def split_def)
  show ?thesis
    unfolding ten_hashtable_add_by_key_def Let_def ten_hashtable_add_by_hash_val_def
      ten_hashbucket_add_def ten_hashtable_add_to_app_list_def same_hash idx
    using put large noexp
    by (simp add: one_bucket_nth hh_def apps)
       (simp add: one_bucket_def ten_hashtable_create_def ten_hashtable_init_def
          zeroed_hashtable_def add.commute)
qed

lemma replicate_update [simp]: "(replicate n x)[i := x] = replicate n x"
  by (induction n arbitrary: i) (auto split: nat.split)

lemma add_same_few: "n < 10 \<Longrightarrow> add_same key f n = one_bucket key (rev (same_handles key f n))"
proof (induction n)
  case 0
  show ?case
    by (simp add: add_same_def one_bucket_def empty_bucket_def ten_hashtable_create_def
          ten_hashtable_init_def zeroed_hashtable_def)
next
  case (Suc n)
  have "add_same key f (Suc n) = ten_hashtable_add_by_key n key (f n) (add_same key f n)"
    by (simp add: add_same_def)
  with Suc show ?case by (simp add: add_one_bucket)
qed

lemma lookup_one_bucket:
  assumes "\<forall>hh \<in> set (hh # hs). hh_key hh = key \<and> handle_ok hh"
  shows "ht_lookup (one_bucket key (hh # hs)) key = Some (hh_item hh)"
proof -
  let ?h = "ten_hash_function key (of_nat (length key))"
  have "ten_hash_get_bucket_idx ?h (bkts_cnt (one_bucket key (hh # hs))) = unat ?h mod 32"
    using bucket_idx_mod [of ?h 5]
    by (simp add: one_bucket_def ten_hashtable_create_def ten_hashtable_init_def)
  then show ?thesis
    using assms
    by (simp add: ht_lookup_def ten_hashtable_find_by_key_def ten_hashtable_find_def
          ten_hashbucket_find_def one_bucket_nth handle_ok_def)
qed

text \<open>
  A key that is added again hides the older items, until the tenth item of the bucket
  expands the table: then the lookup finds the first item that was added.
\<close>

lemma hashtable_duplicates_flip:
  "(\<forall>n < 9. ht_lookup (add_same key f (Suc n)) key = Some (f n)) \<and>
   ht_lookup (add_same key f 10) key = Some (f 0)"
proof (intro conjI allI impI)
  fix n :: nat
  assume "n < 9"
  then show "ht_lookup (add_same key f (Suc n)) key = Some (f n)"
    by (simp add: add_same_few lookup_one_bucket)
next
  let ?hs = "rev (same_handles key f 10)" and ?h = "ten_hash_function key (of_nat (length key))"
  let ?u = "(one_bucket key ?hs)\<lparr>app_list := rev (rev (same_handles key f 9))\<rparr>"
  let ?t = "ten_hashtable_expand_bkts ?u"
  have ten: "[0..<10] = [0..<9] @ [9::nat]" by (simp add: upt_rec)
  have "add_same key f 10 = ten_hashtable_add_by_key 9 key (f 9) (add_same key f 9)"
    unfolding add_same_def ten by simp
  also have "\<dots> = ?t\<lparr>app_list := same_handles key f 10\<rparr>"
    unfolding add_same_few [of 9, simplified] ten by (subst add_one_bucket) simp_all
  finally have add: "add_same key f 10 = ?t\<lparr>app_list := same_handles key f 10\<rparr>" .
  have shape: "ht_shape ?u 5" using one_bucket_shape [of key ?hs] by (simp add: ht_shape_def)
  note facts = expand_facts [OF shape]
  have t: "ht_shape ?t 6" using facts(1) by simp
  have idx: "ten_hash_get_bucket_idx ?h (bkts_cnt (add_same key f 10)) = unat ?h mod 64"
    using bucket_idx_mod [of ?h 6] t by (simp add: add ht_shape_def)
  have "bkt_items (bkts ?t ! (unat ?h mod 64)) =
      rev (filter (\<lambda>hh. bucket_of 64 hh = unat ?h mod 64) (concat (map bkt_items (bkts ?u))))"
    using facts(4) [of "unat ?h mod 64"] by simp
  also have "concat (map bkt_items (bkts ?u)) = ?hs" using one_bucket_concat [of key ?hs] by simp
  also have "filter (\<lambda>hh. bucket_of 64 hh = unat ?h mod 64) ?hs = ?hs"
    by (auto simp: bucket_of_def intro!: filter_True)
  finally have "bkt_items (bkts ?t ! (unat ?h mod 64)) = same_handles key f 10" by simp
  then show "ht_lookup (add_same key f 10) key = Some (f 0)"
    unfolding ht_lookup_def ten_hashtable_find_by_key_def ten_hashtable_find_def idx
    by (simp add: ten_hashbucket_find_def add upt_rec)
qed

end
