(* ===== verification/Schema_Store.thy ===== *)
theory Schema_Store
  imports Schema_Value Hashtable_Map Ten_Msg
begin

text \<open>
  The schemas of an extension (core/src/ten_runtime/schema_store/): loading them from the
  \<open>api\<close> section of a manifest, and checking properties and messages against them
  (core/src/ten_runtime/msg/msg.c, msg/cmd_base/cmd_result/cmd.c).

  The schemas of messages are in hash tables under the names of the messages. The address of
  an item is its position, as items are never removed. A value that is no object where one is
  needed leaves an uninitialised schema, which is the outer \<open>None\<close>. The resolution of the
  references in an interface (in Rust), the parser and the printer of JSON are parameters.
\<close>

section \<open>Schemas of messages\<close>

text \<open>
  The schema of a command starts with the schema of a message, so one table holds pointers
  to the first.
\<close>

record ten_msg_schema =
  schema_msg_name :: string
  schema_property :: "ten_schema option"

record ten_cmd_schema = ten_msg_schema +
  cmd_result_schema :: "ten_schema option"

datatype stored_schema = Msg_schema ten_msg_schema | Cmd_schema ten_cmd_schema

fun stored_name :: "stored_schema \<Rightarrow> string" where
  "stored_name (Msg_schema s) = schema_msg_name s"
| "stored_name (Cmd_schema s) = schema_msg_name s"

fun stored_property :: "stored_schema \<Rightarrow> ten_schema option" where
  "stored_property (Msg_schema s) = schema_property s"
| "stored_property (Cmd_schema s) = schema_property s"

definition ten_schemas_parse_schema_object_for_property ::
  "ten_value \<Rightarrow> ten_schema option option"
where
  "ten_schemas_parse_schema_object_for_property content =
     (if \<not> ten_value_is_object content then Some None
      else case ten_value_object_peek content ''property'' of
             None \<Rightarrow> Some None
           | Some property \<Rightarrow>
               ten_schema_create_from_value
                 (ten_value_init_object_with_move (Some
                   ([ten_value_kv_create ''type'' (ten_value_create_string ''object''),
                     ten_value_kv_create ''properties'' property] @
                    (case ten_value_object_peek content ''required'' of
                       Some required \<Rightarrow> [ten_value_kv_create ''required'' required]
                     | None \<Rightarrow> [])))))"

definition schema_name_of :: "ten_value \<Rightarrow> string" where
  "schema_name_of v =
     (case ten_value_object_peek_string v ''name'' of Some n \<Rightarrow> n | None \<Rightarrow> ''ten:empty'')"

definition ten_msg_schema_init :: "ten_value \<Rightarrow> ten_msg_schema option" where
  "ten_msg_schema_init v =
     (if \<not> ten_value_is_object v then None
      else map_option
             (\<lambda>property. \<lparr>schema_msg_name = schema_name_of v, schema_property = property\<rparr>)
             (ten_schemas_parse_schema_object_for_property v))"

definition ten_cmd_schema_create :: "ten_value \<Rightarrow> ten_cmd_schema option option" where
  "ten_cmd_schema_create v =
     (if \<not> ten_value_is_object v then Some None
      else case ten_msg_schema_init v of
             None \<Rightarrow> None
           | Some hdr \<Rightarrow>
               let self = ten_msg_schema.extend hdr (ten_cmd_schema.fields None) in
               (case ten_value_object_peek v ''result'' of
                  None \<Rightarrow> Some (Some self)
                | Some res \<Rightarrow>
                    if \<not> ten_value_is_object res then Some None
                    else map_option (\<lambda>s. Some (self\<lparr>cmd_result_schema := s\<rparr>))
                           (ten_schemas_parse_schema_object_for_property res)))"

section \<open>Interfaces\<close>

record ten_interface_schema =
  iface_name :: string
  iface_cmd :: "stored_schema list"
  iface_data :: "stored_schema list"
  iface_video_frame :: "stored_schema list"
  iface_audio_frame :: "stored_schema list"

definition ten_interface_schema_init :: ten_interface_schema where
  "ten_interface_schema_init =
     \<lparr>iface_name = [], iface_cmd = [], iface_data = [], iface_video_frame = [],
      iface_audio_frame = []\<rparr>"

text \<open>The loop over an array does not look at the type; an empty object has an empty list too.\<close>

definition ten_value_array_foreach :: "ten_value \<Rightarrow> ten_value list option" where
  "ten_value_array_foreach v =
     (case v of VArray vs \<Rightarrow> Some vs | VObject [] \<Rightarrow> Some [] | _ \<Rightarrow> None)"

text \<open>A command that gives no schema puts NULL into the list.\<close>

fun interface_cmds :: "ten_value list \<Rightarrow> stored_schema list \<Rightarrow> stored_schema list option" where
  "interface_cmds [] acc = Some acc"
| "interface_cmds (v # vs) acc =
     (if \<not> ten_value_is_object v then Some acc
      else case ten_cmd_schema_create v of
             Some (Some s) \<Rightarrow> interface_cmds vs (acc @ [Cmd_schema s])
           | _ \<Rightarrow> None)"

fun interface_msgs :: "ten_value list \<Rightarrow> stored_schema list \<Rightarrow> stored_schema list option" where
  "interface_msgs [] acc = Some acc"
| "interface_msgs (v # vs) acc =
     (if \<not> ten_value_is_object v then Some acc
      else case ten_msg_schema_init v of
             Some s \<Rightarrow> interface_msgs vs (acc @ [Msg_schema s])
           | None \<Rightarrow> None)"

definition ten_interface_schema_parse_cmd_part ::
  "ten_value \<Rightarrow> stored_schema list \<Rightarrow> stored_schema list option"
where
  "ten_interface_schema_parse_cmd_part v acc =
     (if \<not> ten_value_is_array v then Some acc
      else case ten_value_array_foreach v of
             None \<Rightarrow> None
           | Some vs \<Rightarrow> interface_cmds vs acc)"

text \<open>The test of the type is the wrong way around in the code.\<close>

definition ten_interface_schema_parse_msg_part ::
  "ten_value \<Rightarrow> stored_schema list \<Rightarrow> stored_schema list option"
where
  "ten_interface_schema_parse_msg_part v acc =
     (if ten_value_is_array v then Some acc
      else case ten_value_array_foreach v of
             None \<Rightarrow> None
           | Some vs \<Rightarrow> interface_msgs vs acc)"

abbreviation optional_part ::
  "(ten_value \<Rightarrow> stored_schema list \<Rightarrow> stored_schema list option) \<Rightarrow> ten_value \<Rightarrow> string \<Rightarrow>
   stored_schema list \<Rightarrow> stored_schema list option"
where
  "optional_part parse def key acc \<equiv>
     (case ten_value_object_peek def key of None \<Rightarrow> Some acc | Some v \<Rightarrow> parse v acc)"

text \<open>A missing name is printed from NULL.\<close>

definition ten_interface_schema_set_definition ::
  "ten_interface_schema \<Rightarrow> ten_value \<Rightarrow> ten_interface_schema option"
where
  "ten_interface_schema_set_definition self def =
     (if \<not> ten_value_is_object def then Some self
      else case (ten_value_object_peek_string def ''name'',
                 optional_part ten_interface_schema_parse_cmd_part def ''cmd'' (iface_cmd self),
                 optional_part ten_interface_schema_parse_msg_part def ''data'' (iface_data self),
                 optional_part ten_interface_schema_parse_msg_part def ''video_frame''
                   (iface_video_frame self),
                 optional_part ten_interface_schema_parse_msg_part def ''audio_frame''
                   (iface_audio_frame self)) of
             (Some n, Some c, Some d, Some v, Some a) \<Rightarrow>
               Some \<lparr>iface_name = n, iface_cmd = c, iface_data = d, iface_video_frame = v,
                     iface_audio_frame = a\<rparr>
           | _ \<Rightarrow> None)"

definition ten_interface_schema_create :: "ten_value \<Rightarrow> ten_interface_schema option" where
  "ten_interface_schema_create def =
     ten_interface_schema_set_definition ten_interface_schema_init def"

definition ten_interface_schema_info_resolve ::
  "(json \<Rightarrow> string) \<Rightarrow> (string \<Rightarrow> string + json) \<Rightarrow> (string \<Rightarrow> string \<Rightarrow> string + string) \<Rightarrow>
   ten_value \<Rightarrow> string \<Rightarrow> ten_error \<Rightarrow> ten_value option \<times> ten_error"
where
  "ten_interface_schema_info_resolve json_dumps json_loads resolve_definition def base_dir err =
     (if \<not> ten_value_is_array def then
        (None, ten_error_set err TEN_ERRNO_GENERIC ''The interface schema should be an array.'')
      else
        case resolve_definition
               (case ten_value_to_json def of Some j \<Rightarrow> json_dumps j | None \<Rightarrow> []) base_dir of
          Inl txt \<Rightarrow> (None, ten_error_set err TEN_ERRNO_GENERIC (c_format0 txt))
        | Inr resolved \<Rightarrow>
            (case ten_json_from_string json_loads resolved err of
               (None, err') \<Rightarrow> (None, err')
             | (Some j, err') \<Rightarrow> (Some (ten_value_from_json j), err')))"

section \<open>The store\<close>

type_synonym schema_table = "stored_schema ten_hashtable"

record ten_schema_store =
  store_property :: "ten_schema option"
  cmd_in :: schema_table
  cmd_out :: schema_table
  data_in :: schema_table
  data_out :: schema_table
  video_frame_in :: schema_table
  video_frame_out :: schema_table
  audio_frame_in :: schema_table
  audio_frame_out :: schema_table
  interface_in :: "ten_interface_schema ten_hashtable"
  interface_out :: "ten_interface_schema ten_hashtable"

definition ten_schema_store_init :: "ten_schema_store \<Rightarrow> ten_schema_store" where
  "ten_schema_store_init s =
     \<lparr>store_property = None,
      cmd_in = ten_hashtable_init (cmd_in s), cmd_out = ten_hashtable_init (cmd_out s),
      data_in = ten_hashtable_init (data_in s), data_out = ten_hashtable_init (data_out s),
      video_frame_in = ten_hashtable_init (video_frame_in s),
      video_frame_out = ten_hashtable_init (video_frame_out s),
      audio_frame_in = ten_hashtable_init (audio_frame_in s),
      audio_frame_out = ten_hashtable_init (audio_frame_out s),
      interface_in = ten_hashtable_init (interface_in s),
      interface_out = ten_hashtable_init (interface_out s)\<rparr>"

definition add_schema :: "stored_schema \<Rightarrow> schema_table \<Rightarrow> schema_table" where
  "add_schema s t = ten_hashtable_add_string (length (app_list t)) (stored_name s) s t"

text \<open>The loops stop at the first entry without a schema.\<close>

fun parse_cmds :: "ten_value list \<Rightarrow> schema_table \<Rightarrow> schema_table option" where
  "parse_cmds [] t = Some t"
| "parse_cmds (v # vs) t =
     (case ten_cmd_schema_create v of
        None \<Rightarrow> None
      | Some None \<Rightarrow> Some t
      | Some (Some s) \<Rightarrow> parse_cmds vs (add_schema (Cmd_schema s) t))"

fun parse_msgs :: "ten_value list \<Rightarrow> schema_table \<Rightarrow> schema_table option" where
  "parse_msgs [] t = Some t"
| "parse_msgs (v # vs) t =
     (case ten_msg_schema_init v of
        None \<Rightarrow> None
      | Some s \<Rightarrow> parse_msgs vs (add_schema (Msg_schema s) t))"

definition ten_schemas_parse_cmd_part :: "ten_value \<Rightarrow> schema_table \<Rightarrow> schema_table option" where
  "ten_schemas_parse_cmd_part v t = (case v of VArray vs \<Rightarrow> parse_cmds vs t | _ \<Rightarrow> Some t)"

definition ten_schemas_parse_msg_part :: "ten_value \<Rightarrow> schema_table \<Rightarrow> schema_table option" where
  "ten_schemas_parse_msg_part v t = (case v of VArray vs \<Rightarrow> parse_msgs vs t | _ \<Rightarrow> Some t)"

text \<open>A part of the definition that is missing leaves its table as it is.\<close>

definition parse_part ::
  "(ten_value \<Rightarrow> schema_table \<Rightarrow> schema_table option) \<Rightarrow> ten_value \<Rightarrow> string \<Rightarrow> schema_table \<Rightarrow>
   schema_table option"
where
  "parse_part parse def key t =
     (case ten_value_object_peek def key of None \<Rightarrow> Some t | Some v \<Rightarrow> parse v t)"

definition ten_schema_store_set_schema_definition ::
  "ten_schema_store \<Rightarrow> ten_value \<Rightarrow> ten_error \<Rightarrow> (bool \<times> ten_schema_store \<times> ten_error) option"
where
  "ten_schema_store_set_schema_definition self def err =
     (if \<not> ten_value_is_object def then
        Some (False, self, ten_error_set err TEN_ERRNO_GENERIC ''The schema should be an object.'')
      else if ten_value_object_peek def ''required'' \<noteq> None then
        Some (False, self, ten_error_set err TEN_ERRNO_GENERIC
          ''The schema keyword [required] is only supported in the msg schema.'')
      else
        case (case ten_value_object_peek def ''property'' of
                None \<Rightarrow> Some (Some (store_property self))
              | Some p \<Rightarrow>
                  if \<not> ten_value_is_object p then Some None
                  else map_option Some (ten_schemas_parse_schema_object_for_property def)) of
          None \<Rightarrow> None
        | Some None \<Rightarrow>
            Some (False, self, ten_error_set err TEN_ERRNO_GENERIC
              ''The schema [property] should be an object.'')
        | Some (Some property) \<Rightarrow>
            (case (parse_part ten_schemas_parse_cmd_part def ''cmd_in'' (cmd_in self),
                   parse_part ten_schemas_parse_cmd_part def ''cmd_out'' (cmd_out self),
                   parse_part ten_schemas_parse_msg_part def ''data_in'' (data_in self),
                   parse_part ten_schemas_parse_msg_part def ''data_out'' (data_out self),
                   parse_part ten_schemas_parse_msg_part def ''video_frame_in'' (video_frame_in self),
                   parse_part ten_schemas_parse_msg_part def ''video_frame_out'' (video_frame_out self),
                   parse_part ten_schemas_parse_msg_part def ''audio_frame_in'' (audio_frame_in self),
                   parse_part ten_schemas_parse_msg_part def ''audio_frame_out'' (audio_frame_out self))
             of (Some ci, Some co, Some di, Some do, Some vi, Some vo, Some ai, Some ao) \<Rightarrow>
                  Some (True,
                    \<lparr>store_property = property, cmd_in = ci, cmd_out = co, data_in = di,
                     data_out = do, video_frame_in = vi, video_frame_out = vo,
                     audio_frame_in = ai, audio_frame_out = ao,
                     interface_in = interface_in self, interface_out = interface_out self\<rparr>,
                    err)
              | _ \<Rightarrow> None))"

definition ten_schema_store_get_msg_schema ::
  "ten_schema_store \<Rightarrow> TEN_MSG_TYPE \<Rightarrow> string \<Rightarrow> bool \<Rightarrow> stored_schema option"
where
  "ten_schema_store_get_msg_schema self ty name is_msg_out =
     (case (case ty of
              TEN_MSG_TYPE_DATA \<Rightarrow> Some (if is_msg_out then data_out self else data_in self)
            | TEN_MSG_TYPE_VIDEO_FRAME \<Rightarrow>
                Some (if is_msg_out then video_frame_out self else video_frame_in self)
            | TEN_MSG_TYPE_AUDIO_FRAME \<Rightarrow>
                Some (if is_msg_out then audio_frame_out self else audio_frame_in self)
            | TEN_MSG_TYPE_CMD \<Rightarrow> Some (if is_msg_out then cmd_out self else cmd_in self)
            | TEN_MSG_TYPE_CMD_RESULT \<Rightarrow> Some (if is_msg_out then cmd_out self else cmd_in self)
            | _ \<Rightarrow> None) of
        None \<Rightarrow> None
      | Some schema_map \<Rightarrow>
          map_option hh_item
            (ten_hashtable_find_string schema_map (if name = [] then ''ten:empty'' else name)))"

text \<open>
  The schemas of the interfaces are merged into those of the messages, one by one; those
  before a duplicate stay.
\<close>

fun merge_schemas ::
  "stored_schema list \<Rightarrow> schema_table \<Rightarrow> ten_error \<Rightarrow> bool \<times> schema_table \<times> ten_error"
where
  "merge_schemas [] t err = (True, t, err)"
| "merge_schemas (s # ss) t err =
     (if ten_hashtable_find_string t (stored_name s) \<noteq> None
      then (False, t, ten_error_set err TEN_ERRNO_GENERIC
             (''Schema for '' @ stored_name s @ '' is duplicated.''))
      else merge_schemas ss (add_schema s t) err)"

definition ten_interface_schema_merge_into_msg_schema ::
  "ten_interface_schema \<Rightarrow> TEN_MSG_TYPE \<Rightarrow> schema_table \<Rightarrow> ten_error \<Rightarrow>
   bool \<times> schema_table \<times> ten_error"
where
  "ten_interface_schema_merge_into_msg_schema self ty t err =
     (case ty of
        TEN_MSG_TYPE_CMD \<Rightarrow> merge_schemas (iface_cmd self) t err
      | TEN_MSG_TYPE_DATA \<Rightarrow> merge_schemas (iface_data self) t err
      | TEN_MSG_TYPE_VIDEO_FRAME \<Rightarrow> merge_schemas (iface_video_frame self) t err
      | TEN_MSG_TYPE_AUDIO_FRAME \<Rightarrow> merge_schemas (iface_audio_frame self) t err
      | _ \<Rightarrow> (True, t, err))"

abbreviation msg_tables :: "bool \<Rightarrow> ten_schema_store \<Rightarrow>
   schema_table \<times> schema_table \<times> schema_table \<times> schema_table"
where
  "msg_tables is_msg_out s \<equiv>
     (if is_msg_out then (cmd_out s, data_out s, video_frame_out s, audio_frame_out s)
      else (cmd_in s, data_in s, video_frame_in s, audio_frame_in s))"

abbreviation set_msg_tables ::
  "bool \<Rightarrow> schema_table \<times> schema_table \<times> schema_table \<times> schema_table \<Rightarrow> ten_schema_store \<Rightarrow>
   ten_schema_store"
where
  "set_msg_tables is_msg_out ts s \<equiv>
     (case ts of (c, d, v, a) \<Rightarrow>
        if is_msg_out
        then s\<lparr>cmd_out := c, data_out := d, video_frame_out := v, audio_frame_out := a\<rparr>
        else s\<lparr>cmd_in := c, data_in := d, video_frame_in := v, audio_frame_in := a\<rparr>)"

text \<open>The kinds are merged in turn, up to the first failure.\<close>

definition merge_interface ::
  "ten_interface_schema \<Rightarrow> schema_table \<times> schema_table \<times> schema_table \<times> schema_table \<Rightarrow> ten_error \<Rightarrow>
   bool \<times> (schema_table \<times> schema_table \<times> schema_table \<times> schema_table) \<times> ten_error"
where
  "merge_interface i ts err =
     (case ts of (c, d, v, a) \<Rightarrow>
        case ten_interface_schema_merge_into_msg_schema i TEN_MSG_TYPE_CMD c err of
          (False, c', err1) \<Rightarrow> (False, (c', d, v, a), err1)
        | (True, c', err1) \<Rightarrow>
            (case ten_interface_schema_merge_into_msg_schema i TEN_MSG_TYPE_DATA d err1 of
               (False, d', err2) \<Rightarrow> (False, (c', d', v, a), err2)
             | (True, d', err2) \<Rightarrow>
                 (case ten_interface_schema_merge_into_msg_schema i TEN_MSG_TYPE_VIDEO_FRAME v err2 of
                    (False, v', err3) \<Rightarrow> (False, (c', d', v', a), err3)
                  | (True, v', err3) \<Rightarrow>
                      (case ten_interface_schema_merge_into_msg_schema i TEN_MSG_TYPE_AUDIO_FRAME a err3 of
                         (r, a', err4) \<Rightarrow> (r, (c', d', v', a'), err4)))))"

fun merge_interfaces ::
  "ten_interface_schema list \<Rightarrow> schema_table \<times> schema_table \<times> schema_table \<times> schema_table \<Rightarrow>
   ten_error \<Rightarrow> bool \<times> (schema_table \<times> schema_table \<times> schema_table \<times> schema_table) \<times> ten_error"
where
  "merge_interfaces [] ts err = (True, ts, err)"
| "merge_interfaces (i # rest) ts err =
     (case merge_interface i ts err of
        (False, ts', err') \<Rightarrow> (False, ts', err')
      | (True, ts', err') \<Rightarrow> merge_interfaces rest ts' err')"

definition ten_schema_store_merge_interface_schemas_into_msg_schemas ::
  "ten_schema_store \<Rightarrow> bool \<Rightarrow> ten_interface_schema ten_hashtable \<Rightarrow> ten_error \<Rightarrow>
   bool \<times> ten_schema_store \<times> ten_error"
where
  "ten_schema_store_merge_interface_schemas_into_msg_schemas self is_msg_out interface_schemas err =
     (case merge_interfaces (map hh_item (app_list interface_schemas)) (msg_tables is_msg_out self) err of
        (r, ts, err') \<Rightarrow> (r, set_msg_tables is_msg_out ts self, err'))"

definition add_interface ::
  "ten_interface_schema \<Rightarrow> ten_interface_schema ten_hashtable \<Rightarrow> ten_interface_schema ten_hashtable"
where
  "add_interface i t = ten_hashtable_add_string (length (app_list t)) (iface_name i) i t"

fun add_interfaces ::
  "ten_value list \<Rightarrow> ten_interface_schema ten_hashtable \<Rightarrow> ten_interface_schema ten_hashtable option"
where
  "add_interfaces [] t = Some t"
| "add_interfaces (v # vs) t =
     (case ten_interface_schema_create v of
        None \<Rightarrow> None
      | Some i \<Rightarrow> add_interfaces vs (add_interface i t))"

text \<open>An interface that cannot be resolved is only logged; \<open>resolve\<close> is the resolution.\<close>

definition ten_schemas_parse_interface_part ::
  "(ten_value \<Rightarrow> string \<Rightarrow> ten_error \<Rightarrow> ten_value option \<times> ten_error) \<Rightarrow> ten_value \<Rightarrow> string \<Rightarrow>
   ten_interface_schema ten_hashtable \<Rightarrow> ten_interface_schema ten_hashtable option"
where
  "ten_schemas_parse_interface_part resolve v base_dir t =
     (if \<not> ten_value_is_array v then Some t
      else case fst (resolve v base_dir ten_error_init) of
             None \<Rightarrow> Some t
           | Some r \<Rightarrow>
               (case ten_value_array_foreach r of
                  None \<Rightarrow> None
                | Some vs \<Rightarrow> add_interfaces vs t))"

definition ten_schema_store_set_interface_schema_definition ::
  "(ten_value \<Rightarrow> string \<Rightarrow> ten_error \<Rightarrow> ten_value option \<times> ten_error) \<Rightarrow> ten_schema_store \<Rightarrow>
   ten_value \<Rightarrow> string \<Rightarrow> ten_error \<Rightarrow> (bool \<times> ten_schema_store \<times> ten_error) option"
where
  "ten_schema_store_set_interface_schema_definition resolve self def base_dir err =
     (if \<not> ten_value_is_object def then
        Some (False, self, ten_error_set err TEN_ERRNO_GENERIC
          ''The interface schema should be an object.'')
      else
        case (case ten_value_object_peek def ''interface_in'' of
                None \<Rightarrow> Some (True, self, err)
              | Some v \<Rightarrow>
                  map_option
                    (\<lambda>t. ten_schema_store_merge_interface_schemas_into_msg_schemas
                           (self\<lparr>interface_in := t\<rparr>) False t err)
                    (ten_schemas_parse_interface_part resolve v base_dir (interface_in self))) of
          None \<Rightarrow> None
        | Some (False, self1, err1) \<Rightarrow> Some (False, self1, err1)
        | Some (True, self1, err1) \<Rightarrow>
            (case ten_value_object_peek def ''interface_out'' of
               None \<Rightarrow> Some (True, self1, err1)
             | Some v \<Rightarrow>
                 map_option
                   (\<lambda>t. ten_schema_store_merge_interface_schemas_into_msg_schemas
                          (self1\<lparr>interface_out := t\<rparr>) True t err1)
                   (ten_schemas_parse_interface_part resolve v base_dir (interface_out self1))))"

text \<open>The names are appended to a list; False for an unknown interface or kind.\<close>

definition ten_schema_store_get_all_msg_names_in_interface_out ::
  "ten_schema_store \<Rightarrow> TEN_MSG_TYPE \<Rightarrow> string \<Rightarrow> string list \<Rightarrow> bool \<times> string list"
where
  "ten_schema_store_get_all_msg_names_in_interface_out self ty interface_name msg_names =
     (case ten_hashtable_find_string (interface_out self) interface_name of
        None \<Rightarrow> (False, msg_names)
      | Some hh \<Rightarrow>
          (case (case ty of
                   TEN_MSG_TYPE_CMD \<Rightarrow> Some (iface_cmd (hh_item hh))
                 | TEN_MSG_TYPE_DATA \<Rightarrow> Some (iface_data (hh_item hh))
                 | TEN_MSG_TYPE_VIDEO_FRAME \<Rightarrow> Some (iface_video_frame (hh_item hh))
                 | TEN_MSG_TYPE_AUDIO_FRAME \<Rightarrow> Some (iface_audio_frame (hh_item hh))
                 | _ \<Rightarrow> None) of
             None \<Rightarrow> (False, msg_names)
           | Some ss \<Rightarrow> (True, msg_names @ map stored_name ss)))"

section \<open>Checking\<close>

text \<open>Adjusting and validating against an optional schema; the value is an object that exists.\<close>

definition adjust_with ::
  "c_target \<Rightarrow> ten_schema option \<Rightarrow> ten_value \<Rightarrow> ten_error \<Rightarrow> bool \<times> ten_value \<times> ten_error"
where
  "adjust_with tg schema v err =
     (case schema of
        None \<Rightarrow> (True, v, err)
      | Some s \<Rightarrow>
          (case ten_schema_adjust_value_type tg s (Some v) err of
             (ok, v', err') \<Rightarrow> (ok, (case v' of Some x \<Rightarrow> x | None \<Rightarrow> v), err')))"

definition validate_with :: "ten_schema option \<Rightarrow> ten_value \<Rightarrow> ten_error \<Rightarrow> bool \<times> ten_error" where
  "validate_with schema v err =
     (case schema of None \<Rightarrow> (True, err) | Some s \<Rightarrow> ten_schema_validate_value s (Some v) err)"

definition ten_schema_store_adjust_properties ::
  "c_target \<Rightarrow> ten_schema_store \<Rightarrow> ten_value \<Rightarrow> ten_error \<Rightarrow> bool \<times> ten_value \<times> ten_error"
where
  "ten_schema_store_adjust_properties tg self v err = adjust_with tg (store_property self) v err"

definition ten_schema_store_validate_properties ::
  "ten_schema_store \<Rightarrow> ten_value \<Rightarrow> ten_error \<Rightarrow> bool \<times> ten_error"
where
  "ten_schema_store_validate_properties self v err = validate_with (store_property self) v err"

text \<open>
  A single property, against its schema in the schema of the store, which always has the
  keyword of the properties.
\<close>

definition ten_schema_object_peek_property_schema :: "ten_schema \<Rightarrow> string \<Rightarrow> ten_schema option" where
  "ten_schema_object_peek_property_schema self prop_name =
     (case self of Schema kws \<Rightarrow>
        (case ten_schema_peek_keyword_by_type kws TEN_SCHEMA_KEYWORD_PROPERTIES of
           Some (Kw_properties ps) \<Rightarrow> alist_peek prop_name ps
         | _ \<Rightarrow> None))"

definition property_kv_schema :: "ten_schema_store \<Rightarrow> string \<Rightarrow> ten_schema option" where
  "property_kv_schema self prop_name =
     (case store_property self of
        None \<Rightarrow> None
      | Some s \<Rightarrow> ten_schema_object_peek_property_schema s prop_name)"

definition ten_schema_store_validate_property_kv ::
  "ten_schema_store \<Rightarrow> string \<Rightarrow> ten_value \<Rightarrow> ten_error \<Rightarrow> bool \<times> ten_error"
where
  "ten_schema_store_validate_property_kv self prop_name v err =
     validate_with (property_kv_schema self prop_name) v err"

definition ten_schema_store_adjust_property_kv ::
  "c_target \<Rightarrow> ten_schema_store \<Rightarrow> string \<Rightarrow> ten_value \<Rightarrow> ten_error \<Rightarrow> bool \<times> ten_value \<times> ten_error"
where
  "ten_schema_store_adjust_property_kv tg self prop_name v err =
     adjust_with tg (property_kv_schema self prop_name) v err"

definition ten_msg_schema_adjust_properties ::
  "c_target \<Rightarrow> stored_schema \<Rightarrow> ten_value \<Rightarrow> ten_error \<Rightarrow> bool \<times> ten_value \<times> ten_error"
where
  "ten_msg_schema_adjust_properties tg self v err = adjust_with tg (stored_property self) v err"

definition ten_msg_schema_validate_properties ::
  "stored_schema \<Rightarrow> ten_value \<Rightarrow> ten_error \<Rightarrow> bool \<times> ten_error"
where
  "ten_msg_schema_validate_properties self v err = validate_with (stored_property self) v err"

definition ten_cmd_schema_adjust_cmd_result_properties ::
  "c_target \<Rightarrow> ten_cmd_schema \<Rightarrow> ten_value \<Rightarrow> ten_error \<Rightarrow> bool \<times> ten_value \<times> ten_error"
where
  "ten_cmd_schema_adjust_cmd_result_properties tg self v err =
     adjust_with tg (cmd_result_schema self) v err"

definition ten_cmd_schema_validate_cmd_result_properties ::
  "ten_cmd_schema \<Rightarrow> ten_value \<Rightarrow> ten_error \<Rightarrow> bool \<times> ten_error"
where
  "ten_cmd_schema_validate_cmd_result_properties self v err =
     validate_with (cmd_result_schema self) v err"

text \<open>The properties of a message are adjusted in place, also when the check then fails.\<close>

definition check_properties ::
  "(ten_value \<Rightarrow> ten_error \<Rightarrow> bool \<times> ten_value \<times> ten_error) \<Rightarrow>
   (ten_value \<Rightarrow> ten_error \<Rightarrow> bool \<times> ten_error) \<Rightarrow> 'a ten_msg_scheme \<Rightarrow> ten_error \<Rightarrow>
   bool \<times> 'a ten_msg_scheme \<times> ten_error"
where
  "check_properties adjust validate m err =
     (case adjust (properties m) err of
        (adjusted, v, err1) \<Rightarrow>
          if \<not> adjusted then (False, m\<lparr>properties := v\<rparr>, err1)
          else case validate v err1 of (valid, err2) \<Rightarrow> (valid, m\<lparr>properties := v\<rparr>, err2))"

definition ten_raw_msg_validate_schema ::
  "c_target \<Rightarrow> ten_schema_store \<Rightarrow> bool \<Rightarrow> 'a ten_msg_scheme \<Rightarrow> ten_error \<Rightarrow>
   bool \<times> 'a ten_msg_scheme \<times> ten_error"
where
  "ten_raw_msg_validate_schema tg store is_msg_out m err =
     (case ten_schema_store_get_msg_schema store (msg_type m) (msg_name m) is_msg_out of
        None \<Rightarrow> (True, m, err)
      | Some s \<Rightarrow>
          check_properties (ten_msg_schema_adjust_properties tg s)
            (ten_msg_schema_validate_properties s) m err)"

text \<open>
  The schema of a result belongs to the command in the other direction. Only schemas of
  commands are in the tables of commands.
\<close>

definition ten_raw_cmd_result_validate_schema ::
  "c_target \<Rightarrow> ten_schema_store \<Rightarrow> bool \<Rightarrow> ten_cmd_result \<Rightarrow> ten_error \<Rightarrow>
   bool \<times> ten_cmd_result \<times> ten_error"
where
  "ten_raw_cmd_result_validate_schema tg store is_msg_out m err =
     (case ten_schema_store_get_msg_schema store (msg_type m) (original_cmd_name m) (\<not> is_msg_out) of
        Some (Cmd_schema s) \<Rightarrow>
          check_properties (ten_cmd_schema_adjust_cmd_result_properties tg s)
            (ten_cmd_schema_validate_cmd_result_properties s) m err
      | _ \<Rightarrow> (True, m, err))"

end
