(* ===== verification/Store_Facts.thy ===== *)
theory Store_Facts
  imports Schema_Store Schema_Compat
begin

text \<open>
  What the schema store promises: its tables stay well-formed and hold the schemas of the
  definition under their names, and a message that passes its check conforms to the schema.

  Every insertion doubles the buckets at most once, so 26 schemas for each kind of message
  never reach the end of the 32-bit counters; this is the bound used for a definition.
\<close>

section \<open>Tables of schemas\<close>

lemma string_key_inj: "string_key a = string_key b \<longleftrightarrow> a = b"
proof -
  have "inj (\<lambda>c. of_nat (of_char c) :: 8 word)"
  proof (rule injI)
    fix c d :: char
    assume "(of_nat (of_char c) :: 8 word) = of_nat (of_char d)"
    then have "unat (of_nat (of_char c) :: 8 word) = unat (of_nat (of_char d) :: 8 word)" by simp
    moreover have "(of_char x :: nat) < 256" for x by (rule nat_of_char_less_256)
    ultimately have "(of_char c :: nat) = of_char d"
      by (simp add: unsigned_of_nat take_bit_nat_eq_self)
    then show "c = d" by (simp add: of_char_eq_iff)
  qed
  then have "inj (map (\<lambda>c. of_nat (of_char c) :: 8 word))" by simp
  then show ?thesis unfolding string_key_def by (simp add: inj_eq)
qed

lemma expand_log2: "bkts_cnt_in_log2 (ten_hashtable_expand_bkts t) = bkts_cnt_in_log2 t + 1"
  by (simp add: ten_hashtable_expand_bkts_def Let_def split: prod.splits)

lemma add_log2:
  "bkts_cnt_in_log2 (ten_hashtable_add_by_key addr key item t) \<in>
     {bkts_cnt_in_log2 t, bkts_cnt_in_log2 t + 1}"
  by (simp add: ten_hashtable_add_by_key_def ten_hashtable_add_by_hash_val_def
        ten_hashbucket_add_def ten_hashtable_add_to_app_list_def expand_log2 Let_def)

text \<open>The schemas of a table in the order of insertion.\<close>

definition stored_schemas :: "schema_table \<Rightarrow> stored_schema list" where
  "stored_schemas t = map hh_item (app_list t)"

fun stored_wf :: "stored_schema \<Rightarrow> bool" where
  "stored_wf (Msg_schema s) \<longleftrightarrow> (\<forall>x \<in> set_option (schema_property s). wf_schema x)"
| "stored_wf (Cmd_schema s) \<longleftrightarrow>
     (\<forall>x \<in> set_option (schema_property s) \<union> set_option (cmd_result_schema s). wf_schema x)"

definition schema_table_ok :: "schema_table \<Rightarrow> bool" where
  "schema_table_ok t \<longleftrightarrow>
     ht_ok t \<and> map hh_addr (app_list t) = [0..<length (app_list t)] \<and>
     (\<forall>hh \<in> set (app_list t).
        hh_key hh = string_key (stored_name (hh_item hh)) \<and> stored_wf (hh_item hh)) \<and>
     unat (bkts_cnt_in_log2 t) \<le> 5 + length (app_list t)"

lemma add_schema_ok:
  assumes ok: "schema_table_ok t" and few: "length (stored_schemas t) < 26" and wf: "stored_wf s"
  shows "schema_table_ok (add_schema s t)" and "stored_schemas (add_schema s t) = stored_schemas t @ [s]"
proof -
  let ?n = "length (app_list t)"
  have n: "?n < 26" using few by (simp add: stored_schemas_def)
  have ht: "ht_ok t" "unat (bkts_cnt_in_log2 t) \<le> 5 + ?n" "hh_addr ` set (app_list t) = {0..<?n}"
    using ok by (simp_all add: schema_table_ok_def flip: set_map)
  then have room: "ht_room t" using n by (simp add: ht_room_def)
  have fresh: "?n \<notin> hh_addr ` set (app_list t)" using ht(3) by simp
  note add = add_by_key_ok [OF ht(1) room fresh, of "string_key (stored_name s)" s]
  have "unat (bkts_cnt_in_log2 (add_schema s t)) \<le> Suc (unat (bkts_cnt_in_log2 t))"
    using add_log2 [of ?n "string_key (stored_name s)" s t] ht(2) n
    by (auto simp: add_schema_def ten_hashtable_add_string_def unat_word_ariths)
  then show "schema_table_ok (add_schema s t)"
    using ok add wf by (auto simp: schema_table_ok_def add_schema_def ten_hashtable_add_string_def)
  show "stored_schemas (add_schema s t) = stored_schemas t @ [s]"
    using add(2) by (simp add: stored_schemas_def add_schema_def ten_hashtable_add_string_def)
qed

lemma init_table_ok: "schema_table_ok (ten_hashtable_init t)" "stored_schemas (ten_hashtable_init t) = []"
  using init_ok [of t] by (simp_all add: schema_table_ok_def stored_schemas_def ten_hashtable_init_def)

text \<open>A table finds a schema by its name; of schemas with one name, one of them.\<close>

lemma find_schema:
  assumes "schema_table_ok t"
  shows "case ten_hashtable_find_string t name of
           None \<Rightarrow> name \<notin> stored_name ` set (stored_schemas t)
         | Some hh \<Rightarrow> hh_item hh \<in> set (stored_schemas t) \<and> stored_name (hh_item hh) = name \<and>
             stored_wf (hh_item hh)"
proof -
  have ok: "ht_ok t" using assms by (simp add: schema_table_ok_def)
  have keys: "hh_key hh = string_key (stored_name (hh_item hh))" "stored_wf (hh_item hh)"
    if "hh \<in> set (app_list t)" for hh
    using assms that by (simp_all add: schema_table_ok_def)
  show ?thesis
  proof (cases "ten_hashtable_find_by_key t (string_key name)")
    case None
    then have "hh_key hh \<noteq> string_key name" if "hh \<in> set (app_list t)" for hh
      using find_by_key_found [OF ok that, of "string_key name"] by blast
    then show ?thesis
      using None keys(1) by (auto simp: ten_hashtable_find_string_def stored_schemas_def)
  next
    case (Some hh)
    from find_by_key_in [OF ok Some] keys [of hh] Some show ?thesis
      by (simp add: ten_hashtable_find_string_def stored_schemas_def string_key_inj)
  qed
qed

lemma find_of_distinct:
  "distinct (map f xs) \<Longrightarrow> x \<in> set xs \<Longrightarrow> List.find (\<lambda>y. f y = f x) xs = Some x"
  by (induction xs) (auto simp: image_iff)

lemma find_distinct_schema:
  assumes "schema_table_ok t" and "distinct (map stored_name (stored_schemas t))"
  shows "map_option hh_item (ten_hashtable_find_string t name) =
         List.find (\<lambda>s. stored_name s = name) (stored_schemas t)"
proof (cases "ten_hashtable_find_string t name")
  case None
  with find_schema [OF assms(1), of name] show ?thesis
    by (auto simp: find_None_iff intro!: sym [of "List.find _ _"])
next
  case (Some hh)
  with find_schema [OF assms(1), of name] have hh: "hh_item hh \<in> set (stored_schemas t)"
    "stored_name (hh_item hh) = name" by simp_all
  from find_of_distinct [OF assms(2) hh(1)] hh(2) Some show ?thesis by simp
qed

section \<open>Loading a definition\<close>

lemma object_parts_wf:
  assumes "wf_value v" and "ten_value_object_peek v k = Some x"
  shows "wf_value x"
proof -
  obtain kvs where v: "v = VObject kvs" and "alist_peek k kvs = Some x"
    using assms(2) by (auto simp: ten_value_object_peek_def split: ten_value.splits)
  then have "(k, x) \<in> set kvs" by (simp add: peek_in_set)
  with assms(1) v show ?thesis by auto
qed

lemma parsed_schema_wf:
  assumes "wf_value v" and "ten_schemas_parse_schema_object_for_property v = Some (Some s)"
  shows "wf_schema s"
proof -
  obtain property where p: "ten_value_object_peek v ''property'' = Some property"
    using assms(2)
    by (auto simp: ten_schemas_parse_schema_object_for_property_def split: if_splits option.splits)
  have plain: "plain_key ''type''" "plain_key ''properties''" "plain_key ''required''"
    by (simp_all add: plain_key_def)
  have "wf_value property" by (rule object_parts_wf [OF assms(1) p])
  moreover have "wf_value r" if "ten_value_object_peek v ''required'' = Some r" for r
    by (rule object_parts_wf [OF assms(1) that])
  ultimately show ?thesis
    using assms(2) p plain
    by (auto simp: ten_schemas_parse_schema_object_for_property_def ten_value_create_string_def
          ten_value_init_object_with_move_def
          split: if_splits option.splits intro!: create_wf(1) [where s = s])
qed

text \<open>The schemas that the entries of a part describe, up to the first that describes none.\<close>

fun described_cmds :: "ten_value list \<Rightarrow> stored_schema list" where
  "described_cmds [] = []"
| "described_cmds (v # vs) =
     (case ten_cmd_schema_create v of
        Some (Some s) \<Rightarrow> Cmd_schema s # described_cmds vs
      | _ \<Rightarrow> [])"

fun described_msgs :: "ten_value list \<Rightarrow> stored_schema list" where
  "described_msgs [] = []"
| "described_msgs (v # vs) =
     (case ten_msg_schema_init v of
        Some s \<Rightarrow> Msg_schema s # described_msgs vs
      | None \<Rightarrow> [])"

lemma described_length: "length (described_cmds vs) \<le> length vs" "length (described_msgs vs) \<le> length vs"
  by (induction vs) (auto split: option.splits)

lemma created_msg_schema_wf:
  "wf_value v \<Longrightarrow> ten_msg_schema_init v = Some s \<Longrightarrow> stored_wf (Msg_schema s)"
  by (auto simp: ten_msg_schema_init_def split: if_splits option.splits intro: parsed_schema_wf)

lemma created_cmd_schema_wf:
  assumes "wf_value v" and "ten_cmd_schema_create v = Some (Some s)"
  shows "stored_wf (Cmd_schema s)"
proof -
  obtain hdr where hdr: "ten_msg_schema_init v = Some hdr"
    using assms(2) by (auto simp: ten_cmd_schema_create_def split: if_splits option.splits)
  have "wf_value res" if "ten_value_object_peek v ''result'' = Some res" for res
    by (rule object_parts_wf [OF assms(1) that])
  with created_msg_schema_wf [OF assms(1) hdr] assms(2) hdr show ?thesis
    by (auto simp: ten_cmd_schema_create_def Let_def ten_msg_schema.defs ten_cmd_schema.defs
          split: if_splits option.splits intro: parsed_schema_wf)
qed

lemma parse_cmds_ok:
  "parse_cmds vs t = Some t' \<Longrightarrow> schema_table_ok t \<Longrightarrow> \<forall>v \<in> set vs. wf_value v \<Longrightarrow>
   length (stored_schemas t) + length vs \<le> 26 \<Longrightarrow>
   schema_table_ok t' \<and> stored_schemas t' = stored_schemas t @ described_cmds vs"
proof (induction vs t rule: parse_cmds.induct)
  case (2 v vs t)
  show ?case
  proof (cases "ten_cmd_schema_create v")
    case (Some c)
    show ?thesis
    proof (cases c)
      case (Some s)
      have wf: "stored_wf (Cmd_schema s)"
        using 2(4) created_cmd_schema_wf [of v s] Some \<open>ten_cmd_schema_create v = Some c\<close> by simp
      have few: "length (stored_schemas t) < 26" using 2(5) by simp
      note add = add_schema_ok [OF 2(3) few wf]
      show ?thesis using 2(1) [OF \<open>ten_cmd_schema_create v = Some c\<close> Some _ add(1)] 2(2,4,5) add(2) Some
          \<open>ten_cmd_schema_create v = Some c\<close> by simp
    qed (use 2 Some in simp)
  qed (use 2 in simp)
qed simp

lemma parse_msgs_ok:
  "parse_msgs vs t = Some t' \<Longrightarrow> schema_table_ok t \<Longrightarrow> \<forall>v \<in> set vs. wf_value v \<Longrightarrow>
   length (stored_schemas t) + length vs \<le> 26 \<Longrightarrow>
   schema_table_ok t' \<and> stored_schemas t' = stored_schemas t @ described_msgs vs"
proof (induction vs t rule: parse_msgs.induct)
  case (2 v vs t)
  show ?case
  proof (cases "ten_msg_schema_init v")
    case (Some s)
    have wf: "stored_wf (Msg_schema s)" using 2(4) created_msg_schema_wf [of v s] Some by simp
    have few: "length (stored_schemas t) < 26" using 2(5) by simp
    note add = add_schema_ok [OF 2(3) few wf]
    show ?thesis using 2(1) [OF Some _ add(1)] 2(2,4,5) add(2) Some by simp
  qed (use 2 in simp)
qed simp

section \<open>The store\<close>

definition schema_table_of :: "ten_schema_store \<Rightarrow> TEN_MSG_TYPE \<Rightarrow> bool \<Rightarrow> schema_table option" where
  "schema_table_of s ty out =
     (case ty of
        TEN_MSG_TYPE_DATA \<Rightarrow> Some (if out then data_out s else data_in s)
      | TEN_MSG_TYPE_VIDEO_FRAME \<Rightarrow> Some (if out then video_frame_out s else video_frame_in s)
      | TEN_MSG_TYPE_AUDIO_FRAME \<Rightarrow> Some (if out then audio_frame_out s else audio_frame_in s)
      | TEN_MSG_TYPE_CMD \<Rightarrow> Some (if out then cmd_out s else cmd_in s)
      | TEN_MSG_TYPE_CMD_RESULT \<Rightarrow> Some (if out then cmd_out s else cmd_in s)
      | _ \<Rightarrow> None)"

definition schemas_in :: "ten_schema_store \<Rightarrow> TEN_MSG_TYPE \<Rightarrow> bool \<Rightarrow> stored_schema list" where
  "schemas_in s ty out =
     (case schema_table_of s ty out of None \<Rightarrow> [] | Some t \<Rightarrow> stored_schemas t)"

definition store_ok :: "ten_schema_store \<Rightarrow> bool" where
  "store_ok s \<longleftrightarrow>
     (\<forall>x \<in> set_option (store_property s). wf_schema x) \<and>
     (\<forall>t \<in> {cmd_in s, cmd_out s, data_in s, data_out s, video_frame_in s, video_frame_out s,
            audio_frame_in s, audio_frame_out s}. schema_table_ok t)"

lemma store_table_ok: "store_ok s \<Longrightarrow> schema_table_of s ty out = Some t \<Longrightarrow> schema_table_ok t"
  by (auto simp: store_ok_def schema_table_of_def split: TEN_MSG_TYPE.splits if_splits)

lemma init_store_ok:
  "store_ok (ten_schema_store_init s)" "schemas_in (ten_schema_store_init s) ty out = []"
  by (simp_all add: store_ok_def ten_schema_store_init_def init_table_ok schemas_in_def
        schema_table_of_def split: TEN_MSG_TYPE.splits)

lemma get_msg_schema_eq:
  "ten_schema_store_get_msg_schema s ty name out =
     (case schema_table_of s ty out of
        None \<Rightarrow> None
      | Some t \<Rightarrow> map_option hh_item
          (ten_hashtable_find_string t (if name = [] then ''ten:empty'' else name)))"
  by (simp add: ten_schema_store_get_msg_schema_def schema_table_of_def)

lemma get_msg_schema_wf:
  assumes "store_ok s" and "ten_schema_store_get_msg_schema s ty name out = Some x"
  shows "stored_wf x \<and> x \<in> set (schemas_in s ty out)"
proof -
  obtain t hh where t: "schema_table_of s ty out = Some t"
    and hh: "ten_hashtable_find_string t (if name = [] then ''ten:empty'' else name) = Some hh" "x = hh_item hh"
    using assms(2) by (auto simp: get_msg_schema_eq split: option.splits)
  from find_schema [OF store_table_ok [OF assms(1) t], of "if name = [] then ''ten:empty'' else name"] hh t
  show ?thesis by (simp add: schemas_in_def)
qed

text \<open>The entries of a part of a definition, and the schemas they describe.\<close>

definition part_values :: "ten_value \<Rightarrow> string \<Rightarrow> ten_value list" where
  "part_values def key =
     (case ten_value_object_peek def key of Some (VArray vs) \<Rightarrow> vs | _ \<Rightarrow> [])"

definition part_key :: "TEN_MSG_TYPE \<Rightarrow> bool \<Rightarrow> string" where
  "part_key ty out =
     (case ty of
        TEN_MSG_TYPE_DATA \<Rightarrow> if out then ''data_out'' else ''data_in''
      | TEN_MSG_TYPE_VIDEO_FRAME \<Rightarrow> if out then ''video_frame_out'' else ''video_frame_in''
      | TEN_MSG_TYPE_AUDIO_FRAME \<Rightarrow> if out then ''audio_frame_out'' else ''audio_frame_in''
      | _ \<Rightarrow> if out then ''cmd_out'' else ''cmd_in'')"

definition described :: "ten_value \<Rightarrow> TEN_MSG_TYPE \<Rightarrow> bool \<Rightarrow> stored_schema list" where
  "described def ty out =
     (if ty \<in> {TEN_MSG_TYPE_CMD, TEN_MSG_TYPE_CMD_RESULT}
      then described_cmds (part_values def (part_key ty out))
      else if ty \<in> {TEN_MSG_TYPE_DATA, TEN_MSG_TYPE_VIDEO_FRAME, TEN_MSG_TYPE_AUDIO_FRAME}
      then described_msgs (part_values def (part_key ty out))
      else [])"

lemma part_values_wf:
  assumes "wf_value def" shows "\<forall>v \<in> set (part_values def key). wf_value v"
proof (cases "ten_value_object_peek def key")
  case (Some x)
  from object_parts_wf [OF assms this] Some show ?thesis
    by (cases x) (simp_all add: part_values_def)
qed (simp add: part_values_def)

lemma parse_part_eq:
  "parse_part ten_schemas_parse_cmd_part def key t = parse_cmds (part_values def key) t"
  "parse_part ten_schemas_parse_msg_part def key t = parse_msgs (part_values def key) t"
  by (auto simp: parse_part_def part_values_def ten_schemas_parse_cmd_part_def
        ten_schemas_parse_msg_part_def split: option.splits ten_value.splits)

text \<open>A part of the definition fits into a table.\<close>

definition part_fits :: "ten_value \<Rightarrow> string \<Rightarrow> schema_table \<Rightarrow> bool" where
  "part_fits def key t \<longleftrightarrow> length (stored_schemas t) + length (part_values def key) \<le> 26"

definition definition_fits :: "ten_value \<Rightarrow> ten_schema_store \<Rightarrow> bool" where
  "definition_fits def s \<longleftrightarrow>
     part_fits def ''cmd_in'' (cmd_in s) \<and> part_fits def ''cmd_out'' (cmd_out s) \<and>
     part_fits def ''data_in'' (data_in s) \<and> part_fits def ''data_out'' (data_out s) \<and>
     part_fits def ''video_frame_in'' (video_frame_in s) \<and>
     part_fits def ''video_frame_out'' (video_frame_out s) \<and>
     part_fits def ''audio_frame_in'' (audio_frame_in s) \<and>
     part_fits def ''audio_frame_out'' (audio_frame_out s)"

lemma part_ok:
  assumes "wf_value def" and "schema_table_ok t" and "part_fits def key t"
  shows "parse_cmds (part_values def key) t = Some t' \<Longrightarrow>
           schema_table_ok t' \<and> stored_schemas t' = stored_schemas t @ described_cmds (part_values def key)"
    and "parse_msgs (part_values def key) t = Some t' \<Longrightarrow>
           schema_table_ok t' \<and> stored_schemas t' = stored_schemas t @ described_msgs (part_values def key)"
  using parse_cmds_ok [OF _ assms(2) part_values_wf [OF assms(1)] assms(3) [unfolded part_fits_def]]
    parse_msgs_ok [OF _ assms(2) part_values_wf [OF assms(1)] assms(3) [unfolded part_fits_def]]
  by blast+

lemma set_definition_tables:
  assumes "ten_schema_store_set_schema_definition s def err = Some (True, s', err')"
  shows "err' = err"
    and "parse_cmds (part_values def ''cmd_in'') (cmd_in s) = Some (cmd_in s')"
    and "parse_cmds (part_values def ''cmd_out'') (cmd_out s) = Some (cmd_out s')"
    and "parse_msgs (part_values def ''data_in'') (data_in s) = Some (data_in s')"
    and "parse_msgs (part_values def ''data_out'') (data_out s) = Some (data_out s')"
    and "parse_msgs (part_values def ''video_frame_in'') (video_frame_in s) = Some (video_frame_in s')"
    and "parse_msgs (part_values def ''video_frame_out'') (video_frame_out s) = Some (video_frame_out s')"
    and "parse_msgs (part_values def ''audio_frame_in'') (audio_frame_in s) = Some (audio_frame_in s')"
    and "parse_msgs (part_values def ''audio_frame_out'') (audio_frame_out s) = Some (audio_frame_out s')"
    and "store_property s' = store_property s \<or>
         ten_schemas_parse_schema_object_for_property def = Some (store_property s')"
  using assms
  unfolding ten_schema_store_set_schema_definition_def parse_part_eq
  by (auto split: if_splits option.splits)

lemma set_definition_failure:
  assumes "ten_schema_store_set_schema_definition s def err = Some (False, s', err')"
  shows "s' = s \<and> err_no err' = TEN_ERRNO_GENERIC"
  using assms
  unfolding ten_schema_store_set_schema_definition_def
  by (auto simp: ten_error_set_def split: if_splits option.splits)

lemma set_definition_ok:
  assumes ok: "store_ok s" and wf: "wf_value def" and fits: "definition_fits def s"
    and run: "ten_schema_store_set_schema_definition s def err = Some (True, s', err')"
  shows "store_ok s' \<and> schemas_in s' ty out = schemas_in s ty out @ described def ty out"
proof -
  note tables = set_definition_tables [OF run]
  have old: "schema_table_ok (cmd_in s)" "schema_table_ok (cmd_out s)" "schema_table_ok (data_in s)" "schema_table_ok (data_out s)"
    "schema_table_ok (video_frame_in s)" "schema_table_ok (video_frame_out s)" "schema_table_ok (audio_frame_in s)"
    "schema_table_ok (audio_frame_out s)" and property: "\<forall>x \<in> set_option (store_property s). wf_schema x"
    using ok by (simp_all add: store_ok_def)
  have parts: "part_fits def ''cmd_in'' (cmd_in s)" "part_fits def ''cmd_out'' (cmd_out s)"
    "part_fits def ''data_in'' (data_in s)" "part_fits def ''data_out'' (data_out s)"
    "part_fits def ''video_frame_in'' (video_frame_in s)"
    "part_fits def ''video_frame_out'' (video_frame_out s)"
    "part_fits def ''audio_frame_in'' (audio_frame_in s)"
    "part_fits def ''audio_frame_out'' (audio_frame_out s)"
    using fits by (simp_all only: definition_fits_def)
  note new = part_ok(1) [OF wf old(1) parts(1) tables(2)] part_ok(1) [OF wf old(2) parts(2) tables(3)]
    part_ok(2) [OF wf old(3) parts(3) tables(4)] part_ok(2) [OF wf old(4) parts(4) tables(5)]
    part_ok(2) [OF wf old(5) parts(5) tables(6)] part_ok(2) [OF wf old(6) parts(6) tables(7)]
    part_ok(2) [OF wf old(7) parts(7) tables(8)] part_ok(2) [OF wf old(8) parts(8) tables(9)]
  have "\<forall>x \<in> set_option (store_property s'). wf_schema x"
    using tables(10) property parsed_schema_wf [OF wf] by auto
  with new have "store_ok s'" by (simp add: store_ok_def)
  moreover have "schemas_in s' ty out = schemas_in s ty out @ described def ty out"
    using new
    by (cases ty; cases out)
       (simp_all add: schemas_in_def schema_table_of_def described_def part_key_def)
  ultimately show ?thesis ..
qed

lemma get_distinct_schema:
  assumes "store_ok s" and "distinct (map stored_name (schemas_in s ty out))"
  shows "ten_schema_store_get_msg_schema s ty name out =
    List.find (\<lambda>x. stored_name x = (if name = [] then ''ten:empty'' else name)) (schemas_in s ty out)"
proof (cases "schema_table_of s ty out")
  case (Some t)
  with assms(2) have "distinct (map stored_name (stored_schemas t))" by (simp add: schemas_in_def)
  from find_distinct_schema [OF store_table_ok [OF assms(1) Some] this] Some show ?thesis
    by (simp only: get_msg_schema_eq schemas_in_def option.case)
qed (simp add: get_msg_schema_eq schemas_in_def)

section \<open>Properties\<close>

text \<open>
  C25: Loading a definition, with at most 26 schemas in each table, keeps the store well-formed: its tables, the schemas in them and
  the names they are under. A definition that is taken adds to each table the schemas its
  entries describe, and a message finds the schema of its name, if the names are distinct; one
  that is refused leaves the store as it is and sets the error.
\<close>

theorem store_holds_definition:
  assumes "store_ok s" and "wf_value def" and "definition_fits def s"
    and "ten_schema_store_set_schema_definition s def err = Some (taken, s', err')"
  shows "store_ok s' \<and>
    (if taken then
       err' = err \<and> schemas_in s' ty out = schemas_in s ty out @ described def ty out \<and>
       (distinct (map stored_name (schemas_in s' ty out)) \<longrightarrow>
        ten_schema_store_get_msg_schema s' ty name out =
          List.find (\<lambda>x. stored_name x = (if name = [] then ''ten:empty'' else name))
            (schemas_in s' ty out))
     else s' = s \<and> err_no err' = TEN_ERRNO_GENERIC)"
proof (cases taken)
  case True
  with assms(4) have run: "ten_schema_store_set_schema_definition s def err = Some (True, s', err')" by simp
  note loaded = set_definition_ok [OF assms(1-3) run, of ty out]
  with get_distinct_schema [of s' ty out name] True set_definition_tables(1) [OF run] show ?thesis
    by simp
next
  case False
  with assms(1,4) set_definition_failure [of s def err s' err'] show ?thesis by simp
qed

definition zeroed_store :: ten_schema_store where
  "zeroed_store =
     \<lparr>store_property = None, cmd_in = zeroed_hashtable, cmd_out = zeroed_hashtable,
      data_in = zeroed_hashtable, data_out = zeroed_hashtable,
      video_frame_in = zeroed_hashtable, video_frame_out = zeroed_hashtable,
      audio_frame_in = zeroed_hashtable, audio_frame_out = zeroed_hashtable,
      interface_in = zeroed_hashtable, interface_out = zeroed_hashtable\<rparr>"

text \<open>A definition of one kind of data, with one number.\<close>

definition sample_data_def :: ten_value where
  "sample_data_def =
     VObject [(''name'', VString ''d''),
              (''property'', VObject [(''n'', VObject [(''type'', VString ''int8'')])])]"

definition sample_data_schema :: ten_schema where
  "sample_data_schema =
     Schema [Kw_type TEN_TYPE_OBJECT, Kw_properties [(''n'', Schema [Kw_type TEN_TYPE_INT8])]]"

definition sample_store_def :: ten_value where
  "sample_store_def = VObject [(''data_in'', VArray [sample_data_def])]"

definition sample_store :: ten_schema_store where
  "sample_store =
     (ten_schema_store_init zeroed_store)
       \<lparr>data_in := add_schema
          (Msg_schema \<lparr>schema_msg_name = ''d'', schema_property = Some sample_data_schema\<rparr>)
          (data_in (ten_schema_store_init zeroed_store))\<rparr>"

lemma sample_data_created:
  "ten_msg_schema_init sample_data_def =
     Some \<lparr>schema_msg_name = ''d'', schema_property = Some sample_data_schema\<rparr>"
  unfolding sample_data_def_def sample_data_schema_def by code_simp

lemma sample_store_loaded:
  "ten_schema_store_set_schema_definition (ten_schema_store_init zeroed_store) sample_store_def
     ten_error_init = Some (True, sample_store, ten_error_init)"
  unfolding ten_schema_store_set_schema_definition_def parse_part_eq
  by (simp add: sample_store_def_def part_values_def ten_value_object_peek_def
        ten_value_is_object_def sample_data_created sample_store_def)

lemma sample_def_fits:
  "wf_value sample_store_def"
  "definition_fits sample_store_def (ten_schema_store_init zeroed_store)"
  "described sample_store_def TEN_MSG_TYPE_DATA False =
     [Msg_schema \<lparr>schema_msg_name = ''d'', schema_property = Some sample_data_schema\<rparr>]"
  by (simp_all add: sample_store_def_def sample_data_def_def plain_key_def definition_fits_def
        part_fits_def ten_schema_store_init_def init_table_ok part_values_def part_key_def
        ten_value_object_peek_def described_def sample_data_created [unfolded sample_data_def_def])

theorem store_holds_definition_witness:
  "ten_schema_store_set_schema_definition (ten_schema_store_init zeroed_store) sample_store_def
     ten_error_init = Some (True, sample_store, ten_error_init) \<and>
   store_ok sample_store \<and>
   ten_schema_store_get_msg_schema sample_store TEN_MSG_TYPE_DATA ''d'' False =
     Some (Msg_schema \<lparr>schema_msg_name = ''d'', schema_property = Some sample_data_schema\<rparr>) \<and>
   ten_schema_store_get_msg_schema sample_store TEN_MSG_TYPE_DATA ''e'' False = None"
  using store_holds_definition [OF init_store_ok(1) sample_def_fits(1,2) sample_store_loaded,
      of TEN_MSG_TYPE_DATA False "''d''"]
    store_holds_definition [OF init_store_ok(1) sample_def_fits(1,2) sample_store_loaded,
      of TEN_MSG_TYPE_DATA False "''e''"] sample_store_loaded
  by (simp add: init_store_ok sample_def_fits)

text \<open>
  C40: Merging the schemas of an interface into a table with distinct names, at most 26 schemas
  in all, keeps the names distinct. It succeeds exactly when none of the new names is taken, also by one before it in
  the interface, and then adds all of them in order; otherwise it sets the error.
\<close>

theorem merge_keeps_names_distinct:
  assumes "schema_table_ok t" and "\<forall>s \<in> set ss. stored_wf s"
    and "length (stored_schemas t) + length ss \<le> 26" and "distinct (map stored_name (stored_schemas t))"
    and "merge_schemas ss t err = (merged, t', err')"
  shows "schema_table_ok t' \<and> distinct (map stored_name (stored_schemas t')) \<and>
    merged = distinct (map stored_name (stored_schemas t @ ss)) \<and>
    (if merged then stored_schemas t' = stored_schemas t @ ss \<and> err' = err
     else err_no err' = TEN_ERRNO_GENERIC)"
  using assms
proof (induction ss t err rule: merge_schemas.induct)
  case (2 s ss t err)
  show ?case
  proof (cases "ten_hashtable_find_string t (stored_name s)")
    case (Some hh)
    with find_schema [OF 2(2), of "stored_name s"]
    have "stored_name s \<in> stored_name ` set (stored_schemas t)" by (auto simp: rev_image_eqI)
    with 2(2,5,6) Some show ?thesis by (auto simp: ten_error_set_def)
  next
    case None
    have few: "length (stored_schemas t) < 26" and wf: "stored_wf s" using 2(3,4) by simp_all
    note add = add_schema_ok [OF 2(2) few wf]
    have new: "stored_name s \<notin> stored_name ` set (stored_schemas t)"
      using find_schema [OF 2(2), of "stored_name s"] None by simp
    then have "distinct (map stored_name (stored_schemas (add_schema s t)))" using 2(5) add(2) by simp
    with 2(1) [OF _ add(1)] 2(3,4,6) add(2) None show ?thesis by auto
  qed
qed simp

theorem merge_keeps_names_distinct_witness:
  "(case merge_schemas
      (map Msg_schema [\<lparr>schema_msg_name = ''a'', schema_property = None\<rparr>,
        \<lparr>schema_msg_name = ''b'', schema_property = None\<rparr>])
      (ten_hashtable_init zeroed_hashtable) ten_error_init of
      (merged, t', err') \<Rightarrow> merged \<and> map stored_name (stored_schemas t') = [''a'', ''b'']) \<and>
   fst (merge_schemas
      (map Msg_schema [\<lparr>schema_msg_name = ''a'', schema_property = None\<rparr>,
        \<lparr>schema_msg_name = ''a'', schema_property = None\<rparr>])
      (ten_hashtable_init zeroed_hashtable) ten_error_init) = False"
proof -
  let ?a = "Msg_schema \<lparr>schema_msg_name = ''a'', schema_property = None\<rparr>"
  let ?b = "Msg_schema \<lparr>schema_msg_name = ''b'', schema_property = None\<rparr>"
  let ?t = "ten_hashtable_init zeroed_hashtable"
  obtain m1 t1 e1 where r1: "merge_schemas [?a, ?b] ?t ten_error_init = (m1, t1, e1)"
    by (metis prod_cases3)
  obtain m2 t2 e2 where r2: "merge_schemas [?a, ?a] ?t ten_error_init = (m2, t2, e2)"
    by (metis prod_cases3)
  from merge_keeps_names_distinct [OF init_table_ok(1) _ _ _ r1]
    merge_keeps_names_distinct [OF init_table_ok(1) _ _ _ r2] r1 r2
  show ?thesis by (simp del: merge_schemas.simps add: init_table_ok(2))
qed

lemma adjust_value_result: "\<exists>b v' e. ten_schema_adjust_value_type tg s (Some v) err = (b, Some v', e)"
proof -
  obtain b x e where "ten_schema_adjust_value_type_with_schema_error tg s v (ten_schema_error_init err) = (b, x, e)"
    by (metis prod_cases3)
  then show ?thesis
    by (cases "with_path (b, e)") (simp add: ten_schema_adjust_value_type_def)
qed

text \<open>Checking an object of properties against a well-formed schema.\<close>

lemma check_properties_ok:
  assumes wf: "\<forall>x \<in> set_option schema. wf_schema x"
    and run: "check_properties (adjust_with tg schema) (validate_with schema) m err = (valid, m', err')"
  shows "m' = m\<lparr>properties := properties m'\<rparr> \<and>
    (case schema of
       None \<Rightarrow> valid \<and> m' = m \<and> err' = err
     | Some s \<Rightarrow>
         if valid then
           conforms s (properties m') \<and> exact s (properties m') \<and> err' = err \<and>
           check_properties (adjust_with tg schema) (validate_with schema) m' err = (True, m', err)
         else err_no err' = TEN_ERRNO_GENERIC)"
proof (cases schema)
  case None
  with run show ?thesis by (simp add: check_properties_def adjust_with_def validate_with_def)
next
  case (Some s)
  with wf have s: "wf_schema s" by simp
  obtain b e1 v where adjust: "ten_schema_adjust_value_type tg s (Some (properties m)) err = (b, Some v, e1)"
    using adjust_value_result [of tg s "properties m" err] by blast
  show ?thesis
  proof (cases b)
    case False
    with adjust_value_error [OF adjust s] run Some adjust show ?thesis
      by (auto simp: check_properties_def adjust_with_def)
  next
    case True
    from adjust have adjust: "ten_schema_adjust_value_type tg s (Some (properties m)) err = (True, Some v, e1)"
      using True by simp
    obtain c e2 where validate: "ten_schema_validate_value s (Some v) e1 = (c, e2)" by fastforce
    from run Some adjust validate have m': "m' = m\<lparr>properties := v\<rparr>" "valid = c" "err' = e2"
      by (auto simp: check_properties_def adjust_with_def validate_with_def)
    note spec = adjusted_value [OF s adjust] validated_value [OF s, of v e1] 
    with validate m' Some show ?thesis
      by (auto simp: check_properties_def adjust_with_def validate_with_def split: if_splits)
  qed
qed

text \<open>
  C24: A message that passes its check conforms to the schema of its name, with types exactly
  those of the schema, so that a second check changes nothing. Only the properties of a
  message change, a message without a schema passes as it is, and the error is set exactly
  when the check fails.
\<close>

theorem checked_message_conforms:
  assumes "store_ok store"
    and "ten_raw_msg_validate_schema tg store out m err = (valid, m', err')"
  shows "m' = m\<lparr>properties := properties m'\<rparr> \<and>
    (case Option.bind (ten_schema_store_get_msg_schema store (msg_type m) (msg_name m) out)
            stored_property of
       None \<Rightarrow> valid \<and> m' = m \<and> err' = err
     | Some s \<Rightarrow>
         if valid then
           conforms s (properties m') \<and> exact s (properties m') \<and> err' = err \<and>
           ten_raw_msg_validate_schema tg store out m' err = (True, m', err)
         else err_no err' = TEN_ERRNO_GENERIC)"
proof (cases "ten_schema_store_get_msg_schema store (msg_type m) (msg_name m) out")
  case None
  with assms(2) show ?thesis by (simp add: ten_raw_msg_validate_schema_def)
next
  case (Some x)
  have wf: "\<forall>s \<in> set_option (stored_property x). wf_schema s"
    using get_msg_schema_wf [OF assms(1) Some] by (cases x) auto
  have run: "ten_raw_msg_validate_schema tg store out n e =
      check_properties (adjust_with tg (stored_property x)) (validate_with (stored_property x)) n e"
    if "msg_type n = msg_type m" and "msg_name n = msg_name m" for n :: "'a ten_msg_scheme" and e
    using Some that
    by (simp add: ten_raw_msg_validate_schema_def ten_msg_schema_adjust_properties_def [abs_def]
          ten_msg_schema_validate_properties_def [abs_def])
  have same: "msg_type m' = msg_type m" "msg_name m' = msg_name m"
    if "m' = m\<lparr>properties := properties m'\<rparr>"
    using arg_cong [OF that, of msg_type] arg_cong [OF that, of msg_name] by simp_all
  from check_properties_ok [OF wf, of tg m err valid m' err'] assms(2) run [of m err] Some run [of m' err] same
  show ?thesis by (auto split: option.splits)
qed

lemma sample_store_get:
  "store_ok sample_store"
  "ten_schema_store_get_msg_schema sample_store TEN_MSG_TYPE_DATA ''d'' False =
     Some (Msg_schema \<lparr>schema_msg_name = ''d'', schema_property = Some sample_data_schema\<rparr>)"
  using set_definition_ok [OF init_store_ok(1) sample_def_fits(1,2) sample_store_loaded,
      of TEN_MSG_TYPE_DATA False] get_distinct_schema [of sample_store TEN_MSG_TYPE_DATA False "''d''"]
  by (simp_all add: init_store_ok sample_def_fits)

definition sample_data :: "ten_value \<Rightarrow> ten_msg" where
  "sample_data v =
     \<lparr>msg_type = TEN_MSG_TYPE_DATA, msg_name = ''d'', src_loc = ten_loc_init_empty, dest_loc = [],
      properties = v\<rparr>"

theorem checked_message_conforms_witness:
  "ten_raw_msg_validate_schema saturating_target sample_store False
      (sample_data (VObject [(''n'', VInt64 10)])) ten_error_init =
      (True, sample_data (VObject [(''n'', VInt8 10)]), ten_error_init) \<and>
   conforms sample_data_schema (VObject [(''n'', VInt8 10)]) \<and>
   ten_raw_msg_validate_schema saturating_target sample_store False
      (sample_data (VObject [(''n'', VInt8 10)])) ten_error_init =
      (True, sample_data (VObject [(''n'', VInt8 10)]), ten_error_init)"
proof -
  have "check_properties (adjust_with saturating_target (Some sample_data_schema))
      (validate_with (Some sample_data_schema)) (sample_data (VObject [(''n'', VInt64 10)])) ten_error_init =
      (True, sample_data (VObject [(''n'', VInt8 10)]), ten_error_init)"
    unfolding sample_data_def sample_data_schema_def by code_simp
  then have run: "ten_raw_msg_validate_schema saturating_target sample_store False
      (sample_data (VObject [(''n'', VInt64 10)])) ten_error_init =
      (True, sample_data (VObject [(''n'', VInt8 10)]), ten_error_init)"
    by (simp add: ten_raw_msg_validate_schema_def sample_data_def sample_store_get
          ten_msg_schema_adjust_properties_def [abs_def] ten_msg_schema_validate_properties_def [abs_def])
  from checked_message_conforms [OF sample_store_get(1) this] run show ?thesis
    by (simp add: sample_data_def sample_store_get)
qed

section \<open>Interfaces\<close>

text \<open>
  The kinds of data in an interface are never loaded: when they are in an array, as they
  should be, the test of the type refuses them.
\<close>

lemma interface_arrays_ignored:
  assumes "ten_value_object_peek def ''name'' = Some (VString n)"
    and "ten_value_object_peek def ''cmd'' = None"
    and "ten_value_object_peek def ''data'' = Some (VArray ds)"
    and "ten_value_object_peek def ''video_frame'' = None"
    and "ten_value_object_peek def ''audio_frame'' = None"
    and "ten_value_is_object def"
  shows "ten_interface_schema_create def = Some (ten_interface_schema_init\<lparr>iface_name := n\<rparr>)"
  using assms
  by (simp add: ten_interface_schema_create_def ten_interface_schema_set_definition_def
        ten_value_object_peek_string_def ten_interface_schema_parse_msg_part_def
        ten_value_is_array_def ten_interface_schema_init_def ten_value_peek_raw_str_def
        ten_value_peek_string_def)

end
