(* ===== verification/Ten_Extension.thy ===== *)
theory Ten_Extension
  imports Ten_Path Schema_Store Value_Path
begin

text \<open>
  An extension (core/src/ten_runtime/extension/): what it does with the messages that reach
  it and that it sends, from its start to its end.

  An operation gives the extension after it and what it did to its surroundings, as a list of
  effects in the order of the calls: messages handed to the thread, and calls of the
  callbacks and result handlers of the user. A callback that is not set has its default
  behaviour. In the code a message for an extension of the same thread is handled at once;
  as an operation changes the path table before it dispatches, here that is a later step.

  The clock, the random ids, the target of the C casts and the engine are given with each
  operation: reading \<open>i\<close> of the clock and of the ids belongs to the \<open>i\<close>-th message the
  operation handles. The conversion of messages is a parameter. The outer \<open>None\<close> is the use
  of NULL or of freed memory.
\<close>

section \<open>Messages of all kinds\<close>

text \<open>The constructor is the structure the message has, which its type determines.\<close>

datatype ten_shared_msg =
    Msg_cmd ten_cmd_base
  | Msg_result ten_cmd_result
  | Msg_data ten_msg

fun ten_msg_get_type :: "ten_shared_msg \<Rightarrow> TEN_MSG_TYPE" where
  "ten_msg_get_type (Msg_cmd c) = msg_type c"
| "ten_msg_get_type (Msg_result r) = msg_type r"
| "ten_msg_get_type (Msg_data d) = msg_type d"

fun ten_msg_get_name :: "ten_shared_msg \<Rightarrow> string" where
  "ten_msg_get_name (Msg_cmd c) = msg_name c"
| "ten_msg_get_name (Msg_result r) = msg_name r"
| "ten_msg_get_name (Msg_data d) = msg_name d"

fun ten_msg_get_dest :: "ten_shared_msg \<Rightarrow> ten_loc list" where
  "ten_msg_get_dest (Msg_cmd c) = dest_loc c"
| "ten_msg_get_dest (Msg_result r) = dest_loc r"
| "ten_msg_get_dest (Msg_data d) = dest_loc d"

fun set_dest :: "ten_loc list \<Rightarrow> ten_shared_msg \<Rightarrow> ten_shared_msg" where
  "set_dest ds (Msg_cmd c) = Msg_cmd (c\<lparr>dest_loc := ds\<rparr>)"
| "set_dest ds (Msg_result r) = Msg_result (r\<lparr>dest_loc := ds\<rparr>)"
| "set_dest ds (Msg_data d) = Msg_data (d\<lparr>dest_loc := ds\<rparr>)"

fun set_src :: "ten_loc \<Rightarrow> ten_shared_msg \<Rightarrow> ten_shared_msg" where
  "set_src l (Msg_cmd c) = Msg_cmd (ten_msg_set_src_to_loc l c)"
| "set_src l (Msg_result r) = Msg_result (ten_msg_set_src_to_loc l r)"
| "set_src l (Msg_data d) = Msg_data (ten_msg_set_src_to_loc l d)"

text \<open>
  Clones: three kinds of commands have no function for it. The name of the original command is
  not copied into the clone of a result.
\<close>

definition ten_raw_data_as_msg_clone :: "ten_msg \<Rightarrow> ten_msg" where
  "ten_raw_data_as_msg_clone d =
     \<lparr>msg_type = msg_type d, msg_name = msg_name d, src_loc = ten_loc_init_from_loc (src_loc d),
      dest_loc = map ten_loc_clone (dest_loc d),
      properties = snd (ten_value_object_merge_with_clone (VObject []) (properties d))\<rparr>"

definition ten_raw_cmd_result_as_msg_clone :: "ten_cmd_result \<Rightarrow> ten_cmd_result" where
  "ten_raw_cmd_result_as_msg_clone r =
     \<lparr>msg_type = msg_type r, msg_name = msg_name r, src_loc = ten_loc_init_from_loc (src_loc r),
      dest_loc = map ten_loc_clone (dest_loc r),
      properties = snd (ten_value_object_merge_with_clone (VObject []) (properties r)),
      parent_cmd_id = [], cmd_id = cmd_id r, seq_id = seq_id r, result_handler = result_handler r,
      original_cmd_type = original_cmd_type r, original_cmd_name = [],
      status_code = status_code r, is_final = is_final r\<rparr>"

fun clone_shared :: "string \<Rightarrow> ten_shared_msg \<Rightarrow> ten_shared_msg option" where
  "clone_shared uuid (Msg_cmd c) =
     (if msg_type c \<in> {TEN_MSG_TYPE_CMD, TEN_MSG_TYPE_CMD_START_GRAPH}
      then Some (Msg_cmd (ten_msg_clone uuid c)) else None)"
| "clone_shared uuid (Msg_result r) =
     Some (Msg_result
       (ten_cmd_base_gen_new_cmd_id_forcibly uuid
         (ten_cmd_base_save_cmd_id_to_parent_cmd_id (ten_raw_cmd_result_as_msg_clone r))))"
| "clone_shared uuid (Msg_data d) = Some (Msg_data (ten_raw_data_as_msg_clone d))"

section \<open>The surroundings\<close>

record ten_predefined_graph_info =
  graph_name :: string
  singleton :: bool
  graph_engine_id :: "string option"

record ten_engine =
  engine_app_uri :: string
  engine_graph_id :: string
  predefined_graph_infos :: "ten_predefined_graph_info list"

record ten_runtime =
  engine :: ten_engine
  clock :: "nat \<Rightarrow> 64 word"
  uuids :: "nat \<Rightarrow> string"
  casts :: c_target

definition ten_predefined_graph_infos_get_singleton_by_name ::
  "ten_predefined_graph_info list \<Rightarrow> string \<Rightarrow> ten_predefined_graph_info option"
where
  "ten_predefined_graph_infos_get_singleton_by_name infos name =
     (case List.find (\<lambda>i. graph_name i = name) infos of
        Some i \<Rightarrow> if singleton i then Some i else None
      | None \<Rightarrow> None)"

text \<open>The graph of a destination inside the application.\<close>

definition set_dest_engine :: "ten_engine \<Rightarrow> ten_loc \<Rightarrow> ten_loc" where
  "set_dest_engine e l =
     (if graph_id l = [] then l\<lparr>graph_id := engine_graph_id e\<rparr>
      else case ten_predefined_graph_infos_get_singleton_by_name (predefined_graph_infos e) (graph_id l) of
             Some i \<Rightarrow> (case graph_engine_id i of Some g \<Rightarrow> l\<lparr>graph_id := g\<rparr> | None \<Rightarrow> l)
           | None \<Rightarrow> l)"

text \<open>
  Each destination in this application makes the code go through all destinations, those in
  other applications too.
\<close>

definition ten_msg_set_dest_engine_if_unspecified_or_predefined_graph_name ::
  "ten_engine \<Rightarrow> ten_loc list \<Rightarrow> ten_loc list"
where
  "ten_msg_set_dest_engine_if_unspecified_or_predefined_graph_name e ds = map (set_dest_engine e) ds"

definition ten_msg_clear_dest_graph_id :: "ten_loc list \<Rightarrow> ten_loc list" where
  "ten_msg_clear_dest_graph_id ds = map (\<lambda>l. l\<lparr>graph_id := []\<rparr>) ds"

function correct_dests :: "ten_engine \<Rightarrow> TEN_MSG_TYPE \<Rightarrow> nat \<Rightarrow> ten_loc list \<Rightarrow> ten_loc list" where
  "correct_dests e ty i ds =
     (if i < length ds then
        let l = ds ! i;
            l' = (if app_uri l \<noteq> engine_app_uri e \<and> app_uri l = ''localhost''
                  then l\<lparr>app_uri := engine_app_uri e\<rparr> else l);
            ds1 = ds[i := l'];
            ds2 = (if app_uri l' \<noteq> engine_app_uri e then ds1
                   else if ty = TEN_MSG_TYPE_CMD_START_GRAPH then ten_msg_clear_dest_graph_id ds1
                   else ten_msg_set_dest_engine_if_unspecified_or_predefined_graph_name e ds1)
        in correct_dests e ty (Suc i) ds2
      else ds)"
  by pat_completeness auto
termination
  by (relation "measure (\<lambda>(e, ty, i, ds). length ds - i)")
     (auto simp: Let_def ten_msg_clear_dest_graph_id_def
        ten_msg_set_dest_engine_if_unspecified_or_predefined_graph_name_def)

declare correct_dests.simps [simp del]

definition ten_msg_correct_dest :: "ten_engine \<Rightarrow> ten_shared_msg \<Rightarrow> ten_shared_msg" where
  "ten_msg_correct_dest e m =
     set_dest (correct_dests e (ten_msg_get_type m) 0 (ten_msg_get_dest m)) m"

section \<open>The extension\<close>

datatype TEN_EXTENSION_STATE =
    TEN_EXTENSION_STATE_INIT
  | TEN_EXTENSION_STATE_ON_CONFIGURE_DONE
  | TEN_EXTENSION_STATE_ON_INIT_DONE
  | TEN_EXTENSION_STATE_ON_START
  | TEN_EXTENSION_STATE_ON_START_DONE
  | TEN_EXTENSION_STATE_ON_STOP_DONE
  | TEN_EXTENSION_STATE_ON_DEINIT
  | TEN_EXTENSION_STATE_ON_DEINIT_DONE

fun state_rank :: "TEN_EXTENSION_STATE \<Rightarrow> nat" where
  "state_rank TEN_EXTENSION_STATE_INIT = 0"
| "state_rank TEN_EXTENSION_STATE_ON_CONFIGURE_DONE = 1"
| "state_rank TEN_EXTENSION_STATE_ON_INIT_DONE = 2"
| "state_rank TEN_EXTENSION_STATE_ON_START = 3"
| "state_rank TEN_EXTENSION_STATE_ON_START_DONE = 4"
| "state_rank TEN_EXTENSION_STATE_ON_STOP_DONE = 5"
| "state_rank TEN_EXTENSION_STATE_ON_DEINIT = 6"
| "state_rank TEN_EXTENSION_STATE_ON_DEINIT_DONE = 7"

text \<open>The code compares states as numbers.\<close>

instantiation TEN_EXTENSION_STATE :: linorder
begin

definition less_eq_TEN_EXTENSION_STATE :: "TEN_EXTENSION_STATE \<Rightarrow> TEN_EXTENSION_STATE \<Rightarrow> bool" where
  "less_eq_TEN_EXTENSION_STATE a b \<longleftrightarrow> state_rank a \<le> state_rank b"

definition less_TEN_EXTENSION_STATE :: "TEN_EXTENSION_STATE \<Rightarrow> TEN_EXTENSION_STATE \<Rightarrow> bool" where
  "less_TEN_EXTENSION_STATE a b \<longleftrightarrow> state_rank a < state_rank b"

instance
proof
  fix a b :: TEN_EXTENSION_STATE
  show "a \<le> b \<Longrightarrow> b \<le> a \<Longrightarrow> a = b"
    by (cases a; cases b) (simp_all add: less_eq_TEN_EXTENSION_STATE_def)
qed (auto simp: less_eq_TEN_EXTENSION_STATE_def less_TEN_EXTENSION_STATE_def)

end

lemmas state_order = less_eq_TEN_EXTENSION_STATE_def less_TEN_EXTENSION_STATE_def

text \<open>What the graph says about an extension: where its messages go, by name.\<close>

record ten_msg_dest_info =
  dest_msg_name :: string
  dest_exts :: "ten_loc list"

record ten_extension_info =
  dest_cmd :: "ten_msg_dest_info list"
  dest_data :: "ten_msg_dest_info list"
  dest_video_frame :: "ten_msg_dest_info list"
  dest_audio_frame :: "ten_msg_dest_info list"
  msg_conversions ::
    "(ten_shared_msg \<Rightarrow> (ten_shared_msg \<times> ten_msg_conversion option) list) option"

record ten_callbacks =
  has_on_start :: bool
  has_on_stop :: bool
  has_on_deinit :: bool
  has_on_cmd :: bool
  has_on_data :: bool
  has_on_video_frame :: bool
  has_on_audio_frame :: bool

record ten_extension =
  ext_state :: TEN_EXTENSION_STATE
  ext_loc :: ten_loc
  ext_info :: "ten_extension_info option"
  ext_callbacks :: ten_callbacks
  ext_schemas :: ten_schema_store
  pending_msgs :: "ten_shared_msg list"
  ext_paths :: ten_path_table
  path_timers :: "nat list"

datatype ten_effect =
    Dispatch ten_shared_msg
  | Call_result_handler nat ten_cmd_result
  | Call_on_cmd ten_cmd_base
  | Call_on_data ten_msg
  | Call_on_video_frame ten_msg
  | Call_on_audio_frame ten_msg
  | Call_on_start
  | Call_on_stop
  | Call_on_deinit
  | Stop_timer nat
  | Extension_deleted

section \<open>Where a message goes\<close>

definition ten_msg_dest_info_qualified :: "ten_msg_dest_info \<Rightarrow> string \<Rightarrow> bool" where
  "ten_msg_dest_info_qualified self name \<longleftrightarrow> dest_msg_name self = name \<or> dest_msg_name self = ''*''"

definition ten_extension_get_msg_dests_from_graph_internal ::
  "ten_msg_dest_info list \<Rightarrow> ten_shared_msg \<Rightarrow> ten_loc list option"
where
  "ten_extension_get_msg_dests_from_graph_internal infos m =
     map_option dest_exts
       (List.find (\<lambda>i. ten_msg_dest_info_qualified i (ten_msg_get_name m)) infos)"

definition ten_extension_get_msg_dests_from_graph ::
  "ten_extension_info \<Rightarrow> ten_shared_msg \<Rightarrow> ten_loc list option"
where
  "ten_extension_get_msg_dests_from_graph info m =
     (if ten_raw_msg_is_cmd_and_result (ten_msg_get_type m)
      then ten_extension_get_msg_dests_from_graph_internal (dest_cmd info) m
      else case ten_msg_get_type m of
             TEN_MSG_TYPE_DATA \<Rightarrow>
               ten_extension_get_msg_dests_from_graph_internal (dest_data info) m
           | TEN_MSG_TYPE_VIDEO_FRAME \<Rightarrow>
               ten_extension_get_msg_dests_from_graph_internal (dest_video_frame info) m
           | TEN_MSG_TYPE_AUDIO_FRAME \<Rightarrow>
               ten_extension_get_msg_dests_from_graph_internal (dest_audio_frame info) m
           | _ \<Rightarrow> None)"

definition need_to_clone_msg_when_sending :: "nat \<Rightarrow> bool" where
  "need_to_clone_msg_when_sending dest_index \<longleftrightarrow> dest_index > 0"

text \<open>One message for each destination; a clone that does not exist is NULL.\<close>

fun msgs_for_dests ::
  "(nat \<Rightarrow> string) \<Rightarrow> ten_shared_msg \<Rightarrow> nat \<Rightarrow> ten_loc list \<Rightarrow> ten_shared_msg list option"
where
  "msgs_for_dests ids m i [] = Some []"
| "msgs_for_dests ids m i (d # ds) =
     (case (if need_to_clone_msg_when_sending i then clone_shared (ids i) m else Some m) of
        None \<Rightarrow> None
      | Some curr_msg \<Rightarrow>
          map_option (\<lambda>ms. set_dest [d] curr_msg # ms) (msgs_for_dests ids m (Suc i) ds))"

definition ten_extension_determine_out_msg_dest_from_msg ::
  "(nat \<Rightarrow> string) \<Rightarrow> ten_shared_msg \<Rightarrow> ten_shared_msg list option"
where
  "ten_extension_determine_out_msg_dest_from_msg ids m = msgs_for_dests ids m 0 (ten_msg_get_dest m)"

definition ten_extension_determine_out_msg_dest_from_graph ::
  "(nat \<Rightarrow> string) \<Rightarrow> ten_extension \<Rightarrow> ten_shared_msg \<Rightarrow> ten_error \<Rightarrow>
   (ten_shared_msg list option \<times> ten_error) option"
where
  "ten_extension_determine_out_msg_dest_from_graph ids self m err =
     (case ext_info self of
        None \<Rightarrow> None
      | Some info \<Rightarrow>
          (case ten_extension_get_msg_dests_from_graph info m of
             Some (d # ds) \<Rightarrow>
               map_option (\<lambda>ms. (Some ms, err)) (msgs_for_dests ids m 0 (d # ds))
           | _ \<Rightarrow>
               Some (None, ten_error_set err TEN_ERRNO_INVALID_GRAPH
                 (''Failed to find destination of a message ('' @ ten_msg_get_name m @
                  '') from graph.''))))"

section \<open>Schemas\<close>

definition ten_msg_validate_schema ::
  "c_target \<Rightarrow> ten_schema_store \<Rightarrow> bool \<Rightarrow> ten_shared_msg \<Rightarrow> ten_error \<Rightarrow>
   bool \<times> ten_shared_msg \<times> ten_error"
where
  "ten_msg_validate_schema tg store is_msg_out m err =
     (case m of
        Msg_cmd c \<Rightarrow>
          if msg_type c = TEN_MSG_TYPE_CMD
          then (case ten_raw_msg_validate_schema tg store is_msg_out c err of
                  (ok, c', err') \<Rightarrow> (ok, Msg_cmd c', err'))
          else (True, m, err)
      | Msg_result r \<Rightarrow>
          (case ten_raw_cmd_result_validate_schema tg store is_msg_out r err of
             (ok, r', err') \<Rightarrow> (ok, Msg_result r', err'))
      | Msg_data d \<Rightarrow>
          (case ten_raw_msg_validate_schema tg store is_msg_out d err of
             (ok, d', err') \<Rightarrow> (ok, Msg_data d', err')))"

section \<open>Sending\<close>

text \<open>
  A path shares the result it keeps with the message on its way, so what happens to the
  message before it leaves the operation happens to the result in the path.
\<close>

definition share_result :: "nat \<Rightarrow> ten_cmd_result \<Rightarrow> ten_path_table \<Rightarrow> ten_path_table" where
  "share_result a r t =
     update_path a
       (\<lambda>p. if cached_cmd_result p = None then p else p\<lparr>cached_cmd_result := Some r\<rparr>) t"

text \<open>The OUT paths of the messages of a command, and the messages without their handlers.\<close>

fun add_out_paths ::
  "(nat \<Rightarrow> 64 word) \<Rightarrow> nat \<Rightarrow> ten_shared_msg list \<Rightarrow> ten_path_table \<Rightarrow>
   (nat list \<times> ten_shared_msg list \<times> ten_path_table) option"
where
  "add_out_paths now i [] t = Some ([], [], t)"
| "add_out_paths now i (m # ms) t =
     (case m of
        Msg_cmd c \<Rightarrow>
          (case ten_path_table_add_out_path (now i) c t of
             None \<Rightarrow> None
           | Some (a, c', t') \<Rightarrow>
               map_option (\<lambda>(as, ms', t''). (a # as, Msg_cmd c' # ms', t''))
                 (add_out_paths now (Suc i) ms t'))
      | _ \<Rightarrow> map_option (\<lambda>(as, ms', t'). (as, m # ms', t')) (add_out_paths now (Suc i) ms t))"

definition group_paths :: "nat list \<Rightarrow> ten_path_table \<Rightarrow> ten_path_table" where
  "group_paths as t =
     (if length as > 1
      then ten_paths_create_group as
             TEN_PATH_GROUP_POLICY_ONE_FAIL_RETURN_AND_ALL_OK_RETURN_LAST t
      else t)"

text \<open>A result goes back along the IN path of its command, once its group is decided.\<close>

definition handle_out_result ::
  "ten_runtime \<Rightarrow> ten_extension \<Rightarrow> ten_cmd_result \<Rightarrow> ten_error \<Rightarrow>
   (bool \<times> ten_extension \<times> ten_effect list \<times> ten_error) option"
where
  "handle_out_result rt self r err =
     (case ten_path_table_set_result TEN_PATH_IN r (ext_paths self) of
        None \<Rightarrow> None
      | Some (None, t1) \<Rightarrow> Some (True, self\<lparr>ext_paths := t1\<rparr>, [], err)
      | Some (Some a, t1) \<Rightarrow>
          (case path_at t1 a of
             None \<Rightarrow> None
           | Some p \<Rightarrow>
               (case ten_raw_cmd_result_validate_schema (casts rt) (ext_schemas self) True
                       (ten_cmd_result_set_original_cmd_name (path_cmd_name p) r) err of
                  (ok, r1, err1) \<Rightarrow>
                    let t2 = (if result_conversion p = None then share_result a r1 t1 else t1)
                    in if \<not> ok then Some (False, self\<lparr>ext_paths := t2\<rparr>, [], err1)
                       else case ten_path_table_determine_actual_cmd_result TEN_PATH_IN a
                                   (is_final r1) t2 of
                              None \<Rightarrow> None
                            | Some (None, t3) \<Rightarrow> Some (True, self\<lparr>ext_paths := t3\<rparr>, [], err1)
                            | Some (Some r2, t3) \<Rightarrow>
                                map_option
                                  (\<lambda>ms. (True, self\<lparr>ext_paths := t3\<rparr>, map Dispatch ms, err1))
                                  (ten_extension_determine_out_msg_dest_from_msg (uuids rt)
                                    (Msg_result r2)))))"

text \<open>Everything else goes where it says, or else where the graph says.\<close>

definition handle_out_request ::
  "ten_runtime \<Rightarrow> ten_extension \<Rightarrow> ten_shared_msg \<Rightarrow> ten_error \<Rightarrow>
   (bool \<times> ten_extension \<times> ten_effect list \<times> ten_error) option"
where
  "handle_out_request rt self m err =
     (case ten_msg_validate_schema (casts rt) (ext_schemas self) True
             (ten_msg_correct_dest (engine rt) m) err of
        (False, _, err1) \<Rightarrow> Some (False, self, [], err1)
      | (True, m1, err1) \<Rightarrow>
          (case (if ten_msg_get_dest m1 \<noteq> []
                 then map_option (\<lambda>ms. (Some ms, err1))
                        (ten_extension_determine_out_msg_dest_from_msg (uuids rt) m1)
                 else ten_extension_determine_out_msg_dest_from_graph (uuids rt) self m1 err1) of
             None \<Rightarrow> None
           | Some (None, err2) \<Rightarrow> Some (False, self, [], err2)
           | Some (Some ms, err2) \<Rightarrow>
               (case add_out_paths (clock rt) 0 ms (ext_paths self) of
                  None \<Rightarrow> None
                | Some (as, ms', t) \<Rightarrow>
                    Some (True, self\<lparr>ext_paths := group_paths as t\<rparr>, map Dispatch ms', err2))))"

definition ten_extension_handle_out_msg ::
  "ten_runtime \<Rightarrow> ten_extension \<Rightarrow> ten_shared_msg \<Rightarrow> ten_error \<Rightarrow>
   (bool \<times> ten_extension \<times> ten_effect list \<times> ten_error) option"
where
  "ten_extension_handle_out_msg rt self m err =
     (case set_src (ext_loc self) m of
        Msg_result r \<Rightarrow> handle_out_result rt self (ten_msg_clear_dest r) err
      | m' \<Rightarrow> handle_out_request rt self m' err)"

text \<open>Whether resources of the message are locked is given with the message.\<close>

definition ten_send_msg_internal ::
  "ten_runtime \<Rightarrow> ten_extension \<Rightarrow> ten_shared_msg \<Rightarrow> bool \<Rightarrow> nat option \<Rightarrow> ten_error \<Rightarrow>
   (bool \<times> ten_extension \<times> ten_effect list \<times> ten_error) option"
where
  "ten_send_msg_internal rt self m has_locked_res handler err =
     (if ten_msg_get_type m = TEN_MSG_TYPE_CMD_RESULT then
        Some (False, self, [], ten_error_set err TEN_ERRNO_GENERIC
          ''Result commands should be delivered through 'returning'.'')
      else if has_locked_res then
        Some (False, self, [], ten_error_set err TEN_ERRNO_GENERIC
          ''Locked resources are not allowed in messages sent from an extension.'')
      else
        case m of
          Msg_cmd c \<Rightarrow>
            let c1 = ten_cmd_base_set_result_handler handler c;
                c2 = (if cmd_id c1 = [] then ten_cmd_base_gen_new_cmd_id_forcibly (uuids rt 0) c1
                      else c1)
            in ten_extension_handle_out_msg rt self (Msg_cmd c2) err
        | _ \<Rightarrow> ten_extension_handle_out_msg rt self m err)"

definition ten_env_send_cmd ::
  "ten_runtime \<Rightarrow> ten_extension \<Rightarrow> ten_cmd_base \<Rightarrow> bool \<Rightarrow> nat option \<Rightarrow> ten_error \<Rightarrow>
   (bool \<times> ten_extension \<times> ten_effect list \<times> ten_error) option"
where
  "ten_env_send_cmd rt self c locked handler err =
     ten_send_msg_internal rt self (Msg_cmd c) locked handler err"

definition ten_env_send_data ::
  "ten_runtime \<Rightarrow> ten_extension \<Rightarrow> ten_msg \<Rightarrow> bool \<Rightarrow> ten_error \<Rightarrow>
   (bool \<times> ten_extension \<times> ten_effect list \<times> ten_error) option"
where
  "ten_env_send_data rt self d locked err = ten_send_msg_internal rt self (Msg_data d) locked None err"

section \<open>Returning\<close>

definition ten_env_return_result_internal ::
  "ten_runtime \<Rightarrow> ten_extension \<Rightarrow> ten_cmd_result \<Rightarrow> string option \<Rightarrow> string option \<Rightarrow> ten_error \<Rightarrow>
   (bool \<times> ten_extension \<times> ten_effect list \<times> ten_error) option"
where
  "ten_env_return_result_internal rt self r new_id new_seq err =
     (let r1 = (case new_id of Some i \<Rightarrow> r\<lparr>cmd_id := i\<rparr> | None \<Rightarrow> r);
          r2 = (case new_seq of Some i \<Rightarrow> r1\<lparr>seq_id := i\<rparr> | None \<Rightarrow> r1)
      in ten_extension_handle_out_msg rt self (Msg_result r2) err)"

definition ten_env_return_result_directly ::
  "ten_runtime \<Rightarrow> ten_extension \<Rightarrow> ten_cmd_result \<Rightarrow> ten_error \<Rightarrow>
   (bool \<times> ten_extension \<times> ten_effect list \<times> ten_error) option"
where
  "ten_env_return_result_directly rt self r err = ten_env_return_result_internal rt self r None None err"

definition ten_env_return_result ::
  "ten_runtime \<Rightarrow> ten_extension \<Rightarrow> ten_cmd_result \<Rightarrow> ten_cmd_base \<Rightarrow> ten_error \<Rightarrow>
   (bool \<times> ten_extension \<times> ten_effect list \<times> ten_error) option"
where
  "ten_env_return_result rt self r target err =
     ten_env_return_result_internal rt self r (Some (cmd_id target)) (Some (seq_id target)) err"

section \<open>Callbacks\<close>

text \<open>
  A callback of the user, or what happens without it: a command is answered with OK, and the
  other messages are sent on. What these return is dropped.
\<close>

abbreviation without_outcome ::
  "(bool \<times> ten_extension \<times> ten_effect list \<times> ten_error) option \<Rightarrow> (ten_extension \<times> ten_effect list) option"
where
  "without_outcome x \<equiv> map_option (\<lambda>(_, self, effects, _). (self, effects)) x"

definition ten_extension_on_cmd ::
  "ten_runtime \<Rightarrow> ten_extension \<Rightarrow> ten_cmd_base \<Rightarrow> (ten_extension \<times> ten_effect list) option"
where
  "ten_extension_on_cmd rt self c =
     (if has_on_cmd (ext_callbacks self) then Some (self, [Call_on_cmd c])
      else without_outcome
             (ten_env_return_result rt self
               (ten_cmd_result_create_from_cmd TEN_STATUS_CODE_OK (Some c)) c ten_error_init))"

definition ten_extension_on_data ::
  "ten_runtime \<Rightarrow> ten_extension \<Rightarrow> ten_msg \<Rightarrow> (ten_extension \<times> ten_effect list) option"
where
  "ten_extension_on_data rt self d =
     (if has_on_data (ext_callbacks self) then Some (self, [Call_on_data d])
      else without_outcome (ten_env_send_data rt self d False ten_error_init))"

definition ten_extension_on_video_frame ::
  "ten_runtime \<Rightarrow> ten_extension \<Rightarrow> ten_msg \<Rightarrow> (ten_extension \<times> ten_effect list) option"
where
  "ten_extension_on_video_frame rt self d =
     (if has_on_video_frame (ext_callbacks self) then Some (self, [Call_on_video_frame d])
      else without_outcome (ten_env_send_data rt self d False ten_error_init))"

definition ten_extension_on_audio_frame ::
  "ten_runtime \<Rightarrow> ten_extension \<Rightarrow> ten_msg \<Rightarrow> (ten_extension \<times> ten_effect list) option"
where
  "ten_extension_on_audio_frame rt self d =
     (if has_on_audio_frame (ext_callbacks self) then Some (self, [Call_on_audio_frame d])
      else without_outcome (ten_env_send_data rt self d False ten_error_init))"

section \<open>Receiving\<close>

text \<open>The detail of an error result.\<close>

definition set_detail :: "string \<Rightarrow> ten_cmd_result \<Rightarrow> ten_cmd_result" where
  "set_detail txt r =
     r\<lparr>properties :=
         snd (ten_value_set_from_path_list_with_move (properties r) [PATH_OBJECT_ITEM ''detail'']
               (ten_value_create_string txt))\<rparr>"

text \<open>
  A message that fails its check on the way in: a command is answered with the error, a result
  goes on as an error, and anything else is only not delivered.
\<close>

definition ten_extension_validate_msg_schema ::
  "ten_runtime \<Rightarrow> ten_extension \<Rightarrow> ten_shared_msg \<Rightarrow> ten_error \<Rightarrow>
   (bool \<times> ten_shared_msg \<times> ten_extension \<times> ten_effect list \<times> ten_error) option"
where
  "ten_extension_validate_msg_schema rt self m err =
     (case ten_msg_validate_schema (casts rt) (ext_schemas self) False m err of
        (True, m', err') \<Rightarrow> Some (True, m', self, [], err')
      | (False, m', err') \<Rightarrow>
          (case m' of
             Msg_cmd c \<Rightarrow>
               map_option (\<lambda>(_, self', effects, _). (False, m', self', effects, err'))
                 (ten_env_return_result rt self
                   (set_detail (err_msg err')
                     (ten_cmd_result_create_from_cmd TEN_STATUS_CODE_ERROR (Some c))) c ten_error_init)
           | Msg_result r \<Rightarrow>
               Some (True, Msg_result (r\<lparr>status_code := TEN_STATUS_CODE_ERROR\<rparr>), self, [], err')
           | Msg_data d \<Rightarrow> Some (False, m', self, [], err')))"

text \<open>The path whose result stands for the group of a path.\<close>

definition result_path :: "TEN_PATH_TYPE \<Rightarrow> nat \<Rightarrow> ten_path_table \<Rightarrow> nat option" where
  "result_path ty a t =
     (case path_at t a of
        None \<Rightarrow> None
      | Some p \<Rightarrow>
          (case path_group p of
             None \<Rightarrow> Some a
           | Some g \<Rightarrow> (case ten_path_group_resolve g t of Some b \<Rightarrow> b | None \<Rightarrow> None)))"

definition ten_extension_get_cmd_return_path_from_itself ::
  "ten_path_table \<Rightarrow> string \<Rightarrow> ten_path option"
where
  "ten_extension_get_cmd_return_path_from_itself t id' =
     ten_path_table_find_path_from_cmd_id TEN_PATH_IN (Some id') t"

text \<open>A result that comes in is kept in the IN path of its command too, if there is one.\<close>

definition ten_extension_cache_cmd_result_to_in_path_for_auto_return ::
  "ten_cmd_result \<Rightarrow> ten_path_table \<Rightarrow> (nat option \<times> ten_path_table) option"
where
  "ten_extension_cache_cmd_result_to_in_path_for_auto_return r t =
     (case ten_extension_get_cmd_return_path_from_itself t (cmd_id r) of
        None \<Rightarrow> Some (None, t)
      | Some p \<Rightarrow>
          map_option
            (\<lambda>t'. (if result_conversion p = None then Some (path_addr p) else None, t'))
            (ten_path_set_result (path_addr p) r t))"

abbreviation share_with :: "nat option \<Rightarrow> ten_cmd_result \<Rightarrow> ten_path_table \<Rightarrow> ten_path_table" where
  "share_with a r t \<equiv> (case a of None \<Rightarrow> t | Some b \<Rightarrow> share_result b r t)"

text \<open>A result with a handler is given to it, one without goes on to where the command came from.\<close>

definition deliver_result ::
  "ten_runtime \<Rightarrow> ten_extension \<Rightarrow> ten_cmd_result \<Rightarrow> (ten_extension \<times> ten_effect list) option"
where
  "deliver_result rt self r =
     (case result_handler r of
        Some h \<Rightarrow> Some (self, [Call_result_handler h r])
      | None \<Rightarrow> without_outcome (ten_env_return_result_directly rt self r ten_error_init))"

definition handle_in_result ::
  "ten_runtime \<Rightarrow> ten_extension \<Rightarrow> ten_cmd_result \<Rightarrow> (ten_extension \<times> ten_effect list) option"
where
  "handle_in_result rt self r =
     (case ten_path_table_set_result TEN_PATH_OUT r (ext_paths self) of
        None \<Rightarrow> None
      | Some (None, t1) \<Rightarrow> Some (self\<lparr>ext_paths := t1\<rparr>, [])
      | Some (Some a, t1) \<Rightarrow>
          (case ten_path_table_determine_actual_cmd_result TEN_PATH_OUT a (is_final r) t1 of
             None \<Rightarrow> None
           | Some (None, t2) \<Rightarrow> Some (self\<lparr>ext_paths := t2\<rparr>, [])
           | Some (Some r1, t2) \<Rightarrow>
               (case ten_extension_cache_cmd_result_to_in_path_for_auto_return r1 t2 of
                  None \<Rightarrow> None
                | Some (b, t3) \<Rightarrow>
                    (case ten_extension_validate_msg_schema rt (self\<lparr>ext_paths := t3\<rparr>) (Msg_result r1)
                            ten_error_init of
                       Some (True, Msg_result r2, self', _, _) \<Rightarrow>
                         let r3 = ten_msg_clear_dest r2;
                             t4 = share_with b r3
                                    (share_with (result_path TEN_PATH_OUT a t1) r3 (ext_paths self'))
                         in deliver_result rt (self'\<lparr>ext_paths := t4\<rparr>) r3
                     | _ \<Rightarrow> None))))"

text \<open>The IN paths of the commands after conversion.\<close>

fun add_in_paths ::
  "ten_runtime \<Rightarrow> nat \<Rightarrow> (ten_shared_msg \<times> ten_msg_conversion option) list \<Rightarrow> ten_path_table \<Rightarrow>
   (nat list \<times> ten_shared_msg list \<times> ten_path_table) option"
where
  "add_in_paths rt i [] t = Some ([], [], t)"
| "add_in_paths rt i ((m, conversion) # ms) t =
     (case m of
        Msg_cmd c \<Rightarrow>
          if create_in_path (msg_type c)
          then (case ten_path_table_add_in_path (clock rt i) (uuids rt i) c conversion t of
                  None \<Rightarrow> None
                | Some (a, c', t') \<Rightarrow>
                    map_option (\<lambda>(as, ms', t''). (a # as, Msg_cmd c' # ms', t''))
                      (add_in_paths rt (Suc i) ms t'))
          else map_option (\<lambda>(as, ms', t'). (as, m # ms', t')) (add_in_paths rt (Suc i) ms t)
      | _ \<Rightarrow> map_option (\<lambda>(as, ms', t'). (as, m # ms', t')) (add_in_paths rt (Suc i) ms t))"

fun validate_in_msgs ::
  "ten_runtime \<Rightarrow> ten_extension \<Rightarrow> ten_shared_msg list \<Rightarrow> ten_error \<Rightarrow>
   (ten_shared_msg list option \<times> ten_extension \<times> ten_effect list) option"
where
  "validate_in_msgs rt self [] err = Some (Some [], self, [])"
| "validate_in_msgs rt self (m # ms) err =
     (case ten_extension_validate_msg_schema rt self m err of
        None \<Rightarrow> None
      | Some (False, m', self', effects, err') \<Rightarrow> Some (None, self', effects)
      | Some (True, m', self', effects, err') \<Rightarrow>
          map_option
            (\<lambda>(ms', self'', effects'). (map_option ((#) m') ms', self'', effects @ effects'))
            (validate_in_msgs rt self' ms err'))"

text \<open>The callback is chosen by the type before conversion; a conversion clones, so it keeps the type.\<close>

definition deliver_msg ::
  "ten_runtime \<Rightarrow> TEN_MSG_TYPE \<Rightarrow> ten_extension \<Rightarrow> ten_shared_msg \<Rightarrow>
   (ten_extension \<times> ten_effect list) option"
where
  "deliver_msg rt ty self m =
     (case set_dest [] m of
        Msg_cmd c \<Rightarrow>
          if ty = TEN_MSG_TYPE_CMD \<or> ty = TEN_MSG_TYPE_CMD_TIMEOUT
          then ten_extension_on_cmd rt self c else Some (self, [])
      | Msg_data d \<Rightarrow>
          (case ty of
             TEN_MSG_TYPE_DATA \<Rightarrow> ten_extension_on_data rt self d
           | TEN_MSG_TYPE_VIDEO_FRAME \<Rightarrow> ten_extension_on_video_frame rt self d
           | TEN_MSG_TYPE_AUDIO_FRAME \<Rightarrow> ten_extension_on_audio_frame rt self d
           | _ \<Rightarrow> Some (self, []))
      | Msg_result r \<Rightarrow> deliver_result rt self r)"

fun deliver_msgs ::
  "ten_runtime \<Rightarrow> TEN_MSG_TYPE \<Rightarrow> ten_extension \<Rightarrow> ten_shared_msg list \<Rightarrow>
   (ten_extension \<times> ten_effect list) option"
where
  "deliver_msgs rt ty self [] = Some (self, [])"
| "deliver_msgs rt ty self (m # ms) =
     (case deliver_msg rt ty self m of
        None \<Rightarrow> None
      | Some (self', effects) \<Rightarrow>
          map_option (\<lambda>(self'', effects'). (self'', effects @ effects'))
            (deliver_msgs rt ty self' ms))"

definition converted_msgs ::
  "ten_extension \<Rightarrow> ten_shared_msg \<Rightarrow> (ten_shared_msg \<times> ten_msg_conversion option) list"
where
  "converted_msgs self m =
     (if ten_msg_get_type m \<in>
           {TEN_MSG_TYPE_CMD, TEN_MSG_TYPE_DATA, TEN_MSG_TYPE_VIDEO_FRAME, TEN_MSG_TYPE_AUDIO_FRAME}
      then case Option.bind (ext_info self) msg_conversions of
             Some convert \<Rightarrow> convert m
           | None \<Rightarrow> [(m, None)]
      else [(m, None)])"

definition handle_in_request ::
  "ten_runtime \<Rightarrow> ten_extension \<Rightarrow> ten_shared_msg \<Rightarrow> (ten_extension \<times> ten_effect list) option"
where
  "handle_in_request rt self m =
     (case add_in_paths rt 0 (converted_msgs self m) (ext_paths self) of
        None \<Rightarrow> None
      | Some (as, ms, t) \<Rightarrow>
          (case validate_in_msgs rt (self\<lparr>ext_paths := group_paths as t\<rparr>) ms ten_error_init of
             None \<Rightarrow> None
           | Some (None, self', effects) \<Rightarrow> Some (self', effects)
           | Some (Some ms', self', effects) \<Rightarrow>
               map_option (\<lambda>(self'', effects'). (self'', effects @ effects'))
                 (deliver_msgs rt (ten_msg_get_type m) self' ms')))"

definition ten_extension_handle_in_msg ::
  "ten_runtime \<Rightarrow> ten_extension \<Rightarrow> ten_shared_msg \<Rightarrow> (ten_extension \<times> ten_effect list) option"
where
  "ten_extension_handle_in_msg rt self m =
     (case m of
        Msg_result r \<Rightarrow>
          if ext_state self \<ge> TEN_EXTENSION_STATE_ON_DEINIT then Some (self, [])
          else handle_in_result rt self r
      | _ \<Rightarrow>
          if ext_state self < TEN_EXTENSION_STATE_ON_START_DONE
          then Some (self\<lparr>pending_msgs := pending_msgs self @ [m]\<rparr>, [])
          else if ext_state self \<ge> TEN_EXTENSION_STATE_ON_DEINIT then Some (self, [])
          else handle_in_request rt self m)"

section \<open>Starting\<close>

text \<open>Messages one after the other; the \<open>i\<close>-th has its own time and random ids.\<close>

fun handle_in_msgs ::
  "(nat \<Rightarrow> ten_runtime) \<Rightarrow> nat \<Rightarrow> ten_extension \<Rightarrow> ten_shared_msg list \<Rightarrow>
   (ten_extension \<times> ten_effect list) option"
where
  "handle_in_msgs rts i self [] = Some (self, [])"
| "handle_in_msgs rts i self (m # ms) =
     (case ten_extension_handle_in_msg (rts i) self m of
        None \<Rightarrow> None
      | Some (self', effects) \<Rightarrow>
          map_option (\<lambda>(self'', effects'). (self'', effects @ effects'))
            (handle_in_msgs rts (Suc i) self' ms))"

text \<open>The messages that waited at the thread: those for this extension leave the list.\<close>

definition waits_for :: "ten_extension \<Rightarrow> ten_shared_msg \<Rightarrow> bool" where
  "waits_for self m \<longleftrightarrow> extension_name (hd (ten_msg_get_dest m)) = extension_name (ext_loc self)"

definition ten_extension_flush_all_pending_msgs ::
  "(nat \<Rightarrow> ten_runtime) \<Rightarrow> ten_shared_msg list \<Rightarrow> ten_extension \<Rightarrow>
   (ten_shared_msg list \<times> ten_extension \<times> ten_effect list) option"
where
  "ten_extension_flush_all_pending_msgs rts thread_pending self =
     (if \<exists>m \<in> set thread_pending. ten_msg_get_dest m = [] then None
      else
        let ours = filter (waits_for self) thread_pending in
        case handle_in_msgs rts 0 self ours of
          None \<Rightarrow> None
        | Some (self1, effects1) \<Rightarrow>
            (case handle_in_msgs rts (length ours) self1 (pending_msgs self1) of
               None \<Rightarrow> None
             | Some (self2, effects2) \<Rightarrow>
                 Some (filter (\<lambda>m. \<not> waits_for self m) thread_pending,
                       self2\<lparr>pending_msgs := []\<rparr>, effects1 @ effects2)))"

definition ten_extension_on_start_done ::
  "(nat \<Rightarrow> ten_runtime) \<Rightarrow> ten_shared_msg list \<Rightarrow> ten_extension \<Rightarrow>
   (ten_shared_msg list \<times> ten_extension \<times> ten_effect list) option"
where
  "ten_extension_on_start_done rts thread_pending self =
     ten_extension_flush_all_pending_msgs rts thread_pending
       (self\<lparr>ext_state := TEN_EXTENSION_STATE_ON_START_DONE\<rparr>)"

definition ten_extension_on_start ::
  "(nat \<Rightarrow> ten_runtime) \<Rightarrow> ten_shared_msg list \<Rightarrow> ten_extension \<Rightarrow>
   (ten_shared_msg list \<times> ten_extension \<times> ten_effect list) option"
where
  "ten_extension_on_start rts thread_pending self =
     (let self' = self\<lparr>ext_state := TEN_EXTENSION_STATE_ON_START\<rparr> in
      if has_on_start (ext_callbacks self) then Some (thread_pending, self', [Call_on_start])
      else ten_extension_on_start_done rts thread_pending self')"

definition ten_extension_on_init_done ::
  "(nat \<Rightarrow> ten_runtime) \<Rightarrow> bool \<Rightarrow> ten_shared_msg list \<Rightarrow> ten_extension \<Rightarrow>
   (ten_shared_msg list \<times> ten_extension \<times> ten_effect list) option"
where
  "ten_extension_on_init_done rts is_close_triggered thread_pending self =
     (let self' = self\<lparr>ext_state := TEN_EXTENSION_STATE_ON_INIT_DONE\<rparr> in
      if is_close_triggered then Some (thread_pending, self', [])
      else ten_extension_on_start rts thread_pending self')"

section \<open>Expired paths\<close>

text \<open>Expired IN paths are removed; the groups they are members of are not told.\<close>

definition ten_extension_in_path_timer_on_triggered ::
  "64 word \<Rightarrow> ten_extension \<Rightarrow> ten_extension"
where
  "ten_extension_in_path_timer_on_triggered now self =
     self\<lparr>ext_paths :=
        set_paths TEN_PATH_IN
          (filter (\<lambda>p. \<not> now \<ge> expired_time_us p) (in_paths (ext_paths self))) (ext_paths self)\<rparr>"

definition error_result :: "string \<Rightarrow> ten_path \<Rightarrow> ten_cmd_result" where
  "error_result detail p =
     (set_detail detail (ten_cmd_result_create TEN_STATUS_CODE_ERROR))\<lparr>cmd_id := path_cmd_id p\<rparr>"

text \<open>For expired OUT paths the extension makes up error results and receives them.\<close>

definition ten_extension_out_path_timer_on_triggered ::
  "(nat \<Rightarrow> ten_runtime) \<Rightarrow> 64 word \<Rightarrow> ten_extension \<Rightarrow> (ten_extension \<times> ten_effect list) option"
where
  "ten_extension_out_path_timer_on_triggered rts now self =
     handle_in_msgs rts 0 self
       (map (Msg_result \<circ> error_result ''Path timeout.'')
         (filter (\<lambda>p. now \<ge> expired_time_us p) (out_paths (ext_paths self))))"

section \<open>Closing\<close>

definition ten_extension_on_deinit_done :: "bool \<Rightarrow> ten_extension \<Rightarrow> ten_extension \<times> ten_effect list" where
  "ten_extension_on_deinit_done has_proxies self =
     (if has_proxies then (self, [])
      else if ext_state self = TEN_EXTENSION_STATE_ON_DEINIT_DONE then (self, [])
      else (self\<lparr>ext_state := TEN_EXTENSION_STATE_ON_DEINIT_DONE\<rparr>, [Extension_deleted]))"

definition ten_extension_on_deinit :: "bool \<Rightarrow> ten_extension \<Rightarrow> ten_extension \<times> ten_effect list" where
  "ten_extension_on_deinit has_proxies self =
     (let self' = self\<lparr>ext_state := TEN_EXTENSION_STATE_ON_DEINIT\<rparr> in
      if has_on_deinit (ext_callbacks self) then (self', [Call_on_deinit])
      else ten_extension_on_deinit_done has_proxies self')"

text \<open>Every command that still waits for a result gets one.\<close>

definition ten_extension_thread_process_remaining_paths ::
  "(nat \<Rightarrow> ten_runtime) \<Rightarrow> ten_extension \<Rightarrow> (ten_extension \<times> ten_effect list) option"
where
  "ten_extension_thread_process_remaining_paths rts self =
     handle_in_msgs rts 0
       (self\<lparr>ext_paths := set_paths TEN_PATH_IN [] (ext_paths self)\<rparr>)
       (map (\<lambda>p. Msg_result (error_result (path_cmd_id p) p)) (out_paths (ext_paths self)))"

definition ten_extension_do_close ::
  "(nat \<Rightarrow> ten_runtime) \<Rightarrow> bool \<Rightarrow> ten_extension \<Rightarrow> (ten_extension \<times> ten_effect list) option"
where
  "ten_extension_do_close rts has_proxies self =
     (case ten_extension_thread_process_remaining_paths rts self of
        None \<Rightarrow> None
      | Some (self1, effects1) \<Rightarrow>
          (case ten_extension_on_deinit has_proxies self1 of
             (self2, effects2) \<Rightarrow> Some (self2, effects1 @ effects2)))"

definition ten_extension_could_be_closed :: "ten_extension \<Rightarrow> bool" where
  "ten_extension_could_be_closed self \<longleftrightarrow> path_timers self = []"

definition ten_extension_on_timer_closed ::
  "(nat \<Rightarrow> ten_runtime) \<Rightarrow> bool \<Rightarrow> nat \<Rightarrow> ten_extension \<Rightarrow> (ten_extension \<times> ten_effect list) option"
where
  "ten_extension_on_timer_closed rts has_proxies timer self =
     (let self' = self\<lparr>path_timers := remove1 timer (path_timers self)\<rparr> in
      if ten_extension_could_be_closed self' then ten_extension_do_close rts has_proxies self'
      else Some (self', []))"

definition ten_extension_do_pre_close_action ::
  "(nat \<Rightarrow> ten_runtime) \<Rightarrow> bool \<Rightarrow> ten_extension \<Rightarrow> (ten_extension \<times> ten_effect list) option"
where
  "ten_extension_do_pre_close_action rts has_proxies self =
     (let stopped = map Stop_timer (path_timers self) in
      if ten_extension_could_be_closed self
      then map_option (\<lambda>(self', effects). (self', stopped @ effects))
             (ten_extension_do_close rts has_proxies self)
      else Some (self, stopped))"

definition ten_extension_on_stop_done ::
  "(nat \<Rightarrow> ten_runtime) \<Rightarrow> bool \<Rightarrow> ten_extension \<Rightarrow> (ten_extension \<times> ten_effect list) option"
where
  "ten_extension_on_stop_done rts has_proxies self =
     ten_extension_do_pre_close_action rts has_proxies
       (self\<lparr>ext_state := TEN_EXTENSION_STATE_ON_STOP_DONE\<rparr>)"

definition ten_extension_on_stop ::
  "(nat \<Rightarrow> ten_runtime) \<Rightarrow> bool \<Rightarrow> ten_extension \<Rightarrow> (ten_extension \<times> ten_effect list) option"
where
  "ten_extension_on_stop rts has_proxies self =
     (if has_on_stop (ext_callbacks self) then Some (self, [Call_on_stop])
      else ten_extension_on_stop_done rts has_proxies self)"

end
