(* ===== verification/Extension_Facts.thy ===== *)
theory Extension_Facts
  imports Ten_Extension Path_Result
begin

text \<open>
  What every operation of an extension keeps: the path table stays well-formed, and nothing
  but the table, the pending messages and the state changes.
\<close>

section \<open>Path tables that grow\<close>

definition paths_ok :: "ten_path_table \<Rightarrow> bool" where
  "paths_ok t \<longleftrightarrow> table_ok t \<and> (\<forall>p \<in> set (all_paths t). convertible p)"

lemma paths_ok_steps:
  assumes "paths_ok t" and "steps_to t t'"
  shows "paths_ok t'"
proof -
  have "convertible q" if "q \<in> set (all_paths t')" for q
  proof -
    from that have "q \<in> set (paths_of TEN_PATH_IN t') \<or> q \<in> set (paths_of TEN_PATH_OUT t')"
      by (auto simp: all_paths_def paths_of_def)
    then obtain ty where "q \<in> set (paths_of ty t')" by blast
    with steps_to_paths [OF assms(2), of ty] obtain p where p: "p \<in> set (paths_of ty t)" "recached p q"
      by (auto elim: thinned_in)
    with assms(1) paths_of_subset have "convertible p" by (auto simp: paths_ok_def)
    with recached_fields(5) [OF p(2)] show ?thesis by (simp add: convertible_def)
  qed
  with steps_to_ok [OF assms(2)] show ?thesis by (simp add: paths_ok_def)
qed

lemma paths_ok_convertible: "paths_ok t \<Longrightarrow> p \<in> set (paths_of ty t) \<Longrightarrow> convertible p"
  using paths_of_subset by (auto simp: paths_ok_def)

lemma steps_to_share:
  assumes "table_ok t"
  shows "steps_to t (share_result a r t)"
proof -
  let ?f = "\<lambda>p. if cached_cmd_result p = None then p else p\<lparr>cached_cmd_result := Some r\<rparr>"
  have "\<forall>p. recached p (on_path a ?f p)" by simp
  then have "thinned ps (map (on_path a ?f) ps)" for ps
    unfolding thinned_def by (intro exI [of _ "\<lambda>_. True"] exI [of _ "on_path a ?f"]) simp
  then show ?thesis
    unfolding steps_to_def share_result_def
    using table_ok_update [OF assms, of ?f a] by (simp add: update_path_def)
qed

lemma share_result_paths:
  assumes "p \<in> set (paths_of ty t)" and "\<not> pending p"
  shows "\<exists>q \<in> set (paths_of ty (share_result a r t)). path_addr q = path_addr p \<and> \<not> pending q"
proof -
  let ?f = "\<lambda>p. if cached_cmd_result p = None then p else p\<lparr>cached_cmd_result := Some r\<rparr>"
  have "on_path a ?f p \<in> set (paths_of ty (share_result a r t))"
    unfolding share_result_def paths_of_update set_map by (rule image_eqI [OF refl assms(1)])
  with assms(2) show ?thesis by (intro bexI [of _ "on_path a ?f p"]) (auto simp: pending_def)
qed

lemma groups_ok_other:
  assumes "groups_ok G ps" and "\<And>p. p \<in> set ps \<Longrightarrow> path_group p \<noteq> Some g"
  shows "groups_ok (G(g := x)) ps"
  using assms by (auto simp: groups_ok_def group_ok_def)

lemma groups_ok_snoc:
  assumes "groups_ok G ps" and "path_group p = None"
  shows "groups_ok G (ps @ [p])"
proof -
  have "{q \<in> set (ps @ [p]). path_group q = Some g} = {q \<in> set ps. path_group q = Some g}" for g
    using assms(2) by auto
  with assms show ?thesis by (auto simp: groups_ok_def group_ok_def)
qed

lemma push_path_ok:
  assumes "paths_ok t" and "path_addr p = next_addr t" and "path_group p = None" and "convertible p"
  shows "paths_ok (push_path ty p t)"
proof -
  note ok = table_okD [OF conjunct1 [OF assms(1) [unfolded paths_ok_def]]]
  have all: "set (all_paths (push_path ty p t)) = insert p (set (all_paths t))"
    by (auto simp: all_paths_def push_path_def set_paths_def paths_of_def)
  have fresh: "path_addr p \<notin> set (map path_addr (all_paths t))" using ok(2) assms(2) by fastforce
  have "table_ok (push_path ty p t)"
  proof (rule table_okI)
    show "distinct (map path_addr (all_paths (push_path ty p t)))"
      using ok(1) fresh
      by (simp add: all_paths_def push_path_def set_paths_def paths_of_def)
    show "path_addr q < next_addr (push_path ty p t)" if "q \<in> set (all_paths (push_path ty p t))" for q
      using that ok(2) assms(2) unfolding all by (auto simp: push_path_def less_Suc_eq)
    show "g < next_addr (push_path ty p t)"
      if "q \<in> set (all_paths (push_path ty p t))" "path_group q = Some g" for q g
      using that ok(3) assms(3) unfolding all by (auto simp: push_path_def less_Suc_eq)
    show "groups_ok (path_groups (push_path ty p t)) (in_paths (push_path ty p t))"
      "groups_ok (path_groups (push_path ty p t)) (out_paths (push_path ty p t))"
      using ok(4,5) assms(3)
      by (simp_all add: push_path_def set_paths_def paths_of_def groups_ok_snoc)
  qed
  with all assms(1,4) show ?thesis by (auto simp: paths_ok_def)
qed

text \<open>A new group of paths that are in none.\<close>

lemma fold_update_path:
  "fold (\<lambda>a. update_path a f) as t =
   t\<lparr>in_paths := map (\<lambda>p. fold (\<lambda>a. on_path a f) as p) (in_paths t),
     out_paths := map (\<lambda>p. fold (\<lambda>a. on_path a f) as p) (out_paths t)\<rparr>"
  by (induction as arbitrary: t) (simp_all add: update_path_def comp_def)

lemma fold_on_path:
  assumes "\<And>p. path_addr (f p) = path_addr p" and "\<And>p. f (f p) = f p"
  shows "fold (\<lambda>a. on_path a f) as p = (if path_addr p \<in> set as then f p else p)"
  by (induction as arbitrary: p) (auto simp: assms)

definition join_group :: "nat list \<Rightarrow> nat \<Rightarrow> ten_path \<Rightarrow> ten_path" where
  "join_group as g p = (if path_addr p \<in> set as then p\<lparr>path_group := Some g\<rparr> else p)"

lemma join_group_fields [simp]:
  "path_addr (join_group as g p) = path_addr p"
  "path_group (join_group as g p) = (if path_addr p \<in> set as then Some g else path_group p)"
  "result_conversion (join_group as g p) = result_conversion p"
  "cached_cmd_result (join_group as g p) = cached_cmd_result p"
  "path_cmd_id (join_group as g p) = path_cmd_id p"
  by (simp_all add: join_group_def)

lemma create_group_eq:
  "ten_paths_create_group as pol t =
   t\<lparr>in_paths := map (join_group as (next_addr t)) (in_paths t),
     out_paths := map (join_group as (next_addr t)) (out_paths t),
     path_groups := (path_groups t)(next_addr t \<mapsto> (ten_path_group_create pol)\<lparr>members := as\<rparr>),
     next_addr := Suc (next_addr t)\<rparr>"
  unfolding ten_paths_create_group_def fold_update_path
  by (simp add: fold_on_path join_group_def)

lemma groups_ok_join:
  assumes ok: "groups_ok G ps" and new: "\<And>p. p \<in> set ps \<Longrightarrow> path_group p \<noteq> Some g"
    and free: "\<And>p. p \<in> set ps \<Longrightarrow> path_addr p \<in> set as \<Longrightarrow> path_group p = None"
    and here: "set as \<subseteq> path_addr ` set ps" and dist: "distinct as"
    and pol: "pol \<noteq> TEN_PATH_GROUP_POLICY_INVALID"
  shows "groups_ok (G(g \<mapsto> (ten_path_group_create pol)\<lparr>members := as\<rparr>)) (map (join_group as g) ps)"
  unfolding groups_ok_def
proof (intro ballI allI impI)
  let ?G = "G(g \<mapsto> (ten_path_group_create pol)\<lparr>members := as\<rparr>)" and ?ps = "map (join_group as g) ps"
  fix p g'
  assume "p \<in> set ?ps" and g': "path_group p = Some g'"
  then obtain q where q: "q \<in> set ps" "p = join_group as g q" by auto
  have addrs: "path_addr ` {q \<in> set ?ps. path_group q = Some x} =
      path_addr ` {q \<in> set ps. path_group (join_group as g q) = Some x}" for x
  proof -
    have "{q \<in> set ?ps. path_group q = Some x} =
        join_group as g ` {q \<in> set ps. path_group (join_group as g q) = Some x}"
      unfolding set_map by blast
    then show ?thesis by (simp only: image_image join_group_fields(1))
  qed
  show "group_ok ?G ?ps g'"
  proof (cases "g' = g")
    case True
    have "{q \<in> set ps. path_group (join_group as g q) = Some g} = {q \<in> set ps. path_addr q \<in> set as}"
      using new by (simp only: join_group_fields) auto
    then have "path_addr ` {q \<in> set ?ps. path_group q = Some g} = set as"
      unfolding addrs using here by auto
    then show ?thesis using True dist pol by (simp add: group_ok_def ten_path_group_create_def)
  next
    case False
    with q g' have old: "path_group q = Some g'" by (simp split: if_splits)
    with ok q(1) have grp: "group_ok G ps g'" by (auto simp: groups_ok_def)
    have "{q \<in> set ps. path_group (join_group as g q) = Some g'} = {q \<in> set ps. path_group q = Some g'}"
      using False free by (simp only: join_group_fields) (auto split: if_splits)
    with grp False show ?thesis by (simp only: group_ok_def addrs) simp
  qed
qed

lemma create_group_ok:
  assumes ok: "paths_ok t" and dist: "distinct as" and pol: "pol \<noteq> TEN_PATH_GROUP_POLICY_INVALID"
    and here: "set as \<subseteq> path_addr ` {p \<in> set (paths_of ty t). path_group p = None}"
  shows "paths_ok (ten_paths_create_group as pol t)"
proof -
  let ?g = "next_addr t"
  have table: "table_ok t" using ok by (simp add: paths_ok_def)
  note old = table_okD [OF table]
  have addrs: "set (map path_addr (in_paths t)) \<inter> set (map path_addr (out_paths t)) = {}"
    using old(1) by (simp add: all_paths_def)
  have new: "path_group p \<noteq> Some ?g" if "p \<in> set (all_paths t)" for p
    using old(3) [OF that, of ?g] by auto
  have free: "path_group p = None" if "p \<in> set (paths_of ty' t)" "path_addr p \<in> set as" for ty' p
  proof -
    note p = that
    from subsetD [OF here p(2)] obtain q where q: "path_addr p = path_addr q"
      "q \<in> {p \<in> set (paths_of ty t). path_group p = None}" by (rule imageE)
    then have "q \<in> set (paths_of ty t)" by simp
    note at = path_of_list [OF table p(1)] path_of_list [OF table this]
    have "Some p = Some q"
      using at unfolding q(1) by (rule trans [OF sym])
    with q(2) show ?thesis by simp
  qed
  have lists: "groups_ok ((path_groups t)(?g \<mapsto> (ten_path_group_create pol)\<lparr>members := as\<rparr>))
      (map (join_group as ?g) (paths_of ty' t))" for ty'
  proof (cases "paths_of ty' t = paths_of ty t")
    case True
    have here': "set as \<subseteq> path_addr ` set (paths_of ty t)" using here by auto
    show ?thesis
      unfolding True
    proof (rule groups_ok_join [OF table_ok_lists(2) [OF table] _ _ here' dist pol])
      fix p
      assume p: "p \<in> set (paths_of ty t)"
      then show "path_group p \<noteq> Some ?g" using new paths_of_subset by blast
      show "path_group p = None" if "path_addr p \<in> set as" by (rule free [OF p that])
    qed
  next
    case False
    then have lists: "{paths_of ty' t, paths_of ty t} = {in_paths t, out_paths t}"
      by (auto simp: paths_of_def split: if_splits)
    have "path_addr p \<notin> set as" if "p \<in> set (paths_of ty' t)" for p
    proof
      assume "path_addr p \<in> set as"
      with here have "path_addr p \<in> set (map path_addr (paths_of ty t))" by auto
      moreover have "path_addr p \<in> set (map path_addr (paths_of ty' t))" using that by simp
      ultimately show False using addrs lists by (auto simp only: doubleton_eq_iff)
    qed
    then have "map (join_group as ?g) (paths_of ty' t) = paths_of ty' t"
      by (intro map_idI) (simp add: join_group_def)
    moreover have "groups_ok ((path_groups t)(?g \<mapsto> x)) (paths_of ty' t)" for x
      by (rule groups_ok_other [OF table_ok_lists(2) [OF table]]) (use new paths_of_subset in blast)
    ultimately show ?thesis by simp
  qed
  have all: "all_paths (ten_paths_create_group as pol t) = map (join_group as ?g) (all_paths t)"
    by (simp add: create_group_eq all_paths_def)
  have "table_ok (ten_paths_create_group as pol t)"
  proof (rule table_okI)
    have "map path_addr (map (join_group as ?g) ps) = map path_addr ps" for ps
      by (simp add: comp_def)
    then show "distinct (map path_addr (all_paths (ten_paths_create_group as pol t)))"
      using old(1) unfolding all by (simp only:)
    fix p
    assume "p \<in> set (all_paths (ten_paths_create_group as pol t))"
    then obtain q where q: "q \<in> set (all_paths t)" "p = join_group as ?g q" unfolding all by auto
    show "path_addr p < next_addr (ten_paths_create_group as pol t)"
      using old(2) [OF q(1)] q(2) by (simp add: create_group_eq)
    show "g < next_addr (ten_paths_create_group as pol t)" if "path_group p = Some g" for g
      using old(3) [OF q(1)] q(2) that by (auto simp: create_group_eq less_Suc_eq split: if_splits)
  next
    show "groups_ok (path_groups (ten_paths_create_group as pol t)) (in_paths (ten_paths_create_group as pol t))"
      "groups_ok (path_groups (ten_paths_create_group as pol t)) (out_paths (ten_paths_create_group as pol t))"
      using lists [of TEN_PATH_IN] lists [of TEN_PATH_OUT]
      by (simp_all add: create_group_eq paths_of_def)
  qed
  moreover have "convertible p" if "p \<in> set (all_paths (ten_paths_create_group as pol t))" for p
    using that ok unfolding all by (auto simp: paths_ok_def convertible_def)
  ultimately show ?thesis by (simp add: paths_ok_def)
qed

section \<open>New paths for messages\<close>

text \<open>Paths appended to one list of a table, and nothing else.\<close>

definition appended :: "TEN_PATH_TYPE \<Rightarrow> ten_path list \<Rightarrow> ten_path_table \<Rightarrow> ten_path_table \<Rightarrow> bool" where
  "appended ty ps t t' \<longleftrightarrow>
     t' = (set_paths ty (paths_of ty t @ ps) t)\<lparr>next_addr := next_addr t + length ps\<rparr> \<and>
     map path_addr ps = [next_addr t..<next_addr t + length ps] \<and>
     (\<forall>p \<in> set ps. path_group p = None \<and> cached_cmd_result p = None)"

lemma set_paths_twice:
  "set_paths ty qs (set_paths ty ps t) = set_paths ty qs t"
  "set_paths ty (paths_of ty t) t = t"
  "paths_of ty (t\<lparr>next_addr := n\<rparr>) = paths_of ty t"
  "set_paths ty ps (t\<lparr>next_addr := n\<rparr>) = (set_paths ty ps t)\<lparr>next_addr := n\<rparr>"
  by (simp_all add: set_paths_def paths_of_def)

lemma appended_none: "appended ty [] t t"
  by (simp add: appended_def set_paths_twice)

lemma appended_push:
  assumes "path_addr p = next_addr t" and "path_group p = None" and "cached_cmd_result p = None"
    and "appended ty ps (push_path ty p t) t'"
  shows "appended ty (p # ps) t t'"
proof -
  have "[next_addr t..<Suc (next_addr t + length ps)] =
      next_addr t # [Suc (next_addr t)..<Suc (next_addr t) + length ps]"
    by (simp add: upt_rec)
  with assms show ?thesis
    by (simp add: appended_def push_path_def set_paths_twice paths_of_set_paths)
qed

definition new_out_path :: "64 word \<Rightarrow> ten_cmd_base \<Rightarrow> ten_path_table \<Rightarrow> ten_path" where
  "new_out_path now c t =
     ten_path_set_expired_time
       (get_expired_time now (ten_path_table_get_path_timeout_duration TEN_PATH_OUT t))
       (ten_path_out_create (next_addr t) (msg_name c) (ten_cmd_base_get_parent_cmd_id c) (cmd_id c)
         (src_loc c) (hd (dest_loc c)) (result_handler c))"

definition new_in_path ::
  "64 word \<Rightarrow> ten_cmd_base \<Rightarrow> ten_msg_conversion option \<Rightarrow> ten_path_table \<Rightarrow> ten_path"
where
  "new_in_path now c conversion t =
     ten_path_set_expired_time
       (get_expired_time now (ten_path_table_get_path_timeout_duration TEN_PATH_IN t))
       (ten_path_in_create (next_addr t) (msg_name c) (ten_cmd_base_get_parent_cmd_id c) (cmd_id c)
         (src_loc c) (hd (dest_loc c)) conversion)"

text \<open>The command that an IN path is made for: its id is a new one if the id is taken.\<close>

definition in_path_cmd :: "string \<Rightarrow> ten_cmd_base \<Rightarrow> ten_path_table \<Rightarrow> ten_cmd_base" where
  "in_path_cmd uuid c t =
     (if ten_path_table_find_path_from_cmd_id TEN_PATH_IN (Some (cmd_id c)) t \<noteq> None \<and>
         ten_raw_msg_is_cmd (msg_type c) \<and> msg_type c = TEN_MSG_TYPE_CMD
      then ten_cmd_base_gen_new_cmd_id_forcibly uuid (ten_cmd_base_save_cmd_id_to_parent_cmd_id c)
      else c)"

lemma new_path_fields [simp]:
  "path_addr (new_out_path now c t) = next_addr t" "path_group (new_out_path now c t) = None"
  "cached_cmd_result (new_out_path now c t) = None" "result_conversion (new_out_path now c t) = None"
  "path_cmd_id (new_out_path now c t) = cmd_id c" "path_src_loc (new_out_path now c t) = src_loc c"
  "path_cmd_name (new_out_path now c t) = msg_name c" "original_cmd_id (new_out_path now c t) = parent_cmd_id c"
  "path_result_handler (new_out_path now c t) = result_handler c"
  "path_addr (new_in_path now c f t) = next_addr t" "path_group (new_in_path now c f t) = None"
  "cached_cmd_result (new_in_path now c f t) = None" "result_conversion (new_in_path now c f t) = f"
  "path_cmd_id (new_in_path now c f t) = cmd_id c" "path_src_loc (new_in_path now c f t) = src_loc c"
  "path_cmd_name (new_in_path now c f t) = msg_name c" "original_cmd_id (new_in_path now c f t) = parent_cmd_id c"
  by (simp_all add: new_out_path_def new_in_path_def ten_path_set_expired_time_def
        ten_path_out_create_def ten_path_in_create_def ten_path_init_def
        ten_cmd_base_get_parent_cmd_id_def)

lemma in_path_cmd_fields [simp]:
  "msg_name (in_path_cmd uuid c t) = msg_name c" "src_loc (in_path_cmd uuid c t) = src_loc c"
  "dest_loc (in_path_cmd uuid c t) = dest_loc c" "msg_type (in_path_cmd uuid c t) = msg_type c"
  "properties (in_path_cmd uuid c t) = properties c" "seq_id (in_path_cmd uuid c t) = seq_id c"
  by (simp_all add: in_path_cmd_def ten_cmd_base_gen_new_cmd_id_forcibly_def
        ten_cmd_base_save_cmd_id_to_parent_cmd_id_def)

lemma add_out_path_eq:
  assumes "dest_loc c \<noteq> []"
  shows "ten_path_table_add_out_path now c t =
    Some (next_addr t, ten_cmd_base_set_result_handler None (ten_cmd_base_reset_parent_cmd_id c),
          push_path TEN_PATH_OUT (new_out_path now c t) t)"
  using assms by (cases "dest_loc c") (simp_all add: ten_path_table_add_out_path_def new_out_path_def Let_def)

lemma add_in_path_eq:
  assumes "dest_loc c \<noteq> []"
  shows "ten_path_table_add_in_path now uuid c conversion t =
    Some (next_addr t, ten_cmd_base_reset_parent_cmd_id (in_path_cmd uuid c t),
          push_path TEN_PATH_IN (new_in_path now (in_path_cmd uuid c t) conversion t) t)"
proof -
  obtain d ds where d: "dest_loc c = d # ds" using assms by (cases "dest_loc c") auto
  then have "dest_loc (in_path_cmd uuid c t) = d # ds" by simp
  then show ?thesis
    unfolding ten_path_table_add_in_path_def new_in_path_def in_path_cmd_def [symmetric] Let_def
    by simp
qed

lemma add_out_paths_ok:
  assumes "paths_ok t" and "\<forall>m \<in> set ms. ten_msg_get_dest m \<noteq> []"
  shows "\<exists>ps ms' t'. add_out_paths now i ms t = Some (map path_addr ps, ms', t') \<and>
    appended TEN_PATH_OUT ps t t' \<and> paths_ok t'"
  using assms
proof (induction ms arbitrary: i t)
  case Nil
  then show ?case using appended_none by (intro exI [of _ "[]"]) auto
next
  case (Cons m ms)
  have rest: "\<forall>m \<in> set ms. ten_msg_get_dest m \<noteq> []" using Cons.prems(2) by simp
  show ?case
  proof (cases m)
    case (Msg_cmd c)
    with Cons.prems(2) have "dest_loc c \<noteq> []" by simp
    note added = add_out_path_eq [OF this, of "now i" t]
    let ?p = "new_out_path (now i) c t"
    have p: "path_addr ?p = next_addr t" "path_group ?p = None" "cached_cmd_result ?p = None" "convertible ?p"
      by (simp_all add: convertible_def)
    from Cons.IH [OF push_path_ok [OF Cons.prems(1) p(1,2,4)] rest] obtain ps ms' t' where
      "add_out_paths now (Suc i) ms (push_path TEN_PATH_OUT ?p t) = Some (map path_addr ps, ms', t')"
      "appended TEN_PATH_OUT ps (push_path TEN_PATH_OUT ?p t) t'" "paths_ok t'" by blast
    with added appended_push [OF p(1-3)] Msg_cmd show ?thesis
      by (intro exI [of _ "?p # ps"]) auto
  qed (use Cons.IH [OF Cons.prems(1) rest, of "Suc i"] in fastforce)+
qed

text \<open>The messages that come in, after conversion.\<close>

fun msg_in_ok :: "ten_shared_msg \<times> ten_msg_conversion option \<Rightarrow> bool" where
  "msg_in_ok (Msg_cmd c, conversion) \<longleftrightarrow>
     dest_loc c \<noteq> [] \<and> (\<forall>f r. conversion = Some f \<longrightarrow> (\<exists>r'. f r = Inr r'))"
| "msg_in_ok (Msg_data d, conversion) \<longleftrightarrow> True"
| "msg_in_ok (Msg_result r, conversion) \<longleftrightarrow> False"

lemma add_in_paths_ok:
  assumes "paths_ok t" and "\<forall>x \<in> set ms. msg_in_ok x"
  shows "\<exists>ps ms' t'. add_in_paths rt i ms t = Some (map path_addr ps, ms', t') \<and>
    appended TEN_PATH_IN ps t t' \<and> paths_ok t' \<and> (\<forall>m \<in> set ms'. \<forall>r. m \<noteq> Msg_result r)"
  using assms
proof (induction ms arbitrary: i t)
  case Nil
  then show ?case using appended_none by (intro exI [of _ "[]"]) auto
next
  case (Cons x ms)
  obtain m conversion where x: "x = (m, conversion)" by (cases x)
  have rest: "\<forall>x \<in> set ms. msg_in_ok x" using Cons.prems(2) by simp
  show ?case
  proof (cases m)
    case (Msg_cmd c)
    show ?thesis
    proof (cases "create_in_path (msg_type c)")
      case True
      have "dest_loc c \<noteq> []" and conv: "\<forall>f r. conversion = Some f \<longrightarrow> (\<exists>r'. f r = Inr r')"
        using Cons.prems(2) x Msg_cmd by auto
      note added = add_in_path_eq [OF this(1), of "clock rt i" "uuids rt i" conversion t]
      let ?p = "new_in_path (clock rt i) (in_path_cmd (uuids rt i) c t) conversion t"
      have p: "path_addr ?p = next_addr t" "path_group ?p = None" "cached_cmd_result ?p = None" "convertible ?p"
        using conv by (simp_all add: convertible_def)
      from Cons.IH [OF push_path_ok [OF Cons.prems(1) p(1,2,4)] rest] obtain ps ms' t' where
        "add_in_paths rt (Suc i) ms (push_path TEN_PATH_IN ?p t) = Some (map path_addr ps, ms', t')"
        "appended TEN_PATH_IN ps (push_path TEN_PATH_IN ?p t) t'" "paths_ok t'"
        "\<forall>m \<in> set ms'. \<forall>r. m \<noteq> Msg_result r" by blast
      with added appended_push [OF p(1-3)] Msg_cmd x True show ?thesis
        by (intro exI [of _ "?p # ps"]) auto
    next
      case False
      with Cons.IH [OF Cons.prems(1) rest, of "Suc i"] Msg_cmd x show ?thesis by fastforce
    qed
  qed (use Cons.IH [OF Cons.prems(1) rest, of "Suc i"] Cons.prems(2) x in fastforce)+
qed

lemma group_paths_ok:
  assumes "paths_ok t" and "appended ty ps t t'" and "paths_ok t'"
  shows "paths_ok (group_paths (map path_addr ps) t')"
proof (cases "1 < length ps")
  case True
  have "paths_ok (ten_paths_create_group (map path_addr ps)
      TEN_PATH_GROUP_POLICY_ONE_FAIL_RETURN_AND_ALL_OK_RETURN_LAST t')"
  proof (rule create_group_ok [OF assms(3)])
    show "distinct (map path_addr ps)" using assms(2) by (simp add: appended_def)
    show "set (map path_addr ps) \<subseteq> path_addr ` {p \<in> set (paths_of ty t'). path_group p = None}"
      unfolding set_map
    proof (rule image_mono)
      show "set ps \<subseteq> {p \<in> set (paths_of ty t'). path_group p = None}"
        using assms(2) by (auto simp: appended_def set_paths_twice paths_of_set_paths)
    qed
  qed simp
  with True show ?thesis by (simp add: group_paths_def)
qed (use assms(3) in \<open>simp add: group_paths_def\<close>)

section \<open>Operations that are safe\<close>

text \<open>An operation succeeds, and of the extension only the path table changes.\<close>

definition only_paths :: "ten_extension \<Rightarrow> ten_extension \<Rightarrow> bool" where
  "only_paths self self' \<longleftrightarrow> (\<exists>t. self' = self\<lparr>ext_paths := t\<rparr> \<and> paths_ok t)"

lemma only_paths_refl: "paths_ok (ext_paths self) \<Longrightarrow> only_paths self self"
  unfolding only_paths_def by (rule exI [of _ "ext_paths self"]) simp

lemma only_paths_trans: "only_paths a b \<Longrightarrow> only_paths b c \<Longrightarrow> only_paths a c"
  unfolding only_paths_def by auto

lemma only_paths_set: "paths_ok t \<Longrightarrow> only_paths self (self\<lparr>ext_paths := t\<rparr>)"
  unfolding only_paths_def by blast

lemma only_paths_fields:
  assumes "only_paths self self'"
  shows "paths_ok (ext_paths self')" "ext_info self' = ext_info self" "ext_state self' = ext_state self"
    "ext_callbacks self' = ext_callbacks self" "ext_schemas self' = ext_schemas self"
    "pending_msgs self' = pending_msgs self" "ext_loc self' = ext_loc self"
    "path_timers self' = path_timers self"
  using assms by (auto simp: only_paths_def)

text \<open>Messages that have a clone.\<close>

definition clonable :: "ten_shared_msg \<Rightarrow> bool" where
  "clonable m \<longleftrightarrow> (\<forall>u. clone_shared u m \<noteq> None)"

lemma msgs_for_dests_ok:
  assumes "clonable m"
  shows "\<exists>ms. msgs_for_dests ids m i ds = Some ms \<and> (\<forall>m \<in> set ms. ten_msg_get_dest m \<noteq> [])"
proof (induction ds arbitrary: i)
  case (Cons d ds)
  obtain ms where ms: "msgs_for_dests ids m (Suc i) ds = Some ms" "\<forall>m \<in> set ms. ten_msg_get_dest m \<noteq> []"
    using Cons by blast
  obtain m' where "(if need_to_clone_msg_when_sending i then clone_shared (ids i) m else Some m) = Some m'"
    using assms by (cases "need_to_clone_msg_when_sending i") (auto simp: clonable_def)
  moreover have "ten_msg_get_dest (set_dest [d] m') \<noteq> []" by (cases m') simp_all
  ultimately show ?case using ms by simp
qed simp

lemma set_dest_simps [simp]:
  "ten_msg_get_dest (set_dest ds m) = ds" "ten_msg_get_type (set_dest ds m) = ten_msg_get_type m"
  "ten_msg_get_name (set_dest ds m) = ten_msg_get_name m" "clonable (set_dest ds m) = clonable m"
  by (cases m; simp add: clonable_def)+

lemma set_src_simps [simp]:
  "ten_msg_get_dest (set_src l m) = ten_msg_get_dest m" "ten_msg_get_type (set_src l m) = ten_msg_get_type m"
  "ten_msg_get_name (set_src l m) = ten_msg_get_name m" "clonable (set_src l m) = clonable m"
  by (cases m; simp add: clonable_def ten_msg_set_src_to_loc_def)+

text \<open>A check changes nothing but properties.\<close>

lemma validate_props:
  fixes m :: "'x ten_msg_scheme"
  assumes "ten_raw_msg_validate_schema tg s out m err = (ok, m', err')"
  shows "\<exists>v. m' = m\<lparr>properties := v\<rparr>"
proof -
  have same: "\<exists>v. m = m\<lparr>properties := v\<rparr>" for m :: "'x ten_msg_scheme"
    by (rule exI [of _ "properties m"]) simp
  from assms show ?thesis
    by (auto simp: ten_raw_msg_validate_schema_def check_properties_def same
          split: option.splits prod.splits if_splits)
qed

lemma validate_result_props:
  assumes "ten_raw_cmd_result_validate_schema tg s out m err = (ok, m', err')"
  shows "\<exists>v. m' = m\<lparr>properties := v\<rparr>"
proof -
  have same: "\<exists>v. m = m\<lparr>properties := v\<rparr>" for m :: ten_cmd_result
    by (rule exI [of _ "properties m"]) simp
  from assms show ?thesis
    by (auto simp: ten_raw_cmd_result_validate_schema_def check_properties_def same
          split: option.splits stored_schema.splits prod.splits if_splits)
qed

definition with_properties :: "ten_value \<Rightarrow> ten_shared_msg \<Rightarrow> ten_shared_msg" where
  "with_properties v m =
     (case m of
        Msg_cmd c \<Rightarrow> Msg_cmd (c\<lparr>properties := v\<rparr>)
      | Msg_result r \<Rightarrow> Msg_result (r\<lparr>properties := v\<rparr>)
      | Msg_data d \<Rightarrow> Msg_data (d\<lparr>properties := v\<rparr>))"

lemma with_properties_simps [simp]:
  "ten_msg_get_dest (with_properties v m) = ten_msg_get_dest m"
  "ten_msg_get_type (with_properties v m) = ten_msg_get_type m"
  "ten_msg_get_name (with_properties v m) = ten_msg_get_name m"
  "clonable (with_properties v m) = clonable m"
  "with_properties v (Msg_cmd c) = Msg_cmd (c\<lparr>properties := v\<rparr>)"
  "with_properties v (Msg_result r) = Msg_result (r\<lparr>properties := v\<rparr>)"
  "with_properties v (Msg_data d) = Msg_data (d\<lparr>properties := v\<rparr>)"
  by (cases m; simp add: with_properties_def clonable_def)+

lemma validate_msg_shape:
  assumes "ten_msg_validate_schema tg s out m err = (ok, m', err')"
  obtains v where "m' = with_properties v m"
proof -
  have "\<exists>v. m' = with_properties v m"
  proof (cases m)
    case (Msg_cmd c)
    obtain a b d where run: "ten_raw_msg_validate_schema tg s out c err = (a, b, d)" by (metis prod_cases3)
    from validate_props [OF run] obtain v where v: "b = c\<lparr>properties := v\<rparr>" ..
    show ?thesis
    proof (cases "msg_type c = TEN_MSG_TYPE_CMD")
      case True
      with assms Msg_cmd run v show ?thesis by (intro exI [of _ v]) (simp add: ten_msg_validate_schema_def)
    next
      case False
      with assms Msg_cmd show ?thesis
        by (intro exI [of _ "properties c"]) (auto simp: ten_msg_validate_schema_def)
    qed
  next
    case (Msg_result r)
    obtain a b d where run: "ten_raw_cmd_result_validate_schema tg s out r err = (a, b, d)" by (metis prod_cases3)
    from validate_result_props [OF run] obtain v where "b = r\<lparr>properties := v\<rparr>" ..
    with assms Msg_result run show ?thesis by (intro exI [of _ v]) (simp add: ten_msg_validate_schema_def)
  next
    case (Msg_data x)
    obtain a b d where run: "ten_raw_msg_validate_schema tg s out x err = (a, b, d)" by (metis prod_cases3)
    from validate_props [OF run] obtain v where "b = x\<lparr>properties := v\<rparr>" ..
    with assms Msg_data run show ?thesis by (intro exI [of _ v]) (simp add: ten_msg_validate_schema_def)
  qed
  with that show thesis by blast
qed

lemma validate_result_some:
  "\<exists>ok r' err'. ten_raw_cmd_result_validate_schema tg s out r err = (ok, r', err') \<and>
    cmd_id r' = cmd_id r \<and> is_final r' = is_final r"
proof -
  obtain a b d where run: "ten_raw_cmd_result_validate_schema tg s out r err = (a, b, d)" by (metis prod_cases3)
  from validate_result_props [OF run] run show ?thesis by auto
qed

lemma result_clonable: "clonable (Msg_result r)"
  by (simp add: clonable_def)

lemma handle_out_result_ok:
  assumes ok: "paths_ok (ext_paths self)"
  shows "\<exists>b self' effects err'. handle_out_result rt self r err = Some (b, self', effects, err') \<and>
    only_paths self self'"
proof -
  let ?t = "ext_paths self"
  have table: "table_ok ?t" using ok by (simp add: paths_ok_def)
  show ?thesis
  proof (rule table_set_result_steps [where r = r and ty = TEN_PATH_IN, OF table paths_ok_convertible [OF ok]])
    fix t'
    assume "ten_path_table_set_result TEN_PATH_IN r ?t = Some (None, t')" "steps_to ?t t'"
    then show ?thesis
      using only_paths_set [OF paths_ok_steps [OF ok]] by (auto simp: handle_out_result_def)
  next
    fix t1 p
    assume set: "ten_path_table_set_result TEN_PATH_IN r ?t = Some (Some (path_addr p), t1)"
      and steps: "steps_to ?t t1" and p: "p \<in> set (paths_of TEN_PATH_IN t1)" "\<not> pending p"
    have ok1: "paths_ok t1" by (rule paths_ok_steps [OF ok steps])
    then have table1: "table_ok t1" by (simp add: paths_ok_def)
    let ?r = "ten_cmd_result_set_original_cmd_name (path_cmd_name p) r"
    obtain b r1 err1 where v: "ten_raw_cmd_result_validate_schema (casts rt) (ext_schemas self) True ?r err =
        (b, r1, err1)" by (metis prod_cases3)
    let ?t2 = "if result_conversion p = None then share_result (path_addr p) r1 t1 else t1"
    have steps2: "steps_to t1 ?t2" using steps_to_share [OF table1] steps_to_refl [OF table1] by simp
    have ok2: "paths_ok ?t2" by (rule paths_ok_steps [OF ok1 steps2])
    obtain q where q: "q \<in> set (paths_of TEN_PATH_IN ?t2)" "path_addr q = path_addr p" "\<not> pending q"
      using share_result_paths [OF p] p by (cases "result_conversion p = None") auto
    from determine_steps [OF conjunct1 [OF ok2 [unfolded paths_ok_def]] q(1,3), of "is_final r1"]
    obtain res t3 where
      det: "ten_path_table_determine_actual_cmd_result TEN_PATH_IN (path_addr p) (is_final r1) ?t2 = Some (res, t3)"
      and steps3: "steps_to ?t2 t3" unfolding q(2) by metis
    have ok3: "paths_ok t3" by (rule paths_ok_steps [OF ok2 steps3])
    show ?thesis
    proof (cases "b \<and> res \<noteq> None")
      case True
      then obtain r2 where "res = Some r2" by auto
      moreover obtain ms where "msgs_for_dests (uuids rt) (Msg_result r2) 0 (dest_loc r2) = Some ms"
        using msgs_for_dests_ok [OF result_clonable] by blast
      ultimately show ?thesis
        using set path_of_list [OF table1 p(1)] v det True only_paths_set [OF ok3]
        by (intro exI [of _ True])
           (simp add: handle_out_result_def Let_def ten_extension_determine_out_msg_dest_from_msg_def)
    next
      case False
      then show ?thesis
        using set path_of_list [OF table1 p(1)] v det only_paths_set [OF ok3] only_paths_set [OF ok2]
        by (intro exI [of _ b]) (cases b; simp add: handle_out_result_def Let_def)
    qed
  qed
qed

end
