(* ===== verification/Extension_Steps.thy ===== *)
theory Extension_Steps
  imports Extension_Facts Store_Facts
begin

text \<open>
  Every operation of an extension succeeds on a well-formed path table and keeps it
  well-formed, the timer of the IN paths if the paths of each group expire together, and so
  does every sequence of operations in which that is the case.
\<close>

section \<open>Messages one after the other\<close>

text \<open>
  Both loops of an extension over messages have the same contract: one message after the
  other, the effects in order, and nothing after a failure.
\<close>

locale message_loop =
  fixes step :: "nat \<Rightarrow> 's \<Rightarrow> 'm \<Rightarrow> ('s \<times> 'e list) option"
    and loop :: "nat \<Rightarrow> 's \<Rightarrow> 'm list \<Rightarrow> ('s \<times> 'e list) option"
  assumes loop_nil: "loop i s [] = Some (s, [])"
    and loop_cons: "loop i s (m # ms) =
      (case step i s m of
         None \<Rightarrow> None
       | Some (s', es) \<Rightarrow> map_option (\<lambda>(s'', es'). (s'', es @ es')) (loop (Suc i) s' ms))"
begin

lemma loop_append:
  "loop i s (ms @ ns) =
     (case loop i s ms of
        None \<Rightarrow> None
      | Some (s', es) \<Rightarrow> map_option (\<lambda>(s'', es'). (s'', es @ es')) (loop (i + length ms) s' ns))"
proof (induction ms arbitrary: i s)
  case Nil
  then show ?case by (cases "loop i s ns") (simp_all add: loop_nil)
next
  case (Cons m ms)
  show ?case
  proof (cases "step i s m")
    case (Some x)
    obtain s' es where x: "x = (s', es)" by (cases x)
    show ?thesis
      using Cons.IH [of "Suc i" s'] Some x
      by (cases "loop (Suc i) s' ms"; cases "loop (Suc (i + length ms)) (fst (the (loop (Suc i) s' ms))) ns")
         (auto simp: loop_cons split: option.splits prod.splits)
  qed (simp add: loop_cons)
qed

lemma loop_keeps:
  assumes "\<And>i s m. K s \<Longrightarrow> good m \<Longrightarrow> \<exists>s' es. step i s m = Some (s', es) \<and> K s'"
    and "K s" and "\<forall>m \<in> set ms. good m"
  shows "\<exists>s' es. loop i s ms = Some (s', es) \<and> K s'"
  using assms(2,3)
proof (induction ms arbitrary: i s)
  case (Cons m ms)
  from assms(1) [OF Cons.prems(1), of m i] Cons.prems(2) obtain s' es where
    "step i s m = Some (s', es)" "K s'" by auto
  with Cons.IH [of s' "Suc i"] Cons.prems(2) show ?case by (auto simp: loop_cons)
qed (simp add: loop_nil)

lemma loop_frame:
  assumes "\<And>i s m. K s \<Longrightarrow> step i (f s) m = map_option (\<lambda>(s', es). (f s', es)) (step i s m)"
    and "\<And>i s m s' es. K s \<Longrightarrow> good m \<Longrightarrow> step i s m = Some (s', es) \<Longrightarrow> K s'"
    and "K s" and "\<forall>m \<in> set ms. good m"
  shows "loop i (f s) ms = map_option (\<lambda>(s', es). (f s', es)) (loop i s ms)"
  using assms(3,4)
proof (induction ms arbitrary: i s)
  case (Cons m ms)
  show ?case
  proof (cases "step i s m")
    case (Some x)
    obtain s' es where x: "x = (s', es)" by (cases x)
    have "K s'" using assms(2) [OF Cons.prems(1)] Cons.prems(2) Some x by auto
    from Cons.IH [OF this, of "Suc i"] Some x assms(1) [OF Cons.prems(1)] Cons.prems(2) show ?thesis
      by (cases "loop (Suc i) s' ms") (auto simp: loop_cons)
  qed (simp add: loop_cons assms(1) [OF Cons.prems(1)])
qed (simp add: loop_nil)

end

interpretation in_msgs: message_loop "\<lambda>i. ten_extension_handle_in_msg (rts i)" "handle_in_msgs rts" for rts
  by unfold_locales simp_all

interpretation delivered_msgs: message_loop "\<lambda>i. deliver_msg rt ty" "\<lambda>i. deliver_msgs rt ty" for rt ty
  by unfold_locales simp_all

section \<open>Sending and returning\<close>

lemma clonable_cmd:
  "clonable (Msg_cmd c) \<longleftrightarrow> msg_type c \<in> {TEN_MSG_TYPE_CMD, TEN_MSG_TYPE_CMD_START_GRAPH}"
  by (auto simp: clonable_def split: if_splits)

text \<open>The outcome of an operation that succeeds and changes nothing but the path table.\<close>

definition sends :: "ten_extension \<Rightarrow> (bool \<times> ten_extension \<times> ten_effect list \<times> ten_error) option \<Rightarrow> bool" where
  "sends self x \<longleftrightarrow> (\<exists>b self' effects err. x = Some (b, self', effects, err) \<and> only_paths self self')"

definition handles :: "ten_extension \<Rightarrow> (ten_extension \<times> ten_effect list) option \<Rightarrow> bool" where
  "handles self x \<longleftrightarrow> (\<exists>self' effects. x = Some (self', effects) \<and> only_paths self self')"

lemma sendsI [intro]: "only_paths self self' \<Longrightarrow> sends self (Some (b, self', effects, err))"
  by (simp add: sends_def)

lemma handlesI [intro]: "only_paths self self' \<Longrightarrow> handles self (Some (self', effects))"
  by (simp add: handles_def)

lemma handlesE:
  assumes "handles self x"
  obtains self' effects where "x = Some (self', effects)" and "only_paths self self'"
  using assms by (auto simp: handles_def)

lemma handles_trans: "only_paths self self' \<Longrightarrow> handles self' x \<Longrightarrow> handles self x"
  using only_paths_trans by (blast elim: handlesE)

lemma sends_handles: "sends self x \<Longrightarrow> handles self (without_outcome x)"
  by (auto simp: sends_def)

lemma handles_more:
  assumes "handles self x"
  shows "handles self (map_option (\<lambda>(self', effects'). (self', effects @ effects')) x)"
  using assms by (auto simp: handles_def)

text \<open>An extension whose path table is well-formed, and that has its information.\<close>

definition conversions_ok :: "ten_extension \<Rightarrow> bool" where
  "conversions_ok self \<longleftrightarrow>
     (\<exists>info. ext_info self = Some info \<and>
       (\<forall>convert m. msg_conversions info = Some convert \<longrightarrow> ten_msg_get_dest m \<noteq> [] \<longrightarrow>
          (\<forall>x \<in> set (convert m). msg_in_ok x)))"

definition ext_ok :: "ten_extension \<Rightarrow> bool" where
  "ext_ok self \<longleftrightarrow> paths_ok (ext_paths self) \<and> conversions_ok self"

lemma ext_okD: "ext_ok self \<Longrightarrow> paths_ok (ext_paths self)" "ext_ok self \<Longrightarrow> ext_info self \<noteq> None"
  by (auto simp: ext_ok_def conversions_ok_def)

lemma only_paths_ok: "only_paths self self' \<Longrightarrow> ext_ok self \<Longrightarrow> ext_ok self'"
  by (auto simp: only_paths_def ext_ok_def conversions_ok_def)

lemma handle_out_request_ok:
  assumes ok: "ext_ok self" and "clonable m"
  shows "sends self (handle_out_request rt self m err)"
proof -
  note paths = ext_okD(1) [OF ok]
  let ?m = "ten_msg_correct_dest (engine rt) m"
  obtain b m1 err1 where
    v: "ten_msg_validate_schema (casts rt) (ext_schemas self) True ?m err = (b, m1, err1)"
    by (metis prod_cases3)
  from v obtain val where "m1 = with_properties val ?m" by (rule validate_msg_shape)
  with assms(2) have clone: "clonable m1" by (simp add: ten_msg_correct_dest_def)
  let ?ds = "if ten_msg_get_dest m1 \<noteq> []
      then map_option (\<lambda>ms. (Some ms, err1)) (ten_extension_determine_out_msg_dest_from_msg (uuids rt) m1)
      else ten_extension_determine_out_msg_dest_from_graph (uuids rt) self m1 err1"
  have "\<exists>mso err2. ?ds = Some (mso, err2) \<and>
      (\<forall>ms. mso = Some ms \<longrightarrow> (\<forall>m \<in> set ms. ten_msg_get_dest m \<noteq> []))"
  proof (cases "ten_msg_get_dest m1")
    case Nil
    obtain info where info: "ext_info self = Some info" using ext_okD(2) [OF ok] by auto
    show ?thesis
    proof (cases "ten_extension_get_msg_dests_from_graph info m1")
      case (Some ds)
      then show ?thesis
        using msgs_for_dests_ok [OF clone, of "uuids rt" 0 ds] Nil info
        by (cases ds) (auto simp: ten_extension_determine_out_msg_dest_from_graph_def
              simp del: msgs_for_dests.simps)
    qed (simp add: Nil info ten_extension_determine_out_msg_dest_from_graph_def)
  next
    case (Cons d ds)
    then show ?thesis
      using msgs_for_dests_ok [OF clone, of "uuids rt" 0 "d # ds"]
      by (auto simp: ten_extension_determine_out_msg_dest_from_msg_def simp del: msgs_for_dests.simps)
  qed
  then obtain mso err2 where ds: "?ds = Some (mso, err2)"
    "\<forall>ms. mso = Some ms \<longrightarrow> (\<forall>m \<in> set ms. ten_msg_get_dest m \<noteq> [])" by blast
  show ?thesis
  proof (cases "b \<and> mso \<noteq> None")
    case True
    then obtain ms where ms: "mso = Some ms" by auto
    with ds(2) have "\<forall>m \<in> set ms. ten_msg_get_dest m \<noteq> []" by simp
    from add_out_paths_ok [OF paths this, of "clock rt" 0] obtain ps ms' t where
      add: "add_out_paths (clock rt) 0 ms (ext_paths self) = Some (map path_addr ps, ms', t)"
      "appended TEN_PATH_OUT ps (ext_paths self) t" "paths_ok t" by blast
    from only_paths_set [OF group_paths_ok [OF paths add(2,3)]] show ?thesis
      using True v ds(1) ms add(1) by (auto simp: handle_out_request_def)
  next
    case False
    then show ?thesis
      using v ds(1) only_paths_refl [OF paths] by (cases b) (auto simp: handle_out_request_def)
  qed
qed

lemma handle_out_msg_ok:
  assumes "ext_ok self" and "clonable m"
  shows "sends self (ten_extension_handle_out_msg rt self m err)"
proof -
  have "clonable (set_src (ext_loc self) m)" using assms(2) by simp
  from handle_out_request_ok [OF assms(1) this] handle_out_result_ok [OF ext_okD(1) [OF assms(1)]]
  show ?thesis
    by (cases "set_src (ext_loc self) m") (auto simp: ten_extension_handle_out_msg_def sends_def)
qed

lemma return_ok:
  assumes "ext_ok self"
  shows "sends self (ten_env_return_result_internal rt self r i j err)"
  unfolding ten_env_return_result_internal_def Let_def
  by (rule handle_out_msg_ok [OF assms result_clonable])

lemma returns_ok:
  assumes "ext_ok self"
  shows "sends self (ten_env_return_result rt self r c err)"
    and "sends self (ten_env_return_result_directly rt self r err)"
  unfolding ten_env_return_result_def ten_env_return_result_directly_def
  by (rule return_ok [OF assms])+

lemma send_ok:
  assumes "ext_ok self" and "clonable m"
  shows "sends self (ten_send_msg_internal rt self m locked handler err)"
proof (cases "ten_msg_get_type m = TEN_MSG_TYPE_CMD_RESULT \<or> locked")
  case True
  have same: "sends self (Some (b, self, effects, err'))" for b effects err'
    by (rule sendsI [OF only_paths_refl [OF ext_okD(1) [OF assms(1)]]])
  show ?thesis
    using True by (cases locked; simp add: ten_send_msg_internal_def same)
next
  case False
  show ?thesis
  proof (cases m)
    case (Msg_cmd c)
    let ?c = "ten_cmd_base_set_result_handler handler c"
    let ?c2 = "if cmd_id ?c = [] then ten_cmd_base_gen_new_cmd_id_forcibly (uuids rt 0) ?c else ?c"
    have "msg_type ?c2 = msg_type c"
      by (simp add: ten_cmd_base_gen_new_cmd_id_forcibly_def ten_cmd_base_set_result_handler_def)
    then have "clonable (Msg_cmd ?c2)" using assms(2) Msg_cmd by (simp only: clonable_cmd)
    from handle_out_msg_ok [OF assms(1) this] show ?thesis
      using False Msg_cmd by (simp only: ten_send_msg_internal_def Let_def) simp
  next
    case (Msg_data d)
    with False handle_out_msg_ok [OF assms] show ?thesis by (simp add: ten_send_msg_internal_def)
  next
    case (Msg_result r)
    with False handle_out_msg_ok [OF assms] show ?thesis by (simp add: ten_send_msg_internal_def)
  qed
qed

section \<open>Receiving\<close>

lemma callbacks_ok:
  assumes "ext_ok self"
  shows "handles self (ten_extension_on_cmd rt self c)"
    and "handles self (ten_extension_on_data rt self d)"
    and "handles self (ten_extension_on_video_frame rt self d)"
    and "handles self (ten_extension_on_audio_frame rt self d)"
proof -
  note same = only_paths_refl [OF ext_okD(1) [OF assms]]
  have "clonable (Msg_data d)" by (simp add: clonable_def)
  note sends = sends_handles [OF send_ok [OF assms this]]
  show "handles self (ten_extension_on_cmd rt self c)"
    using same sends_handles [OF returns_ok(1) [OF assms]] by (auto simp: ten_extension_on_cmd_def)
  show "handles self (ten_extension_on_data rt self d)"
    "handles self (ten_extension_on_video_frame rt self d)"
    "handles self (ten_extension_on_audio_frame rt self d)"
    using same sends
    by (auto simp: ten_extension_on_data_def ten_extension_on_video_frame_def
        ten_extension_on_audio_frame_def ten_env_send_data_def)
qed

lemma deliver_result_ok:
  assumes "ext_ok self"
  shows "handles self (deliver_result rt self r)"
  using sends_handles [OF returns_ok(2) [OF assms]] only_paths_refl [OF ext_okD(1) [OF assms]]
  by (auto simp: deliver_result_def split: option.splits)

lemma deliver_msg_ok:
  assumes "ext_ok self"
  shows "handles self (deliver_msg rt ty self m)"
proof (cases "set_dest [] m")
  case (Msg_cmd c)
  then show ?thesis
    using callbacks_ok(1) [OF assms] only_paths_refl [OF ext_okD(1) [OF assms]] by (auto simp: deliver_msg_def)
next
  case (Msg_result r)
  then show ?thesis using deliver_result_ok [OF assms] by (simp add: deliver_msg_def)
next
  case (Msg_data d)
  then show ?thesis
    using callbacks_ok(2-4) [OF assms] only_paths_refl [OF ext_okD(1) [OF assms]]
    by (cases ty) (auto simp: deliver_msg_def)
qed

lemma deliver_msgs_ok:
  assumes "ext_ok self"
  shows "handles self (deliver_msgs rt ty self ms)"
proof -
  have "\<exists>self' effects. deliver_msgs rt ty self ms = Some (self', effects) \<and> ext_ok self' \<and> only_paths self self'"
  proof (rule delivered_msgs.loop_keeps [where good = "\<lambda>_. True"])
    fix s m
    assume s: "ext_ok s \<and> only_paths self s"
    then obtain s' es where "deliver_msg rt ty s m = Some (s', es)" "only_paths s s'"
      using handlesE [OF deliver_msg_ok] by blast
    with s only_paths_ok only_paths_trans
    show "\<exists>s' es. deliver_msg rt ty s m = Some (s', es) \<and> ext_ok s' \<and> only_paths self s'" by blast
  qed (use assms only_paths_refl ext_okD(1) in auto)
  then show ?thesis by (auto simp: handles_def)
qed

lemma validate_in_msg_ok:
  assumes "ext_ok self"
  shows "\<exists>b m' self' effects err'.
    ten_extension_validate_msg_schema rt self m err = Some (b, m', self', effects, err') \<and>
    only_paths self self' \<and> (\<forall>r. m = Msg_result r \<longrightarrow> b \<and> (\<exists>r'. m' = Msg_result r'))"
proof -
  obtain b m' err' where v: "ten_msg_validate_schema (casts rt) (ext_schemas self) False m err = (b, m', err')"
    by (metis prod_cases3)
  from v obtain val where m': "m' = with_properties val m" by (rule validate_msg_shape)
  note same = only_paths_refl [OF ext_okD(1) [OF assms]]
  have ret: "\<exists>b self' effects err. ten_env_return_result rt self r c ten_error_init =
      Some (b, self', effects, err) \<and> only_paths self self'" for r c
    using returns_ok(1) [OF assms] unfolding sends_def .
  show ?thesis
  proof (cases m)
    case (Msg_cmd c)
    obtain b1 self' effects err1 where
      "ten_env_return_result rt self
         (set_detail (err_msg err')
           (ten_cmd_result_create_from_cmd TEN_STATUS_CODE_ERROR (Some (c\<lparr>properties := val\<rparr>))))
         (c\<lparr>properties := val\<rparr>) ten_error_init = Some (b1, self', effects, err1)"
      "only_paths self self'" using ret by blast
    then show ?thesis
      using v m' Msg_cmd same by (cases b) (auto simp: ten_extension_validate_msg_schema_def)
  qed (use v m' same in \<open>cases b; auto simp: ten_extension_validate_msg_schema_def\<close>)+
qed

lemma validate_in_msgs_ok:
  "ext_ok self \<Longrightarrow> \<exists>ms' self' effects.
     validate_in_msgs rt self ms err = Some (ms', self', effects) \<and> only_paths self self'"
proof (induction ms arbitrary: self err)
  case Nil
  then show ?case using only_paths_refl ext_okD(1) by auto
next
  case (Cons m ms)
  from validate_in_msg_ok [OF Cons.prems] obtain b m' self' effects err' where
    v: "ten_extension_validate_msg_schema rt self m err = Some (b, m', self', effects, err')"
    "only_paths self self'" by metis
  from Cons.IH [OF only_paths_ok [OF v(2) Cons.prems]] obtain ms' self'' effects' where
    "validate_in_msgs rt self' ms err' = Some (ms', self'', effects')" "only_paths self' self''"
    by metis
  with v only_paths_trans show ?case by (cases b) auto
qed

lemma share_with_ok:
  assumes "paths_ok t"
  shows "paths_ok (share_with a r t)"
proof (cases a)
  case (Some b)
  from assms have "table_ok t" by (simp add: paths_ok_def)
  from paths_ok_steps [OF assms steps_to_share [OF this]] Some show ?thesis by simp
qed (simp add: assms)

lemma cache_in_path_ok:
  assumes "paths_ok t"
  shows "\<exists>b t'. ten_extension_cache_cmd_result_to_in_path_for_auto_return r t = Some (b, t') \<and> paths_ok t'"
proof (cases "ten_path_table_find_path_from_cmd_id TEN_PATH_IN (Some (cmd_id r)) t")
  case None
  with assms show ?thesis
    by (simp add: ten_extension_cache_cmd_result_to_in_path_for_auto_return_def
          ten_extension_get_cmd_return_path_from_itself_def)
next
  case (Some p)
  then have p: "p \<in> set (paths_of TEN_PATH_IN t)"
    by (auto simp: ten_path_table_find_path_from_cmd_id_def dest: find_SomeD)
  from assms have table: "table_ok t" by (simp add: paths_ok_def)
  obtain r' where "converted_result p r = Some r'"
    using convertible_converted [OF paths_ok_convertible [OF assms p]] by blast
  with set_result_eq [OF table p, of r] have set: "ten_path_set_result (path_addr p) r t = Some (cached_table p r' t)"
    by simp
  have "paths_ok (cached_table p r' t)"
    by (rule paths_ok_steps [OF assms cached_table_steps [OF table p]])
  with Some set show ?thesis
    by (simp add: ten_extension_cache_cmd_result_to_in_path_for_auto_return_def
          ten_extension_get_cmd_return_path_from_itself_def)
qed

lemma handle_in_result_ok:
  assumes ok: "ext_ok self"
  shows "handles self (handle_in_result rt self r)"
proof -
  note paths = ext_okD(1) [OF ok]
  then have table: "table_ok (ext_paths self)" by (simp add: paths_ok_def)
  have done': "handles self (Some (self\<lparr>ext_paths := t\<rparr>, effects))" if "paths_ok t" for t effects
    by (rule handlesI [OF only_paths_set [OF that]])
  show ?thesis
  proof (rule table_set_result_steps [where r = r and ty = TEN_PATH_OUT, OF table paths_ok_convertible [OF paths]])
    fix t'
    assume "ten_path_table_set_result TEN_PATH_OUT r (ext_paths self) = Some (None, t')"
      "steps_to (ext_paths self) t'"
    then show ?thesis using done' [OF paths_ok_steps [OF paths]] by (simp add: handle_in_result_def)
  next
    fix t1 p
    assume set: "ten_path_table_set_result TEN_PATH_OUT r (ext_paths self) = Some (Some (path_addr p), t1)"
      and steps: "steps_to (ext_paths self) t1" and p: "p \<in> set (paths_of TEN_PATH_OUT t1)" "\<not> pending p"
    have ok1: "paths_ok t1" by (rule paths_ok_steps [OF paths steps])
    from determine_steps [OF conjunct1 [OF ok1 [unfolded paths_ok_def]] p, of "is_final r"]
    obtain res t2 where
      det: "ten_path_table_determine_actual_cmd_result TEN_PATH_OUT (path_addr p) (is_final r) t1 = Some (res, t2)"
      and steps2: "steps_to t1 t2" by metis
    have ok2: "paths_ok t2" by (rule paths_ok_steps [OF ok1 steps2])
    show ?thesis
    proof (cases res)
      case None
      then show ?thesis using set det done' [OF ok2] by (simp add: handle_in_result_def)
    next
      case (Some r1)
      from cache_in_path_ok [OF ok2] obtain b t3 where
        cache: "ten_extension_cache_cmd_result_to_in_path_for_auto_return r1 t2 = Some (b, t3)" "paths_ok t3"
        by metis
      let ?self3 = "self\<lparr>ext_paths := t3\<rparr>"
      have only3: "only_paths self ?self3" by (rule only_paths_set [OF cache(2)])
      note ok3 = only_paths_ok [OF only3 ok]
      from validate_in_msg_ok [OF ok3, of rt "Msg_result r1" ten_error_init] obtain r2 self' effects err' where
        v: "ten_extension_validate_msg_schema rt ?self3 (Msg_result r1) ten_error_init =
          Some (True, Msg_result r2, self', effects, err')" "only_paths ?self3 self'"
        by auto
      define t4 where "t4 = share_with b (ten_msg_clear_dest r2)
        (share_with (result_path TEN_PATH_OUT (path_addr p) t1) (ten_msg_clear_dest r2) (ext_paths self'))"
      have "paths_ok t4" unfolding t4_def by (intro share_with_ok only_paths_fields(1) [OF v(2)])
      then have "only_paths self' (self'\<lparr>ext_paths := t4\<rparr>)" by (rule only_paths_set)
      from only_paths_trans [OF only3 only_paths_trans [OF v(2) this]]
      have only4: "only_paths self (self'\<lparr>ext_paths := t4\<rparr>)" .
      have "handle_in_result rt self r = deliver_result rt (self'\<lparr>ext_paths := t4\<rparr>) (ten_msg_clear_dest r2)"
        using set det Some cache(1) v(1) by (simp add: handle_in_result_def Let_def t4_def)
      with handles_trans [OF only4 deliver_result_ok [OF only_paths_ok [OF only4 ok]]] show ?thesis
        by simp
    qed
  qed
qed

lemma converted_msgs_ok:
  assumes "ext_ok self" and "ten_msg_get_dest m \<noteq> []" and "\<And>r. m \<noteq> Msg_result r"
  shows "\<forall>x \<in> set (converted_msgs self m). msg_in_ok x"
proof -
  have "msg_in_ok (m, None)" using assms(2,3) by (cases m) auto
  moreover obtain info where "ext_info self = Some info"
    "\<forall>convert m. msg_conversions info = Some convert \<longrightarrow> ten_msg_get_dest m \<noteq> [] \<longrightarrow>
       (\<forall>x \<in> set (convert m). msg_in_ok x)"
    using assms(1) by (auto simp: ext_ok_def conversions_ok_def)
  ultimately show ?thesis using assms(2) by (cases "msg_conversions info") (auto simp: converted_msgs_def)
qed

lemma handle_in_request_ok:
  assumes ok: "ext_ok self" and "ten_msg_get_dest m \<noteq> []" and "\<And>r. m \<noteq> Msg_result r"
  shows "handles self (handle_in_request rt self m)"
proof -
  note paths = ext_okD(1) [OF ok]
  from add_in_paths_ok [OF paths converted_msgs_ok [OF assms], of rt 0] obtain ps ms t where
    add: "add_in_paths rt 0 (converted_msgs self m) (ext_paths self) = Some (map path_addr ps, ms, t)"
    "appended TEN_PATH_IN ps (ext_paths self) t" "paths_ok t" by blast
  let ?self = "self\<lparr>ext_paths := group_paths (map path_addr ps) t\<rparr>"
  have only1: "only_paths self ?self" by (rule only_paths_set [OF group_paths_ok [OF paths add(2,3)]])
  from validate_in_msgs_ok [OF only_paths_ok [OF only1 ok]] obtain ms' self' effects where
    v: "validate_in_msgs rt ?self ms ten_error_init = Some (ms', self', effects)" "only_paths ?self self'"
    by metis
  note only2 = only_paths_trans [OF only1 v(2)]
  show ?thesis
  proof (cases ms')
    case None
    then show ?thesis using add(1) v(1) only2 by (auto simp: handle_in_request_def)
  next
    case (Some ms2)
    from deliver_msgs_ok [OF only_paths_ok [OF only2 ok], of rt "ten_msg_get_type m" ms2]
    obtain self'' effects' where
      "deliver_msgs rt (ten_msg_get_type m) self' ms2 = Some (self'', effects')" "only_paths self' self''"
      by (rule handlesE)
    then show ?thesis
      using add(1) v(1) Some only_paths_trans [OF only2] by (auto simp: handle_in_request_def)
  qed
qed

section \<open>All operations\<close>

text \<open>Messages that wait have a destination.\<close>

abbreviation has_dest :: "ten_shared_msg \<Rightarrow> bool" where
  "has_dest m \<equiv> ten_msg_get_dest m \<noteq> []"

definition safe_ext :: "ten_extension \<Rightarrow> bool" where
  "safe_ext self \<longleftrightarrow> ext_ok self \<and> (\<forall>m \<in> set (pending_msgs self). has_dest m)"

definition safe :: "(ten_extension \<times> ten_effect list) option \<Rightarrow> bool" where
  "safe x \<longleftrightarrow> (\<exists>self effects. x = Some (self, effects) \<and> safe_ext self)"

lemma safeI [intro]: "safe_ext self \<Longrightarrow> safe (Some (self, effects))"
  by (simp add: safe_def)

lemma safe_fields [simp]:
  "safe_ext (self\<lparr>ext_state := st\<rparr>) = safe_ext self" "safe_ext (self\<lparr>path_timers := ts\<rparr>) = safe_ext self"
  by (simp_all add: safe_ext_def ext_ok_def conversions_ok_def)

lemma safe_paths: "safe_ext self \<Longrightarrow> paths_ok t \<Longrightarrow> safe_ext (self\<lparr>ext_paths := t\<rparr>)"
  by (simp add: safe_ext_def ext_ok_def conversions_ok_def)

lemma handles_safe:
  assumes "handles self x" and "safe_ext self"
  shows "safe x"
  using assms only_paths_fields(6) only_paths_ok by (auto simp: handles_def safe_def safe_ext_def)

lemma handle_in_msg_safe:
  assumes "safe_ext self" and "has_dest m \<or> (\<exists>r. m = Msg_result r)"
  shows "safe (ten_extension_handle_in_msg rt self m)"
proof -
  have ok: "ext_ok self" using assms(1) by (simp add: safe_ext_def)
  show ?thesis
  proof (cases "\<exists>r. m = Msg_result r")
    case True
    then show ?thesis
      using handles_safe [OF handle_in_result_ok [OF ok] assms(1)] assms(1)
      by (auto simp: ten_extension_handle_in_msg_def)
  next
    case False
    with assms(2) have m: "has_dest m" "\<And>r. m \<noteq> Msg_result r" by auto
    have "safe_ext (self\<lparr>pending_msgs := pending_msgs self @ [m]\<rparr>)"
      using assms(1) m(1) by (auto simp: safe_ext_def ext_ok_def conversions_ok_def)
    with handles_safe [OF handle_in_request_ok [OF ok m] assms(1)] assms(1) m(2) show ?thesis
      by (cases m) (auto simp: ten_extension_handle_in_msg_def)
  qed
qed

lemma handle_in_msgs_safe:
  assumes "safe_ext self" and "\<forall>m \<in> set ms. has_dest m \<or> (\<exists>r. m = Msg_result r)"
  shows "safe (handle_in_msgs rts i self ms)"
  using in_msgs.loop_keeps [where K = safe_ext, OF handle_in_msg_safe [unfolded safe_def] assms]
  by (simp add: safe_def)

text \<open>The life of an extension.\<close>

lemma flush_safe:
  assumes "safe_ext self" and "\<forall>m \<in> set waiting. has_dest m"
  shows "\<exists>rest self' effects.
    ten_extension_flush_all_pending_msgs rts waiting self = Some (rest, self', effects) \<and> safe_ext self' \<and>
    (\<forall>m \<in> set rest. has_dest m)"
proof -
  let ?ours = "filter (waits_for self) waiting"
  have "safe (handle_in_msgs rts 0 self ?ours)"
    by (rule handle_in_msgs_safe [OF assms(1)]) (use assms(2) in auto)
  then obtain self1 effects1 where one: "handle_in_msgs rts 0 self ?ours = Some (self1, effects1)" "safe_ext self1"
    by (auto simp: safe_def)
  have "safe (handle_in_msgs rts (length ?ours) self1 (pending_msgs self1))"
    by (rule handle_in_msgs_safe [OF one(2)]) (use one(2) in \<open>auto simp: safe_ext_def\<close>)
  then obtain self2 effects2 where
    two: "handle_in_msgs rts (length ?ours) self1 (pending_msgs self1) = Some (self2, effects2)" "safe_ext self2"
    by (auto simp: safe_def)
  have "safe_ext (self2\<lparr>pending_msgs := []\<rparr>)"
    using two(2) by (simp add: safe_ext_def ext_ok_def conversions_ok_def)
  moreover have "\<not> (\<exists>m \<in> set waiting. ten_msg_get_dest m = [])" using assms(2) by blast
  ultimately show ?thesis
    using one(1) two(1) assms(2) by (simp add: ten_extension_flush_all_pending_msgs_def Let_def)
qed

lemma start_safe:
  assumes "safe_ext self" and "\<forall>m \<in> set waiting. has_dest m"
  shows "\<exists>rest self' effects. ten_extension_on_start_done rts waiting self = Some (rest, self', effects) \<and>
      safe_ext self' \<and> (\<forall>m \<in> set rest. has_dest m)"
    and "\<exists>rest self' effects. ten_extension_on_start rts waiting self = Some (rest, self', effects) \<and>
      safe_ext self' \<and> (\<forall>m \<in> set rest. has_dest m)"
    and "\<exists>rest self' effects. ten_extension_on_init_done rts closing waiting self = Some (rest, self', effects) \<and>
      safe_ext self' \<and> (\<forall>m \<in> set rest. has_dest m)"
proof -
  have start_done: "\<exists>rest self' effects. ten_extension_on_start_done rts waiting self = Some (rest, self', effects) \<and>
      safe_ext self' \<and> (\<forall>m \<in> set rest. has_dest m)" if "safe_ext self" for self
    unfolding ten_extension_on_start_done_def by (rule flush_safe [OF _ assms(2)]) (simp add: that)
  then show "\<exists>rest self' effects. ten_extension_on_start_done rts waiting self = Some (rest, self', effects) \<and>
      safe_ext self' \<and> (\<forall>m \<in> set rest. has_dest m)"
    using assms(1) .
  have start: "\<exists>rest self' effects. ten_extension_on_start rts waiting self = Some (rest, self', effects) \<and>
      safe_ext self' \<and> (\<forall>m \<in> set rest. has_dest m)" if "safe_ext self" for self
    using start_done that assms(2) by (simp add: ten_extension_on_start_def Let_def)
  then show "\<exists>rest self' effects. ten_extension_on_start rts waiting self = Some (rest, self', effects) \<and>
      safe_ext self' \<and> (\<forall>m \<in> set rest. has_dest m)"
    using assms(1) .
  show "\<exists>rest self' effects. ten_extension_on_init_done rts closing waiting self = Some (rest, self', effects) \<and>
      safe_ext self' \<and> (\<forall>m \<in> set rest. has_dest m)"
    using start assms by (simp add: ten_extension_on_init_done_def Let_def)
qed

text \<open>The paths of one group expire together.\<close>

definition expire_together :: "64 word \<Rightarrow> ten_path_table \<Rightarrow> bool" where
  "expire_together now t \<longleftrightarrow>
     (\<forall>p \<in> set (in_paths t). \<forall>q \<in> set (in_paths t).
        path_group p \<noteq> None \<longrightarrow> path_group p = path_group q \<longrightarrow>
        (now \<ge> expired_time_us p) = (now \<ge> expired_time_us q))"

lemma in_timer_safe:
  assumes "safe_ext self" and "expire_together now (ext_paths self)"
  shows "safe_ext (ten_extension_in_path_timer_on_triggered now self)"
proof -
  have ok: "paths_ok (ext_paths self)" using assms(1) by (simp add: safe_ext_def ext_ok_def)
  have lists: "paths_of TEN_PATH_IN (ext_paths self) = in_paths (ext_paths self)" by (simp add: paths_of_def)
  have "steps_to (ext_paths self)
      (set_paths TEN_PATH_IN (filter (\<lambda>p. \<not> now \<ge> expired_time_us p)
        (paths_of TEN_PATH_IN (ext_paths self))) (ext_paths self))"
  proof (rule steps_to_filter)
    show "table_ok (ext_paths self)" using ok by (simp add: paths_ok_def)
    fix p q g
    assume pq: "p \<in> set (paths_of TEN_PATH_IN (ext_paths self))" "q \<in> set (paths_of TEN_PATH_IN (ext_paths self))"
      "path_group p = Some g" "path_group q = Some g" and late: "\<not> now \<ge> expired_time_us p"
    have "path_group p \<noteq> None" "path_group p = path_group q" using pq(3,4) by simp_all
    with assms(2) [unfolded expire_together_def] pq(1,2) [unfolded lists]
    have "(now \<ge> expired_time_us p) = (now \<ge> expired_time_us q)" by blast
    with late show "\<not> now \<ge> expired_time_us q" by blast
  qed
  from paths_ok_steps [OF ok this] show ?thesis
    unfolding ten_extension_in_path_timer_on_triggered_def lists by (rule safe_paths [OF assms(1)])
qed

lemma out_timer_safe:
  "safe_ext self \<Longrightarrow> safe (ten_extension_out_path_timer_on_triggered rts now self)"
  unfolding ten_extension_out_path_timer_on_triggered_def by (rule handle_in_msgs_safe) auto

lemma close_safe:
  assumes "safe_ext self"
  shows "safe (ten_extension_do_close rts has_proxies self)"
proof -
  let ?t = "ext_paths self"
  have ok: "paths_ok ?t" using assms by (simp add: safe_ext_def ext_ok_def)
  have "steps_to ?t (set_paths TEN_PATH_IN (filter (\<lambda>p. False) (paths_of TEN_PATH_IN ?t)) ?t)"
    by (rule steps_to_filter) (use ok in \<open>auto simp: paths_ok_def\<close>)
  from paths_ok_steps [OF ok this] have "paths_ok (set_paths TEN_PATH_IN [] ?t)" by simp
  then have "safe_ext (self\<lparr>ext_paths := set_paths TEN_PATH_IN [] ?t\<rparr>)" by (rule safe_paths [OF assms])
  then have "safe (ten_extension_thread_process_remaining_paths rts self)"
    unfolding ten_extension_thread_process_remaining_paths_def by (rule handle_in_msgs_safe) auto
  then show ?thesis
    by (auto simp: ten_extension_do_close_def safe_def ten_extension_on_deinit_def
        ten_extension_on_deinit_done_def Let_def split: if_splits)
qed

lemma stop_safe:
  assumes "safe_ext self"
  shows "safe (ten_extension_on_stop_done rts has_proxies self)"
    and "safe (ten_extension_on_stop rts has_proxies self)"
    and "safe (ten_extension_on_timer_closed rts has_proxies timer self)"
proof -
  have pre: "safe (ten_extension_do_pre_close_action rts has_proxies self)" if "safe_ext self" for self
    using close_safe [OF that, of rts has_proxies] that
    by (auto simp: ten_extension_do_pre_close_action_def Let_def safe_def)
  then show stopped: "safe (ten_extension_on_stop_done rts has_proxies self)"
    unfolding ten_extension_on_stop_done_def using assms by simp
  then show "safe (ten_extension_on_stop rts has_proxies self)"
    using assms by (auto simp: ten_extension_on_stop_def)
  show "safe (ten_extension_on_timer_closed rts has_proxies timer self)"
    using close_safe assms by (auto simp: ten_extension_on_timer_closed_def Let_def)
qed

section \<open>Runs of an extension\<close>

text \<open>
  The operations of an extension, with anything its surroundings may give it: messages that
  arrive, what the code of the extension calls, the timers of its path table, and the steps
  of its life. Messages that wait at its thread go into the operations that complete a start.
\<close>

datatype ext_op =
    Receive ten_runtime ten_shared_msg
  | Send ten_runtime ten_shared_msg bool "nat option" ten_error
  | Return_result ten_runtime ten_cmd_result ten_cmd_base ten_error
  | Return_directly ten_runtime ten_cmd_result ten_error
  | Init_done "nat \<Rightarrow> ten_runtime" bool "ten_shared_msg list"
  | Start_done "nat \<Rightarrow> ten_runtime" "ten_shared_msg list"
  | In_path_timer "64 word"
  | Out_path_timer "nat \<Rightarrow> ten_runtime" "64 word"
  | Stop "nat \<Rightarrow> ten_runtime" bool
  | Stop_done "nat \<Rightarrow> ten_runtime" bool
  | Timer_closed "nat \<Rightarrow> ten_runtime" bool nat
  | Deinit_done bool

fun perform :: "ext_op \<Rightarrow> ten_extension \<Rightarrow> (ten_extension \<times> ten_effect list) option" where
  "perform (Receive rt m) self = ten_extension_handle_in_msg rt self m"
| "perform (Send rt m locked handler err) self =
     without_outcome (ten_send_msg_internal rt self m locked handler err)"
| "perform (Return_result rt r c err) self = without_outcome (ten_env_return_result rt self r c err)"
| "perform (Return_directly rt r err) self = without_outcome (ten_env_return_result_directly rt self r err)"
| "perform (Init_done rts closing waiting) self =
     map_option snd (ten_extension_on_init_done rts closing waiting self)"
| "perform (Start_done rts waiting) self = map_option snd (ten_extension_on_start_done rts waiting self)"
| "perform (In_path_timer now) self = Some (ten_extension_in_path_timer_on_triggered now self, [])"
| "perform (Out_path_timer rts now) self = ten_extension_out_path_timer_on_triggered rts now self"
| "perform (Stop rts has_proxies) self = ten_extension_on_stop rts has_proxies self"
| "perform (Stop_done rts has_proxies) self = ten_extension_on_stop_done rts has_proxies self"
| "perform (Timer_closed rts has_proxies timer) self = ten_extension_on_timer_closed rts has_proxies timer self"
| "perform (Deinit_done has_proxies) self = Some (ten_extension_on_deinit_done has_proxies self)"

fun perform_all :: "ext_op list \<Rightarrow> ten_extension \<Rightarrow> ten_extension option" where
  "perform_all [] self = Some self"
| "perform_all (op # ops) self =
     (case perform op self of None \<Rightarrow> None | Some (self', _) \<Rightarrow> perform_all ops self')"

text \<open>
  What the surroundings owe: a message that arrives, or waits at the thread, has a
  destination (a result may be without one), and a message that is sent is of a kind that
  can be cloned.
\<close>

fun supplied :: "ext_op \<Rightarrow> bool" where
  "supplied (Receive rt m) \<longleftrightarrow> has_dest m \<or> (\<exists>r. m = Msg_result r)"
| "supplied (Send rt m locked handler err) \<longleftrightarrow> clonable m"
| "supplied (Init_done rts closing waiting) \<longleftrightarrow> (\<forall>m \<in> set waiting. has_dest m)"
| "supplied (Start_done rts waiting) \<longleftrightarrow> (\<forall>m \<in> set waiting. has_dest m)"
| "supplied _ \<longleftrightarrow> True"

text \<open>
  The timer of the IN paths may run at any time. A run is unsplit if, each time it does,
  the paths of a group expire together; see Extension_Expire for what happens otherwise.
\<close>

definition unsplit_run :: "ext_op list \<Rightarrow> ten_extension \<Rightarrow> bool" where
  "unsplit_run ops self \<longleftrightarrow>
     (\<forall>i now self'. i < length ops \<longrightarrow> ops ! i = In_path_timer now \<longrightarrow>
        perform_all (take i ops) self = Some self' \<longrightarrow> expire_together now (ext_paths self'))"

lemma unsplit_first: "unsplit_run (In_path_timer now # ops) self \<Longrightarrow> expire_together now (ext_paths self)"
  unfolding unsplit_run_def by (drule spec [of _ 0]) simp

lemma unsplit_rest:
  assumes "unsplit_run (op # ops) self" and "perform op self = Some (self', effects)"
  shows "unsplit_run ops self'"
  unfolding unsplit_run_def
proof (intro allI impI)
  fix i now self2
  assume "i < length ops" "ops ! i = In_path_timer now" "perform_all (take i ops) self' = Some self2"
  then show "expire_together now (ext_paths self2)"
    using assms(1) [unfolded unsplit_run_def, rule_format, of "Suc i" now self2] assms(2) by simp
qed

definition new_extension :: "ten_extension \<Rightarrow> bool" where
  "new_extension self \<longleftrightarrow>
     (\<exists>timeouts. ext_paths self = ten_path_table_create timeouts) \<and> pending_msgs self = [] \<and>
     conversions_ok self"

text \<open>The states that unsplit runs reach.\<close>

inductive reachable_unsplit :: "ten_extension \<Rightarrow> bool" where
  created: "new_extension self \<Longrightarrow> reachable_unsplit self"
| step: "reachable_unsplit self \<Longrightarrow> supplied op \<Longrightarrow>
    (\<And>now. op = In_path_timer now \<Longrightarrow> expire_together now (ext_paths self)) \<Longrightarrow>
    perform op self = Some (self', effects) \<Longrightarrow> reachable_unsplit self'"

lemma reachable_one:
  assumes "new_extension self" and "supplied op" and "\<forall>now. op \<noteq> In_path_timer now"
    and "perform op self = Some (self', effects)"
  shows "reachable_unsplit self'"
  using step [OF created [OF assms(1)] assms(2) _ assms(4)] assms(3) by blast

lemma reachable_run:
  assumes "reachable_unsplit self" and "\<forall>op \<in> set ops. supplied op" and "unsplit_run ops self"
    and "perform_all ops self = Some self'"
  shows "reachable_unsplit self'"
  using assms
proof (induction ops arbitrary: self)
  case (Cons op ops)
  from Cons.prems(4) obtain self1 effects where one: "perform op self = Some (self1, effects)"
    "perform_all ops self1 = Some self'" by (auto split: option.splits)
  have "reachable_unsplit self1"
    using step [OF Cons.prems(1) _ _ one(1)] Cons.prems(2,3) by (auto dest: unsplit_first)
  from Cons.IH [OF this _ unsplit_rest [OF Cons.prems(3) one(1)] one(2)] Cons.prems(2) show ?case by simp
qed simp

lemma created_safe: "new_extension self \<Longrightarrow> safe_ext self"
  by (auto simp: new_extension_def safe_ext_def ext_ok_def paths_ok_def table_ok_def all_paths_def
      groups_ok_def ten_path_table_create_def)

lemma perform_safe:
  assumes "supplied op" and "\<forall>now. op = In_path_timer now \<longrightarrow> expire_together now (ext_paths self)"
    and safe: "safe_ext self"
  shows "safe (perform op self)"
proof (cases op)
  case (Receive rt m)
  then show ?thesis using handle_in_msg_safe [OF safe] assms(1) by simp
next
  case (Send rt m locked handler err)
  have "ext_ok self" using safe by (simp add: safe_ext_def)
  from handles_safe [OF sends_handles [OF send_ok [OF this]] safe] Send assms(1) show ?thesis by simp
next
  case (Return_result rt r c err)
  have "ext_ok self" using safe by (simp add: safe_ext_def)
  from handles_safe [OF sends_handles [OF returns_ok(1) [OF this]] safe] Return_result show ?thesis by simp
next
  case (Return_directly rt r err)
  have "ext_ok self" using safe by (simp add: safe_ext_def)
  from handles_safe [OF sends_handles [OF returns_ok(2) [OF this]] safe] Return_directly show ?thesis by simp
next
  case (Init_done rts closing waiting)
  then show ?thesis using start_safe(3) [OF safe, of waiting rts closing] assms(1) by (auto simp: safe_def)
next
  case (Start_done rts waiting)
  then show ?thesis using start_safe(1) [OF safe, of waiting rts] assms(1) by (auto simp: safe_def)
next
  case (In_path_timer now)
  then show ?thesis using in_timer_safe [OF safe] assms(2) by (auto simp: safe_def)
next
  case (Deinit_done has_proxies)
  then show ?thesis using safe by (auto simp: safe_def ten_extension_on_deinit_done_def)
qed (use out_timer_safe [OF safe] stop_safe [OF safe] in simp_all)

lemma run_safe:
  assumes "safe_ext self" and "\<forall>op \<in> set ops. supplied op" and "unsplit_run ops self"
  shows "\<exists>self'. perform_all ops self = Some self' \<and> safe_ext self'"
  using assms
proof (induction ops arbitrary: self)
  case (Cons op ops)
  have "safe (perform op self)"
    using perform_safe [of op self] Cons.prems by (auto dest: unsplit_first)
  then obtain self' effects where self': "perform op self = Some (self', effects)" "safe_ext self'"
    by (auto simp: safe_def)
  from Cons.IH [OF self'(2) _ unsplit_rest [OF Cons.prems(3) self'(1)]] Cons.prems(2) self'(1)
  show ?case by simp
qed simp

lemma reachable_safe: "reachable_unsplit self \<Longrightarrow> safe_ext self"
proof (induction rule: reachable_unsplit.induct)
  case (step self op self' effects)
  with perform_safe [of op self] show ?case by (auto simp: safe_def)
qed (rule created_safe)


section \<open>Sample extensions\<close>

definition sample_info :: ten_extension_info where
  "sample_info =
     \<lparr>dest_cmd = [], dest_data = [], dest_video_frame = [], dest_audio_frame = [], msg_conversions = None\<rparr>"

definition sample_extension :: "string \<Rightarrow> ten_extension" where
  "sample_extension name =
     \<lparr>ext_state = TEN_EXTENSION_STATE_ON_START_DONE,
      ext_loc = \<lparr>app_uri = ''localhost'', graph_id = ''g'', extension_group_name = ''eg'', extension_name = name\<rparr>,
      ext_info = Some sample_info,
      ext_callbacks = \<lparr>has_on_start = True, has_on_stop = True, has_on_deinit = True, has_on_cmd = True,
        has_on_data = True, has_on_video_frame = True, has_on_audio_frame = True\<rparr>,
      ext_schemas = ten_schema_store_init zeroed_store, pending_msgs = [],
      ext_paths = ten_path_table_create (Some (180000000, 180000000)), path_timers = []\<rparr>"

definition sample_runtime :: "string \<Rightarrow> ten_runtime" where
  "sample_runtime new_id =
     \<lparr>engine = \<lparr>engine_app_uri = ''localhost'', engine_graph_id = ''g'', predefined_graph_infos = []\<rparr>,
      clock = (\<lambda>_. 1000), uuids = (\<lambda>_. new_id), casts = saturating_target\<rparr>"

definition sample_command :: "string \<Rightarrow> ten_cmd_base" where
  "sample_command receiver =
     \<lparr>msg_type = TEN_MSG_TYPE_CMD, msg_name = ''hello'', src_loc = ten_loc_init_empty,
      dest_loc = [\<lparr>app_uri = ''localhost'', graph_id = [], extension_group_name = ''eg'', extension_name = receiver\<rparr>],
      properties = VObject [], parent_cmd_id = [], cmd_id = [], seq_id = [], result_handler = None\<rparr>"

lemma sample_extension_facts:
  "new_extension (sample_extension n)" "ext_ok (sample_extension n)"
  "ext_state (sample_extension n) = TEN_EXTENSION_STATE_ON_START_DONE"
  "ext_schemas (sample_extension n) = ten_schema_store_init zeroed_store"
  "in_paths (ext_paths (sample_extension n)) = []" "out_paths (ext_paths (sample_extension n)) = []"
proof -
  show new: "new_extension (sample_extension n)"
    unfolding new_extension_def
    by (intro conjI exI [of _ "Some (180000000, 180000000)"])
       (simp_all add: sample_extension_def conversions_ok_def sample_info_def)
  from created_safe [OF this] show "ext_ok (sample_extension n)" by (simp add: safe_ext_def)
qed (simp_all add: sample_extension_def ten_path_table_create_def)


end
