(* ===== verification/Extension_Trip.thy ===== *)
theory Extension_Trip
  imports Extension_Steps
begin

text \<open>
  The way of a command and of its result: from the extension that sends the command to the
  one that handles it and back.
\<close>

section \<open>The last path of a list\<close>

lemma find_none: "(\<And>x. x \<in> set xs \<Longrightarrow> \<not> P x) \<Longrightarrow> List.find P xs = None"
  by (simp add: find_None_iff)

lemma find_append:
  "List.find P (xs @ ys) = (case List.find P xs of Some x \<Rightarrow> Some x | None \<Rightarrow> List.find P ys)"
  by (induction xs) auto

lemma on_path_other: "(\<And>p. p \<in> set ps \<Longrightarrow> path_addr p \<noteq> a) \<Longrightarrow> map (on_path a f) ps = ps"
  by (induction ps) auto

lemma fresh_addr:
  assumes "table_ok t" and "path_addr p = next_addr t"
  shows "q \<in> set (in_paths t) \<Longrightarrow> path_addr q \<noteq> path_addr p"
    and "q \<in> set (out_paths t) \<Longrightarrow> path_addr q \<noteq> path_addr p"
  using table_okD(2) [OF assms(1), of q] assms(2) by (auto simp: all_paths_def)

lemma pushed_update:
  assumes "table_ok t" and "path_addr p = next_addr t"
  shows "update_path (path_addr p) f (push_path ty p t) = push_path ty (f p) t"
  using on_path_other [OF fresh_addr(1) [OF assms]] on_path_other [OF fresh_addr(2) [OF assms]]
  by (simp add: update_path_def push_path_def set_paths_def paths_of_def)

lemma pushed_at:
  assumes "table_ok t" and "path_addr p = next_addr t"
  shows "path_at (push_path ty p t) (path_addr p) = Some p"
  using find_none [of "in_paths t" "\<lambda>q. path_addr q = path_addr p"]
    find_none [of "out_paths t" "\<lambda>q. path_addr q = path_addr p"] fresh_addr [OF assms]
  by (auto simp: path_at_def push_path_def set_paths_def paths_of_def find_append split: option.splits)

text \<open>A path on its own, that no older path of its list has the id of; a lone one converts no result.\<close>

definition alone :: "TEN_PATH_TYPE \<Rightarrow> ten_path \<Rightarrow> ten_path_table \<Rightarrow> bool" where
  "alone ty p t \<longleftrightarrow>
     table_ok t \<and> ty \<noteq> TEN_PATH_INVALID \<and> path_addr p = next_addr t \<and> path_group p = None \<and>
     (\<forall>q \<in> set (paths_of ty t). path_cmd_id q \<noteq> path_cmd_id p)"

definition lone :: "TEN_PATH_TYPE \<Rightarrow> ten_path \<Rightarrow> ten_path_table \<Rightarrow> bool" where
  "lone ty p t \<longleftrightarrow>
     table_ok t \<and> ty \<noteq> TEN_PATH_INVALID \<and> path_addr p = next_addr t \<and> path_group p = None \<and>
     result_conversion p = None \<and> (\<forall>q \<in> set (paths_of ty t). path_cmd_id q \<noteq> path_cmd_id p)"

lemma lone_alone: "lone ty p t \<Longrightarrow> alone ty p t"
  by (simp add: lone_def alone_def)

lemma alone_set_result:
  assumes "alone ty p t" and "path_cmd_id p = cmd_id r" and "converted_result p r = Some r'"
  shows "ten_path_table_set_result ty r (push_path ty p t) =
    Some (Some (path_addr p), push_path ty (with_result p r') t)"
proof -
  from assms have t: "table_ok t" "path_addr p = next_addr t" by (simp_all add: alone_def)
  have "List.find (\<lambda>q. path_cmd_id q = cmd_id r) (paths_of ty t) = None"
    by (rule find_none) (use assms in \<open>auto simp: alone_def\<close>)
  then have "ten_path_table_find_path ty r (push_path ty p t) = Some p"
    using assms
    by (cases ty) (simp_all add: alone_def ten_path_table_find_path_def
        ten_path_table_find_path_from_cmd_id_def push_path_def set_paths_twice(3) paths_of_set_paths find_append)
  moreover have "ten_path_set_result (path_addr p) r (push_path ty p t) =
      Some (push_path ty (with_result p r') t)"
    using assms(1,3) pushed_at [OF t, of ty] pushed_update [OF t, of "\<lambda>p. with_result p r'" ty]
    by (simp add: ten_path_set_result_def alone_def)
  ultimately show ?thesis using assms(1) by (simp add: ten_path_table_set_result_def alone_def)
qed

lemma lone_set_result:
  assumes "lone ty p t" and "path_cmd_id p = cmd_id r"
  shows "ten_path_table_set_result ty r (push_path ty p t) =
    Some (Some (path_addr p), push_path ty (with_result p r) t)"
  using alone_set_result [OF lone_alone [OF assms(1)] assms(2), of r] assms(1)
  by (simp add: converted_result_def lone_def)

lemma lone_share:
  assumes "lone ty p t"
  shows "share_result (path_addr p) r' (push_path ty (with_result p r) t) = push_path ty (with_result p r') t"
  using assms pushed_update [of t "with_result p r" _ ty] by (simp add: share_result_def lone_def)

lemma pushed_remove:
  assumes "table_ok t" and "path_addr p = next_addr t"
  shows "set_paths ty (remove_node (path_addr p) (paths_of ty (push_path ty p t))) (push_path ty p t) =
    t\<lparr>next_addr := Suc (next_addr t)\<rparr>"
proof -
  have "remove_node (path_addr p) (ps @ [p]) = ps" if "\<forall>q \<in> set ps. path_addr q \<noteq> path_addr p" for ps
    using that by (induction ps) auto
  moreover have "\<forall>q \<in> set (paths_of ty t). path_addr q \<noteq> path_addr p"
    using fresh_addr [OF assms] by (auto simp: paths_of_def)
  ultimately show ?thesis by (simp add: push_path_def set_paths_twice paths_of_set_paths)
qed

lemma alone_determine:
  assumes "alone ty p t"
  shows "ten_path_table_determine_actual_cmd_result ty (path_addr p) True (push_path ty (with_result p r) t) =
    Some (Some (route_result ty p r), t\<lparr>next_addr := Suc (next_addr t)\<rparr>)"
proof -
  let ?w = "with_result p r" and ?r = "route_result ty p r"
  have addr: "path_addr p = path_addr ?w" "path_addr (with_result ?w ?r) = path_addr ?w" by simp_all
  have t: "table_ok t" "path_addr ?w = next_addr t" "path_addr (with_result ?w ?r) = next_addr t"
    and fields: "path_group ?w = None" "cached_cmd_result ?w = Some r"
    using assms by (simp_all add: alone_def)
  note at = pushed_at [OF t(1,2), of ty]
  note up = pushed_update [OF t(1,2), of "\<lambda>p. with_result p ?r" ty]
  note gone = pushed_remove [OF t(1,3), of ty, unfolded addr(2)]
  show ?thesis
    unfolding addr(1) ten_path_table_determine_actual_cmd_result_def at fields option.case Let_def if_True
      route_with_result up gone ..
qed

lemmas lone_determine = alone_determine [OF lone_alone]

section \<open>Extensions without schemas\<close>

definition no_schemas :: "ten_schema_store \<Rightarrow> bool" where
  "no_schemas s \<longleftrightarrow> (\<forall>ty name out. ten_schema_store_get_msg_schema s ty name out = None)"

lemma init_no_schemas: "no_schemas (ten_schema_store_init s)"
  using get_distinct_schema [OF init_store_ok(1)] by (simp add: no_schemas_def init_store_ok)

lemma no_schemas_validate [simp]:
  assumes "no_schemas s"
  shows "ten_raw_msg_validate_schema tg s out m err = (True, m, err)"
    and "ten_raw_cmd_result_validate_schema tg s out r err = (True, r, err)"
    and "ten_msg_validate_schema tg s out x err = (True, x, err)"
  using assms
  by (cases x; simp add: no_schemas_def ten_raw_msg_validate_schema_def
        ten_raw_cmd_result_validate_schema_def ten_msg_validate_schema_def)+

section \<open>One step after the other\<close>

lemma length_correct_dests: "length (correct_dests e ty i ds) = length ds"
  by (induction e ty i ds rule: correct_dests.induct)
     (subst correct_dests.simps, simp add: Let_def ten_msg_clear_dest_graph_id_def
        ten_msg_set_dest_engine_if_unspecified_or_predefined_graph_name_def)

text \<open>The destination of a command that names one.\<close>

definition corrected :: "ten_engine \<Rightarrow> TEN_MSG_TYPE \<Rightarrow> ten_loc \<Rightarrow> ten_loc" where
  "corrected e ty l = hd (correct_dests e ty 0 [l])"

lemma correct_one: "correct_dests e ty 0 [l] = [corrected e ty l]"
  using length_correct_dests [of e ty 0 "[l]"] by (auto simp: corrected_def length_Suc_conv)

text \<open>A command on its way from an extension.\<close>

definition on_its_way :: "ten_runtime \<Rightarrow> ten_extension \<Rightarrow> string \<Rightarrow> ten_cmd_base \<Rightarrow> ten_cmd_base" where
  "on_its_way rt self i c =
     c\<lparr>src_loc := ext_loc self, dest_loc := [corrected (engine rt) (msg_type c) (hd (dest_loc c))],
       cmd_id := i, result_handler := None, parent_cmd_id := []\<rparr>"

definition sent_path :: "ten_runtime \<Rightarrow> ten_extension \<Rightarrow> string \<Rightarrow> nat option \<Rightarrow> ten_cmd_base \<Rightarrow> ten_path" where
  "sent_path rt self i h c =
     new_out_path (clock rt 0)
       (c\<lparr>src_loc := ext_loc self, dest_loc := [corrected (engine rt) (msg_type c) (hd (dest_loc c))],
          cmd_id := i, result_handler := h\<rparr>) (ext_paths self)"

abbreviation id_for :: "ten_runtime \<Rightarrow> ten_cmd_base \<Rightarrow> string" where
  "id_for rt c \<equiv> (if cmd_id c = [] then uuids rt 0 else cmd_id c)"

lemma send_one:
  assumes ok: "ext_ok self" and none: "no_schemas (ext_schemas self)"
    and c: "msg_type c = TEN_MSG_TYPE_CMD" "dest_loc c = [d]"
  shows "ten_env_send_cmd rt self c False h err =
    Some (True, self\<lparr>ext_paths := push_path TEN_PATH_OUT (sent_path rt self (id_for rt c) h c) (ext_paths self)\<rparr>,
          [Dispatch (Msg_cmd (on_its_way rt self (id_for rt c) c))], err)"
proof -
  let ?c = "c\<lparr>src_loc := ext_loc self, dest_loc := [corrected (engine rt) (msg_type c) (hd (dest_loc c))],
    cmd_id := id_for rt c, result_handler := h\<rparr>"
  have "ten_msg_correct_dest (engine rt)
      (Msg_cmd (c\<lparr>src_loc := ext_loc self, cmd_id := id_for rt c, result_handler := h\<rparr>)) = Msg_cmd ?c"
    using c by (simp add: ten_msg_correct_dest_def correct_one)
  moreover have "msgs_for_dests (uuids rt) (Msg_cmd ?c) 0 (dest_loc ?c) = Some [Msg_cmd ?c]"
    by (simp add: need_to_clone_msg_when_sending_def)
  moreover have "add_out_paths (clock rt) 0 [Msg_cmd ?c] (ext_paths self) =
      Some ([next_addr (ext_paths self)], [Msg_cmd (on_its_way rt self (id_for rt c) c)],
            push_path TEN_PATH_OUT (sent_path rt self (id_for rt c) h c) (ext_paths self))"
    using add_out_path_eq [of ?c "clock rt 0" "ext_paths self"]
    by (simp add: sent_path_def on_its_way_def ten_cmd_base_set_result_handler_def
        ten_cmd_base_reset_parent_cmd_id_def)
  ultimately have "handle_out_request rt self
      (Msg_cmd (c\<lparr>src_loc := ext_loc self, cmd_id := id_for rt c, result_handler := h\<rparr>)) err =
    Some (True, self\<lparr>ext_paths := push_path TEN_PATH_OUT (sent_path rt self (id_for rt c) h c) (ext_paths self)\<rparr>,
          [Dispatch (Msg_cmd (on_its_way rt self (id_for rt c) c))], err)"
    using none by (simp add: handle_out_request_def ten_extension_determine_out_msg_dest_from_msg_def group_paths_def
        del: msgs_for_dests.simps add_out_paths.simps)
  moreover have "set_src (ext_loc self) (Msg_cmd
      (if cmd_id (ten_cmd_base_set_result_handler h c) = []
       then ten_cmd_base_gen_new_cmd_id_forcibly (uuids rt 0) (ten_cmd_base_set_result_handler h c)
       else ten_cmd_base_set_result_handler h c)) =
    Msg_cmd (c\<lparr>src_loc := ext_loc self, cmd_id := id_for rt c, result_handler := h\<rparr>)"
    by (simp add: ten_msg_set_src_to_loc_def ten_cmd_base_set_result_handler_def
        ten_cmd_base_gen_new_cmd_id_forcibly_def)
  ultimately show ?thesis
    using c by (simp add: ten_env_send_cmd_def ten_send_msg_internal_def Let_def ten_extension_handle_out_msg_def
        del: set_src.simps split del: if_split)
qed

text \<open>The IN path of a command that arrives, and the command as the user gets it.\<close>

abbreviation arrived :: "ten_runtime \<Rightarrow> ten_extension \<Rightarrow> ten_cmd_base \<Rightarrow> ten_cmd_base" where
  "arrived rt self c \<equiv> in_path_cmd (uuids rt 0) c (ext_paths self)"

definition received_path :: "ten_runtime \<Rightarrow> ten_extension \<Rightarrow> ten_cmd_base \<Rightarrow> ten_path" where
  "received_path rt self c = new_in_path (clock rt 0) (arrived rt self c) None (ext_paths self)"

definition ready :: "ten_extension \<Rightarrow> bool" where
  "ready self \<longleftrightarrow>
     TEN_EXTENSION_STATE_ON_START_DONE \<le> ext_state self \<and> ext_state self < TEN_EXTENSION_STATE_ON_DEINIT \<and>
     has_on_cmd (ext_callbacks self) \<and> Option.bind (ext_info self) msg_conversions = None"

lemma receive_one:
  assumes ok: "ext_ok self" and none: "no_schemas (ext_schemas self)" and ready: "ready self"
    and c: "msg_type c = TEN_MSG_TYPE_CMD" "dest_loc c \<noteq> []"
  shows "ten_extension_handle_in_msg rt self (Msg_cmd c) =
    Some (self\<lparr>ext_paths := push_path TEN_PATH_IN (received_path rt self c) (ext_paths self)\<rparr>,
          [Call_on_cmd ((arrived rt self c)\<lparr>parent_cmd_id := [], dest_loc := []\<rparr>)])"
proof -
  have conv: "converted_msgs self (Msg_cmd c) = [(Msg_cmd c, None)]"
    using ready by (simp add: converted_msgs_def ready_def)
  have "add_in_paths rt 0 [(Msg_cmd c, None)] (ext_paths self) =
      Some ([next_addr (ext_paths self)], [Msg_cmd ((arrived rt self c)\<lparr>parent_cmd_id := []\<rparr>)],
            push_path TEN_PATH_IN (received_path rt self c) (ext_paths self))"
    using add_in_path_eq [OF c(2), of "clock rt 0" "uuids rt 0" None "ext_paths self"] c(1)
    by (simp add: received_path_def create_in_path_def ten_cmd_base_reset_parent_cmd_id_def)
  then have "handle_in_request rt self (Msg_cmd c) =
    Some (self\<lparr>ext_paths := push_path TEN_PATH_IN (received_path rt self c) (ext_paths self)\<rparr>,
          [Call_on_cmd ((arrived rt self c)\<lparr>parent_cmd_id := [], dest_loc := []\<rparr>)])"
    using conv none ready c(1)
    by (simp add: handle_in_request_def group_paths_def ten_extension_validate_msg_schema_def deliver_msg_def
        ten_extension_on_cmd_def ready_def del: add_in_paths.simps)
  then show ?thesis
    using ready by (simp add: ten_extension_handle_in_msg_def ready_def state_order)
qed

text \<open>The result goes back, and the path is gone.\<close>

lemma return_one:
  assumes lone: "lone TEN_PATH_IN p t" and none: "no_schemas (ext_schemas self)"
    and r: "is_final r" "cmd_id c = path_cmd_id p"
    and self: "ext_paths self = push_path TEN_PATH_IN p t"
  shows "ten_env_return_result rt self r c err =
    Some (True, self\<lparr>ext_paths := t\<lparr>next_addr := Suc (next_addr t)\<rparr>\<rparr>,
          [Dispatch (Msg_result (route_result TEN_PATH_IN p
             (r\<lparr>cmd_id := cmd_id c, seq_id := seq_id c, src_loc := ext_loc self\<rparr>)))], err)"
proof -
  let ?r = "r\<lparr>cmd_id := cmd_id c, seq_id := seq_id c, src_loc := ext_loc self, dest_loc := []\<rparr>"
  let ?r1 = "?r\<lparr>original_cmd_name := path_cmd_name p\<rparr>"
  have id: "path_cmd_id p = cmd_id ?r" using r(2) by simp
  have at: "path_at (push_path TEN_PATH_IN (with_result p x) t) (path_addr p) = Some (with_result p x)" for x
    using pushed_at [of t "with_result p x" TEN_PATH_IN] lone by (simp add: lone_def)
  have conv: "result_conversion (with_result p x) = None" for x using lone by (simp add: lone_def)
  have final: "is_final ?r1" using r(1) by simp
  have "route_result TEN_PATH_IN p ?r1 = route_result TEN_PATH_IN p
      (r\<lparr>cmd_id := cmd_id c, seq_id := seq_id c, src_loc := ext_loc self\<rparr>)"
    by (simp add: route_result_def Let_def ten_cmd_result_set_original_cmd_name_def)
  moreover have "handle_out_result rt self ?r err =
    Some (True, self\<lparr>ext_paths := t\<lparr>next_addr := Suc (next_addr t)\<rparr>\<rparr>,
          [Dispatch (Msg_result (route_result TEN_PATH_IN p ?r1))], err)"
  proof -
    have "\<exists>l. dest_loc (route_result TEN_PATH_IN p ?r1) = [l] \<and>
        set_dest [l] (Msg_result (route_result TEN_PATH_IN p ?r1)) = Msg_result (route_result TEN_PATH_IN p ?r1)"
      by (simp add: route_result_def Let_def)
    then have "msgs_for_dests (uuids rt) (Msg_result (route_result TEN_PATH_IN p ?r1)) 0
        (dest_loc (route_result TEN_PATH_IN p ?r1)) = Some [Msg_result (route_result TEN_PATH_IN p ?r1)]"
      by (auto simp: need_to_clone_msg_when_sending_def simp del: set_dest.simps)
    then show ?thesis
      using lone_share [OF lone] lone_determine [OF lone, of ?r1] none final conv
      by (simp add: handle_out_result_def self lone_set_result [OF lone id] at Let_def
          ten_cmd_result_set_original_cmd_name_def ten_extension_determine_out_msg_dest_from_msg_def)
  qed
  ultimately show ?thesis
    by (simp add: ten_env_return_result_def ten_env_return_result_internal_def Let_def
        ten_extension_handle_out_msg_def ten_msg_set_src_to_loc_def ten_msg_clear_dest_def)
qed

text \<open>The result comes in, and its handler is called.\<close>

lemma result_one:
  assumes lone: "lone TEN_PATH_OUT p t" and none: "no_schemas (ext_schemas self)"
    and state: "ext_state self < TEN_EXTENSION_STATE_ON_DEINIT"
    and r: "is_final r" "cmd_id r = path_cmd_id p"
    and p: "path_result_handler p = Some h" "original_cmd_id p = []"
    and self: "ext_paths self = push_path TEN_PATH_OUT p t"
    and mine: "\<forall>q \<in> set (in_paths t). path_cmd_id q \<noteq> path_cmd_id p"
  shows "ten_extension_handle_in_msg rt self (Msg_result r) =
    Some (self\<lparr>ext_paths := t\<lparr>next_addr := Suc (next_addr t)\<rparr>\<rparr>,
          [Call_result_handler h (r\<lparr>original_cmd_name := path_cmd_name p, dest_loc := [], result_handler := Some h\<rparr>)])"
proof -
  let ?t = "t\<lparr>next_addr := Suc (next_addr t)\<rparr>" and ?r = "route_result TEN_PATH_OUT p r"
  have route: "?r = r\<lparr>original_cmd_name := path_cmd_name p, dest_loc := [path_src_loc p], result_handler := Some h\<rparr>"
    using p by (simp add: route_result_def Let_def ten_cmd_base_set_result_handler_def
        ten_cmd_result_set_original_cmd_name_def)
  have id: "path_cmd_id p = cmd_id r" using r(2) by simp
  have "List.find (\<lambda>q. path_cmd_id q = cmd_id ?r) (in_paths ?t) = None"
    by (rule find_none) (use mine id route in simp)
  then have cache: "ten_extension_cache_cmd_result_to_in_path_for_auto_return ?r ?t = Some (None, ?t)"
    by (simp add: ten_extension_cache_cmd_result_to_in_path_for_auto_return_def paths_of_def
        ten_extension_get_cmd_return_path_from_itself_def ten_path_table_find_path_from_cmd_id_def)
  have at: "path_at (push_path TEN_PATH_OUT (with_result p r) t) (path_addr p) = Some (with_result p r)"
    using pushed_at [of t "with_result p r" TEN_PATH_OUT] lone by (simp add: lone_def)
  have res: "result_path TEN_PATH_OUT (path_addr p) (push_path TEN_PATH_OUT (with_result p r) t) = Some (path_addr p)"
    using at lone by (simp add: result_path_def lone_def)
  have t: "table_ok t" "path_addr p = next_addr t" using lone by (simp_all add: lone_def)
  have gone: "share_result (path_addr p) x ?t = ?t" for x
    using on_path_other [OF fresh_addr(1) [OF t]] on_path_other [OF fresh_addr(2) [OF t]]
    by (simp add: share_result_def update_path_def)
  have val: "ten_extension_validate_msg_schema rt (self\<lparr>ext_paths := ?t\<rparr>) (Msg_result ?r) ten_error_init =
      Some (True, Msg_result ?r, self\<lparr>ext_paths := ?t\<rparr>, [], ten_error_init)"
    using none by (simp add: ten_extension_validate_msg_schema_def)
  have det: "ten_path_table_determine_actual_cmd_result TEN_PATH_OUT (path_addr p) (is_final r)
      (push_path TEN_PATH_OUT (with_result p r) t) = Some (Some ?r, ?t)"
    using lone_determine [OF lone, of r] r(1) by simp
  have "handle_in_result rt self r = deliver_result rt (self\<lparr>ext_paths := ?t\<rparr>) (ten_msg_clear_dest ?r)"
    unfolding handle_in_result_def self lone_set_result [OF lone id] option.case prod.case det cache val res
    by (simp add: Let_def gone)
  also have "\<dots> = Some (self\<lparr>ext_paths := ?t\<rparr>,
      [Call_result_handler h (r\<lparr>original_cmd_name := path_cmd_name p, dest_loc := [], result_handler := Some h\<rparr>)])"
    by (simp add: deliver_result_def route ten_msg_clear_dest_def)
  finally show ?thesis using state by (simp add: ten_extension_handle_in_msg_def state_order)
qed

section \<open>The whole way\<close>

lemma received_facts:
  assumes "ext_ok self" and "parent_cmd_id c = []" and "cmd_id c \<noteq> []" and "msg_type c = TEN_MSG_TYPE_CMD"
    and "\<forall>q \<in> set (in_paths (ext_paths self)). path_cmd_id q \<noteq> uuids rt 0"
  shows "lone TEN_PATH_IN (received_path rt self c) (ext_paths self)"
    and "path_cmd_id (received_path rt self c) = cmd_id (arrived rt self c)"
    and "(if original_cmd_id (received_path rt self c) \<noteq> [] then original_cmd_id (received_path rt self c)
          else cmd_id (arrived rt self c)) = cmd_id c"
proof -
  let ?found = "ten_path_table_find_path_from_cmd_id TEN_PATH_IN (Some (cmd_id c)) (ext_paths self) \<noteq> None"
  have arrived: "cmd_id (arrived rt self c) = (if ?found then uuids rt 0 else cmd_id c)"
    "parent_cmd_id (arrived rt self c) = (if ?found then cmd_id c else [])"
    using assms(2,4) by (simp_all add: in_path_cmd_def ten_raw_msg_is_cmd_def
        ten_cmd_base_gen_new_cmd_id_forcibly_def ten_cmd_base_save_cmd_id_to_parent_cmd_id_def)
  have "\<forall>q \<in> set (in_paths (ext_paths self)). path_cmd_id q \<noteq> cmd_id (arrived rt self c)"
    using assms(5) by (auto simp: arrived ten_path_table_find_path_from_cmd_id_def find_None_iff paths_of_def)
  then show "lone TEN_PATH_IN (received_path rt self c) (ext_paths self)"
    using ext_okD(1) [OF assms(1)] by (simp add: lone_def received_path_def paths_ok_def paths_of_def)
  show "path_cmd_id (received_path rt self c) = cmd_id (arrived rt self c)" by (simp add: received_path_def)
  show "(if original_cmd_id (received_path rt self c) \<noteq> [] then original_cmd_id (received_path rt self c)
          else cmd_id (arrived rt self c)) = cmd_id c"
    using assms(3) by (simp add: received_path_def arrived)
qed

text \<open>The four steps, with what the messages between them look like.\<close>

lemma command_trip:
  assumes "ext_ok A" and "no_schemas (ext_schemas A)" and "ext_state A < TEN_EXTENSION_STATE_ON_DEINIT"
    and "ext_ok B" and "no_schemas (ext_schemas B)" and "ready B"
    and "msg_type c = TEN_MSG_TYPE_CMD" and "dest_loc c = [d]" and "parent_cmd_id c = []"
    and "id_for rtA c \<noteq> []"
    and "\<forall>q \<in> set (in_paths (ext_paths A)) \<union> set (out_paths (ext_paths A)). path_cmd_id q \<noteq> id_for rtA c"
    and "\<forall>q \<in> set (in_paths (ext_paths B)). path_cmd_id q \<noteq> uuids rtB 0"
    and "is_final r"
  shows "\<exists>A1 sent B1 handled B2 returned A2 result.
    ten_env_send_cmd rtA A c False (Some h) err = Some (True, A1, [Dispatch (Msg_cmd sent)], err) \<and>
    ten_extension_handle_in_msg rtB B (Msg_cmd sent) = Some (B1, [Call_on_cmd handled]) \<and>
    ten_env_return_result rtB' B1 r handled err' = Some (True, B2, [Dispatch (Msg_result returned)], err') \<and>
    ten_extension_handle_in_msg rtA' A1 (Msg_result returned) = Some (A2, [Call_result_handler h result]) \<and>
    dest_loc returned = [ext_loc A] \<and> cmd_id result = id_for rtA c \<and>
    status_code result = status_code r \<and> properties result = properties r \<and>
    original_cmd_name result = msg_name c \<and> properties handled = properties c \<and>
    in_paths (ext_paths A2) = in_paths (ext_paths A) \<and> out_paths (ext_paths A2) = out_paths (ext_paths A) \<and>
    in_paths (ext_paths B2) = in_paths (ext_paths B) \<and> out_paths (ext_paths B2) = out_paths (ext_paths B) \<and>
    dest_loc sent = [corrected (engine rtA) TEN_MSG_TYPE_CMD d] \<and> msg_type sent = TEN_MSG_TYPE_CMD \<and>
    msg_type returned = msg_type r"
proof -
  define i where i: "i = id_for rtA c"
  note id = assms(10,11) [folded i]
  let ?m = "on_its_way rtA A i c" and ?p = "sent_path rtA A i (Some h) c"
  let ?A1 = "A\<lparr>ext_paths := push_path TEN_PATH_OUT ?p (ext_paths A)\<rparr>"
  have m: "msg_type ?m = TEN_MSG_TYPE_CMD" "dest_loc ?m \<noteq> []" "cmd_id ?m = i" "parent_cmd_id ?m = []"
    "src_loc ?m = ext_loc A" "msg_name ?m = msg_name c" "properties ?m = properties c"
    "dest_loc ?m = [corrected (engine rtA) TEN_MSG_TYPE_CMD d]"
    using assms(7,8) by (simp_all add: on_its_way_def)
  let ?q = "received_path rtB B ?m" and ?c = "arrived rtB B ?m"
  let ?B1 = "B\<lparr>ext_paths := push_path TEN_PATH_IN ?q (ext_paths B)\<rparr>"
  let ?c' = "?c\<lparr>parent_cmd_id := [], dest_loc := []\<rparr>"
  note q = received_facts [OF assms(4) m(4) _ m(1) assms(12), unfolded m(3), OF id(1)]
  let ?t = "(ext_paths B)\<lparr>next_addr := Suc (next_addr (ext_paths B))\<rparr>"
  let ?r = "r\<lparr>cmd_id := cmd_id ?c', seq_id := seq_id ?c', src_loc := ext_loc ?B1\<rparr>"
  let ?r1 = "route_result TEN_PATH_IN ?q ?r"
  have send: "ten_env_send_cmd rtA A c False (Some h) err = Some (True, ?A1, [Dispatch (Msg_cmd ?m)], err)"
    unfolding i by (rule send_one [OF assms(1,2,7,8)])
  have receive: "ten_extension_handle_in_msg rtB B (Msg_cmd ?m) = Some (?B1, [Call_on_cmd ?c'])"
    by (rule receive_one [OF assms(4-6) m(1,2)])
  have return: "ten_env_return_result rtB' ?B1 r ?c' err' =
      Some (True, ?B1\<lparr>ext_paths := ?t\<rparr>, [Dispatch (Msg_result ?r1)], err')"
    by (rule return_one [OF q(1)]) (use assms(5,13) q(2) in simp_all)
  have "lone TEN_PATH_OUT ?p (ext_paths A)"
    using ext_okD(1) [OF assms(1)] id(2) by (simp add: lone_def sent_path_def paths_ok_def paths_of_def)
  moreover have "cmd_id ?r1 = (if original_cmd_id ?q \<noteq> [] then original_cmd_id ?q else cmd_id ?c)"
    by (simp add: route_result_def Let_def ten_cmd_result_set_original_cmd_name_def)
  then have r1_id: "cmd_id ?r1 = i" by (rule trans [OF _ q(3)])
  moreover have r1: "is_final ?r1" "status_code ?r1 = status_code r" "properties ?r1 = properties r"
    "dest_loc ?r1 = [ext_loc A]" "msg_type ?r1 = msg_type r"
    using assms(13) m(5)
    by (simp_all add: route_result_def Let_def ten_cmd_result_set_original_cmd_name_def received_path_def)
  moreover have "path_cmd_id ?p = i" "path_result_handler ?p = Some h" "original_cmd_id ?p = []"
    "path_cmd_name ?p = msg_name c"
    using assms(9) by (simp_all add: sent_path_def)
  ultimately have result: "ten_extension_handle_in_msg rtA' ?A1 (Msg_result ?r1) =
    Some (?A1\<lparr>ext_paths := (ext_paths A)\<lparr>next_addr := Suc (next_addr (ext_paths A))\<rparr>\<rparr>,
      [Call_result_handler h (?r1\<lparr>original_cmd_name := msg_name c, dest_loc := [], result_handler := Some h\<rparr>)])"
    using result_one [of ?p "ext_paths A" ?A1 ?r1 h rtA'] assms(2,3) id(2) by simp
  show ?thesis
    by (intro exI conjI, rule send, rule receive, rule return, rule result) (use r1 r1_id m(1,7,8) in \<open>simp_all flip: i\<close>)
qed

text \<open>
  C2: A command finds its way to another extension and its result back to the handler of the sender:
  the receiver may have to rename the command because the id is already taken there, yet the
  result comes back under the id of the sender, with the status and the properties the
  receiver gave it, addressed to the sender, and both path lists of both extensions are as
  they were. The extensions have no schemas, and the receiver has no conversions; its user
  answers with a final result.
\<close>

theorem command_round_trip:
  assumes "ext_ok A" and "no_schemas (ext_schemas A)" and "ext_state A < TEN_EXTENSION_STATE_ON_DEINIT"
    and "ext_ok B" and "no_schemas (ext_schemas B)" and "ready B"
    and "msg_type c = TEN_MSG_TYPE_CMD" and "dest_loc c = [d]" and "parent_cmd_id c = []"
    and "id_for rtA c \<noteq> []"
    and "\<forall>q \<in> set (in_paths (ext_paths A)) \<union> set (out_paths (ext_paths A)). path_cmd_id q \<noteq> id_for rtA c"
    and "\<forall>q \<in> set (in_paths (ext_paths B)). path_cmd_id q \<noteq> uuids rtB 0"
    and "is_final r"
  shows "\<exists>A1 sent B1 handled B2 returned A2 result.
    ten_env_send_cmd rtA A c False (Some h) err = Some (True, A1, [Dispatch (Msg_cmd sent)], err) \<and>
    ten_extension_handle_in_msg rtB B (Msg_cmd sent) = Some (B1, [Call_on_cmd handled]) \<and>
    ten_env_return_result rtB' B1 r handled err' = Some (True, B2, [Dispatch (Msg_result returned)], err') \<and>
    ten_extension_handle_in_msg rtA' A1 (Msg_result returned) = Some (A2, [Call_result_handler h result]) \<and>
    dest_loc returned = [ext_loc A] \<and> cmd_id result = id_for rtA c \<and>
    status_code result = status_code r \<and> properties result = properties r \<and>
    original_cmd_name result = msg_name c \<and> properties handled = properties c \<and>
    in_paths (ext_paths A2) = in_paths (ext_paths A) \<and> out_paths (ext_paths A2) = out_paths (ext_paths A) \<and>
    in_paths (ext_paths B2) = in_paths (ext_paths B) \<and> out_paths (ext_paths B2) = out_paths (ext_paths B)"
  using command_trip [OF assms, of h err rtB' err' rtA'] by blast

text \<open>The receiver already waits on a command with the id that the sender takes.\<close>

definition busy_receiver :: ten_extension where
  "busy_receiver =
     (sample_extension ''b'')
       \<lparr>ext_paths := push_path TEN_PATH_IN
          (new_in_path 1000 ((sample_command ''b'')\<lparr>cmd_id := ''taken''\<rparr>) None
            (ext_paths (sample_extension ''b'')))
          (ext_paths (sample_extension ''b''))\<rparr>"

lemma sample_trip:
  "no_schemas (ext_schemas (sample_extension n))" "no_schemas (ext_schemas busy_receiver)"
  "ready busy_receiver" "ext_ok busy_receiver"
  "msg_type (sample_command n) = TEN_MSG_TYPE_CMD" "parent_cmd_id (sample_command n) = []"
  "id_for (sample_runtime ''taken'') (sample_command n) = ''taken''" "uuids (sample_runtime i) 0 = i"
  "map path_cmd_id (in_paths (ext_paths busy_receiver)) = [''taken'']" "is_final (ten_cmd_result_create 0)"
proof -
  let ?p = "new_in_path 1000 ((sample_command ''b'')\<lparr>cmd_id := ''taken''\<rparr>) None (ext_paths (sample_extension ''b''))"
  have "paths_ok (push_path TEN_PATH_IN ?p (ext_paths (sample_extension ''b'')))"
    by (rule push_path_ok [OF ext_okD(1) [OF sample_extension_facts(2)]]) (simp_all add: convertible_def)
  from only_paths_ok [OF only_paths_set [OF this] sample_extension_facts(2)]
  show "ext_ok busy_receiver" by (simp add: busy_receiver_def)
  show "map path_cmd_id (in_paths (ext_paths busy_receiver)) = [''taken'']"
    using sample_extension_facts(5) [of "''b''"]
    by (simp add: busy_receiver_def push_path_def set_paths_def paths_of_def)
  show "ready busy_receiver"
    by (simp add: ready_def busy_receiver_def sample_extension_def sample_info_def state_order)
qed (simp_all add: sample_extension_facts init_no_schemas busy_receiver_def sample_command_def sample_runtime_def
      ten_cmd_result_create_def)

theorem command_round_trip_witness:
  "\<exists>A1 sent B1 handled B2 returned A2 result.
    ten_env_send_cmd (sample_runtime ''taken'') (sample_extension ''a'') (sample_command ''b'') False (Some 7)
      ten_error_init = Some (True, A1, [Dispatch (Msg_cmd sent)], ten_error_init) \<and>
    ten_extension_handle_in_msg (sample_runtime ''new'') busy_receiver (Msg_cmd sent) =
      Some (B1, [Call_on_cmd handled]) \<and>
    ten_env_return_result (sample_runtime ''x'') B1 (ten_cmd_result_create 0) handled ten_error_init =
      Some (True, B2, [Dispatch (Msg_result returned)], ten_error_init) \<and>
    ten_extension_handle_in_msg (sample_runtime ''y'') A1 (Msg_result returned) =
      Some (A2, [Call_result_handler 7 result]) \<and>
    cmd_id result = ''taken''"
proof -
  let ?ids = "map path_cmd_id (in_paths (ext_paths busy_receiver))"
  have new: "\<forall>q \<in> set (in_paths (ext_paths busy_receiver)). path_cmd_id q \<noteq> uuids (sample_runtime ''new'') 0"
  proof
    fix q
    assume "q \<in> set (in_paths (ext_paths busy_receiver))"
    then have "path_cmd_id q \<in> set ?ids" by (simp only: set_map) (rule imageI)
    then have "path_cmd_id q = ''taken''" unfolding sample_trip(9) by simp
    then show "path_cmd_id q \<noteq> uuids (sample_runtime ''new'') 0" unfolding sample_trip(8) by simp
  qed
  have free: "\<forall>q \<in> set (in_paths (ext_paths (sample_extension ''a''))) \<union>
      set (out_paths (ext_paths (sample_extension ''a''))).
      path_cmd_id q \<noteq> id_for (sample_runtime ''taken'') (sample_command ''b'')"
    by (simp add: sample_extension_facts)
  have state: "ext_state (sample_extension ''a'') < TEN_EXTENSION_STATE_ON_DEINIT"
    by (simp add: sample_extension_facts state_order)
  have dest: "dest_loc (sample_command ''b'') =
      [\<lparr>app_uri = ''localhost'', graph_id = [], extension_group_name = ''eg'', extension_name = ''b''\<rparr>]"
    by (simp add: sample_command_def)
  have "id_for (sample_runtime ''taken'') (sample_command ''b'') \<noteq> []" unfolding sample_trip(7) by simp
  from command_round_trip [OF sample_extension_facts(2) sample_trip(1) state sample_trip(4,2,3,5) dest
      sample_trip(6) this free new sample_trip(10), of 7 ten_error_init "sample_runtime ''x''" ten_error_init
      "sample_runtime ''y''"]
  obtain A1 sent B1 handled B2 returned A2 res where
    "ten_env_send_cmd (sample_runtime ''taken'') (sample_extension ''a'') (sample_command ''b'') False (Some 7)
      ten_error_init = Some (True, A1, [Dispatch (Msg_cmd sent)], ten_error_init)"
    "ten_extension_handle_in_msg (sample_runtime ''new'') busy_receiver (Msg_cmd sent) =
      Some (B1, [Call_on_cmd handled])"
    "ten_env_return_result (sample_runtime ''x'') B1 (ten_cmd_result_create 0) handled ten_error_init =
      Some (True, B2, [Dispatch (Msg_result returned)], ten_error_init)"
    "ten_extension_handle_in_msg (sample_runtime ''y'') A1 (Msg_result returned) =
      Some (A2, [Call_result_handler 7 res])" "cmd_id res = id_for (sample_runtime ''taken'') (sample_command ''b'')"
    by (elim exE conjE) (rule that)
  then show ?thesis unfolding sample_trip(7) by (intro exI conjI)
qed

end
