(* ===== verification/Extension_Close.thy ===== *)
theory Extension_Close
  imports Extension_Trip
begin

text \<open>
  The end of an extension: every command that still waits for its result gets an error, and
  no path is left.
\<close>

section \<open>An error that arrives at a path\<close>

lemma error_arrives:
  assumes ok: "table_ok t" and ids: "distinct (map path_cmd_id (paths_of ty t))" "ty \<noteq> TEN_PATH_INVALID"
    and p: "p \<in> set (paths_of ty t)" "path_cmd_id p = cmd_id r" "result_conversion p = None"
    and bad: "status_code r \<noteq> TEN_STATUS_CODE_OK"
  obtains (single) t' where "path_group p = None"
      "result_arrives ty r True t = Some (Some (route_result ty p r), t')"
      "paths_of ty t' = filter (\<lambda>q. path_addr q \<noteq> path_addr p) (paths_of ty t)"
  | (removed) g res t' where "path_group p = Some g" "result_arrives ty r True t = Some (res, t')"
      "paths_of ty t' = filter (\<lambda>q. path_group q \<noteq> Some g) (paths_of ty t)"
  | (waits) g res t' h where "path_group p = Some g" "result_arrives ty r True t = Some (res, t')"
      "paths_of ty t' = map h (paths_of ty t)" "\<forall>q. recached q (h q)"
      "\<forall>q \<in> set (paths_of ty t). pending (h q) \<longleftrightarrow> pending q \<and> path_addr q \<noteq> path_addr p"
      "\<exists>q \<in> set (paths_of ty t). path_group q = Some g \<and> pending q \<and> path_addr q \<noteq> path_addr p"
proof (cases "path_group p")
  case None
  let ?w = "with_result p r" and ?t = "cached_table p r t"
  have ok1: "table_ok ?t" by (rule steps_to_ok [OF cached_table_steps [OF ok p(1)]])
  have here: "?w \<in> set (paths_of ty ?t)" by (rule cached_path [OF p(1)])
  have set: "ten_path_set_result (path_addr p) r t = Some ?t"
    using set_result_eq [OF ok p(1)] p(3) by (simp add: converted_result_def)
  have "\<not> pending ?w" "path_group ?w = None" using None by (simp_all add: pending_def)
  note det = determine_ungrouped [OF ok1 here this, of True]
  let ?r = "route_result ty ?w r"
  let ?t2 = "cache_at (path_addr p) ?r ?t"
  have route: "?r = route_result ty p r" by simp
  have addrs: "map path_addr (paths_of ty ?t2) = map path_addr (paths_of ty t)"
    using None by (simp add: cached_table_def)
  have node: "remove_node (path_addr p) (paths_of ty ?t2) =
      filter (\<lambda>q. path_addr q \<noteq> path_addr p) (paths_of ty ?t2)"
    by (rule remove_node_filter) (use table_ok_lists(1) [OF ok, of ty] addrs in simp)
  have "paths_of ty ?t2 = recache_in (path_addr p) ?r (recache_in (path_addr p) r (paths_of ty t))"
    using None by (simp add: cached_table_def)
  moreover have "filter (\<lambda>q. path_addr q \<noteq> a) (recache_in a x ps) = filter (\<lambda>q. path_addr q \<noteq> a) ps" for a x ps
    by (induction ps) auto
  ultimately have rest: "filter (\<lambda>q. path_addr q \<noteq> path_addr p) (paths_of ty ?t2) =
      filter (\<lambda>q. path_addr q \<noteq> path_addr p) (paths_of ty t)" by (simp only:)
  show thesis
  proof (rule single [OF None])
    show "result_arrives ty r True t = Some (Some (route_result ty p r),
        set_paths ty (remove_node (path_addr p) (paths_of ty ?t2)) ?t2)"
      using None set det
      by (simp add: result_arrives_def ten_path_table_set_result_def
          find_path_unique [OF p(1) ids(1) p(2) ids(2)] settled_def Let_def)
    show "paths_of ty (set_paths ty (remove_node (path_addr p) (paths_of ty ?t2)) ?t2) =
        filter (\<lambda>q. path_addr q \<noteq> path_addr p) (paths_of ty t)"
      by (simp only: paths_of_set_paths node rest)
  qed
next
  case (Some g)
  from members_paths [OF ok p(1) Some] obtain grp ps where grp: "path_groups t g = Some grp"
    "distinct (members grp)" "policy grp \<noteq> TEN_PATH_GROUP_POLICY_INVALID"
    and all2: "list_all2 (\<lambda>a p. path_at t a = Some p) (members grp) ps"
    and ps: "set ps = {q \<in> set (paths_of ty t). path_group q = Some g}" "ps \<noteq> []" .
  have mem: "members grp = map path_addr ps" by (rule list_all2_addr [OF all2])
  from ps(1) p(1) Some have "p \<in> set ps" by simp
  then obtain us vs where split: "ps = us @ p # vs" by (meson split_list)
  have ros: "roster ty t g grp (us @ p # vs)"
    using grp mem ps split by (simp only: roster_def) simp
  let ?w = "with_result p r" and ?t1 = "cached_table p r t"
  have ok1: "table_ok ?t1" by (rule steps_to_ok [OF cached_table_steps [OF ok p(1)]])
  have ros1: "roster ty ?t1 g (move_last (path_addr p) grp) (us @ vs @ [?w])"
    by (rule roster_cached_table [OF ok ros])
  have paths1: "paths_of ty ?t1 = recache_in (path_addr p) r (paths_of ty t)" by (simp add: cached_table_def Some)
  have same: "q = p" if "q \<in> set (paths_of ty t)" "path_addr q = path_addr p" for q
    using table_ok_lists(1) [OF ok, of ty] p(1) that by (simp add: distinct_map inj_on_def)
  have off: "filter (\<lambda>q. path_group q \<noteq> Some g) (recache_in a x qs) = filter (\<lambda>q. path_group q \<noteq> Some g) qs"
    if "\<forall>q \<in> set qs. path_addr q = a \<longrightarrow> path_group q = Some g" for a x qs
    using that by (induction qs) auto
  have off1: "filter (\<lambda>q. path_group q \<noteq> Some g) (paths_of ty ?t1) = filter (\<lambda>q. path_group q \<noteq> Some g) (paths_of ty t)"
    unfolding paths1 by (rule off) (use same Some in auto)
  have "failed ?w" using bad by (simp add: failed_def)
  then have "\<exists>x \<in> set (us @ vs @ [?w]). failed x" by (intro bexI [of _ ?w]) simp_all
  then have "List.find failed (us @ vs @ [?w]) \<noteq> None" unfolding find_None_iff by blast
  then obtain q where q: "resolution (policy grp) (us @ vs @ [?w]) = Some q" by (auto simp: resolution_def)
  from resolution_in [OF q] have q2: "q \<in> set (us @ vs @ [?w])" "\<not> pending q" by simp_all
  have arr: "result_arrives ty r True t =
      (if has_been_processed grp \<and> (\<forall>q \<in> set (us @ vs). \<not> pending q)
       then Some (None, set_paths ty (filter (\<lambda>q. path_group q \<noteq> Some g) (paths_of ty ?t1)) ?t1)
       else settled ty q True ?t1)"
    using arrives_at_member [OF ok ros ids p(2,3), of True] q by (simp add: Let_def)
  let ?t2 = "after_settling ty g q ?t1"
  let ?r2 = "route_result ty q (the (cached_cmd_result q))"
  have np: "(\<forall>p \<in> set (us @ vs @ [?w]). \<not> pending p) \<longleftrightarrow> (\<forall>q \<in> set (us @ vs). \<not> pending q)"
    by (auto simp: pending_def)
  have set2: "settled ty q True ?t1 = Some (Some ?r2,
      if \<forall>q \<in> set (us @ vs). \<not> pending q
      then set_paths ty (filter (\<lambda>p. path_group p \<noteq> Some g) (paths_of ty ?t2)) ?t2 else ?t2)"
    using settled_group [OF ok1 ros1 q2, of True] unfolding Let_def np .
  note paths2 = after_settling_facts(3) [OF ok1 ros1, of q]
  have in_q: "q \<in> set (paths_of ty ?t1)" "path_group q = Some g" using ros1 q2(1) by (auto simp: roster_def)
  have same1: "x = q" if "x \<in> set (paths_of ty ?t1)" "path_addr x = path_addr q" for x
    using table_ok_lists(1) [OF ok1, of ty] in_q(1) that by (simp add: distinct_map inj_on_def)
  have off2: "filter (\<lambda>q. path_group q \<noteq> Some g) (paths_of ty ?t2) = filter (\<lambda>q. path_group q \<noteq> Some g) (paths_of ty t)"
    unfolding paths2 off1 [symmetric] by (rule off) (use same1 in_q(2) in auto)
  show thesis
  proof (cases "\<forall>q \<in> set (us @ vs). \<not> pending q")
    case True
    show thesis
    proof (cases "has_been_processed grp")
      case processed: True
      have "result_arrives ty r True t =
          Some (None, set_paths ty (filter (\<lambda>q. path_group q \<noteq> Some g) (paths_of ty ?t1)) ?t1)"
        using arr True processed by simp
      then show thesis by (rule removed [OF Some]) (simp add: paths_of_set_paths off1)
    next
      case False
      have "result_arrives ty r True t = Some (Some ?r2,
          set_paths ty (filter (\<lambda>p. path_group p \<noteq> Some g) (paths_of ty ?t2)) ?t2)"
        using arr False set2 True by simp
      then show thesis by (rule removed [OF Some]) (simp add: paths_of_set_paths off2)
    qed
  next
    case False
    then obtain x where x: "x \<in> set (us @ vs)" "pending x" by blast
    let ?h = "\<lambda>y. on_path (path_addr q) (\<lambda>p. with_result p ?r2) (on_path (path_addr p) (\<lambda>p. with_result p r) y)"
    have "distinct (map path_addr ps)" using ros split by (simp add: roster_def)
    with x(1) split have "path_addr x \<noteq> path_addr p" by (auto simp: image_iff)
    moreover have "x \<in> set ps" using x(1) split by auto
    then have "x \<in> set (paths_of ty t)" "path_group x = Some g" unfolding ps(1) by simp_all
    ultimately have ex: "\<exists>q \<in> set (paths_of ty t). path_group q = Some g \<and> pending q \<and> path_addr q \<noteq> path_addr p"
      using x(2) by blast
    have run: "result_arrives ty r True t = Some (Some ?r2, ?t2)"
      using arr set2 False by (simp split: if_splits) blast
    have pend: "pending (?h y) \<longleftrightarrow> pending y \<and> path_addr y \<noteq> path_addr p" if "y \<in> set (paths_of ty t)" for y
    proof (cases "path_addr y = path_addr p")
      case True
      then show ?thesis by (simp add: pending_def)
    next
      case other: False
      then have "y \<in> set (paths_of ty ?t1)" unfolding paths1 set_map by (intro image_eqI [OF _ that]) simp
      with same1 q2(2) other show ?thesis by (cases "path_addr y = path_addr q") (auto simp: pending_def)
    qed
    show thesis
      by (rule waits [OF Some run, of ?h])
         (use pend ex in \<open>simp_all add: paths2 paths1 comp_def\<close>)
  qed
qed


section \<open>A result that arrives at an extension\<close>

text \<open>What leaves the path table, in the extension that has no IN paths.\<close>

lemma thinned_nil: "thinned [] ps \<Longrightarrow> ps = []"
  by (auto simp: thinned_def)

lemma return_nowhere:
  assumes "in_paths (ext_paths self) = []"
  shows "ten_env_return_result_internal rt self r i j err = Some (True, self, [], err)"
proof -
  have "ten_path_table_set_result TEN_PATH_IN r' (ext_paths self) = Some (None, ext_paths self)" for r'
    using assms by (simp add: ten_path_table_set_result_def ten_path_table_find_path_def
        ten_path_table_find_path_from_cmd_id_def paths_of_def)
  then show ?thesis
    by (simp add: ten_env_return_result_internal_def ten_extension_handle_out_msg_def handle_out_result_def)
qed

lemma validate_in_result:
  obtains v code err' where
    "ten_extension_validate_msg_schema rt self (Msg_result r) err =
       Some (True, Msg_result (r\<lparr>properties := v, status_code := code\<rparr>), self, [], err')"
    and "code = status_code r \<or> code = TEN_STATUS_CODE_ERROR"
proof -
  obtain b r' err' where run:
    "ten_raw_cmd_result_validate_schema (casts rt) (ext_schemas self) False r err = (b, r', err')"
    by (metis prod_cases3)
  from validate_result_props [OF run] obtain v where v: "r' = r\<lparr>properties := v\<rparr>" ..
  show thesis
  proof (cases b)
    case True
    then show thesis
      using run v by (intro that [where v = v and code = "status_code r" and err' = err'])
        (simp_all add: ten_extension_validate_msg_schema_def ten_msg_validate_schema_def)
  next
    case False
    then show thesis
      using run v by (intro that [where v = v and code = TEN_STATUS_CODE_ERROR and err' = err'])
        (simp_all add: ten_extension_validate_msg_schema_def ten_msg_validate_schema_def)
  qed
qed

lemma share_paths:
  obtains h where "paths_of ty (share_with a r t) = map h (paths_of ty t)" and "\<forall>q. recached q (h q)"
    and "\<forall>q. pending (h q) = pending q"
proof (cases a)
  case None
  then show thesis by (intro that [of "\<lambda>p. p"]) simp_all
next
  case (Some b)
  let ?f = "\<lambda>p. if cached_cmd_result p = None then p else p\<lparr>cached_cmd_result := Some r\<rparr>"
  show thesis
    by (rule that [of "on_path b ?f"]) (simp_all add: Some share_result_def pending_def)
qed

text \<open>An error result arrives: the handler it carries is called, or nothing happens.\<close>

lemma in_result_without_in_paths:
  assumes arr: "result_arrives TEN_PATH_OUT r (is_final r) (ext_paths self) = Some (res, t)"
    and empty: "in_paths t = []"
  obtains h effects t' where "handle_in_result rt self r = Some (self\<lparr>ext_paths := t'\<rparr>, effects)"
    and "paths_of TEN_PATH_OUT t' = map h (paths_of TEN_PATH_OUT t)" and "\<forall>q. recached q (h q)"
    and "\<forall>q. pending (h q) = pending q" and "in_paths t' = []"
    and "\<And>r1 k. res = Some r1 \<Longrightarrow> result_handler r1 = Some k \<Longrightarrow>
           \<exists>r2. Call_result_handler k r2 \<in> set effects \<and> cmd_id r2 = cmd_id r1 \<and>
             (status_code r2 = status_code r1 \<or> status_code r2 = TEN_STATUS_CODE_ERROR)"
proof (cases "ten_path_table_set_result TEN_PATH_OUT r (ext_paths self)")
  case None
  with arr show thesis by (simp add: result_arrives_def)
next
  case (Some x)
  obtain a t1 where set: "ten_path_table_set_result TEN_PATH_OUT r (ext_paths self) = Some (a, t1)"
    using Some by (cases x) simp
  show thesis
  proof (cases res)
    case None
    have "handle_in_result rt self r = Some (self\<lparr>ext_paths := t\<rparr>, [])"
      using arr set None by (cases a) (simp_all add: result_arrives_def handle_in_result_def)
    then show thesis by (rule that [of _ _ "\<lambda>p. p"]) (simp_all add: None empty)
  next
    case res: (Some r1)
    then obtain b where a: "a = Some b" using arr set by (cases a) (simp_all add: result_arrives_def)
    let ?self = "self\<lparr>ext_paths := t\<rparr>"
    have cache: "ten_extension_cache_cmd_result_to_in_path_for_auto_return r1 t = Some (None, t)"
      using empty by (simp add: ten_extension_cache_cmd_result_to_in_path_for_auto_return_def
          ten_extension_get_cmd_return_path_from_itself_def ten_path_table_find_path_from_cmd_id_def paths_of_def)
    obtain v code err' where val:
      "ten_extension_validate_msg_schema rt ?self (Msg_result r1) ten_error_init =
        Some (True, Msg_result (r1\<lparr>properties := v, status_code := code\<rparr>), ?self, [], err')"
      and code: "code = status_code r1 \<or> code = TEN_STATUS_CODE_ERROR"
      by (rule validate_in_result)
    let ?r3 = "ten_msg_clear_dest (r1\<lparr>properties := v, status_code := code\<rparr>)"
    let ?t = "share_with (result_path TEN_PATH_OUT b t1) ?r3 (ext_paths ?self)"
    let ?self' = "self\<lparr>ext_paths := ?t\<rparr>"
    have run: "handle_in_result rt self r = deliver_result rt ?self' ?r3"
      using arr set res a cache val by (simp add: result_arrives_def handle_in_result_def Let_def)
    obtain h where h: "paths_of TEN_PATH_OUT ?t = map h (paths_of TEN_PATH_OUT (ext_paths ?self))"
      "\<forall>q. recached q (h q)" "\<forall>q. pending (h q) = pending q" by (rule share_paths)
    have "in_paths ?t = []"
      by (cases "result_path TEN_PATH_OUT b t1") (simp_all add: empty share_result_def update_path_def)
    moreover have "deliver_result rt ?self' ?r3 =
        Some (?self', case result_handler r1 of Some k \<Rightarrow> [Call_result_handler k ?r3] | None \<Rightarrow> [])"
      using return_nowhere [of ?self' rt ?r3 None None ten_error_init] calculation
      by (cases "result_handler r1")
         (simp_all add: deliver_result_def ten_env_return_result_directly_def ten_msg_clear_dest_def)
    ultimately show thesis
      using run h code res
      by (intro that [of ?t "case result_handler r1 of Some k \<Rightarrow> [Call_result_handler k ?r3] | None \<Rightarrow> []" h])
         (auto simp: ten_msg_clear_dest_def)
  qed
qed

section \<open>All remaining paths\<close>

lemma error_result_fields [simp]:
  "cmd_id (error_result d p) = path_cmd_id p" "status_code (error_result d p) = TEN_STATUS_CODE_ERROR"
  "is_final (error_result d p)"
  by (simp_all add: error_result_def set_detail_def ten_cmd_result_create_def)

text \<open>
  Some of the paths have their error already: they wait for a member of their group that has
  none.
\<close>

definition draining :: "string set \<Rightarrow> ten_path list \<Rightarrow> bool" where
  "draining ids ps \<longleftrightarrow>
     (\<forall>q \<in> set ps. pending q \<longrightarrow> path_cmd_id q \<in> ids) \<and>
     (\<forall>q \<in> set ps. path_cmd_id q \<notin> ids \<longrightarrow>
        (\<exists>g. path_group q = Some g \<and> (\<exists>q' \<in> set ps. path_group q' = Some g \<and> pending q')))"

lemma draining_end: "draining {} ps \<Longrightarrow> ps = []"
  by (cases ps) (auto simp: draining_def)

lemma draining_skip:
  assumes "draining (insert i ids) ps" and "\<And>q. q \<in> set ps \<Longrightarrow> path_cmd_id q \<noteq> i"
  shows "draining ids ps"
  using assms by (auto simp: draining_def)

lemma draining_filter:
  assumes "draining (insert i ids) ps"
    and "\<And>q. q \<in> set ps \<Longrightarrow> path_cmd_id q = i \<Longrightarrow> \<not> P q"
    and "\<And>q q' g. q \<in> set ps \<Longrightarrow> q' \<in> set ps \<Longrightarrow> path_group q = Some g \<Longrightarrow> path_group q' = Some g \<Longrightarrow> P q \<Longrightarrow> P q'"
  shows "draining ids (filter P ps)"
  unfolding draining_def
proof (intro conjI ballI impI)
  fix q
  assume "q \<in> set (filter P ps)"
  then have q: "q \<in> set ps" "P q" by simp_all
  have "path_cmd_id q \<noteq> i" using assms(2) q by blast
  then show "path_cmd_id q \<in> ids" if "pending q" using assms(1) q(1) that by (auto simp: draining_def)
  assume "path_cmd_id q \<notin> ids"
  with assms(1) q(1) \<open>path_cmd_id q \<noteq> i\<close> obtain g q' where
    g: "path_group q = Some g" "q' \<in> set ps" "path_group q' = Some g" "pending q'"
    unfolding draining_def by blast
  with assms(3) [OF q(1) g(2) g(1) g(3) q(2)]
  show "\<exists>g. path_group q = Some g \<and> (\<exists>q' \<in> set (filter P ps). path_group q' = Some g \<and> pending q')" by auto
qed

lemma draining_map:
  assumes dr: "draining (insert (path_cmd_id p) ids) ps" and h: "\<forall>q. recached q (h q)"
    and pend: "\<forall>q \<in> set ps. pending (h q) \<longleftrightarrow> pending q \<and> path_addr q \<noteq> path_addr p"
    and other: "\<exists>q \<in> set ps. path_group q = Some g \<and> pending q \<and> path_addr q \<noteq> path_addr p"
    and p: "p \<in> set ps" "path_group p = Some g"
    and ids: "distinct (map path_cmd_id ps)" and addrs: "distinct (map path_addr ps)"
  shows "draining ids (map h ps)"
  unfolding draining_def
proof (intro conjI ballI impI)
  fix x
  assume "x \<in> set (map h ps)"
  then obtain q where q: "q \<in> set ps" and x: "x = h q" by auto
  have same: "q = p \<longleftrightarrow> path_cmd_id q = path_cmd_id p" "q = p \<longleftrightarrow> path_addr q = path_addr p"
    using q p(1) ids addrs by (auto simp: distinct_map inj_on_def)
  note fields = recached_fields [OF spec [OF h]]
  show "path_cmd_id x \<in> ids" if "pending x"
    using that pend q dr same x fields(2) by (auto simp: draining_def)
  assume "path_cmd_id x \<notin> ids"
  then have notin: "path_cmd_id q \<notin> ids" using x fields(2) by simp
  have "\<exists>g. path_group q = Some g \<and> (\<exists>q' \<in> set ps. path_group q' = Some g \<and> pending q' \<and> path_addr q' \<noteq> path_addr p)"
  proof (cases "path_group q = Some g")
    case True
    with other show ?thesis by blast
  next
    case False
    with same p(2) have "path_cmd_id q \<noteq> path_cmd_id p" by auto
    with notin dr q obtain g' q' where g': "path_group q = Some g'" "q' \<in> set ps" "path_group q' = Some g'" "pending q'"
      unfolding draining_def by blast
    moreover have "q' \<noteq> p" using g' False p(2) by auto
    with g'(2) p(1) addrs have "path_addr q' \<noteq> path_addr p" by (auto simp: distinct_map inj_on_def)
    ultimately show ?thesis by blast
  qed
  then obtain g' q' where g': "path_group q = Some g'" "q' \<in> set ps" "path_group q' = Some g'" "pending q'"
    "path_addr q' \<noteq> path_addr p" by blast
  with pend fields(3) have "h q' \<in> set (map h ps) \<and> path_group (h q') = Some g' \<and> pending (h q')" by auto
  moreover have "path_group x = Some g'" using g'(1) fields(3) x by simp
  ultimately show "\<exists>g. path_group x = Some g \<and> (\<exists>q' \<in> set (map h ps). path_group q' = Some g \<and> pending q')"
    by blast
qed

lemma draining_recached:
  assumes "draining ids ps" and "\<forall>q. recached q (h q)" and "\<forall>q. pending (h q) = pending q"
  shows "draining ids (map h ps)"
  using assms recached_fields(2,3) [OF spec [OF assms(2)]] unfolding draining_def by (simp add: ball_simps)

text \<open>A command that waits on its own, and the error its handler is called with.\<close>

definition told :: "ten_effect list \<Rightarrow> ten_path \<Rightarrow> bool" where
  "told effects p \<longleftrightarrow>
     (\<forall>k. path_group p = None \<longrightarrow> path_result_handler p = Some k \<longrightarrow>
        (\<exists>r. Call_result_handler k r \<in> set effects \<and> status_code r = TEN_STATUS_CODE_ERROR \<and>
           cmd_id r = (if original_cmd_id p \<noteq> [] then original_cmd_id p else path_cmd_id p)))"

definition drainable :: "ten_path list \<Rightarrow> ten_extension \<Rightarrow> bool" where
  "drainable rest self \<longleftrightarrow>
     ext_ok self \<and> ext_state self < TEN_EXTENSION_STATE_ON_DEINIT \<and> in_paths (ext_paths self) = [] \<and>
     distinct (map path_cmd_id (out_paths (ext_paths self))) \<and>
     (\<forall>p \<in> set (out_paths (ext_paths self)). result_conversion p = None) \<and>
     distinct (map path_cmd_id rest) \<and>
     draining (path_cmd_id ` set rest) (out_paths (ext_paths self)) \<and>
     (\<forall>p \<in> set rest. path_group p = None \<longrightarrow> (\<exists>q \<in> set (out_paths (ext_paths self)). recached p q))"

lemma told_append: "told effects p \<Longrightarrow> told (effects @ effects') p" "told effects' p \<Longrightarrow> told (effects @ effects') p"
  by (auto simp: told_def)

lemma out_is: "paths_of TEN_PATH_OUT t = out_paths t"
  by (simp add: paths_of_def)

text \<open>What is left after the paths of one error.\<close>

lemma drainable_next:
  assumes dr: "drainable (p # rest) self" and only: "only_paths self self'"
    and empty: "in_paths (ext_paths self') = []"
    and paths: "out_paths (ext_paths self') = map h (filter P (out_paths (ext_paths self)))"
    and h: "\<forall>q. recached q (h q)"
    and dr': "draining (path_cmd_id ` set rest) (out_paths (ext_paths self'))"
    and keep: "\<And>q. q \<in> set (out_paths (ext_paths self)) \<Longrightarrow> path_group q = None \<Longrightarrow>
                 path_cmd_id q \<noteq> path_cmd_id p \<Longrightarrow> P q"
  shows "drainable rest self'"
proof -
  note fields = recached_fields [OF spec [OF h]]
  from only have state: "ext_state self' = ext_state self" by (rule only_paths_fields(3))
  have thin: "thinned (out_paths (ext_paths self)) (out_paths (ext_paths self'))"
    unfolding thinned_def using paths h by blast
  have "\<exists>q' \<in> set (out_paths (ext_paths self')). recached x q'" if x: "x \<in> set rest" "path_group x = None" for x
  proof -
    from dr x obtain q where q: "q \<in> set (out_paths (ext_paths self))" "recached x q"
      by (auto simp: drainable_def)
    have "path_cmd_id p \<notin> path_cmd_id ` set rest" using dr by (simp add: drainable_def)
    with x(1) have "path_cmd_id x \<noteq> path_cmd_id p" by (metis imageI)
    with keep [OF q(1)] recached_fields(2,3) [OF q(2)] x(2) have "P q" by simp
    with q have "h q \<in> set (out_paths (ext_paths self'))" unfolding paths by simp
    with recached_trans [OF q(2) spec [OF h]] show ?thesis by blast
  qed
  moreover have "\<forall>p \<in> set (out_paths (ext_paths self')). result_conversion p = None"
    unfolding paths using dr fields(5) by (simp add: drainable_def)
  ultimately show ?thesis
    using dr only_paths_ok [OF only] state empty dr' thinned_distinct [OF thin]
    by (simp add: drainable_def)
qed

lemma drain_one:
  assumes dr: "drainable (p # rest) self"
  obtains self' effects where
    "ten_extension_handle_in_msg rt self (Msg_result (error_result d p)) = Some (self', effects)"
    and "only_paths self self'" and "drainable rest self'" and "told effects p"
proof -
  let ?r = "error_result d p" and ?t = "ext_paths self"
  from dr have ok: "ext_ok self" and empty: "in_paths ?t = []"
    and ids: "distinct (map path_cmd_id (out_paths ?t))"
    and noconv: "\<forall>p \<in> set (out_paths ?t). result_conversion p = None"
    and drain: "draining (insert (path_cmd_id p) (path_cmd_id ` set rest)) (out_paths ?t)"
    by (simp_all add: drainable_def)
  have table: "table_ok ?t" using ext_okD(1) [OF ok] by (simp add: paths_ok_def)
  have run: "ten_extension_handle_in_msg rt self (Msg_result ?r) = handle_in_result rt self ?r"
    using dr by (simp add: drainable_def ten_extension_handle_in_msg_def state_order)
  obtain self' effects where done': "handle_in_result rt self ?r = Some (self', effects)" "only_paths self self'"
    by (rule handlesE [OF handle_in_result_ok [OF ok, of rt ?r]])
  show thesis
  proof (cases "\<exists>q \<in> set (out_paths ?t). path_cmd_id q = path_cmd_id p")
    case False
    then have "List.find (\<lambda>q. path_cmd_id q = path_cmd_id p) (out_paths ?t) = None" by (simp add: find_None_iff)
    then have "ten_path_table_set_result TEN_PATH_OUT ?r ?t = Some (None, ?t)"
      by (simp add: ten_path_table_set_result_def ten_path_table_find_path_def
          ten_path_table_find_path_from_cmd_id_def paths_of_def)
    then have same: "handle_in_result rt self ?r = Some (self, [])" by (simp add: handle_in_result_def)
    have "draining (path_cmd_id ` set rest) (out_paths ?t)" by (rule draining_skip [OF drain]) (use False in blast)
    then have "drainable rest self"
      using dr by (simp add: drainable_def)
    moreover have "told [] p"
      using dr False recached_fields(2) by (fastforce simp: told_def drainable_def)
    ultimately show thesis using run same only_paths_refl [OF ext_okD(1) [OF ok]] by (intro that) simp_all
  next
    case True
    then obtain q where q: "q \<in> set (out_paths ?t)" "path_cmd_id q = path_cmd_id p" by blast
    have q': "q \<in> set (paths_of TEN_PATH_OUT ?t)" "path_cmd_id q = cmd_id ?r" "result_conversion q = None"
      and ids': "distinct (map path_cmd_id (paths_of TEN_PATH_OUT ?t))" "TEN_PATH_OUT \<noteq> TEN_PATH_INVALID"
      using q noconv ids by (simp_all add: out_is)
    have uniq: "x = q" if "x \<in> set (out_paths ?t)" "path_cmd_id x = path_cmd_id p" for x
      using q ids that by (simp add: distinct_map inj_on_def)
    have addr: "x = q" if "x \<in> set (out_paths ?t)" "path_addr x = path_addr q" for x
      using table_ok_lists(1) [OF table, of TEN_PATH_OUT] q(1) that by (simp add: distinct_map inj_on_def out_is)
    have bad: "status_code ?r \<noteq> TEN_STATUS_CODE_OK" by simp
    have told_group: "told e p" if "path_group q = Some g" for e g
    proof -
      have "recached p q" if "path_group p = None"
      proof -
        from dr that obtain x where "x \<in> set (out_paths ?t)" "recached p x" by (auto simp: drainable_def)
        with uniq recached_fields(2) show ?thesis by auto
      qed
      with that recached_fields(3) show ?thesis by (fastforce simp: told_def)
    qed
    have no_in: "in_paths t' = []" if "result_arrives TEN_PATH_OUT ?r True ?t = Some (res, t')" for res t'
    proof -
      obtain res2 t2 where "result_arrives TEN_PATH_OUT ?r True ?t = Some (res2, t2)" "steps_to ?t t2"
        by (rule result_arrives_steps [OF table paths_ok_convertible [OF ext_okD(1) [OF ok]]])
      with that have "steps_to ?t t'" by simp
      with empty show ?thesis by (auto simp: steps_to_def dest: thinned_nil)
    qed
    note goal = that
    text \<open>The rest is the same for every way the table can change.\<close>
    have finish: thesis
      if arr: "result_arrives TEN_PATH_OUT ?r True ?t = Some (res, t')"
        and paths: "out_paths t' = map h (filter P (out_paths ?t))" and h: "\<forall>q. recached q (h q)"
        and dr': "draining (path_cmd_id ` set rest) (out_paths t')"
        and keep: "\<And>x. x \<in> set (out_paths ?t) \<Longrightarrow> path_group x = None \<Longrightarrow> x \<noteq> q \<Longrightarrow> P x"
        and tells: "path_group q = None \<Longrightarrow> res = Some (route_result TEN_PATH_OUT q ?r)" for res t' h P
    proof -
      have arr': "result_arrives TEN_PATH_OUT ?r (is_final ?r) ?t = Some (res, t')" using arr by simp
      obtain h2 e t2 where
        run2: "handle_in_result rt self ?r = Some (self\<lparr>ext_paths := t2\<rparr>, e)"
        and paths2: "out_paths t2 = map h2 (out_paths t')" and h2: "\<forall>q. recached q (h2 q)"
        and pend2: "\<forall>q. pending (h2 q) = pending q" and empty2: "in_paths t2 = []"
        and call: "\<And>r1 k. res = Some r1 \<Longrightarrow> result_handler r1 = Some k \<Longrightarrow>
           \<exists>r2. Call_result_handler k r2 \<in> set e \<and> cmd_id r2 = cmd_id r1 \<and>
             (status_code r2 = status_code r1 \<or> status_code r2 = TEN_STATUS_CODE_ERROR)"
        by (rule in_result_without_in_paths [OF arr' no_in [OF arr], of rt, unfolded out_is]) (rule that)
      have only: "only_paths self (self\<lparr>ext_paths := t2\<rparr>)" using done' run2 by simp
      have "drainable rest (self\<lparr>ext_paths := t2\<rparr>)"
      proof (rule drainable_next [OF dr only, of "h2 \<circ> h" P])
        show "\<forall>q. recached q ((h2 \<circ> h) q)" using recached_trans [OF spec [OF h] spec [OF h2]] by simp
        show "draining (path_cmd_id ` set rest) (out_paths (ext_paths (self\<lparr>ext_paths := t2\<rparr>)))"
          using draining_recached [OF dr' h2 pend2] paths2 by simp
      qed (use empty2 paths2 paths keep q(2) in auto)
      moreover have "told e p"
      proof (cases "path_group q")
        case None
        show ?thesis
          unfolding told_def
        proof (intro allI impI)
          fix k
          assume p: "path_group p = None" "path_result_handler p = Some k"
          from dr p(1) obtain x where x: "x \<in> set (out_paths ?t)" "recached p x" by (auto simp: drainable_def)
          with uniq recached_fields(2) have "recached p q" by auto
          note same = recached_fields [OF this]
          have "result_handler (route_result TEN_PATH_OUT q ?r) = Some k"
            "cmd_id (route_result TEN_PATH_OUT q ?r) =
              (if original_cmd_id p \<noteq> [] then original_cmd_id p else path_cmd_id p)"
            using p(2) same(4,9) q(2)
            by (simp_all add: route_result_def Let_def ten_cmd_base_set_result_handler_def
                ten_cmd_result_set_original_cmd_name_def)
          with call [OF tells [OF None]] show "\<exists>r. Call_result_handler k r \<in> set e \<and>
              status_code r = TEN_STATUS_CODE_ERROR \<and>
              cmd_id r = (if original_cmd_id p \<noteq> [] then original_cmd_id p else path_cmd_id p)"
            by (metis route_status error_result_fields(2))
        qed
      next
        case (Some g)
        then show ?thesis by (rule told_group)
      qed
      ultimately show thesis using run run2 only by (intro goal) simp_all
    qed
    show thesis
    proof (rule error_arrives [OF table ids' q' bad, unfolded out_is])
      fix t'
      assume a: "path_group q = None" "result_arrives TEN_PATH_OUT ?r True ?t = Some (Some (route_result TEN_PATH_OUT q ?r), t')"
        and paths: "out_paths t' = filter (\<lambda>x. path_addr x \<noteq> path_addr q) (out_paths ?t)"
      have "draining (path_cmd_id ` set rest) (out_paths t')"
        unfolding paths
      proof (rule draining_filter [OF drain])
        show "\<not> path_addr x \<noteq> path_addr q" if "x \<in> set (out_paths ?t)" "path_cmd_id x = path_cmd_id p" for x
          using uniq [OF that] by simp
        show "path_addr x' \<noteq> path_addr q" if x: "x' \<in> set (out_paths ?t)" "path_group x' = Some g" for x' g
        proof
          assume "path_addr x' = path_addr q"
          from addr [OF x(1) this] x(2) a(1) show False by simp
        qed
      qed
      then show thesis
        by (rule finish [OF a(2), of "\<lambda>x. x" "\<lambda>x. path_addr x \<noteq> path_addr q", rotated 2])
           (use paths addr in auto)
    next
      fix g res t'
      assume a: "path_group q = Some g" "result_arrives TEN_PATH_OUT ?r True ?t = Some (res, t')"
        and paths: "out_paths t' = filter (\<lambda>x. path_group x \<noteq> Some g) (out_paths ?t)"
      have "draining (path_cmd_id ` set rest) (out_paths t')"
        unfolding paths by (rule draining_filter [OF drain]) (use uniq a(1) in auto)
      then show thesis
        by (rule finish [OF a(2), of "\<lambda>x. x" "\<lambda>x. path_group x \<noteq> Some g", rotated 2])
           (use paths a(1) in auto)
    next
      fix g res t' h
      assume a: "path_group q = Some g" "result_arrives TEN_PATH_OUT ?r True ?t = Some (res, t')"
        and paths: "out_paths t' = map h (out_paths ?t)" and h: "\<forall>q. recached q (h q)"
        and pend: "\<forall>x \<in> set (out_paths ?t). pending (h x) \<longleftrightarrow> pending x \<and> path_addr x \<noteq> path_addr q"
        and other: "\<exists>x \<in> set (out_paths ?t). path_group x = Some g \<and> pending x \<and> path_addr x \<noteq> path_addr q"
      have "draining (path_cmd_id ` set rest) (out_paths t')"
        unfolding paths
        by (rule draining_map [OF _ h pend other q(1) a(1) ids])
           (use drain q(2) table_ok_lists(1) [OF table, of TEN_PATH_OUT] in \<open>simp_all add: out_is\<close>)
      then show thesis
        by (rule finish [OF a(2), of h "\<lambda>x. True", rotated 2]) (use paths h a(1) in auto)
    qed
  qed
qed

lemma drain_all:
  "drainable ps self \<Longrightarrow>
   \<exists>self' effects. handle_in_msgs rts i self (map (\<lambda>p. Msg_result (error_result (d p) p)) ps) =
       Some (self', effects) \<and> only_paths self self' \<and> in_paths (ext_paths self') = [] \<and>
     out_paths (ext_paths self') = [] \<and> (\<forall>p \<in> set ps. told effects p)"
proof (induction ps arbitrary: i self)
  case Nil
  then have "draining {} (out_paths (ext_paths self))" "ext_ok self" by (simp_all add: drainable_def)
  with Nil draining_end show ?case
    using only_paths_refl [OF ext_okD(1)] by (auto simp: drainable_def)
next
  case (Cons p ps)
  obtain self1 effects1 where one:
    "ten_extension_handle_in_msg (rts i) self (Msg_result (error_result (d p) p)) = Some (self1, effects1)"
    "only_paths self self1" "drainable ps self1" "told effects1 p"
    by (rule drain_one [OF Cons.prems])
  from Cons.IH [OF one(3), of "Suc i"] obtain self2 effects2 where two:
    "handle_in_msgs rts (Suc i) self1 (map (\<lambda>p. Msg_result (error_result (d p) p)) ps) = Some (self2, effects2)"
    "only_paths self1 self2" "in_paths (ext_paths self2) = []" "out_paths (ext_paths self2) = []"
    "\<forall>p \<in> set ps. told effects2 p" by blast
  have "\<forall>x \<in> set (p # ps). told (effects1 @ effects2) x" using one(4) two(5) told_append by auto
  with one(1) two(1-4) only_paths_trans [OF one(2) two(2)] show ?case by auto
qed

lemma remaining_paths:
  assumes ok: "ext_ok self" and "ext_state self < TEN_EXTENSION_STATE_ON_DEINIT"
    and "distinct (map path_cmd_id (out_paths (ext_paths self)))"
    and "\<forall>p \<in> set (out_paths (ext_paths self)). result_conversion p = None"
  shows "\<exists>self' effects. ten_extension_thread_process_remaining_paths rts self = Some (self', effects) \<and>
    in_paths (ext_paths self') = [] \<and> out_paths (ext_paths self') = [] \<and>
    ext_callbacks self' = ext_callbacks self \<and>
    (\<forall>p \<in> set (out_paths (ext_paths self)). told effects p)"
proof -
  let ?t = "ext_paths self"
  let ?self = "self\<lparr>ext_paths := set_paths TEN_PATH_IN [] ?t\<rparr>"
  have "steps_to ?t (set_paths TEN_PATH_IN (filter (\<lambda>p. False) (paths_of TEN_PATH_IN ?t)) ?t)"
    by (rule steps_to_filter) (use ext_okD(1) [OF ok] in \<open>auto simp: paths_ok_def\<close>)
  from paths_ok_steps [OF ext_okD(1) [OF ok] this] have "paths_ok (set_paths TEN_PATH_IN [] ?t)" by simp
  from only_paths_ok [OF only_paths_set [OF this] ok] have "ext_ok ?self" .
  moreover have "draining (path_cmd_id ` set (out_paths ?t)) (out_paths ?t)" by (simp add: draining_def)
  moreover have "\<forall>p \<in> set (out_paths ?t). path_group p = None \<longrightarrow> (\<exists>q \<in> set (out_paths ?t). recached p q)"
    by (blast intro: recached_refl)
  ultimately have "drainable (out_paths ?t) ?self"
    using assms(2-4) by (simp add: drainable_def set_paths_def)
  from drain_all [OF this, of rts 0 path_cmd_id] obtain self' effects where
    "handle_in_msgs rts 0 ?self (map (\<lambda>p. Msg_result (error_result (path_cmd_id p) p)) (out_paths ?t)) =
      Some (self', effects)" "only_paths ?self self'" "in_paths (ext_paths self') = []"
    "out_paths (ext_paths self') = []" "\<forall>p \<in> set (out_paths ?t). told effects p" by blast
  with only_paths_fields(4) [OF this(2)] show ?thesis
    by (simp add: ten_extension_thread_process_remaining_paths_def)
qed

section \<open>Properties\<close>

text \<open>
  C3: An extension that closes leaves nobody waiting, if no group of its paths was split by a
  timer before and its paths have distinct ids and no conversion of results: whatever the groups and earlier results
  of its paths, closing completes, both lists of paths are empty afterwards, and every command
  that was sent on its own with a handler has its handler called with an error under the id
  the sender knows.
\<close>

theorem closing_answers_every_command:
  assumes "reachable_unsplit self" and "ext_state self < TEN_EXTENSION_STATE_ON_DEINIT"
    and "distinct (map path_cmd_id (out_paths (ext_paths self)))"
    and "\<forall>p \<in> set (out_paths (ext_paths self)). result_conversion p = None"
  shows "\<exists>self' effects. ten_extension_do_close rts has_proxies self = Some (self', effects) \<and>
    in_paths (ext_paths self') = [] \<and> out_paths (ext_paths self') = [] \<and>
    ext_state self' \<ge> TEN_EXTENSION_STATE_ON_DEINIT \<and>
    (\<forall>p \<in> set (out_paths (ext_paths self)). told effects p)"
proof -
  have "ext_ok self" using reachable_safe [OF assms(1)] by (simp add: safe_ext_def)
  from remaining_paths [OF this assms(2-4)] obtain self1 effects1 where one:
    "ten_extension_thread_process_remaining_paths rts self = Some (self1, effects1)"
    "in_paths (ext_paths self1) = []" "out_paths (ext_paths self1) = []"
    "\<forall>p \<in> set (out_paths (ext_paths self)). told effects1 p" by blast
  obtain self2 effects2 where deinit: "ten_extension_on_deinit has_proxies self1 = (self2, effects2)"
    by (cases "ten_extension_on_deinit has_proxies self1")
  then have "ext_paths self2 = ext_paths self1" "ext_state self2 \<ge> TEN_EXTENSION_STATE_ON_DEINIT"
    by (auto simp: ten_extension_on_deinit_def ten_extension_on_deinit_done_def Let_def state_order split: if_splits)
  with one deinit told_append(1) show ?thesis by (auto simp: ten_extension_do_close_def)
qed

text \<open>An extension that has sent a command.\<close>

theorem closing_answers_every_command_witness:
  "\<exists>sent. (\<exists>cmd. ten_env_send_cmd (sample_runtime ''u'') (sample_extension ''a'') (sample_command ''b'') False (Some 7)
      ten_error_init = Some (True, sent, [Dispatch (Msg_cmd cmd)], ten_error_init)) \<and>
    (\<exists>self' effects r. ten_extension_do_close (\<lambda>_. sample_runtime ''v'') False sent = Some (self', effects) \<and>
       out_paths (ext_paths self') = [] \<and> Call_result_handler 7 r \<in> set effects \<and> cmd_id r = ''u'' \<and>
       status_code r = TEN_STATUS_CODE_ERROR)"
proof -
  let ?a = "sample_extension ''a''" and ?c = "sample_command ''b''" and ?rt = "sample_runtime ''u''"
  let ?p = "sent_path ?rt ?a (id_for ?rt ?c) (Some 7) ?c"
  let ?a1 = "?a\<lparr>ext_paths := push_path TEN_PATH_OUT ?p (ext_paths ?a)\<rparr>"
  have dest: "dest_loc ?c = [\<lparr>app_uri = ''localhost'', graph_id = [], extension_group_name = ''eg'', extension_name = ''b''\<rparr>]"
    by (simp add: sample_command_def)
  note sent = send_one [OF sample_extension_facts(2) [of "''a''"] sample_trip(1,5) dest,
      where rt = ?rt and h = "Some 7" and err = ten_error_init]
  have "clonable (Msg_cmd ?c)" by (simp add: clonable_cmd sample_command_def)
  then have owed: "supplied (Send ?rt (Msg_cmd ?c) False (Some 7) ten_error_init)" by simp
  have "perform (Send ?rt (Msg_cmd ?c) False (Some 7) ten_error_init) ?a =
      Some (?a1, [Dispatch (Msg_cmd (on_its_way ?rt ?a (id_for ?rt ?c) ?c))])"
    using sent by (simp add: ten_env_send_cmd_def)
  from reachable_one [OF sample_extension_facts(1) owed _ this] have reach: "reachable_unsplit ?a1" by simp
  have outs: "out_paths (ext_paths ?a1) = [?p]"
    by (simp add: push_path_def set_paths_def paths_of_def sample_extension_facts)
  have p: "path_group ?p = None" "path_result_handler ?p = Some 7" "original_cmd_id ?p = []" "path_cmd_id ?p = ''u''"
    "result_conversion ?p = None"
    by (simp_all add: sent_path_def sample_command_def sample_runtime_def)
  have state: "ext_state ?a1 < TEN_EXTENSION_STATE_ON_DEINIT" by (simp add: sample_extension_facts state_order)
  have "distinct (map path_cmd_id (out_paths (ext_paths ?a1)))"
    "\<forall>p \<in> set (out_paths (ext_paths ?a1)). result_conversion p = None"
    unfolding outs by (simp_all add: p)
  from closing_answers_every_command [OF reach state this, of "\<lambda>_. sample_runtime ''v''" False]
  obtain self' effects where "ten_extension_do_close (\<lambda>_. sample_runtime ''v'') False ?a1 = Some (self', effects)"
    "out_paths (ext_paths self') = []" "told effects ?p" unfolding outs by auto
  with p sent show ?thesis unfolding told_def by (intro exI [of _ ?a1]) auto
qed

end
