(* ===== verification/Extension_Start.thy ===== *)
theory Extension_Start
  imports Extension_Close
begin

text \<open>
  Messages that arrive before an extension has started wait, and are handled in their order
  when it has started.
\<close>

section \<open>The waiting messages do not matter\<close>

text \<open>An operation does the same whatever messages wait.\<close>

definition waiting :: "ten_shared_msg list \<Rightarrow> ten_extension \<Rightarrow> ten_extension" where
  "waiting ms self = self\<lparr>pending_msgs := ms\<rparr>"

lemma waiting_fields [simp]:
  "ext_state (waiting ms self) = ext_state self" "ext_loc (waiting ms self) = ext_loc self"
  "ext_info (waiting ms self) = ext_info self" "ext_callbacks (waiting ms self) = ext_callbacks self"
  "ext_schemas (waiting ms self) = ext_schemas self" "ext_paths (waiting ms self) = ext_paths self"
  "(waiting ms self)\<lparr>ext_paths := t\<rparr> = waiting ms (self\<lparr>ext_paths := t\<rparr>)"
  by (simp_all add: waiting_def)

lemmas waiting_outcome = option.map_comp comp_def split_def

lemma out_result_waiting:
  "handle_out_result rt (waiting ms self) r err =
     map_option (\<lambda>(b, self', x). (b, waiting ms self', x)) (handle_out_result rt self r err)"
proof (cases "ten_path_table_set_result TEN_PATH_IN r (ext_paths self)")
  case (Some x)
  obtain a t1 where x: "x = (a, t1)" by (cases x)
  show ?thesis
  proof (cases "Option.bind a (path_at t1)")
    case None
    with Some x show ?thesis by (cases a) (simp_all add: handle_out_result_def)
  next
    case p: (Some p)
    then obtain y where a: "a = Some y" "path_at t1 y = Some p" by (cases a) auto
    obtain ok r1 err1 where v: "ten_raw_cmd_result_validate_schema (casts rt) (ext_schemas self) True
        (ten_cmd_result_set_original_cmd_name (path_cmd_name p) r) err = (ok, r1, err1)" by (metis prod_cases3)
    define t2 where "t2 = (if result_conversion p = None then share_result y r1 t1 else t1)"
    show ?thesis
    proof (cases "ten_path_table_determine_actual_cmd_result TEN_PATH_IN y (is_final r1) t2")
      case None
      with Some x a v show ?thesis by (simp add: handle_out_result_def flip: t2_def)
    next
      case det: (Some z)
      obtain res t3 where z: "z = (res, t3)" by (cases z)
      with Some x a v det show ?thesis
        by (cases res; cases ok) (simp_all add: handle_out_result_def option.map_comp comp_def flip: t2_def)
    qed
  qed
qed (simp add: handle_out_result_def)

lemma out_request_waiting:
  "handle_out_request rt (waiting ms self) m err =
     map_option (\<lambda>(b, self', x). (b, waiting ms self', x)) (handle_out_request rt self m err)"
proof -
  have same: "ten_extension_determine_out_msg_dest_from_graph ids (waiting ms self) =
      ten_extension_determine_out_msg_dest_from_graph ids self" for ids
    by (intro ext) (simp add: ten_extension_determine_out_msg_dest_from_graph_def)
  obtain b m1 err1 where v: "ten_msg_validate_schema (casts rt) (ext_schemas self) True
      (ten_msg_correct_dest (engine rt) m) err = (b, m1, err1)" by (metis prod_cases3)
  show ?thesis
  proof (cases b)
    case True
    show ?thesis
    proof (cases "has_dest m1")
      case dest: True
      show ?thesis
        using True dest v
        by (cases "ten_extension_determine_out_msg_dest_from_msg (uuids rt) m1")
           (simp_all add: handle_out_request_def waiting_outcome split: option.split)
    next
      case False
      obtain x where x: "ten_extension_determine_out_msg_dest_from_graph (uuids rt) self m1 err1 = x" by simp
      show ?thesis
      proof (cases x)
        case (Some y)
        obtain mo err2 where "y = (mo, err2)" by (cases y)
        then show ?thesis
          using True False v x Some
          by (cases mo) (simp_all add: handle_out_request_def same waiting_outcome split: option.split)
      qed (use True False v x in \<open>simp add: handle_out_request_def same\<close>)
    qed
  qed (use v in \<open>simp add: handle_out_request_def\<close>)
qed

lemmas out_waiting = out_result_waiting out_request_waiting

lemma return_waiting:
  "ten_env_return_result_internal rt (waiting ms self) r i j err =
     map_option (\<lambda>(b, self', x). (b, waiting ms self', x)) (ten_env_return_result_internal rt self r i j err)"
  by (simp add: ten_env_return_result_internal_def ten_extension_handle_out_msg_def Let_def out_waiting)

lemma returns_waiting:
  "ten_env_return_result rt (waiting ms self) r c err =
     map_option (\<lambda>(b, self', x). (b, waiting ms self', x)) (ten_env_return_result rt self r c err)"
  "ten_env_return_result_directly rt (waiting ms self) r err =
     map_option (\<lambda>(b, self', x). (b, waiting ms self', x)) (ten_env_return_result_directly rt self r err)"
  by (simp_all add: ten_env_return_result_def ten_env_return_result_directly_def return_waiting)

lemma send_data_waiting:
  "ten_env_send_data rt (waiting ms self) d locked err =
     map_option (\<lambda>(b, self', x). (b, waiting ms self', x)) (ten_env_send_data rt self d locked err)"
  by (simp add: ten_env_send_data_def ten_send_msg_internal_def ten_extension_handle_out_msg_def out_waiting)

lemma callbacks_waiting:
  "ten_extension_on_cmd rt (waiting ms self) c =
     map_option (\<lambda>(self', x). (waiting ms self', x)) (ten_extension_on_cmd rt self c)"
  "ten_extension_on_data rt (waiting ms self) d =
     map_option (\<lambda>(self', x). (waiting ms self', x)) (ten_extension_on_data rt self d)"
  "ten_extension_on_video_frame rt (waiting ms self) d =
     map_option (\<lambda>(self', x). (waiting ms self', x)) (ten_extension_on_video_frame rt self d)"
  "ten_extension_on_audio_frame rt (waiting ms self) d =
     map_option (\<lambda>(self', x). (waiting ms self', x)) (ten_extension_on_audio_frame rt self d)"
  by (simp_all add: ten_extension_on_cmd_def ten_extension_on_data_def ten_extension_on_video_frame_def
      ten_extension_on_audio_frame_def returns_waiting send_data_waiting waiting_outcome)

lemma validate_waiting:
  "ten_extension_validate_msg_schema rt (waiting ms self) m err =
     map_option (\<lambda>(b, m', self', x). (b, m', waiting ms self', x)) (ten_extension_validate_msg_schema rt self m err)"
  by (simp add: ten_extension_validate_msg_schema_def returns_waiting waiting_outcome
      split: prod.split bool.split ten_shared_msg.split)

lemma validate_msgs_waiting:
  "validate_in_msgs rt (waiting ms self) xs err =
     map_option (\<lambda>(ms', self', x). (ms', waiting ms self', x)) (validate_in_msgs rt self xs err)"
  by (induction xs arbitrary: self err)
     (simp_all add: validate_waiting waiting_outcome split: option.split prod.split bool.split)

lemma deliver_waiting:
  "deliver_result rt (waiting ms self) r =
     map_option (\<lambda>(self', x). (waiting ms self', x)) (deliver_result rt self r)"
  "deliver_msg rt ty (waiting ms self) m =
     map_option (\<lambda>(self', x). (waiting ms self', x)) (deliver_msg rt ty self m)"
proof -
  show res: "deliver_result rt (waiting ms self) r =
     map_option (\<lambda>(self', x). (waiting ms self', x)) (deliver_result rt self r)" for r
    by (simp add: deliver_result_def returns_waiting waiting_outcome split: option.split)
  show "deliver_msg rt ty (waiting ms self) m =
     map_option (\<lambda>(self', x). (waiting ms self', x)) (deliver_msg rt ty self m)"
    by (simp add: deliver_msg_def res callbacks_waiting split: ten_shared_msg.split TEN_MSG_TYPE.split)
qed

lemma deliver_msgs_waiting:
  "deliver_msgs rt ty (waiting ms self) xs =
     map_option (\<lambda>(self', x). (waiting ms self', x)) (deliver_msgs rt ty self xs)"
  by (rule delivered_msgs.loop_frame [where K = "\<lambda>_. True" and good = "\<lambda>_. True"]) (simp_all add: deliver_waiting)

lemma in_result_waiting:
  "handle_in_result rt (waiting ms self) r =
     map_option (\<lambda>(self', x). (waiting ms self', x)) (handle_in_result rt self r)"
proof (cases "ten_path_table_set_result TEN_PATH_OUT r (ext_paths self)")
  case (Some x)
  obtain a t1 where x: "x = (a, t1)" by (cases x)
  show ?thesis
  proof (cases a)
    case a: (Some y)
    show ?thesis
    proof (cases "ten_path_table_determine_actual_cmd_result TEN_PATH_OUT y (is_final r) t1")
      case det: (Some z)
      obtain res t2 where z: "z = (res, t2)" by (cases z)
      show ?thesis
      proof (cases res)
        case res: (Some r1)
        show ?thesis
        proof (cases "ten_extension_cache_cmd_result_to_in_path_for_auto_return r1 t2")
          case cache: (Some w)
          obtain b t3 where w: "w = (b, t3)" by (cases w)
          obtain v code err' where
            "ten_extension_validate_msg_schema rt (self\<lparr>ext_paths := t3\<rparr>) (Msg_result r1) ten_error_init =
              Some (True, Msg_result (r1\<lparr>properties := v, status_code := code\<rparr>), self\<lparr>ext_paths := t3\<rparr>, [], err')"
            by (rule validate_in_result)
          with Some x a det z res cache w show ?thesis
            by (simp add: handle_in_result_def validate_waiting deliver_waiting Let_def cong: option.case_cong)
        qed (use Some x a det z res in \<open>simp add: handle_in_result_def\<close>)
      qed (use Some x a det z in \<open>simp add: handle_in_result_def\<close>)
    qed (use Some x a in \<open>simp add: handle_in_result_def\<close>)
  qed (use Some x in \<open>simp add: handle_in_result_def\<close>)
qed (simp add: handle_in_result_def)

lemma in_request_waiting:
  "handle_in_request rt (waiting ms self) m =
     map_option (\<lambda>(self', x). (waiting ms self', x)) (handle_in_request rt self m)"
proof -
  have conv: "converted_msgs (waiting ms self) m = converted_msgs self m" by (simp add: converted_msgs_def)
  show ?thesis
  proof (cases "add_in_paths rt 0 (converted_msgs self m) (ext_paths self)")
    case (Some x)
    obtain as xs t where x: "x = (as, xs, t)" by (cases x)
    let ?self = "self\<lparr>ext_paths := group_paths as t\<rparr>"
    show ?thesis
    proof (cases "validate_in_msgs rt ?self xs ten_error_init")
      case v: (Some y)
      obtain yo self' e where "y = (yo, self', e)" by (cases y)
      with Some x v show ?thesis
        by (cases yo)
           (simp_all add: handle_in_request_def conv validate_msgs_waiting deliver_msgs_waiting waiting_outcome)
    qed (use Some x in \<open>simp add: handle_in_request_def conv validate_msgs_waiting\<close>)
  qed (simp add: handle_in_request_def conv)
qed

definition started :: "ten_extension \<Rightarrow> bool" where
  "started self \<longleftrightarrow> ext_ok self \<and> TEN_EXTENSION_STATE_ON_START_DONE \<le> ext_state self"

lemma in_msg_waiting:
  assumes "started self"
  shows "ten_extension_handle_in_msg rt (waiting ms self) m =
     map_option (\<lambda>(self', x). (waiting ms self', x)) (ten_extension_handle_in_msg rt self m)"
proof -
  have "\<not> ext_state self < TEN_EXTENSION_STATE_ON_START_DONE"
    using assms by (simp add: started_def state_order)
  then show ?thesis
    by (cases m) (simp_all add: ten_extension_handle_in_msg_def in_result_waiting in_request_waiting)
qed

lemma in_msg_started:
  assumes "started self" and "ten_extension_handle_in_msg rt self m = Some (self', effects)"
    and "has_dest m \<or> (\<exists>r. m = Msg_result r)"
  shows "started self'"
proof -
  have ok: "ext_ok self" using assms(1) by (simp add: started_def)
  have "\<not> ext_state self < TEN_EXTENSION_STATE_ON_START_DONE"
    using assms(1) by (simp add: started_def state_order)
  then have "handles self (ten_extension_handle_in_msg rt self m)"
    using handle_in_result_ok [OF ok] handle_in_request_ok [OF ok, of m] assms(3)
      only_paths_refl [OF ext_okD(1) [OF ok]]
    by (cases m) (auto simp: ten_extension_handle_in_msg_def)
  with assms(2) have "only_paths self self'" by (auto simp: handles_def)
  with only_paths_ok [OF this ok] only_paths_fields(3) [OF this] assms(1) show ?thesis by (simp add: started_def)
qed

text \<open>A burst of messages, each of which may come in.\<close>

abbreviation may_come :: "ten_shared_msg \<Rightarrow> bool" where
  "may_come m \<equiv> has_dest m \<or> (\<exists>r. m = Msg_result r)"

lemma in_msgs_waiting:
  assumes "started self" and "\<forall>m \<in> set xs. may_come m"
  shows "handle_in_msgs rts i (waiting ms self) xs =
     map_option (\<lambda>(self', x). (waiting ms self', x)) (handle_in_msgs rts i self xs)"
  by (rule in_msgs.loop_frame [where K = started, OF _ _ assms])
     (use in_msg_waiting in_msg_started in blast)+

lemma in_msgs_started:
  assumes "started self" and "\<forall>m \<in> set xs. may_come m"
    and "handle_in_msgs rts i self xs = Some (self', effects)"
  shows "started self' \<and> pending_msgs self' = pending_msgs self"
proof -
  have "waiting (pending_msgs self) self = self" by (simp add: waiting_def)
  with in_msgs_waiting [OF assms(1,2), of rts i "pending_msgs self"] assms(3)
  have "waiting (pending_msgs self) self' = self'" by simp
  moreover have "pending_msgs (waiting (pending_msgs self) self') = pending_msgs self" by (simp add: waiting_def)
  ultimately have "pending_msgs self' = pending_msgs self" by simp
  moreover have "started self'"
  proof -
    have "ext_ok self" using assms(1) by (simp add: started_def)
    have "\<exists>s' es. handle_in_msgs rts i self xs = Some (s', es) \<and> started s'"
    proof (rule in_msgs.loop_keeps [where good = may_come and K = started, OF _ assms(1,2)])
      fix j s m
      assume s: "started s" "may_come m"
      then have ok: "ext_ok s" "\<not> ext_state s < TEN_EXTENSION_STATE_ON_START_DONE"
        by (simp_all add: started_def state_order)
      have "handles s (ten_extension_handle_in_msg (rts j) s m)"
        using handle_in_result_ok [OF ok(1)] handle_in_request_ok [OF ok(1), of m] s(2) ok(2)
          only_paths_refl [OF ext_okD(1) [OF ok(1)]]
        by (cases m) (auto simp: ten_extension_handle_in_msg_def)
      then obtain s' es where "ten_extension_handle_in_msg (rts j) s m = Some (s', es)" by (rule handlesE)
      with in_msg_started [OF s(1) this s(2)]
      show "\<exists>s' es. ten_extension_handle_in_msg (rts j) s m = Some (s', es) \<and> started s'" by blast
    qed
    with assms(3) show ?thesis by auto
  qed
  ultimately show ?thesis by blast
qed

lemma early_msgs:
  assumes "ext_state self < TEN_EXTENSION_STATE_ON_START_DONE" and "\<forall>m \<in> set ms. \<forall>r. m \<noteq> Msg_result r"
  shows "handle_in_msgs rts i self ms = Some (self\<lparr>pending_msgs := pending_msgs self @ ms\<rparr>, [])"
  using assms
proof (induction ms arbitrary: i self)
  case (Cons m ms)
  have "ten_extension_handle_in_msg (rts i) self m = Some (self\<lparr>pending_msgs := pending_msgs self @ [m]\<rparr>, [])"
    using Cons.prems by (cases m) (simp_all add: ten_extension_handle_in_msg_def)
  with Cons.IH [of "self\<lparr>pending_msgs := pending_msgs self @ [m]\<rparr>" "Suc i"] Cons.prems show ?case by simp
qed simp

text \<open>
  C20: In an extension whose groups were not split by a timer, messages that arrive early are neither lost nor reordered: they are queued without any effect, and when the start
  completes, the extension is in the same state and has done the same, in the same order, as if it
  had first started and had then received the messages that waited at the thread for it,
  followed by the queued ones.
\<close>

theorem early_messages_keep_their_order:
  assumes "reachable_unsplit self" and "ext_state self < TEN_EXTENSION_STATE_ON_START_DONE" and "pending_msgs self = []"
    and "\<forall>m \<in> set ms. has_dest m \<and> (\<forall>r. m \<noteq> Msg_result r)" and "\<forall>m \<in> set thread_pending. has_dest m"
  shows "\<exists>self'. handle_in_msgs rts 0 self ms = Some (self', []) \<and>
    ten_extension_on_start_done rts' thread_pending self' =
      map_option
        (\<lambda>(self'', effects). (filter (\<lambda>m. \<not> waits_for self m) thread_pending, self'', effects))
        (handle_in_msgs rts' 0 (self\<lparr>ext_state := TEN_EXTENSION_STATE_ON_START_DONE\<rparr>)
          (filter (waits_for self) thread_pending @ ms))"
proof (intro exI conjI)
  let ?s = "self\<lparr>ext_state := TEN_EXTENSION_STATE_ON_START_DONE\<rparr>"
  let ?ours = "filter (waits_for self) thread_pending"
  show "handle_in_msgs rts 0 self ms = Some (self\<lparr>pending_msgs := ms\<rparr>, [])"
    using early_msgs [OF assms(2), of ms rts 0] assms(3,4) by simp
  have s: "started ?s"
    using reachable_safe [OF assms(1)] by (simp add: started_def safe_ext_def ext_ok_def conversions_ok_def)
  have "waits_for (self\<lparr>pending_msgs := ms, ext_state := TEN_EXTENSION_STATE_ON_START_DONE\<rparr>) = waits_for self"
    by (simp add: waits_for_def fun_eq_iff)
  moreover have "self\<lparr>pending_msgs := ms, ext_state := TEN_EXTENSION_STATE_ON_START_DONE\<rparr> = waiting ms ?s"
    by (simp add: waiting_def)
  moreover have "\<not> (\<exists>m \<in> set thread_pending. ten_msg_get_dest m = [])" using assms(5) by blast
  ultimately have start: "ten_extension_on_start_done rts' thread_pending (self\<lparr>pending_msgs := ms\<rparr>) =
      (case handle_in_msgs rts' 0 (waiting ms ?s) ?ours of
         None \<Rightarrow> None
       | Some (self1, effects1) \<Rightarrow>
           (case handle_in_msgs rts' (length ?ours) self1 (pending_msgs self1) of
              None \<Rightarrow> None
            | Some (self2, effects2) \<Rightarrow>
                Some (filter (\<lambda>m. \<not> waits_for self m) thread_pending, self2\<lparr>pending_msgs := []\<rparr>, effects1 @ effects2)))"
    by (simp only: ten_extension_on_start_done_def ten_extension_flush_all_pending_msgs_def Let_def if_False)
  have ours: "\<forall>m \<in> set ?ours. may_come m" and mine: "\<forall>m \<in> set ms. may_come m" using assms(4,5) by auto
  show "ten_extension_on_start_done rts' thread_pending (self\<lparr>pending_msgs := ms\<rparr>) =
      map_option
        (\<lambda>(self'', effects). (filter (\<lambda>m. \<not> waits_for self m) thread_pending, self'', effects))
        (handle_in_msgs rts' 0 ?s (?ours @ ms))"
  proof (cases "handle_in_msgs rts' 0 ?s ?ours")
    case None
    then show ?thesis by (simp add: start in_msgs_waiting [OF s ours] in_msgs.loop_append)
  next
    case (Some x)
    obtain s1 e1 where x: "x = (s1, e1)" by (cases x)
    from in_msgs_started [OF s ours Some [unfolded x]] assms(3) have s1: "started s1" "pending_msgs s1 = []" by simp_all
    have queue: "pending_msgs (waiting ms s1) = ms" by (simp add: waiting_def)
    show ?thesis
    proof (cases "handle_in_msgs rts' (length ?ours) s1 ms")
      case None
      then show ?thesis
        using Some x by (simp add: start in_msgs_waiting [OF s ours] in_msgs.loop_append queue in_msgs_waiting [OF s1(1) mine])
    next
      case two: (Some y)
      obtain s2 e2 where y: "y = (s2, e2)" by (cases y)
      from in_msgs_started [OF s1(1) mine two [unfolded y]] s1(2) have "pending_msgs s2 = []" by simp
      then have "(waiting ms s2)\<lparr>pending_msgs := []\<rparr> = s2" by (simp add: waiting_def)
      then show ?thesis
        using Some x two y
        by (simp add: start in_msgs_waiting [OF s ours] in_msgs.loop_append queue in_msgs_waiting [OF s1(1) mine])
    qed
  qed
qed

definition sample_created :: ten_extension where
  "sample_created = (sample_extension ''b'')\<lparr>ext_state := TEN_EXTENSION_STATE_INIT\<rparr>"

theorem early_messages_keep_their_order_witness:
  "\<exists>self'. handle_in_msgs (\<lambda>_. sample_runtime ''u'') 0 sample_created [Msg_cmd (sample_command ''b'')] =
      Some (self', []) \<and>
    ten_extension_on_start_done (\<lambda>_. sample_runtime ''v'') [Msg_cmd (sample_command ''c''), Msg_cmd (sample_command ''b'')] self' =
      map_option (\<lambda>(self'', effects). ([Msg_cmd (sample_command ''c'')], self'', effects))
        (handle_in_msgs (\<lambda>_. sample_runtime ''v'') 0 (sample_extension ''b'')
          [Msg_cmd (sample_command ''b''), Msg_cmd (sample_command ''b'')])"
proof -
  have new: "new_extension sample_created"
    using sample_extension_facts(1) [of "''b''"]
    by (simp add: new_extension_def sample_created_def conversions_ok_def)
  have state: "ext_state sample_created < TEN_EXTENSION_STATE_ON_START_DONE" "pending_msgs sample_created = []"
    by (simp_all add: sample_created_def sample_extension_def state_order)
  have dests: "\<forall>m \<in> set [Msg_cmd (sample_command ''b'')]. has_dest m \<and> (\<forall>r. m \<noteq> Msg_result r)"
    "\<forall>m \<in> set [Msg_cmd (sample_command ''c''), Msg_cmd (sample_command ''b'')]. has_dest m"
    by (simp_all add: sample_command_def)
  have "sample_created\<lparr>ext_state := TEN_EXTENSION_STATE_ON_START_DONE\<rparr> = sample_extension ''b''"
    by (simp add: sample_created_def sample_extension_def)
  moreover have "waits_for sample_created (Msg_cmd (sample_command ''b''))"
    "\<not> waits_for sample_created (Msg_cmd (sample_command ''c''))"
    by (simp_all add: waits_for_def sample_created_def sample_extension_def sample_command_def)
  ultimately show ?thesis
    using early_messages_keep_their_order [OF reachable_unsplit.created [OF new] state dests,
        of "\<lambda>_. sample_runtime ''u''" "\<lambda>_. sample_runtime ''v''"]
    by (simp del: handle_in_msgs.simps)
qed

end
