(* ===== verification/Extension_Expire.thy ===== *)
theory Extension_Expire
  imports Extension_Trip
begin

text \<open>
  The timer of the IN paths: what happens to a group when one of its paths expires.
\<close>

section \<open>A group that has lost a member\<close>

lemma first_failed_dangling:
  assumes "\<exists>a \<in> set as. path_at t a = None"
    and "\<And>a p. a \<in> set as \<Longrightarrow> path_at t a = Some p \<Longrightarrow> \<not> failed p"
  shows "first_failed t (as @ bs) b = None"
  using assms
proof (induction as arbitrary: b)
  case (Cons a as)
  show ?case
  proof (cases "path_at t a")
    case (Some p)
    then have "\<exists>a \<in> set as. path_at t a = None" "\<not> failed p" using Cons.prems by auto
    with Cons.IH Cons.prems(2) Some show ?thesis by (auto simp: failed_def split: option.split)
  qed simp
qed simp

lemma all_cached_dangling:
  assumes "\<exists>a \<in> set as. path_at t a = None"
  shows "all_cached t (as @ bs) \<noteq> Some True"
  using assms by (induction as) (auto split: option.split)

lemma filtered_at:
  assumes "table_ok t" and "p \<in> set (in_paths t)"
  shows "path_at (set_paths TEN_PATH_IN (filter P (in_paths t)) t) (path_addr p) = (if P p then Some p else None)"
proof -
  let ?t = "set_paths TEN_PATH_IN (filter P (in_paths t)) t"
  have dist: "distinct (map path_addr (in_paths t @ out_paths t))"
    using table_okD(1) [OF assms(1)] by (simp add: all_paths_def)
  have "all_paths ?t = filter P (in_paths t) @ out_paths t" by (simp add: all_paths_def set_paths_def)
  moreover have "distinct (map path_addr (filter P (in_paths t) @ out_paths t))"
    using dist by (auto simp: distinct_map_filter)
  ultimately have at: "path_at ?t a = Some x \<longleftrightarrow> x \<in> set (filter P (in_paths t) @ out_paths t) \<and> path_addr x = a" for a x
    using path_at_iff [of ?t a x] by simp
  have same: "x = p" if "x \<in> set (in_paths t @ out_paths t)" "path_addr x = path_addr p" for x
    using dist assms(2) that unfolding distinct_map inj_on_def by auto
  show ?thesis
  proof (cases "P p")
    case True
    with at assms(2) show ?thesis by simp
  next
    case False
    have "path_addr x \<noteq> path_addr p" if "x \<in> set (out_paths t)" for x
      using dist assms(2) that by (auto simp: image_iff)
    then have "path_at ?t (path_addr p) \<noteq> Some x" for x
      unfolding at using same False by auto
    with False show ?thesis by (cases "path_at ?t (path_addr p)") auto
  qed
qed

lemma dangling_result:
  assumes q: "path_at t (path_addr q) = Some q" "path_group q = Some g" "result_conversion q = None"
    and find: "ten_path_table_find_path ty r t = Some q"
    and grp: "path_groups t g = Some grp" "distinct (members grp)" "path_addr q \<in> set (members grp)"
      "policy grp \<noteq> TEN_PATH_GROUP_POLICY_INVALID"
    and gone: "\<exists>a \<in> set (members grp). path_at t a = None"
    and fine: "\<And>a p. a \<in> set (members grp) \<Longrightarrow> a \<noteq> path_addr q \<Longrightarrow> path_at t a = Some p \<Longrightarrow> \<not> failed p"
  shows "result_arrives ty r rm t = None"
proof -
  let ?rest = "remove1 (path_addr q) (members grp)"
  let ?f = "\<lambda>p. p\<lparr>cached_cmd_result := Some r\<rparr>"
  let ?t = "update_group g (move_last (path_addr q)) (update_path (path_addr q) ?f t)"
  have rest: "set ?rest = set (members grp) - {path_addr q}" using grp(2) by simp
  have at: "path_at ?t a = map_option (on_path (path_addr q) ?f) (path_at t a)" for a
    by (simp add: path_at_update)
  have gone': "\<exists>a \<in> set ?rest. path_at ?t a = None"
    using gone q(1) unfolding at rest by auto
  have fine': "\<not> failed p" if a: "a \<in> set ?rest" "path_at ?t a = Some p" for a p
  proof -
    from a(2) obtain x where x: "path_at t a = Some x" "p = on_path (path_addr q) ?f x" unfolding at by auto
    with path_at_addr [OF x(1)] a(1) rest fine show ?thesis by auto
  qed
  have set: "ten_path_set_result (path_addr q) r t = Some ?t"
    using q grp by (simp add: ten_path_set_result_def converted_result_def)
  have grp': "path_groups ?t g = Some (move_last (path_addr q) grp)" using grp(1) by simp
  have resolve: "ten_path_group_resolve g ?t = None"
    using grp(4) first_failed_dangling [OF gone' fine', where bs = "[path_addr q]" and b = True]
    by (cases "policy grp")
       (simp_all add: ten_path_group_resolve_def ten_path_group_resolve_in_one_fail_and_all_ok_return_def grp'
          del: update_group_fields)
  have removal: "ten_path_table_remove_group_and_all_its_paths_if_needed ty g ?t \<in> {None, Some (False, ?t)}"
    using all_cached_dangling [OF gone', where bs = "[path_addr q]"]
    by (auto simp: ten_path_table_remove_group_and_all_its_paths_if_needed_def grp'
        simp del: update_group_fields split: option.split bool.split)
  have "path_at ?t (path_addr q) = Some (?f q)" unfolding at using q(1) by simp
  with q(2) resolve have "ten_path_table_determine_actual_cmd_result ty (path_addr q) rm ?t = None"
    by (simp add: ten_path_table_determine_actual_cmd_result_def)
  with find set q(2) removal show ?thesis
    by (auto simp: result_arrives_def ten_path_table_set_result_def)
qed

text \<open>
  C21: In an extension that was safe until then, the timer of the IN paths removes an expired path from the table but not from its group. If
  another path of the group has not expired and no result in the group is a failure, the
  next result for that path makes the table read the freed path, whatever the result is.
\<close>

theorem in_timer_leaves_dangling_member:
  assumes "reachable_unsplit self" and "distinct (map path_cmd_id (in_paths (ext_paths self)))"
    and "p \<in> set (in_paths (ext_paths self))" and "q \<in> set (in_paths (ext_paths self))"
    and "path_group p = Some g" and "path_group q = Some g"
    and "expired_time_us p \<le> now" and "now < expired_time_us q"
    and "\<forall>x \<in> set (in_paths (ext_paths self)). path_group x = Some g \<longrightarrow> \<not> failed x"
    and "result_conversion q = None" and "cmd_id r = path_cmd_id q"
  shows "result_arrives TEN_PATH_IN r rm (ext_paths (ten_extension_in_path_timer_on_triggered now self)) = None"
proof -
  let ?t = "ext_paths self" and ?P = "\<lambda>x. \<not> expired_time_us x \<le> now"
  let ?u = "set_paths TEN_PATH_IN (filter ?P (in_paths ?t)) ?t"
  have ok: "table_ok ?t" using reachable_safe [OF assms(1)] by (simp add: safe_ext_def ext_ok_def paths_ok_def)
  have q_in: "q \<in> set (paths_of TEN_PATH_IN ?t)" using assms(4) by (simp add: paths_of_def)
  from group_members [OF ok q_in assms(6)] obtain grp where
    grp: "path_groups ?t g = Some grp" "distinct (members grp)" "policy grp \<noteq> TEN_PATH_GROUP_POLICY_INVALID"
    and mem: "set (members grp) = path_addr ` {x \<in> set (in_paths ?t). path_group x = Some g}"
    by (auto simp: paths_of_def)
  note at = filtered_at [OF ok, of _ ?P]
  have late: "\<not> expired_time_us q \<le> now" using assms(8) by simp
  have "result_arrives TEN_PATH_IN r rm ?u = None"
  proof (rule dangling_result [where q = q and g = g and grp = grp])
    show "path_at ?u (path_addr q) = Some q" using at [OF assms(4)] late by simp
    show "ten_path_table_find_path TEN_PATH_IN r ?u = Some q"
      by (rule find_path_unique)
         (use assms(2,4,11) late in \<open>simp_all add: paths_of_set_paths distinct_map_filter\<close>)
    show "path_groups ?u g = Some grp" using grp(1) by simp
    show "path_addr q \<in> set (members grp)" unfolding mem by (rule imageI) (simp add: assms(4,6))
    show "\<exists>a \<in> set (members grp). path_at ?u a = None"
      unfolding mem
      by (rule bexI [of _ "path_addr p"]) (use at [OF assms(3)] assms(3,5,7) in auto)
    show "\<not> failed x" if a: "a \<in> set (members grp)" "path_at ?u a = Some x" for a x
    proof -
      from a(1) obtain y where y: "y \<in> set (in_paths ?t)" "path_group y = Some g" "a = path_addr y" unfolding mem by auto
      with at [OF y(1)] a(2) have "x = y" by (simp split: if_splits)
      with assms(9) y(1,2) show ?thesis by simp
    qed
  qed (use assms(6,10) grp in simp_all)
  then show ?thesis by (simp add: ten_extension_in_path_timer_on_triggered_def)
qed

text \<open>An extension whose graph makes two commands of one, a millisecond apart.\<close>

definition sample_splitter :: ten_extension where
  "sample_splitter =
     (sample_extension ''b'')
       \<lparr>ext_info := Some (sample_info
          \<lparr>msg_conversions := Some (\<lambda>m. case m of Msg_result r \<Rightarrow> [] | _ \<Rightarrow> [(m, None), (m, None)])\<rparr>)\<rparr>"

definition slow_runtime :: ten_runtime where
  "slow_runtime = (sample_runtime ''y'')\<lparr>clock := (\<lambda>i. if i = 0 then 1000 else 2000)\<rparr>"

lemma unchecked_msgs:
  "no_schemas (ext_schemas self) \<Longrightarrow> validate_in_msgs rt self ms err = Some (Some ms, self, [])"
  by (induction ms) (simp_all add: ten_extension_validate_msg_schema_def)

lemma called_on_cmds:
  "has_on_cmd (ext_callbacks self) \<Longrightarrow>
   deliver_msgs rt TEN_MSG_TYPE_CMD self (map Msg_cmd cs) = Some (self, map (\<lambda>c. Call_on_cmd (c\<lparr>dest_loc := []\<rparr>)) cs)"
  by (induction cs) (simp_all add: deliver_msg_def ten_extension_on_cmd_def)

definition split_paths :: "ten_path list" where
  "split_paths =
     (let c = (sample_command ''b'')\<lparr>cmd_id := ''x''\<rparr>; t = ext_paths sample_splitter;
          p = new_in_path 1000 c None t; t1 = push_path TEN_PATH_IN p t
      in [p, new_in_path 2000 (c\<lparr>parent_cmd_id := ''x'', cmd_id := ''y''\<rparr>) None t1])"

lemma sample_split:
  "\<exists>self effects. ten_extension_handle_in_msg slow_runtime sample_splitter
       (Msg_cmd ((sample_command ''b'')\<lparr>cmd_id := ''x''\<rparr>)) = Some (self, effects) \<and>
     in_paths (ext_paths self) = map (\<lambda>p. p\<lparr>path_group := Some 3\<rparr>) split_paths"
proof -
  let ?c = "(sample_command ''b'')\<lparr>cmd_id := ''x''\<rparr>" and ?t = "ext_paths sample_splitter"
  have t: "in_paths ?t = []" "next_addr ?t = 1"
    by (simp_all add: sample_splitter_def sample_extension_def ten_path_table_create_def)
  have c: "dest_loc ?c \<noteq> []" "msg_type ?c = TEN_MSG_TYPE_CMD" "create_in_path (msg_type ?c)"
    by (simp_all add: sample_command_def create_in_path_def)
  define p1 where "p1 = new_in_path 1000 ?c None ?t"
  define t1 where "t1 = push_path TEN_PATH_IN p1 ?t"
  let ?c2 = "?c\<lparr>parent_cmd_id := ''x'', cmd_id := ''y''\<rparr>"
  define p2 where "p2 = new_in_path 2000 ?c2 None t1"
  define t2 where "t2 = push_path TEN_PATH_IN p2 t1"
  have t1: "in_paths t1 = [p1]" "next_addr t1 = 2" and p1: "path_cmd_id p1 = ''x''" "path_addr p1 = 1"
    using t by (simp_all add: t1_def p1_def push_path_def set_paths_def paths_of_def)
  have t2: "in_paths t2 = [p1, p2]" "next_addr t2 = 3" and p2: "path_addr p2 = 2"
    using t1 by (simp_all add: t2_def p2_def push_path_def set_paths_def paths_of_def)
  have paths: "split_paths = [p1, p2]" by (simp add: split_paths_def Let_def p1_def t1_def p2_def)
  have c1: "in_path_cmd ''y'' ?c ?t = ?c"
    using t by (simp add: in_path_cmd_def ten_path_table_find_path_from_cmd_id_def paths_of_def)
  have c2: "in_path_cmd ''y'' ?c t1 = ?c2"
    using t1 p1 c(2) by (simp add: in_path_cmd_def ten_path_table_find_path_from_cmd_id_def paths_of_def
        ten_raw_msg_is_cmd_def ten_cmd_base_gen_new_cmd_id_forcibly_def
        ten_cmd_base_save_cmd_id_to_parent_cmd_id_def)
  have add1: "ten_path_table_add_in_path 1000 ''y'' ?c None ?t = Some (1, ten_cmd_base_reset_parent_cmd_id ?c, t1)"
    using add_in_path_eq [OF c(1), of 1000 "''y''" None ?t] unfolding c1 t(2) by (simp add: t1_def p1_def)
  have add2: "ten_path_table_add_in_path 2000 ''y'' ?c None t1 = Some (2, ten_cmd_base_reset_parent_cmd_id ?c2, t2)"
    using add_in_path_eq [OF c(1), of 2000 "''y''" None t1] unfolding c2 t1(2) by (simp add: t2_def p2_def)
  let ?ms = "[Msg_cmd (ten_cmd_base_reset_parent_cmd_id ?c), Msg_cmd (ten_cmd_base_reset_parent_cmd_id ?c2)]"
  have rt: "clock slow_runtime 0 = 1000" "clock slow_runtime (Suc 0) = 2000" "uuids slow_runtime i = ''y''" for i
    by (simp_all add: slow_runtime_def sample_runtime_def)
  have conv: "converted_msgs sample_splitter (Msg_cmd ?c) = [(Msg_cmd ?c, None), (Msg_cmd ?c, None)]"
    using c(2) by (simp add: converted_msgs_def sample_splitter_def)
  have add: "add_in_paths slow_runtime 0 [(Msg_cmd ?c, None), (Msg_cmd ?c, None)] ?t = Some ([1, 2], ?ms, t2)"
    using c(3) by (simp only: add_in_paths.simps ten_shared_msg.case rt add1 add2 option.case prod.case if_True
        option.map list.map)
  let ?g = "group_paths [1, 2] t2"
  have group: "in_paths ?g = map (\<lambda>p. p\<lparr>path_group := Some 3\<rparr>) split_paths"
    using t2 p1(2) p2 by (simp add: group_paths_def create_group_eq paths join_group_def)
  define self where "self = sample_splitter\<lparr>ext_paths := ?g\<rparr>"
  have self: "no_schemas (ext_schemas self)" "has_on_cmd (ext_callbacks self)" "in_paths (ext_paths self) = in_paths ?g"
    "ext_state sample_splitter = TEN_EXTENSION_STATE_ON_START_DONE"
    by (simp_all add: self_def sample_splitter_def sample_extension_def init_no_schemas)
  have ms: "?ms = map Msg_cmd [ten_cmd_base_reset_parent_cmd_id ?c, ten_cmd_base_reset_parent_cmd_id ?c2]" by simp
  have "ten_msg_get_type (Msg_cmd ?c) = TEN_MSG_TYPE_CMD" using c(2) by simp
  then have "\<exists>effects. handle_in_request slow_runtime sample_splitter (Msg_cmd ?c) = Some (self, effects)"
    unfolding handle_in_request_def conv add option.case prod.case self_def [symmetric] unchecked_msgs [OF self(1)]
    by (simp only: ms called_on_cmds [OF self(2)] option.map prod.case option.inject prod.inject simp_thms append_Nil)
  then show ?thesis
    using self(3,4) group by (auto simp: ten_extension_handle_in_msg_def state_order)
qed

theorem in_timer_leaves_dangling_member_witness:
  "\<exists>self. reachable_unsplit self \<and> map path_cmd_id (in_paths (ext_paths self)) = [''x'', ''y''] \<and>
     result_arrives TEN_PATH_IN ((ten_cmd_result_create 0)\<lparr>cmd_id := ''y''\<rparr>) True
       (ext_paths (ten_extension_in_path_timer_on_triggered 180001500 self)) = None"
proof -
  obtain self effects where run: "ten_extension_handle_in_msg slow_runtime sample_splitter
       (Msg_cmd ((sample_command ''b'')\<lparr>cmd_id := ''x''\<rparr>)) = Some (self, effects)"
    and paths: "in_paths (ext_paths self) = map (\<lambda>p. p\<lparr>path_group := Some 3\<rparr>) split_paths"
    using sample_split by blast
  have "msg_in_ok x" if "x \<in> set (case m of Msg_result r \<Rightarrow> [] | _ \<Rightarrow> [(m, None), (m, None)])" "has_dest m"
    for x and m :: ten_shared_msg
    using that by (cases m) auto
  then have new: "new_extension sample_splitter"
    using sample_extension_facts(1) [of "''b''"]
    by (simp add: new_extension_def sample_splitter_def conversions_ok_def)
  have "has_dest (Msg_cmd ((sample_command ''b'')\<lparr>cmd_id := ''x''\<rparr>))" by (simp add: sample_command_def)
  then have "supplied (Receive slow_runtime (Msg_cmd ((sample_command ''b'')\<lparr>cmd_id := ''x''\<rparr>)))" by simp
  from reachable_one [OF new this] run have reach: "reachable_unsplit self" by simp
  obtain p q where pq: "in_paths (ext_paths self) = [p, q]" "path_group p = Some 3" "path_group q = Some 3"
    "path_cmd_id p = ''x''" "path_cmd_id q = ''y''" "cached_cmd_result p = None" "cached_cmd_result q = None"
    "result_conversion q = None" "expired_time_us p = 180001000" "expired_time_us q = 180002000"
    unfolding paths split_paths_def
    by (simp add: Let_def new_in_path_def ten_path_set_expired_time_def get_expired_time_def push_path_def
        set_paths_def ten_path_table_get_path_timeout_duration_def sample_splitter_def sample_extension_def
        ten_path_table_create_def ten_path_in_create_def ten_path_init_def)
  have ids: "distinct (map path_cmd_id (in_paths (ext_paths self)))" using pq by simp
  have in_paths: "p \<in> set (in_paths (ext_paths self))" "q \<in> set (in_paths (ext_paths self))" by (simp_all add: pq(1))
  have times: "expired_time_us p \<le> 180001500" "(180001500 :: 64 word) < expired_time_us q" by (simp_all add: pq)
  have fine: "\<forall>x \<in> set (in_paths (ext_paths self)). path_group x = Some 3 \<longrightarrow> \<not> failed x"
    by (simp add: pq(1,6,7) failed_def)
  have id: "cmd_id ((ten_cmd_result_create 0)\<lparr>cmd_id := ''y''\<rparr>) = path_cmd_id q" by (simp add: pq)
  from in_timer_leaves_dangling_member [OF reach ids in_paths pq(2,3) times fine pq(8) id, of True] reach pq(1,4,5)
  show ?thesis by auto
qed

end
