(* ===== verification/Ten_Conversion.thy ===== *)
theory Ten_Conversion
  imports Ten_Extension
begin

text \<open>
  The conversion of messages (core/src/ten_runtime/msg_conversion/): a graph can say for a
  connection how the properties of a message, and those of its result, are made from the
  message that was sent. This theory holds the access to the properties of a message
  (core/src/ten_runtime/msg/msg.c), the rules, and the step of an extension that converts a
  message that came in; Conversion_Config holds how the rules are read and written.

  The outer \<open>None\<close> is the use of NULL, or the fields of a frame behind \<open>_ten\<close>, which are not
  modelled. The random ids are given: the \<open>i\<close>-th clone gets the \<open>i\<close>-th one.
\<close>

section \<open>The properties of a message\<close>

fun get_properties :: "ten_shared_msg \<Rightarrow> ten_value" where
  "get_properties (Msg_cmd c) = properties c"
| "get_properties (Msg_result r) = properties r"
| "get_properties (Msg_data d) = properties d"

fun set_properties :: "ten_value \<Rightarrow> ten_shared_msg \<Rightarrow> ten_shared_msg" where
  "set_properties v (Msg_cmd c) = Msg_cmd (c\<lparr>properties := v\<rparr>)"
| "set_properties v (Msg_result r) = Msg_result (r\<lparr>properties := v\<rparr>)"
| "set_properties v (Msg_data d) = Msg_data (d\<lparr>properties := v\<rparr>)"

fun ten_msg_get_src_loc :: "ten_shared_msg \<Rightarrow> ten_loc" where
  "ten_msg_get_src_loc (Msg_cmd c) = src_loc c"
| "ten_msg_get_src_loc (Msg_result r) = src_loc r"
| "ten_msg_get_src_loc (Msg_data d) = src_loc d"

definition frame :: "TEN_MSG_TYPE \<Rightarrow> bool" where
  "frame ty \<longleftrightarrow> ty = TEN_MSG_TYPE_VIDEO_FRAME \<or> ty = TEN_MSG_TYPE_AUDIO_FRAME"

text \<open>
  Behind \<open>_ten\<close> a custom command and a data message have their name. The loop runs over all
  segments that follow; the last one that is the key decides about the outcome.
\<close>

fun set_name_items ::
  "ten_value_path_item list \<Rightarrow> ten_value \<Rightarrow> bool \<Rightarrow> 'a ten_msg_scheme \<Rightarrow> bool \<times> 'a ten_msg_scheme"
where
  "set_name_items [] v success m = (success, m)"
| "set_name_items (item # items) v success m =
     (if item = PATH_OBJECT_ITEM ''name'' then
        (case v of
           VString s \<Rightarrow> set_name_items items v True (m\<lparr>msg_name := s\<rparr>)
         | _ \<Rightarrow> set_name_items items v False m)
      else set_name_items items v success m)"

definition ten_raw_cmd_custom_set_ten_property ::
  "ten_value_path_item list \<Rightarrow> ten_value \<Rightarrow> ten_cmd_base \<Rightarrow> bool \<times> ten_cmd_base"
where
  "ten_raw_cmd_custom_set_ten_property paths v c = set_name_items paths v True c"

definition ten_raw_data_like_set_ten_property ::
  "ten_value_path_item list \<Rightarrow> ten_value \<Rightarrow> ten_msg \<Rightarrow> bool \<times> ten_msg"
where
  "ten_raw_data_like_set_ten_property paths v d = set_name_items paths v True d"

text \<open>The column of the table of message kinds. A timer has fields of its own.\<close>

fun set_ten_property ::
  "ten_value_path_item list \<Rightarrow> ten_value \<Rightarrow> ten_shared_msg \<Rightarrow> (bool \<times> ten_shared_msg) option"
where
  "set_ten_property paths v (Msg_cmd c) =
     (if msg_type c = TEN_MSG_TYPE_CMD
      then Some (map_prod (\<lambda>b. b) Msg_cmd (ten_raw_cmd_custom_set_ten_property paths v c))
      else if msg_type c = TEN_MSG_TYPE_CMD_TIMER then None
      else Some (True, Msg_cmd c))"
| "set_ten_property paths v (Msg_result r) = Some (True, Msg_result r)"
| "set_ten_property paths v (Msg_data d) =
     (if frame (msg_type d) then None
      else Some (map_prod (\<lambda>b. b) Msg_data (ten_raw_data_like_set_ten_property paths v d)))"

text \<open>
  A path that does not parse leaves the message as it is, and that counts as a success. The
  message comes back with the outcome.
\<close>

definition ten_msg_set_property ::
  "ten_shared_msg \<Rightarrow> string \<Rightarrow> ten_value \<Rightarrow> ten_error \<Rightarrow> (bool \<times> ten_shared_msg \<times> ten_error) option"
where
  "ten_msg_set_property m path v err =
     (if path = [] then
        Some (False, m, ten_error_set err TEN_ERRNO_INVALID_ARGUMENT ''path should not be empty.'')
      else
        case ten_value_path_parse path ten_error_init of
          None \<Rightarrow> None
        | Some (None, _) \<Rightarrow> Some (True, m, err)
        | Some (Some items, _) \<Rightarrow>
            (if items \<noteq> [] \<and> hd items = PATH_OBJECT_ITEM ''_ten''
             then map_option (\<lambda>(ok, m'). (ok, m', err)) (set_ten_property (tl items) v m)
             else
               case ten_value_set_from_path_list_with_move (get_properties m) items v of
                 (ok, props) \<Rightarrow> Some (ok, set_properties props m, err)))"

text \<open>Only frames have something to look up behind \<open>_ten\<close>. The caller gives no error.\<close>

definition ten_msg_peek_property :: "ten_shared_msg \<Rightarrow> string \<Rightarrow> ten_value option option" where
  "ten_msg_peek_property m path =
     (if path = [] then Some None
      else
        case ten_value_path_parse path ten_error_init of
          None \<Rightarrow> None
        | Some (None, _) \<Rightarrow> Some None
        | Some (Some items, _) \<Rightarrow>
            (if items \<noteq> [] \<and> hd items = PATH_OBJECT_ITEM ''_ten''
             then (if frame (ten_msg_get_type m) then None else Some None)
             else
               case ten_value_peek_from_path (get_properties m) path of
                 None \<Rightarrow> None
               | Some (Inl _) \<Rightarrow> Some None
               | Some (Inr v) \<Rightarrow> Some (Some v)))"

section \<open>Rules\<close>

datatype conversion_mode =
    Mode_invalid
  | Mode_from_original string
  | Mode_fixed_value ten_value

record ten_conversion_rule =
  property_path :: string
  conversion_mode :: conversion_mode

record ten_conversion_rules =
  rule_list :: "ten_conversion_rule list"
  keep_original :: bool

text \<open>A conversion per property is the only kind. The conversion of the result is optional.\<close>

record ten_msg_and_result_conversion =
  conversion_msg :: ten_conversion_rules
  conversion_result :: "ten_conversion_rules option"

record ten_msg_conversion_context =
  context_src_loc :: ten_loc
  context_msg_name :: string
  context_conversion :: "ten_msg_and_result_conversion option"

definition ten_msg_conversion_per_property_rule_from_original_convert ::
  "string \<Rightarrow> ten_shared_msg \<Rightarrow> ten_shared_msg \<Rightarrow> string \<Rightarrow> ten_error \<Rightarrow>
   (bool \<times> ten_shared_msg \<times> ten_error) option"
where
  "ten_msg_conversion_per_property_rule_from_original_convert original_path m new_m path err =
     (case ten_msg_peek_property m original_path of
        None \<Rightarrow> None
      | Some property \<Rightarrow>
          ten_msg_set_property new_m path
            (case property of Some v \<Rightarrow> ten_value_clone v | None \<Rightarrow> VInvalid) err)"

definition ten_msg_conversion_per_property_rule_fixed_value_convert ::
  "ten_value \<Rightarrow> ten_shared_msg \<Rightarrow> string \<Rightarrow> ten_error \<Rightarrow> (bool \<times> ten_shared_msg \<times> ten_error) option"
where
  "ten_msg_conversion_per_property_rule_fixed_value_convert v new_m path err =
     ten_msg_set_property new_m path (ten_value_clone v) err"

definition ten_msg_conversion_per_property_rule_convert ::
  "ten_conversion_rule \<Rightarrow> ten_shared_msg \<Rightarrow> ten_shared_msg \<Rightarrow> ten_error \<Rightarrow>
   (bool \<times> ten_shared_msg \<times> ten_error) option"
where
  "ten_msg_conversion_per_property_rule_convert self m new_m err =
     (case conversion_mode self of
        Mode_from_original original_path \<Rightarrow>
          ten_msg_conversion_per_property_rule_from_original_convert original_path m new_m
            (property_path self) err
      | Mode_fixed_value v \<Rightarrow>
          ten_msg_conversion_per_property_rule_fixed_value_convert v new_m (property_path self) err
      | Mode_invalid \<Rightarrow> Some (False, new_m, err))"

text \<open>The loop over the rules stops at the first one that fails, and the new message is dropped.\<close>

fun convert_rules ::
  "ten_conversion_rule list \<Rightarrow> ten_shared_msg \<Rightarrow> ten_shared_msg \<Rightarrow> ten_error \<Rightarrow>
   (ten_shared_msg option \<times> ten_error) option"
where
  "convert_rules [] m new_m err = Some (Some new_m, err)"
| "convert_rules (r # rs) m new_m err =
     (case ten_msg_conversion_per_property_rule_convert r m new_m err of
        None \<Rightarrow> None
      | Some (ok, new_m', err') \<Rightarrow>
          if \<not> ok then Some (None, err') else convert_rules rs m new_m' err')"

text \<open>
  The clone that the rules fill: with the properties of the message, or without any. The
  properties are left out by their number in a list of excluded fields. Only the clones of
  custom commands, of data and of frames look at that list (\<open>ten_raw_cmd_custom_as_msg_clone\<close>,
  \<open>ten_raw_data_as_msg_clone\<close> and those of the frames); the clones of results and of the
  commands that start a graph ignore it, so these keep their properties in any case. A kind
  of message that cannot be cloned gives NULL, which the first rule would use.
\<close>

fun heeds_excluded_fields :: "ten_shared_msg \<Rightarrow> bool" where
  "heeds_excluded_fields (Msg_cmd c) \<longleftrightarrow> msg_type c = TEN_MSG_TYPE_CMD"
| "heeds_excluded_fields (Msg_result r) \<longleftrightarrow> False"
| "heeds_excluded_fields (Msg_data d) \<longleftrightarrow> True"

definition clone_for ::
  "ten_conversion_rules \<Rightarrow> string \<Rightarrow> ten_shared_msg \<Rightarrow> ten_shared_msg option"
where
  "clone_for self uuid m =
     map_option (\<lambda>m'. if keep_original self \<or> \<not> heeds_excluded_fields m then m'
                      else set_properties (VObject []) m')
       (clone_shared uuid m)"

definition ten_msg_conversion_per_property_rules_convert ::
  "ten_conversion_rules \<Rightarrow> string \<Rightarrow> ten_shared_msg \<Rightarrow> ten_error \<Rightarrow>
   (ten_shared_msg option \<times> ten_error) option"
where
  "ten_msg_conversion_per_property_rules_convert self uuid m err =
     (case clone_for self uuid m of
        None \<Rightarrow> if rule_list self = [] then Some (None, err) else None
      | Some new_m \<Rightarrow> convert_rules (rule_list self) m new_m err)"

text \<open>The result that is made keeps the id of the command.\<close>

fun with_cmd_id_of :: "ten_cmd_result \<Rightarrow> ten_shared_msg \<Rightarrow> ten_shared_msg" where
  "with_cmd_id_of r (Msg_result r') = Msg_result (r'\<lparr>cmd_id := cmd_id r\<rparr>)"
| "with_cmd_id_of r m = m"

definition ten_result_conversion_per_property_rules_convert ::
  "ten_conversion_rules \<Rightarrow> string \<Rightarrow> ten_cmd_result \<Rightarrow> ten_error \<Rightarrow>
   (ten_shared_msg option \<times> ten_error) option"
where
  "ten_result_conversion_per_property_rules_convert self uuid r err =
     (case clone_for self uuid (Msg_result r) of
        None \<Rightarrow> None
      | Some new_m \<Rightarrow> convert_rules (rule_list self) (Msg_result r) (with_cmd_id_of r new_m) err)"

definition ten_msg_conversion_convert ::
  "ten_conversion_rules \<Rightarrow> string \<Rightarrow> ten_shared_msg \<Rightarrow> ten_error \<Rightarrow>
   (ten_shared_msg option \<times> ten_error) option"
where
  "ten_msg_conversion_convert self uuid m err =
     (case m of
        Msg_result r \<Rightarrow> ten_result_conversion_per_property_rules_convert self uuid r err
      | _ \<Rightarrow> ten_msg_conversion_per_property_rules_convert self uuid m err)"

text \<open>
  The conversion of results as the path table has it. \<open>ten_path_set_result\<close> starts from an
  empty error; where NULL would be used the conversion has no result either.
\<close>

definition result_converter :: "string \<Rightarrow> ten_conversion_rules \<Rightarrow> ten_msg_conversion" where
  "result_converter uuid self r =
     (case ten_msg_conversion_convert self uuid (Msg_result r) ten_error_init of
        Some (Some (Msg_result r'), _) \<Rightarrow> Inr r'
      | Some (_, err) \<Rightarrow> Inl err
      | None \<Rightarrow> Inl ten_error_init)"

section \<open>Conversions of an extension\<close>

definition ten_msg_conversion_is_equal ::
  "ten_msg_conversion_context \<Rightarrow> ten_msg_conversion_context \<Rightarrow> bool"
where
  "ten_msg_conversion_is_equal a b \<longleftrightarrow>
     ten_loc_is_equal (context_src_loc a) (context_src_loc b) \<and>
     context_msg_name a = context_msg_name b"

text \<open>A second conversion for the same source and name is refused.\<close>

definition ten_msg_conversion_context_merge ::
  "ten_msg_conversion_context list \<Rightarrow> ten_msg_conversion_context \<Rightarrow> ten_error \<Rightarrow>
   bool \<times> ten_msg_conversion_context list \<times> ten_error"
where
  "ten_msg_conversion_context_merge contexts new err =
     (if \<exists>c \<in> set contexts. ten_msg_conversion_is_equal c new
      then (False, contexts,
            ten_error_set err TEN_ERRNO_INVALID_GRAPH ''Duplicated message conversion.'')
      else (True, contexts @ [new], err))"

text \<open>
  A context that was read without a graph id takes over that of the first message it is
  compared with.
\<close>

definition ten_msg_conversion_can_match_msg ::
  "ten_msg_conversion_context \<Rightarrow> ten_shared_msg \<Rightarrow> bool \<times> ten_msg_conversion_context"
where
  "ten_msg_conversion_can_match_msg self m =
     (let self' =
            (if graph_id (context_src_loc self) = []
             then self\<lparr>context_src_loc :=
                    (context_src_loc self)\<lparr>graph_id := graph_id (ten_msg_get_src_loc m)\<rparr>\<rparr>
             else self)
      in (ten_loc_is_equal (ten_msg_get_src_loc m) (context_src_loc self') \<and>
          context_msg_name self' = ten_msg_get_name m, self'))"

text \<open>
  The loop over the contexts: the converted messages with the conversion of their results,
  the contexts as they are now, and whether a conversion failed.
\<close>

fun convert_contexts ::
  "(nat \<Rightarrow> string) \<Rightarrow> nat \<Rightarrow> ten_msg_conversion_context list \<Rightarrow> ten_shared_msg \<Rightarrow> ten_error \<Rightarrow>
   (bool \<times> (ten_shared_msg \<times> ten_conversion_rules option) list \<times>
    ten_msg_conversion_context list \<times> ten_error) option"
where
  "convert_contexts ids i [] m err = Some (True, [], [], err)"
| "convert_contexts ids i (c # cs) m err =
     (case ten_msg_conversion_can_match_msg c m of
        (matched, c') \<Rightarrow>
          (case (if matched then context_conversion c' else None) of
             None \<Rightarrow>
               map_option (\<lambda>(ok, ms, cs', err'). (ok, ms, c' # cs', err'))
                 (convert_contexts ids (Suc i) cs m err)
           | Some conversion \<Rightarrow>
               (case ten_msg_conversion_convert (conversion_msg conversion) (ids i) m err of
                  None \<Rightarrow> None
                | Some (Some new_m, err1) \<Rightarrow>
                    map_option
                      (\<lambda>(ok, ms, cs', err'). (ok, (new_m, conversion_result conversion) # ms, c' # cs', err'))
                      (convert_contexts ids (Suc i) cs m err1)
                | Some (None, err1) \<Rightarrow>
                    map_option (\<lambda>(ok, ms, cs', err'). (False, ms, c' # cs', err'))
                      (convert_contexts ids (Suc i) cs m err1))))"

text \<open>When nothing came out of the loop the message goes on as it is, also after a failure.\<close>

definition ten_extension_convert_msg ::
  "(nat \<Rightarrow> string) \<Rightarrow> ten_msg_conversion_context list \<Rightarrow> ten_shared_msg \<Rightarrow> ten_error \<Rightarrow>
   (bool \<times> (ten_shared_msg \<times> ten_conversion_rules option) list \<times>
    ten_msg_conversion_context list \<times> ten_error) option"
where
  "ten_extension_convert_msg ids contexts m err =
     (if ten_raw_msg_is_cmd_and_result (ten_msg_get_type m) \<and> ten_msg_get_type m \<noteq> TEN_MSG_TYPE_CMD
      then Some (False, [], contexts,
                 ten_error_set err TEN_ERRNO_GENERIC ''Can not convert a builtin cmd.'')
      else
        map_option
          (\<lambda>(ok, ms, contexts', err'). (ok, if ms = [] then [(m, None)] else ms, contexts', err'))
          (convert_contexts ids 0 contexts m err))"

end
