(* ===== verification/Conversion_Config.thy ===== *)
theory Conversion_Config
  imports Ten_Conversion Value_Json
begin

text \<open>
  How the rules of a conversion are read from a graph and written back
  (core/src/ten_runtime/msg_conversion/), as values and as JSON.

  The outer \<open>None\<close> is the use of NULL: a missing path, a missing mode, rules that are no
  array. An inner \<open>None\<close> is NULL as the result.
\<close>

section \<open>Modes\<close>

datatype TEN_MSG_CONVERSION_PER_PROPERTY_RULE_CONVERSION_MODE =
    CONVERSION_MODE_INVALID
  | CONVERSION_MODE_FROM_ORIGINAL
  | CONVERSION_MODE_FIXED_VALUE

definition ten_msg_conversion_per_property_rule_conversion_mode_from_string ::
  "string \<Rightarrow> ten_error \<Rightarrow> TEN_MSG_CONVERSION_PER_PROPERTY_RULE_CONVERSION_MODE \<times> ten_error"
where
  "ten_msg_conversion_per_property_rule_conversion_mode_from_string s err =
     (if s = ''fixed_value'' then (CONVERSION_MODE_FIXED_VALUE, err)
      else if s = ''from_original'' then (CONVERSION_MODE_FROM_ORIGINAL, err)
      else (CONVERSION_MODE_INVALID,
            ten_error_set err TEN_ERRNO_GENERIC
              (''Unsupported conversion mode '' @ CHR 0x27 # s @ [CHR 0x27])))"

definition ten_msg_conversion_per_property_rule_conversion_mode_to_string ::
  "TEN_MSG_CONVERSION_PER_PROPERTY_RULE_CONVERSION_MODE \<Rightarrow> ten_error \<Rightarrow> string option \<times> ten_error"
where
  "ten_msg_conversion_per_property_rule_conversion_mode_to_string mode err =
     (case mode of
        CONVERSION_MODE_FIXED_VALUE \<Rightarrow> (Some ''fixed_value'', err)
      | CONVERSION_MODE_FROM_ORIGINAL \<Rightarrow> (Some ''from_original'', err)
      | CONVERSION_MODE_INVALID \<Rightarrow>
          (None, ten_error_set err TEN_ERRNO_GENERIC
             (''Unsupported conversion mode '' @ CHR 0x27 # ''0'' @ [CHR 0x27])))"

fun mode_tag :: "conversion_mode \<Rightarrow> TEN_MSG_CONVERSION_PER_PROPERTY_RULE_CONVERSION_MODE" where
  "mode_tag Mode_invalid = CONVERSION_MODE_INVALID"
| "mode_tag (Mode_from_original _) = CONVERSION_MODE_FROM_ORIGINAL"
| "mode_tag (Mode_fixed_value _) = CONVERSION_MODE_FIXED_VALUE"

section \<open>From a value\<close>

text \<open>Numbers, booleans and strings can be fixed values. A rule without its value is a use of NULL.\<close>

fun can_be_fixed :: "ten_value \<Rightarrow> bool" where
  "can_be_fixed VInvalid = False"
| "can_be_fixed VNull = False"
| "can_be_fixed (VPtr _) = False"
| "can_be_fixed (VBuf _) = False"
| "can_be_fixed (VArray _) = False"
| "can_be_fixed (VObject _) = False"
| "can_be_fixed _ = True"

definition ten_msg_conversion_per_property_rule_fixed_value_from_value ::
  "ten_value \<Rightarrow> ten_value option option"
where
  "ten_msg_conversion_per_property_rule_fixed_value_from_value v =
     (case ten_value_object_peek v ''value'' of
        None \<Rightarrow> None
      | Some fixed \<Rightarrow> Some (if can_be_fixed fixed then Some (ten_value_clone fixed) else None))"

text \<open>The path is used as a format.\<close>

definition ten_msg_conversion_per_property_rule_from_original_from_value ::
  "ten_value \<Rightarrow> string option"
where
  "ten_msg_conversion_per_property_rule_from_original_from_value v =
     map_option c_format0 (ten_value_peek_raw_str (ten_value_object_peek v ''original_path''))"

text \<open>The body of a rule, once its path and its mode are known.\<close>

definition rule_of_mode ::
  "string \<Rightarrow> TEN_MSG_CONVERSION_PER_PROPERTY_RULE_CONVERSION_MODE \<Rightarrow> ten_value option option \<Rightarrow>
   string option \<Rightarrow> ten_conversion_rule option option"
where
  "rule_of_mode path mode fixed original =
     (case mode of
        CONVERSION_MODE_FIXED_VALUE \<Rightarrow>
          map_option (map_option (\<lambda>v. \<lparr>property_path = path, conversion_mode = Mode_fixed_value v\<rparr>)) fixed
      | CONVERSION_MODE_FROM_ORIGINAL \<Rightarrow>
          map_option (\<lambda>p. Some \<lparr>property_path = path, conversion_mode = Mode_from_original p\<rparr>) original
      | CONVERSION_MODE_INVALID \<Rightarrow> Some (Some \<lparr>property_path = path, conversion_mode = Mode_invalid\<rparr>))"

definition ten_msg_conversion_per_property_rule_from_value ::
  "ten_value \<Rightarrow> ten_error \<Rightarrow> (ten_conversion_rule option \<times> ten_error) option"
where
  "ten_msg_conversion_per_property_rule_from_value v err =
     (case (ten_value_peek_raw_str (ten_value_object_peek v ''path''),
            ten_value_peek_raw_str (ten_value_object_peek v ''conversion_mode'')) of
        (Some path, Some mode_str) \<Rightarrow>
          (case ten_msg_conversion_per_property_rule_conversion_mode_from_string mode_str err of
             (mode, err') \<Rightarrow>
               map_option (\<lambda>r. (r, err'))
                 (rule_of_mode path mode
                   (ten_msg_conversion_per_property_rule_fixed_value_from_value v)
                   (ten_msg_conversion_per_property_rule_from_original_from_value v)))
      | _ \<Rightarrow> None)"

text \<open>
  A rule that could not be read goes into the list as NULL, which its use and its end would
  both dereference.
\<close>

fun rules_of_values ::
  "ten_value list \<Rightarrow> ten_error \<Rightarrow> (ten_conversion_rule list \<times> ten_error) option"
where
  "rules_of_values [] err = Some ([], err)"
| "rules_of_values (v # vs) err =
     (case ten_msg_conversion_per_property_rule_from_value v err of
        Some (Some r, err') \<Rightarrow> map_option (\<lambda>(rs, err''). (r # rs, err'')) (rules_of_values vs err')
      | _ \<Rightarrow> None)"

definition ten_msg_conversion_per_property_rules_from_value ::
  "ten_value option \<Rightarrow> ten_error \<Rightarrow> (ten_conversion_rules \<times> ten_error) option"
where
  "ten_msg_conversion_per_property_rules_from_value v err =
     (case v of
        Some (VArray vs) \<Rightarrow>
          map_option (\<lambda>(rs, err'). (\<lparr>rule_list = rs, keep_original = False\<rparr>, err')) (rules_of_values vs err)
      | _ \<Rightarrow> None)"

definition ten_msg_conversion_per_property_from_value ::
  "ten_value \<Rightarrow> ten_error \<Rightarrow> (ten_conversion_rules option \<times> ten_error) option"
where
  "ten_msg_conversion_per_property_from_value v err =
     (if \<not> ten_value_is_object v then Some (None, err)
      else
        case ten_msg_conversion_per_property_rules_from_value (ten_value_object_peek v ''rules'') err of
          None \<Rightarrow> None
        | Some (self, err') \<Rightarrow>
            Some (Some (case ten_value_object_peek v ''keep_original'' of
                          Some (VBool b) \<Rightarrow> self\<lparr>keep_original := b\<rparr>
                        | _ \<Rightarrow> self), err'))"

definition ten_msg_conversion_from_value ::
  "ten_value \<Rightarrow> ten_error \<Rightarrow> (ten_conversion_rules option \<times> ten_error) option"
where
  "ten_msg_conversion_from_value v err =
     (case ten_value_object_peek v ''type'' of
        None \<Rightarrow> Some (None, ten_error_set err TEN_ERRNO_INVALID_JSON ''operation_type is missing.'')
      | Some (VString s) \<Rightarrow>
          if s = ''per_property'' then ten_msg_conversion_per_property_from_value v err
          else Some (None, ten_error_set err TEN_ERRNO_INVALID_JSON (''Unsupported operation type '' @ s))
      | Some _ \<Rightarrow>
          Some (None, ten_error_set err TEN_ERRNO_INVALID_JSON ''operation_type is not a string.''))"

definition ten_msg_and_result_conversion_from_value ::
  "ten_value \<Rightarrow> ten_error \<Rightarrow> (ten_msg_and_result_conversion option \<times> ten_error) option"
where
  "ten_msg_and_result_conversion_from_value v err =
     (case ten_msg_conversion_from_value v err of
        None \<Rightarrow> None
      | Some (None, err1) \<Rightarrow> Some (None, err1)
      | Some (Some m, err1) \<Rightarrow>
          (case ten_value_object_peek v ''result'' of
             None \<Rightarrow> Some (Some \<lparr>conversion_msg = m, conversion_result = None\<rparr>, err1)
           | Some rv \<Rightarrow>
               (case ten_msg_conversion_from_value rv err1 of
                  None \<Rightarrow> None
                | Some (None, err2) \<Rightarrow> Some (None, err2)
                | Some (Some r, err2) \<Rightarrow>
                    Some (Some \<lparr>conversion_msg = m, conversion_result = Some r\<rparr>, err2))))"

definition ten_msg_conversion_context_from_value ::
  "ten_value \<Rightarrow> ten_loc \<Rightarrow> string \<Rightarrow> ten_error \<Rightarrow> (ten_msg_conversion_context option \<times> ten_error) option"
where
  "ten_msg_conversion_context_from_value v src name err =
     map_option
       (\<lambda>(pair, err').
          (map_option
             (\<lambda>p. \<lparr>context_src_loc = ten_loc_init_from_loc src, context_msg_name = name,
                   context_conversion = Some p\<rparr>) pair, err'))
       (ten_msg_and_result_conversion_from_value v err)"

section \<open>To a value\<close>

text \<open>A rule of an invalid mode would have its mode made from NULL.\<close>

definition ten_msg_conversion_per_property_rule_to_value :: "ten_conversion_rule \<Rightarrow> ten_value option" where
  "ten_msg_conversion_per_property_rule_to_value self =
     (case fst (ten_msg_conversion_per_property_rule_conversion_mode_to_string
                 (mode_tag (conversion_mode self)) ten_error_init) of
        None \<Rightarrow> None
      | Some mode_str \<Rightarrow>
          Some (VObject
            ([ten_value_kv_create ''conversion_mode'' (ten_value_create_string mode_str),
              ten_value_kv_create ''path'' (ten_value_create_string (property_path self))] @
             (case conversion_mode self of
                Mode_fixed_value v \<Rightarrow> [ten_value_kv_create ''value'' (ten_value_clone v)]
              | Mode_from_original p \<Rightarrow>
                  [ten_value_kv_create ''original_path'' (ten_value_create_string p)]
              | Mode_invalid \<Rightarrow> []))))"

fun values_of_rules :: "ten_conversion_rule list \<Rightarrow> ten_value list option" where
  "values_of_rules [] = Some []"
| "values_of_rules (r # rs) =
     (case ten_msg_conversion_per_property_rule_to_value r of
        None \<Rightarrow> None
      | Some v \<Rightarrow> map_option ((#) v) (values_of_rules rs))"

definition ten_msg_conversion_per_property_rules_to_value :: "ten_conversion_rules \<Rightarrow> ten_value option" where
  "ten_msg_conversion_per_property_rules_to_value self = map_option VArray (values_of_rules (rule_list self))"

definition ten_msg_conversion_per_property_to_value :: "ten_conversion_rules \<Rightarrow> ten_value option" where
  "ten_msg_conversion_per_property_to_value self =
     map_option
       (\<lambda>rs. VObject
          ([ten_value_kv_create ''type'' (ten_value_create_string ''per_property'')] @
           (if keep_original self then [ten_value_kv_create ''keep_original'' (VBool True)] else []) @
           [ten_value_kv_create ''rules'' rs]))
       (ten_msg_conversion_per_property_rules_to_value self)"

definition ten_msg_and_result_conversion_to_value ::
  "ten_msg_and_result_conversion \<Rightarrow> ten_value option"
where
  "ten_msg_and_result_conversion_to_value self =
     (case ten_msg_conversion_per_property_to_value (conversion_msg self) of
        Some (VObject kvs) \<Rightarrow>
          (case conversion_result self of
             None \<Rightarrow> Some (VObject kvs)
           | Some r \<Rightarrow>
               map_option (\<lambda>v. VObject (kvs @ [ten_value_kv_create ''result'' v]))
                 (ten_msg_conversion_per_property_to_value r))
      | _ \<Rightarrow> None)"

section \<open>From JSON\<close>

definition ten_msg_conversion_per_property_rule_fixed_value_from_json ::
  "json \<Rightarrow> ten_value option option"
where
  "ten_msg_conversion_per_property_rule_fixed_value_from_json j =
     (case ten_json_object_peek j ''value'' of
        None \<Rightarrow> None
      | Some value_json \<Rightarrow>
          Some (case ten_json_get_type value_json of
                  TEN_TYPE_INT64 \<Rightarrow> (case value_json of JSON_INTEGER n \<Rightarrow> Some (VInt64 n) | _ \<Rightarrow> None)
                | TEN_TYPE_UINT64 \<Rightarrow> (case value_json of JSON_INTEGER n \<Rightarrow> Some (VUint64 n) | _ \<Rightarrow> None)
                | TEN_TYPE_FLOAT64 \<Rightarrow> (case value_json of JSON_REAL x \<Rightarrow> Some (VFloat64 x) | _ \<Rightarrow> None)
                | TEN_TYPE_BOOL \<Rightarrow> Some (VBool (value_json = JSON_TRUE))
                | TEN_TYPE_STRING \<Rightarrow> (case value_json of JSON_STRING s \<Rightarrow> Some (VString s) | _ \<Rightarrow> None)
                | _ \<Rightarrow> None))"

definition ten_msg_conversion_per_property_rule_from_original_from_json :: "json \<Rightarrow> string option" where
  "ten_msg_conversion_per_property_rule_from_original_from_json j =
     map_option c_format0 (ten_json_object_peek_string j ''original_path'')"

definition ten_msg_conversion_per_property_rule_from_json ::
  "json \<Rightarrow> ten_error \<Rightarrow> (ten_conversion_rule option \<times> ten_error) option"
where
  "ten_msg_conversion_per_property_rule_from_json j err =
     (case (ten_json_object_peek_string j ''path'', ten_json_object_peek_string j ''conversion_mode'') of
        (Some path, Some mode_str) \<Rightarrow>
          (case ten_msg_conversion_per_property_rule_conversion_mode_from_string mode_str err of
             (mode, err') \<Rightarrow>
               map_option (\<lambda>r. (r, err'))
                 (rule_of_mode path mode
                   (ten_msg_conversion_per_property_rule_fixed_value_from_json j)
                   (ten_msg_conversion_per_property_rule_from_original_from_json j)))
      | _ \<Rightarrow> None)"

fun rules_of_jsons ::
  "json list \<Rightarrow> ten_error \<Rightarrow> (ten_conversion_rule list option \<times> ten_error) option"
where
  "rules_of_jsons [] err = Some (Some [], err)"
| "rules_of_jsons (j # js) err =
     (case ten_msg_conversion_per_property_rule_from_json j err of
        None \<Rightarrow> None
      | Some (None, err') \<Rightarrow> Some (None, err')
      | Some (Some r, err') \<Rightarrow>
          map_option (\<lambda>(rs, err''). (map_option ((#) r) rs, err'')) (rules_of_jsons js err'))"

text \<open>Anything that is no array has no elements.\<close>

definition ten_msg_conversion_per_property_rules_from_json ::
  "json option \<Rightarrow> ten_error \<Rightarrow> (ten_conversion_rules option \<times> ten_error) option"
where
  "ten_msg_conversion_per_property_rules_from_json j err =
     map_option (\<lambda>(rs, err'). (map_option (\<lambda>rs. \<lparr>rule_list = rs, keep_original = False\<rparr>) rs, err'))
       (rules_of_jsons (case j of Some (JSON_ARRAY js) \<Rightarrow> js | _ \<Rightarrow> []) err)"

definition ten_msg_conversion_per_property_from_json ::
  "json \<Rightarrow> ten_error \<Rightarrow> (ten_conversion_rules option \<times> ten_error) option"
where
  "ten_msg_conversion_per_property_from_json j err =
     map_option
       (\<lambda>(self, err').
          (map_option
             (\<lambda>s. if ten_json_object_peek j ''keep_original'' = Some JSON_TRUE
                   then s\<lparr>keep_original := True\<rparr> else s) self, err'))
       (ten_msg_conversion_per_property_rules_from_json (ten_json_object_peek j ''rules'') err)"

definition ten_msg_conversion_from_json ::
  "json \<Rightarrow> ten_error \<Rightarrow> (ten_conversion_rules option \<times> ten_error) option"
where
  "ten_msg_conversion_from_json j err =
     (case ten_json_object_peek_string j ''type'' of
        None \<Rightarrow> None
      | Some s \<Rightarrow>
          if s = ''per_property'' then ten_msg_conversion_per_property_from_json j err
          else Some (None, ten_error_set err TEN_ERRNO_INVALID_JSON
                       (''Invalid message conversion operation type '' @ s)))"

definition ten_msg_and_result_conversion_from_json ::
  "json \<Rightarrow> ten_error \<Rightarrow> (ten_msg_and_result_conversion option \<times> ten_error) option"
where
  "ten_msg_and_result_conversion_from_json j err =
     (case ten_msg_conversion_from_json j err of
        None \<Rightarrow> None
      | Some (None, err1) \<Rightarrow> Some (None, err1)
      | Some (Some m, err1) \<Rightarrow>
          (case ten_json_object_peek j ''result'' of
             None \<Rightarrow> Some (Some \<lparr>conversion_msg = m, conversion_result = None\<rparr>, err1)
           | Some rj \<Rightarrow>
               (case ten_msg_conversion_from_json rj err1 of
                  None \<Rightarrow> None
                | Some (None, err2) \<Rightarrow> Some (None, err2)
                | Some (Some r, err2) \<Rightarrow>
                    Some (Some \<lparr>conversion_msg = m, conversion_result = Some r\<rparr>, err2))))"

definition ten_msg_conversion_context_from_json ::
  "json \<Rightarrow> ten_loc \<Rightarrow> string \<Rightarrow> ten_error \<Rightarrow> (ten_msg_conversion_context option \<times> ten_error) option"
where
  "ten_msg_conversion_context_from_json j src name err =
     map_option
       (\<lambda>(pair, err').
          (map_option
             (\<lambda>p. \<lparr>context_src_loc = ten_loc_init_from_loc src, context_msg_name = name,
                   context_conversion = Some p\<rparr>) pair, err'))
       (ten_msg_and_result_conversion_from_json j err)"

section \<open>To JSON\<close>

text \<open>
  An integer is written as an \<open>int64\<close>; one that does not fit is an error. The outcome is read
  off the caller's error. The object so far comes back with the new field.
\<close>

definition ten_msg_conversion_per_property_rule_fixed_value_to_json ::
  "ten_value \<Rightarrow> (string \<times> json) list \<Rightarrow> ten_error \<Rightarrow> (string \<times> json) list option \<times> ten_error"
where
  "ten_msg_conversion_per_property_rule_fixed_value_to_json v kvs err =
     (let checked = (\<lambda>err' j. (if ten_error_is_success err'
                               then Some (json_object_set_new kvs ''value'' j) else None, err'))
      in case v of
           VString s \<Rightarrow> (Some (json_object_set_new kvs ''value'' (ten_json_create_string s)), err)
         | VBool b \<Rightarrow> checked err (Some (if b then JSON_TRUE else JSON_FALSE))
         | VFloat32 x \<Rightarrow> checked err (ten_json_create_real (float_to_double x))
         | VFloat64 x \<Rightarrow> checked err (ten_json_create_real x)
         | _ \<Rightarrow>
             if int_content v = None then (Some kvs, err)
             else case ten_value_get_int64 v of
                    Inl e \<Rightarrow> checked e None
                  | Inr n \<Rightarrow> checked err (Some (JSON_INTEGER n)))"

definition ten_msg_conversion_per_property_rule_to_json ::
  "ten_conversion_rule \<Rightarrow> ten_error \<Rightarrow> json option \<times> ten_error"
where
  "ten_msg_conversion_per_property_rule_to_json self err =
     (case ten_msg_conversion_per_property_rule_conversion_mode_to_string
            (mode_tag (conversion_mode self)) err of
        (mode_str, err1) \<Rightarrow>
          let kvs = json_object_set_new
                      (json_object_set_new [] ''conversion_mode''
                        (Option.bind mode_str ten_json_create_string))
                      ''path'' (ten_json_create_string (property_path self))
          in case conversion_mode self of
               Mode_fixed_value v \<Rightarrow>
                 map_prod (map_option JSON_OBJECT) (\<lambda>e. e)
                   (ten_msg_conversion_per_property_rule_fixed_value_to_json v kvs err1)
             | Mode_from_original p \<Rightarrow>
                 (Some (JSON_OBJECT
                    (json_object_set_new kvs ''original_path'' (ten_json_create_string p))), err1)
             | Mode_invalid \<Rightarrow> (Some (JSON_OBJECT kvs), err1))"

fun jsons_of_rules ::
  "ten_conversion_rule list \<Rightarrow> ten_error \<Rightarrow> json list option \<times> ten_error"
where
  "jsons_of_rules [] err = (Some [], err)"
| "jsons_of_rules (r # rs) err =
     (case ten_msg_conversion_per_property_rule_to_json r err of
        (None, err') \<Rightarrow> (None, err')
      | (Some j, err') \<Rightarrow> map_prod (map_option ((#) j)) (\<lambda>e. e) (jsons_of_rules rs err'))"

definition ten_msg_conversion_per_property_rules_to_json ::
  "ten_conversion_rules \<Rightarrow> ten_error \<Rightarrow> json option \<times> ten_error"
where
  "ten_msg_conversion_per_property_rules_to_json self err =
     map_prod (map_option JSON_ARRAY) (\<lambda>e. e) (jsons_of_rules (rule_list self) err)"

definition ten_msg_conversion_per_property_to_json ::
  "ten_conversion_rules \<Rightarrow> ten_error \<Rightarrow> (string \<times> json) list option \<times> ten_error"
where
  "ten_msg_conversion_per_property_to_json self err =
     map_prod
       (map_option
         (\<lambda>rules_json.
            json_object_set_new
              ((if keep_original self
                then \<lambda>kvs. json_object_set_new kvs ''keep_original'' (Some JSON_TRUE) else (\<lambda>kvs. kvs))
                (json_object_set_new [] ''type'' (ten_json_create_string ''per_property'')))
              ''rules'' (Some rules_json)))
       (\<lambda>e. e)
       (ten_msg_conversion_per_property_rules_to_json self err)"

definition ten_msg_and_result_conversion_to_json ::
  "ten_msg_and_result_conversion \<Rightarrow> ten_error \<Rightarrow> json option \<times> ten_error"
where
  "ten_msg_and_result_conversion_to_json self err =
     (case ten_msg_conversion_per_property_to_json (conversion_msg self) err of
        (None, err1) \<Rightarrow> (None, err1)
      | (Some kvs, err1) \<Rightarrow>
          (case conversion_result self of
             None \<Rightarrow> (Some (JSON_OBJECT kvs), err1)
           | Some r \<Rightarrow>
               (case ten_msg_conversion_per_property_to_json r err1 of
                  (None, err2) \<Rightarrow> (None, err2)
                | (Some rkvs, err2) \<Rightarrow>
                    (Some (JSON_OBJECT
                       (json_object_set_new kvs ''result'' (Some (JSON_OBJECT rkvs)))), err2))))"

end
