(* ===== verification/Conversion_Facts.thy ===== *)
theory Conversion_Facts
  imports Conversion_Config Extension_Trip
begin

text \<open>
  Conversions: what they keep of a message, what they make of its properties, that they meet
  what an extension asks of them, and that they survive being written and read.
\<close>

section \<open>Round trips\<close>

fun mode_storable :: "conversion_mode \<Rightarrow> bool" where
  "mode_storable Mode_invalid \<longleftrightarrow> False"
| "mode_storable (Mode_from_original p) \<longleftrightarrow> plain_key p"
| "mode_storable (Mode_fixed_value v) \<longleftrightarrow> can_be_fixed v"

definition storable :: "ten_conversion_rules \<Rightarrow> bool" where
  "storable self \<longleftrightarrow> (\<forall>r \<in> set (rule_list self). mode_storable (conversion_mode r))"

lemma plain_keys [simp]:
  "plain_key ''conversion_mode''" "plain_key ''path''" "plain_key ''value''" "plain_key ''original_path''"
  "plain_key ''type''" "plain_key ''keep_original''" "plain_key ''rules''" "plain_key ''result''"
  by (simp_all add: plain_key_def)

lemma fixed_clone [simp]: "can_be_fixed v \<Longrightarrow> ten_value_clone v = v"
  by (cases v) (simp_all add: ten_value_clone_settled)

lemmas rule_readers =
  ten_msg_conversion_per_property_rule_from_value_def
  ten_msg_conversion_per_property_rule_fixed_value_from_value_def
  ten_msg_conversion_per_property_rule_from_original_from_value_def
  ten_msg_conversion_per_property_rule_conversion_mode_from_string_def rule_of_mode_def
  ten_value_object_peek_def ten_value_peek_raw_str_def

lemma rule_through_value:
  assumes "mode_storable (conversion_mode r)"
  shows "\<exists>v. ten_msg_conversion_per_property_rule_to_value r = Some v \<and>
    (\<forall>err. ten_msg_conversion_per_property_rule_from_value v err = Some (Some r, err))"
proof (cases "conversion_mode r")
  case (Mode_from_original p)
  with assms show ?thesis
    by (simp add: ten_msg_conversion_per_property_rule_to_value_def rule_readers
        ten_msg_conversion_per_property_rule_conversion_mode_to_string_def ten_value_create_string_def)
next
  case (Mode_fixed_value v)
  with assms show ?thesis
    by (simp add: ten_msg_conversion_per_property_rule_to_value_def rule_readers
        ten_msg_conversion_per_property_rule_conversion_mode_to_string_def ten_value_create_string_def)
qed (use assms in simp)

lemma rules_through_values:
  assumes "\<forall>r \<in> set rs. mode_storable (conversion_mode r)"
  shows "\<exists>vs. values_of_rules rs = Some vs \<and> (\<forall>err. rules_of_values vs err = Some (rs, err))"
  using assms
proof (induction rs)
  case (Cons r rs)
  from rule_through_value [of r] Cons.prems obtain v where
    "ten_msg_conversion_per_property_rule_to_value r = Some v"
    "\<forall>err. ten_msg_conversion_per_property_rule_from_value v err = Some (Some r, err)" by auto
  with Cons show ?case by auto
qed simp

lemma per_property_through_value:
  assumes "storable self"
  shows "\<exists>kvs. ten_msg_conversion_per_property_to_value self = Some (VObject kvs) \<and>
    alist_peek ''result'' kvs = None \<and>
    (\<forall>err more. alist_peek ''keep_original'' more = None \<longrightarrow>
       ten_msg_conversion_from_value (VObject (kvs @ more)) err = Some (Some self, err))"
proof -
  from rules_through_values [of "rule_list self"] assms obtain vs where vs:
    "values_of_rules (rule_list self) = Some vs"
    "\<forall>err. rules_of_values vs err = Some (rule_list self, err)" by (auto simp: storable_def)
  then show ?thesis
    by (cases self)
       (auto simp: ten_msg_conversion_per_property_to_value_def ten_msg_conversion_from_value_def
         ten_msg_conversion_per_property_rules_to_value_def ten_value_object_peek_def
         ten_msg_conversion_per_property_from_value_def
         ten_msg_conversion_per_property_rules_from_value_def ten_value_is_object_def)
qed

definition pair_storable :: "ten_msg_and_result_conversion \<Rightarrow> bool" where
  "pair_storable self \<longleftrightarrow>
     storable (conversion_msg self) \<and> (\<forall>r. conversion_result self = Some r \<longrightarrow> storable r)"

lemma pair_through_value:
  assumes "pair_storable self"
  shows "\<exists>v. ten_msg_and_result_conversion_to_value self = Some v \<and>
    (\<forall>err. ten_msg_and_result_conversion_from_value v err = Some (Some self, err))"
proof -
  from per_property_through_value [of "conversion_msg self"] assms obtain kvs where m:
    "ten_msg_conversion_per_property_to_value (conversion_msg self) = Some (VObject kvs)"
    "alist_peek ''result'' kvs = None"
    "\<And>err more. alist_peek ''keep_original'' more = None \<Longrightarrow>
       ten_msg_conversion_from_value (VObject (kvs @ more)) err = Some (Some (conversion_msg self), err)"
    by (auto simp: pair_storable_def)
  show ?thesis
  proof (cases "conversion_result self")
    case None
    then show ?thesis
      using m(1,2) m(3) [of "[]"]
      by (cases self)
         (simp add: ten_msg_and_result_conversion_to_value_def
            ten_msg_and_result_conversion_from_value_def ten_value_object_peek_def)
  next
    case (Some r)
    from per_property_through_value [of r] assms Some obtain rkvs where r:
      "ten_msg_conversion_per_property_to_value r = Some (VObject rkvs)"
      "\<And>err more. alist_peek ''keep_original'' more = None \<Longrightarrow>
         ten_msg_conversion_from_value (VObject (rkvs @ more)) err = Some (Some r, err)"
      by (auto simp: pair_storable_def)
    show ?thesis
      using Some m(1,2) r(1) m(3) [of "[(''result'', VObject rkvs)]"] r(2) [of "[]"]
      by (cases self)
         (simp add: ten_msg_and_result_conversion_to_value_def alist_peek_append
            ten_msg_and_result_conversion_from_value_def ten_value_object_peek_def)
  qed
qed

text \<open>What can come from JSON: there a number has no width, and text is UTF-8.\<close>

fun json_value :: "ten_value \<Rightarrow> bool" where
  "json_value (VInt64 n) \<longleftrightarrow> sint n < 0"
| "json_value (VUint64 n) \<longleftrightarrow> uint n \<le> INT64_MAX"
| "json_value (VFloat64 x) \<longleftrightarrow> ten_json_create_real x \<noteq> None"
| "json_value (VBool b) \<longleftrightarrow> True"
| "json_value (VString s) \<longleftrightarrow> utf8_check_string s"
| "json_value _ \<longleftrightarrow> False"

fun mode_json :: "conversion_mode \<Rightarrow> bool" where
  "mode_json Mode_invalid \<longleftrightarrow> False"
| "mode_json (Mode_from_original p) \<longleftrightarrow> plain_key p \<and> utf8_check_string p"
| "mode_json (Mode_fixed_value v) \<longleftrightarrow> json_value v"

definition from_json :: "ten_conversion_rules \<Rightarrow> bool" where
  "from_json self \<longleftrightarrow>
     (\<forall>r \<in> set (rule_list self). mode_json (conversion_mode r) \<and> utf8_check_string (property_path r))"

lemma utf8_names [simp]:
  "utf8_check_string ''conversion_mode''" "utf8_check_string ''path''" "utf8_check_string ''value''"
  "utf8_check_string ''original_path''" "utf8_check_string ''type''" "utf8_check_string ''keep_original''"
  "utf8_check_string ''rules''" "utf8_check_string ''result''" "utf8_check_string ''fixed_value''"
  "utf8_check_string ''from_original''" "utf8_check_string ''per_property''"
  by code_simp+

fun json_of :: "ten_value \<Rightarrow> json" where
  "json_of (VInt64 n) = JSON_INTEGER n"
| "json_of (VUint64 n) = JSON_INTEGER n"
| "json_of (VFloat64 x) = JSON_REAL x"
| "json_of (VBool b) = (if b then JSON_TRUE else JSON_FALSE)"
| "json_of (VString s) = JSON_STRING s"
| "json_of _ = JSON_NULL"

lemma small_uint64: "uint (n :: 64 word) \<le> INT64_MAX \<Longrightarrow> 0 \<le> sint n"
  using sint_as_uint [of n] sint_bounds64 [of n] by (simp split: if_splits)

lemma fixed_to_json:
  assumes "json_value v" and "ten_error_is_success err"
  shows "ten_msg_conversion_per_property_rule_fixed_value_to_json v kvs err =
    (Some (alist_put ''value'' (json_of v) kvs), err)"
  using assms
  by (cases v)
     (auto simp: ten_msg_conversion_per_property_rule_fixed_value_to_json_def json_object_set_new_def
       ten_json_create_string_def ten_json_create_real_def ten_value_get_int64_def get_by_def c_switch_def
       split: fp.splits)

lemma fixed_from_json:
  assumes "json_value v" and "alist_peek ''value'' kvs = Some (json_of v)"
  shows "ten_msg_conversion_per_property_rule_fixed_value_from_json (JSON_OBJECT kvs) = Some (Some v)"
  using assms
  by (cases v)
     (auto simp: ten_msg_conversion_per_property_rule_fixed_value_from_json_def ten_json_object_peek_def
       ten_json_get_type_def small_uint64)

lemmas json_rule_readers =
  ten_msg_conversion_per_property_rule_from_json_def ten_json_object_peek_string_def
  ten_msg_conversion_per_property_rule_from_original_from_json_def ten_json_object_peek_def
  ten_msg_conversion_per_property_rule_conversion_mode_from_string_def rule_of_mode_def

lemma rule_through_json:
  assumes "mode_json (conversion_mode r)" and "utf8_check_string (property_path r)"
    and "ten_error_is_success err"
  shows "\<exists>j. ten_msg_conversion_per_property_rule_to_json r err = (Some j, err) \<and>
    (\<forall>err. ten_msg_conversion_per_property_rule_from_json j err = Some (Some r, err))"
proof (cases "conversion_mode r")
  case (Mode_from_original p)
  with assms show ?thesis
    by (simp add: ten_msg_conversion_per_property_rule_to_json_def json_object_set_new_def
        ten_msg_conversion_per_property_rule_conversion_mode_to_string_def ten_json_create_string_def
        json_rule_readers alist_peek_put)
next
  case (Mode_fixed_value v)
  with assms have v: "json_value v" by simp
  show ?thesis
    using assms Mode_fixed_value fixed_from_json [OF v]
    by (simp add: ten_msg_conversion_per_property_rule_to_json_def fixed_to_json [OF v]
        json_object_set_new_def
        ten_msg_conversion_per_property_rule_conversion_mode_to_string_def ten_json_create_string_def
        json_rule_readers alist_peek_put)
qed (use assms in simp)

lemma rules_through_jsons:
  assumes "\<forall>r \<in> set rs. mode_json (conversion_mode r) \<and> utf8_check_string (property_path r)"
    and "ten_error_is_success err"
  shows "\<exists>js. jsons_of_rules rs err = (Some js, err) \<and>
    (\<forall>err. rules_of_jsons js err = Some (Some rs, err))"
  using assms(1)
proof (induction rs)
  case (Cons r rs)
  from rule_through_json [of r, OF _ _ assms(2)] Cons.prems obtain j where
    "ten_msg_conversion_per_property_rule_to_json r err = (Some j, err)"
    "\<forall>err. ten_msg_conversion_per_property_rule_from_json j err = Some (Some r, err)" by auto
  with Cons show ?case by auto
qed simp

lemma per_property_through_json:
  assumes "from_json self" and "ten_error_is_success err"
  shows "\<exists>kvs. ten_msg_conversion_per_property_to_json self err = (Some kvs, err) \<and>
    alist_peek ''result'' kvs = None \<and>
    (\<forall>kvs' err. (\<forall>k. k \<noteq> ''result'' \<longrightarrow> alist_peek k kvs' = alist_peek k kvs) \<longrightarrow>
       ten_msg_conversion_from_json (JSON_OBJECT kvs') err = Some (Some self, err))"
proof -
  from rules_through_jsons [of "rule_list self", OF _ assms(2)] assms(1) obtain js where js:
    "jsons_of_rules (rule_list self) err = (Some js, err)"
    "\<forall>err. rules_of_jsons js err = Some (Some (rule_list self), err)" by (auto simp: from_json_def)
  then show ?thesis
    by (cases self)
       (auto simp: ten_msg_conversion_per_property_to_json_def ten_msg_conversion_from_json_def
         ten_msg_conversion_per_property_rules_to_json_def json_object_set_new_def
         ten_msg_conversion_per_property_from_json_def alist_peek_put ten_json_object_peek_string_def
         ten_msg_conversion_per_property_rules_from_json_def ten_json_object_peek_def
         ten_json_create_string_def)
qed

definition pair_from_json :: "ten_msg_and_result_conversion \<Rightarrow> bool" where
  "pair_from_json self \<longleftrightarrow>
     from_json (conversion_msg self) \<and> (\<forall>r. conversion_result self = Some r \<longrightarrow> from_json r)"

lemma pair_through_json:
  assumes "pair_from_json self" and ok: "ten_error_is_success err"
  shows "\<exists>j. ten_msg_and_result_conversion_to_json self err = (Some j, err) \<and>
    (\<forall>err. ten_msg_and_result_conversion_from_json j err = Some (Some self, err))"
proof -
  from per_property_through_json [of "conversion_msg self", OF _ ok] assms(1) obtain kvs where m:
    "ten_msg_conversion_per_property_to_json (conversion_msg self) err = (Some kvs, err)"
    "alist_peek ''result'' kvs = None"
    "\<And>kvs' err. (\<forall>k. k \<noteq> ''result'' \<longrightarrow> alist_peek k kvs' = alist_peek k kvs) \<Longrightarrow>
       ten_msg_conversion_from_json (JSON_OBJECT kvs') err = Some (Some (conversion_msg self), err)"
    by (auto simp: pair_from_json_def)
  show ?thesis
  proof (cases "conversion_result self")
    case None
    then show ?thesis
      using m(1,2) m(3) [of kvs]
      by (cases self)
         (simp add: ten_msg_and_result_conversion_to_json_def
            ten_msg_and_result_conversion_from_json_def ten_json_object_peek_def)
  next
    case (Some r)
    from per_property_through_json [of r, OF _ ok] assms(1) Some obtain rkvs where r:
      "ten_msg_conversion_per_property_to_json r err = (Some rkvs, err)"
      "\<And>kvs' err. (\<forall>k. k \<noteq> ''result'' \<longrightarrow> alist_peek k kvs' = alist_peek k rkvs) \<Longrightarrow>
         ten_msg_conversion_from_json (JSON_OBJECT kvs') err = Some (Some r, err)"
      by (auto simp: pair_from_json_def)
    show ?thesis
      using Some m(1,2) r(1) m(3) [of "alist_put ''result'' (JSON_OBJECT rkvs) kvs"] r(2) [of rkvs]
      by (cases self)
         (simp add: ten_msg_and_result_conversion_to_json_def alist_peek_put json_object_set_new_def
            ten_msg_and_result_conversion_from_json_def ten_json_object_peek_def)
  qed
qed

section \<open>What a conversion keeps\<close>

text \<open>A message without its properties and its name, the only things the rules can set.\<close>

fun bare :: "ten_shared_msg \<Rightarrow> ten_shared_msg" where
  "bare (Msg_cmd c) = Msg_cmd (c\<lparr>msg_name := [], properties := VInvalid\<rparr>)"
| "bare (Msg_result r) = Msg_result (r\<lparr>msg_name := [], properties := VInvalid\<rparr>)"
| "bare (Msg_data d) = Msg_data (d\<lparr>msg_name := [], properties := VInvalid\<rparr>)"

lemma bare_set_properties [simp]: "bare (set_properties v m) = bare m"
  by (cases m) simp_all

lemma get_set_properties [simp]: "get_properties (set_properties v m) = v"
  by (cases m) simp_all

text \<open>The first segment of a path is a key.\<close>

lemma parse_brackets_key:
  "parse_brackets 0 cs = Some (Some items) \<Longrightarrow> items = [] \<or> (\<exists>k. hd items = PATH_OBJECT_ITEM k)"
  by (cases cs) (auto simp: ten_value_path_parse_between_bracket_def split: option.splits)

lemma parse_colons_key:
  "parse_colons cs = Some (Some items) \<Longrightarrow> items = [] \<or> (\<exists>k. hd items = PATH_OBJECT_ITEM k)"
proof (induction cs arbitrary: items)
  case (Cons c cs)
  then obtain xs ys where "ten_value_path_parse_between_colon c = Some (Some xs)"
    "parse_colons cs = Some (Some ys)" "items = xs @ ys" by (auto split: option.splits)
  moreover from this(1) have "xs = [] \<or> (\<exists>k. hd xs = PATH_OBJECT_ITEM k)"
    unfolding ten_value_path_parse_between_colon_def by (rule parse_brackets_key)
  ultimately show ?case using Cons.IH [of ys] by (cases xs) auto
qed simp

text \<open>Paths that the rules can use: they do not make the parser read outside its buffer, and leave out \<open>_ten\<close>.\<close>

definition path_ok :: "string \<Rightarrow> bool" where
  "path_ok path \<longleftrightarrow>
     (\<exists>items. ten_value_path_parse path ten_error_init = Some (items, ten_error_init) \<and>
        (\<forall>its. items = Some its \<longrightarrow> its = [] \<or> hd its \<noteq> PATH_OBJECT_ITEM ''_ten''))"

fun mode_ok :: "conversion_mode \<Rightarrow> bool" where
  "mode_ok Mode_invalid \<longleftrightarrow> False"
| "mode_ok (Mode_from_original p) \<longleftrightarrow> p = [] \<or> path_ok p"
| "mode_ok (Mode_fixed_value v) \<longleftrightarrow> True"

definition rules_ok :: "ten_conversion_rules \<Rightarrow> bool" where
  "rules_ok self \<longleftrightarrow> (\<forall>r \<in> set (rule_list self). path_ok (property_path r) \<and> mode_ok (conversion_mode r))"

lemma path_ok_nonempty: "path_ok p \<Longrightarrow> p \<noteq> []"
  by (auto simp: path_ok_def ten_value_path_parse_def ten_error_init_def)

lemma parsed_key:
  assumes "ten_value_path_parse p ten_error_init = Some (Some items, err)"
  shows "items = [] \<or> (\<exists>k. hd items = PATH_OBJECT_ITEM k)"
  using assms parse_colons_key [of "ten_c_string_split p CHR ''.''" items]
  by (auto simp: ten_value_path_parse_def split: if_splits)

lemma set_items_object:
  assumes "ten_value_is_object v" and "items = [] \<or> (\<exists>k. hd items = PATH_OBJECT_ITEM k)"
  shows "fst (set_items v items x)" and "ten_value_is_object (snd (set_items v items x))"
proof -
  show "fst (set_items v items x)"
    using assms set_items_ok [of items v x] by (cases items) auto
  show "ten_value_is_object (snd (set_items v items x))"
    using assms by (cases items) (auto simp: ten_value_is_object_iff split_beta split: option.splits)
qed

lemma set_property_ok:
  assumes "path_ok p" and "ten_value_is_object (get_properties m)"
  shows "\<exists>m'. ten_msg_set_property m p v err = Some (True, m', err) \<and> bare m' = bare m \<and>
    ten_value_is_object (get_properties m')"
proof -
  from assms(1) obtain items where parsed:
    "ten_value_path_parse p ten_error_init = Some (items, ten_error_init)"
    "\<And>its. items = Some its \<Longrightarrow> its = [] \<or> hd its \<noteq> PATH_OBJECT_ITEM ''_ten''"
    by (auto simp: path_ok_def)
  show ?thesis
  proof (cases items)
    case None
    then show ?thesis
      using parsed(1) path_ok_nonempty [OF assms(1)] assms(2) by (simp add: ten_msg_set_property_def)
  next
    case (Some its)
    note key = parsed_key [OF parsed(1) [unfolded Some]]
    note set = set_items_object [OF assms(2) key, of v]
    show ?thesis
      using parsed(1) parsed(2) [OF Some] path_ok_nonempty [OF assms(1)] set Some
      by (auto simp: ten_msg_set_property_def ten_value_set_from_path_list_with_move_def split_beta)
  qed
qed

lemma peek_property_ok: "p = [] \<or> path_ok p \<Longrightarrow> ten_msg_peek_property m p \<noteq> None"
  by (auto simp: path_ok_def ten_msg_peek_property_def ten_value_peek_from_path_def
      split: option.splits sum.splits if_splits)

lemma rule_sets:
  assumes "mode_ok (conversion_mode r)"
  shows "\<exists>v. \<forall>new_m err. ten_msg_conversion_per_property_rule_convert r m new_m err =
    ten_msg_set_property new_m (property_path r) v err"
proof (cases "conversion_mode r")
  case (Mode_from_original p)
  with assms peek_property_ok [of p m] obtain x where "ten_msg_peek_property m p = Some x" by auto
  with Mode_from_original show ?thesis
    by (auto simp: ten_msg_conversion_per_property_rule_convert_def
        ten_msg_conversion_per_property_rule_from_original_convert_def)
qed (use assms in \<open>auto simp: ten_msg_conversion_per_property_rule_convert_def
      ten_msg_conversion_per_property_rule_fixed_value_convert_def\<close>)

lemma convert_rules_ok:
  assumes "\<forall>r \<in> set rs. path_ok (property_path r) \<and> mode_ok (conversion_mode r)"
    and "ten_value_is_object (get_properties new_m)"
  shows "\<exists>m'. convert_rules rs m new_m err = Some (Some m', err) \<and> bare m' = bare new_m"
  using assms
proof (induction rs arbitrary: new_m)
  case (Cons r rs)
  from Cons.prems(1) have r: "path_ok (property_path r)" "mode_ok (conversion_mode r)" by simp_all
  from rule_sets [OF r(2)] obtain v where
    "ten_msg_conversion_per_property_rule_convert r m new_m err =
       ten_msg_set_property new_m (property_path r) v err" by blast
  with set_property_ok [OF r(1) Cons.prems(2), of v err] obtain m' where
    m': "ten_msg_conversion_per_property_rule_convert r m new_m err = Some (True, m', err)"
    "bare m' = bare new_m" "ten_value_is_object (get_properties m')" by auto
  from Cons.IH [OF _ m'(3)] Cons.prems(1) m'(1,2) show ?case by auto
qed simp

lemma bare_result:
  "bare m = bare (Msg_result r) \<Longrightarrow>
   \<exists>r'. m = Msg_result r' \<and> r'\<lparr>msg_name := [], properties := VInvalid\<rparr> = r\<lparr>msg_name := [], properties := VInvalid\<rparr>"
  by (cases m) auto

text \<open>A message that comes out is of the kind that went in, and goes to the same places.\<close>

fun same_kind :: "ten_shared_msg \<Rightarrow> ten_shared_msg \<Rightarrow> bool" where
  "same_kind (Msg_cmd c) (Msg_cmd c') \<longleftrightarrow>
     msg_type c' = msg_type c \<and> src_loc c' = src_loc c \<and> dest_loc c' = dest_loc c"
| "same_kind (Msg_result r) (Msg_result r') \<longleftrightarrow>
     msg_type r' = msg_type r \<and> src_loc r' = src_loc r \<and> dest_loc r' = dest_loc r"
| "same_kind (Msg_data d) (Msg_data d') \<longleftrightarrow>
     msg_type d' = msg_type d \<and> src_loc d' = src_loc d \<and> dest_loc d' = dest_loc d"
| "same_kind _ _ \<longleftrightarrow> False"

lemma same_kind_refl [simp]: "same_kind m m"
  by (cases m) simp_all

lemma bare_same_kind: "bare m' = bare m'' \<Longrightarrow> same_kind m m'' \<Longrightarrow> same_kind m m'"
proof -
  have cmd: "msg_type c' = msg_type c" "src_loc c' = src_loc c" "dest_loc c' = dest_loc c"
    if "c'\<lparr>msg_name := [], properties := VInvalid\<rparr> = c\<lparr>msg_name := [], properties := VInvalid\<rparr>"
    for c c' :: "'a ten_msg_scheme"
    using arg_cong [OF that, of msg_type] arg_cong [OF that, of src_loc] arg_cong [OF that, of dest_loc]
    by simp_all
  show "bare m' = bare m'' \<Longrightarrow> same_kind m m'' \<Longrightarrow> same_kind m m'"
    by (cases m; cases m'; cases m'') (auto dest: cmd)
qed

text \<open>The kinds of messages that an extension converts.\<close>

fun convertible :: "ten_shared_msg \<Rightarrow> bool" where
  "convertible (Msg_cmd c) \<longleftrightarrow> msg_type c = TEN_MSG_TYPE_CMD"
| "convertible (Msg_data d) \<longleftrightarrow> \<not> ten_raw_msg_is_cmd_and_result (msg_type d)"
| "convertible (Msg_result r) \<longleftrightarrow> False"

fun is_result :: "ten_shared_msg \<Rightarrow> bool" where
  "is_result (Msg_result r) \<longleftrightarrow> True"
| "is_result m \<longleftrightarrow> False"

text \<open>
  The message that the rules fill. A command gets a new id and the one it had becomes its
  parent; a result gets its own id back, and loses the name of its command, which the clone
  does not copy.
\<close>

fun renamed :: "string \<Rightarrow> ten_shared_msg \<Rightarrow> ten_shared_msg" where
  "renamed uuid (Msg_cmd c) = Msg_cmd (c\<lparr>parent_cmd_id := cmd_id c, cmd_id := uuid\<rparr>)"
| "renamed uuid (Msg_result r) = Msg_result (r\<lparr>parent_cmd_id := cmd_id r, original_cmd_name := []\<rparr>)"
| "renamed uuid (Msg_data d) = Msg_data d"

text \<open>The properties it has before the rules: a copy of those of the message, or none.\<close>

definition properties_kept :: "ten_conversion_rules \<Rightarrow> ten_shared_msg \<Rightarrow> ten_value" where
  "properties_kept self m =
     (if keep_original self \<or> is_result m
      then snd (ten_value_object_merge_with_clone (VObject []) (get_properties m)) else VObject [])"

lemma properties_kept_object [simp]: "ten_value_is_object (properties_kept self m)"
  by (auto simp: properties_kept_def ten_value_object_merge_with_clone_def ten_value_is_object_iff
      split: ten_value.splits)

lemma set_properties_twice [simp]: "set_properties v (set_properties w m) = set_properties v m"
  by (cases m) simp_all

lemma same_kind_renamed: "same_kind m (set_properties v (renamed uuid m))"
  by (cases m) simp_all

lemma convert_fills:
  assumes "convertible m \<or> is_result m"
  shows "ten_msg_conversion_convert self uuid m err =
    convert_rules (rule_list self) m (set_properties (properties_kept self m) (renamed uuid m)) err"
proof (cases m)
  case (Msg_cmd c)
  with assms show ?thesis
    by (cases c) (simp add: ten_raw_cmd_custom_as_msg_clone_def map_idI ten_msg_conversion_convert_def ten_msg_conversion_per_property_rules_convert_def clone_for_def
        ten_msg_clone_def ten_cmd_base_gen_new_cmd_id_forcibly_def ten_cmd_base_save_cmd_id_to_parent_cmd_id_def
        properties_kept_def)
next
  case (Msg_result r)
  then show ?thesis
    by (cases r) (simp add: ten_msg_conversion_convert_def ten_result_conversion_per_property_rules_convert_def clone_for_def
        ten_raw_cmd_result_as_msg_clone_def ten_cmd_base_gen_new_cmd_id_forcibly_def map_idI
        ten_cmd_base_save_cmd_id_to_parent_cmd_id_def properties_kept_def)
next
  case (Msg_data d)
  then show ?thesis
    by (cases d) (simp add: ten_msg_conversion_convert_def ten_msg_conversion_per_property_rules_convert_def clone_for_def
        ten_raw_data_as_msg_clone_def properties_kept_def map_idI)
qed

lemma convert_ok:
  assumes "rules_ok self" and "convertible m \<or> is_result m"
  shows "\<exists>m'. ten_msg_conversion_convert self uuid m err = Some (Some m', err) \<and> bare m' = bare (renamed uuid m)"
  using convert_rules_ok [of "rule_list self" "set_properties (properties_kept self m) (renamed uuid m)" m err]
    assms(1)
  by (simp add: convert_fills [OF assms(2)] rules_ok_def)

text \<open>A result always has a converted one: same command, same outcome, same way.\<close>

lemma result_converter_ok:
  assumes "rules_ok self"
  shows "\<exists>r'. result_converter uuid self r = Inr r' \<and>
    r'\<lparr>msg_name := [], properties := VInvalid\<rparr> =
      r\<lparr>parent_cmd_id := cmd_id r, original_cmd_name := [], msg_name := [], properties := VInvalid\<rparr>"
proof -
  from convert_ok [OF assms, of "Msg_result r" uuid ten_error_init] obtain m' where
    m': "ten_msg_conversion_convert self uuid (Msg_result r) ten_error_init = Some (Some m', ten_error_init)"
    "bare m' = bare (Msg_result (r\<lparr>parent_cmd_id := cmd_id r, original_cmd_name := []\<rparr>))" by auto
  from bare_result [OF m'(2)] m'(1) show ?thesis by (auto simp: result_converter_def)
qed

lemma msg_convert_ok:
  assumes "rules_ok self" and "convertible m"
  shows "\<exists>m'. ten_msg_conversion_convert self uuid m err = Some (Some m', err) \<and> same_kind m m'"
proof -
  from convert_ok [OF assms(1), of m uuid err] assms(2) obtain m' where
    m': "ten_msg_conversion_convert self uuid m err = Some (Some m', err)" "bare m' = bare (renamed uuid m)" by auto
  have "bare m' = bare (set_properties VInvalid (renamed uuid m))" using m'(2) by simp
  from m'(1) bare_same_kind [OF this same_kind_renamed] show ?thesis by blast
qed

definition context_ok :: "ten_msg_conversion_context \<Rightarrow> bool" where
  "context_ok c \<longleftrightarrow>
     (\<forall>p. context_conversion c = Some p \<longrightarrow>
        rules_ok (conversion_msg p) \<and> (\<forall>r. conversion_result p = Some r \<longrightarrow> rules_ok r))"

text \<open>The contexts a message matches, which decide how many messages come out.\<close>

definition conversion_for :: "ten_shared_msg \<Rightarrow> ten_msg_conversion_context \<Rightarrow> ten_msg_and_result_conversion option" where
  "conversion_for m c =
     (if fst (ten_msg_conversion_can_match_msg c m) then context_conversion c else None)"

lemma can_match_conversion:
  "context_conversion (snd (ten_msg_conversion_can_match_msg c m)) = context_conversion c"
  by (simp add: ten_msg_conversion_can_match_msg_def Let_def)

lemma convert_contexts_ok:
  assumes "\<forall>c \<in> set cs. context_ok c" and "convertible m"
  shows "\<exists>ms. convert_contexts ids i cs m err =
      Some (True, ms, map (\<lambda>c. snd (ten_msg_conversion_can_match_msg c m)) cs, err) \<and>
    map snd ms = map conversion_result (List.map_filter (conversion_for m) cs) \<and>
    (\<forall>(m', r) \<in> set ms. same_kind m m' \<and> (\<forall>s. r = Some s \<longrightarrow> rules_ok s))"
  using assms(1)
proof (induction cs arbitrary: i)
  case (Cons c cs)
  from Cons.prems have prem: "\<forall>c \<in> set cs. context_ok c" by simp
  from Cons.IH [OF prem, of "Suc i"] obtain ms where
    run: "convert_contexts ids (Suc i) cs m err =
      Some (True, ms, map (\<lambda>c. snd (ten_msg_conversion_can_match_msg c m)) cs, err)"
    and results: "map snd ms = map conversion_result (List.map_filter (conversion_for m) cs)"
    and all: "\<forall>(m', r) \<in> set ms. same_kind m m' \<and> (\<forall>s. r = Some s \<longrightarrow> rules_ok s)" by blast
  obtain matched c' where match: "ten_msg_conversion_can_match_msg c m = (matched, c')" by fastforce
  then have chosen: "(if matched then context_conversion c' else None) = conversion_for m c"
    using can_match_conversion [of c m] by (simp add: conversion_for_def)
  show ?case
  proof (cases "conversion_for m c")
    case None
    show ?thesis
      by (intro exI [of _ ms] conjI all)
         (simp_all only: convert_contexts.simps match prod.case chosen None option.case run results
            list.map option.map map_filter_simps snd_conv)
  next
    case (Some p)
    then have "context_conversion c = Some p" by (auto simp: conversion_for_def split: if_splits)
    with Cons.prems have ok: "rules_ok (conversion_msg p)" "\<And>r. conversion_result p = Some r \<Longrightarrow> rules_ok r"
      by (auto simp: context_ok_def)
    from msg_convert_ok [OF ok(1) assms(2), of "ids i" err] obtain m' where
      m': "ten_msg_conversion_convert (conversion_msg p) (ids i) m err = Some (Some m', err)" "same_kind m m'" by blast
    show ?thesis
    proof (intro exI [of _ "(m', conversion_result p) # ms"] conjI)
      show "\<forall>(m', r) \<in> set ((m', conversion_result p) # ms). same_kind m m' \<and> (\<forall>s. r = Some s \<longrightarrow> rules_ok s)"
        using all m'(2) ok(2) by simp
    qed (simp_all only: convert_contexts.simps match prod.case chosen Some option.case run results m'(1)
            list.map option.map map_filter_simps snd_conv)
  qed
qed (simp add: map_filter_simps)

text \<open>What comes out when the contexts match, and when none does.\<close>

lemma convert_msg_ok:
  assumes "\<forall>c \<in> set cs. context_ok c" and "convertible m"
  shows "\<exists>ms. ten_extension_convert_msg ids cs m err =
      Some (True, ms, map (\<lambda>c. snd (ten_msg_conversion_can_match_msg c m)) cs, err) \<and>
    map snd ms = (case List.map_filter (conversion_for m) cs of [] \<Rightarrow> [None] | ps \<Rightarrow> map conversion_result ps) \<and>
    (\<forall>(m', r) \<in> set ms. same_kind m m' \<and> (\<forall>s. r = Some s \<longrightarrow> rules_ok s))"
proof -
  from convert_contexts_ok [OF assms, of ids 0 err] obtain ms where
    run: "convert_contexts ids 0 cs m err =
      Some (True, ms, map (\<lambda>c. snd (ten_msg_conversion_can_match_msg c m)) cs, err)"
    and results: "map snd ms = map conversion_result (List.map_filter (conversion_for m) cs)"
    and all: "\<forall>(m', r) \<in> set ms. same_kind m m' \<and> (\<forall>s. r = Some s \<longrightarrow> rules_ok s)" by blast
  have kind: "\<not> (ten_raw_msg_is_cmd_and_result (ten_msg_get_type m) \<and> ten_msg_get_type m \<noteq> TEN_MSG_TYPE_CMD)"
    using assms(2) by (cases m) auto
  show ?thesis
  proof (cases ms)
    case Nil
    with results have "List.map_filter (conversion_for m) cs = []" by simp
    with kind run Nil show ?thesis by (simp add: ten_extension_convert_msg_def)
  next
    case (Cons x xs)
    with results obtain p ps where "List.map_filter (conversion_for m) cs = p # ps"
      by (cases "List.map_filter (conversion_for m) cs") auto
    with kind run Cons results all show ?thesis by (simp add: ten_extension_convert_msg_def)
  qed
qed

section \<open>Conversions as an extension has them\<close>

text \<open>
  What an extension hands on to its path table. The failure of a conversion is only logged.
  The contexts are those that have their graph ids, which no message changes any more.
\<close>

definition msg_converter ::
  "(nat \<Rightarrow> string) \<Rightarrow> string \<Rightarrow> ten_msg_conversion_context list \<Rightarrow> ten_shared_msg \<Rightarrow>
   (ten_shared_msg \<times> ten_msg_conversion option) list"
where
  "msg_converter ids uuid cs m =
     (if convertible m
      then case ten_extension_convert_msg ids cs m ten_error_init of
             Some (_, ms, _, _) \<Rightarrow> map (map_prod (\<lambda>m. m) (map_option (result_converter uuid))) ms
           | None \<Rightarrow> []
      else [])"

definition with_conversions ::
  "(nat \<Rightarrow> string) \<Rightarrow> string \<Rightarrow> ten_msg_conversion_context list \<Rightarrow> ten_extension \<Rightarrow> ten_extension"
where
  "with_conversions ids uuid cs self =
     self\<lparr>ext_info := map_option (\<lambda>info. info\<lparr>msg_conversions := Some (msg_converter ids uuid cs)\<rparr>) (ext_info self)\<rparr>"

lemma resolved_stays:
  "graph_id (context_src_loc c) \<noteq> [] \<Longrightarrow> snd (ten_msg_conversion_can_match_msg c m) = c"
  by (simp add: ten_msg_conversion_can_match_msg_def)

lemma same_kind_in_ok:
  assumes "same_kind m m'" and "convertible m" and "ten_msg_get_dest m \<noteq> []"
    and "\<forall>s. r = Some s \<longrightarrow> rules_ok s"
  shows "msg_in_ok (m', map_option (result_converter uuid) r)"
proof -
  have "\<exists>x'. f x = Inr x'" if f: "map_option (result_converter uuid) r = Some f" for f x
  proof -
    from f obtain s where "r = Some s" "f = result_converter uuid s" by auto
    with assms(4) result_converter_ok [of s uuid x] show ?thesis by blast
  qed
  with assms(1-3) show ?thesis
    by (cases m; cases m') auto
qed

lemma msg_converter_ok:
  assumes "\<forall>c \<in> set cs. context_ok c" and "ten_msg_get_dest m \<noteq> []" and "x \<in> set (msg_converter ids uuid cs m)"
  shows "msg_in_ok x"
proof -
  have conv: "convertible m" by (rule ccontr) (use assms(3) in \<open>simp add: msg_converter_def\<close>)
  from convert_msg_ok [OF assms(1) conv, of ids ten_error_init] obtain ms where
    "ten_extension_convert_msg ids cs m ten_error_init =
       Some (True, ms, map (\<lambda>c. snd (ten_msg_conversion_can_match_msg c m)) cs, ten_error_init)"
    "\<forall>(m', r) \<in> set ms. same_kind m m' \<and> (\<forall>s. r = Some s \<longrightarrow> rules_ok s)" by blast
  with assms(3) conv obtain m' r where "x = (m', map_option (result_converter uuid) r)"
    "same_kind m m'" "\<forall>s. r = Some s \<longrightarrow> rules_ok s"
    by (fastforce simp: msg_converter_def)
  with same_kind_in_ok [OF _ conv assms(2)] show ?thesis by simp
qed

lemma with_conversions_safe:
  assumes "safe_ext self" and "\<forall>c \<in> set cs. context_ok c"
  shows "safe_ext (with_conversions ids uuid cs self)"
proof -
  from assms(1) obtain info where "ext_info self = Some info"
    by (auto simp: safe_ext_def ext_ok_def conversions_ok_def)
  with assms msg_converter_ok [OF assms(2)] show ?thesis
    by (auto simp: safe_ext_def ext_ok_def conversions_ok_def with_conversions_def)
qed

section \<open>What the rules make\<close>

text \<open>Paths that are a single key.\<close>

definition simple_key :: "string \<Rightarrow> bool" where
  "simple_key k \<longleftrightarrow>
     k \<noteq> [] \<and> CHR ''.'' \<notin> set k \<and> CHR ''['' \<notin> set k \<and> plain_key k \<and> k \<noteq> ''_ten''"

lemma parse_simple:
  assumes "simple_key k"
  shows "ten_value_path_parse k err = Some (Some [PATH_OBJECT_ITEM k], err)"
proof -
  from assms have "segment_ok (k, [])" "render_path [(k, [])] = k" "segment_items (k, []) = [PATH_OBJECT_ITEM k]"
    by (simp_all add: simple_key_def segment_ok_def render_path_def render_segment_def segment_items_def)
  with parse_render [of "[(k, [])]" err] show ?thesis by simp
qed

lemma simple_path_ok: "simple_key k \<Longrightarrow> path_ok k"
  by (simp add: path_ok_def parse_simple) (simp add: simple_key_def)

text \<open>The value a rule gives, and the last rule for a key.\<close>

fun rule_value :: "ten_shared_msg \<Rightarrow> conversion_mode \<Rightarrow> ten_value" where
  "rule_value m (Mode_from_original p) =
     (case ten_msg_peek_property m p of Some (Some v) \<Rightarrow> ten_value_clone v | _ \<Rightarrow> VInvalid)"
| "rule_value m (Mode_fixed_value v) = ten_value_clone v"
| "rule_value m Mode_invalid = VInvalid"

definition rule_for :: "string \<Rightarrow> ten_conversion_rule list \<Rightarrow> ten_conversion_rule option" where
  "rule_for k rs = List.find (\<lambda>r. property_path r = k) (rev rs)"

lemma rule_for_simps [simp]:
  "rule_for k [] = None"
  "rule_for k (r # rs) =
     (case rule_for k rs of Some x \<Rightarrow> Some x | None \<Rightarrow> if property_path r = k then Some r else None)"
proof -
  have "List.find P (xs @ [x]) = (case List.find P xs of Some y \<Rightarrow> Some y | None \<Rightarrow> if P x then Some x else None)"
    for P :: "ten_conversion_rule \<Rightarrow> bool" and xs x
    by (induction xs) auto
  then show "rule_for k (r # rs) =
     (case rule_for k rs of Some x \<Rightarrow> Some x | None \<Rightarrow> if property_path r = k then Some r else None)"
    by (simp add: rule_for_def)
qed (simp add: rule_for_def)

lemma set_simple:
  assumes "simple_key k" and "get_properties m = VObject kvs"
  shows "\<exists>kvs'. ten_msg_set_property m k v err = Some (True, set_properties (VObject kvs') m, err) \<and>
    (\<forall>k'. alist_peek k' kvs' = (if k' = k then Some v else alist_peek k' kvs))"
proof -
  have k: "k \<noteq> []" "k \<noteq> ''_ten''" "plain_key k" using assms(1) by (simp_all add: simple_key_def)
  let ?kvs = "(if alist_peek k kvs = None then kvs @ [(k, v)] else alist_put k v kvs)"
  show ?thesis
    using k assms(2) parse_simple [OF assms(1)]
    by (intro exI [of _ ?kvs], cases "alist_peek k kvs")
       (simp_all add: ten_msg_set_property_def ten_value_set_from_path_list_with_move_def alist_peek_put
         alist_peek_append split: option.splits)
qed

lemma rule_simple:
  assumes "mode_ok (conversion_mode r)"
  shows "ten_msg_conversion_per_property_rule_convert r m new_m err =
    ten_msg_set_property new_m (property_path r) (rule_value m (conversion_mode r)) err"
proof (cases "conversion_mode r")
  case (Mode_from_original p)
  with assms peek_property_ok [of p m] obtain x where "ten_msg_peek_property m p = Some x" by auto
  with Mode_from_original show ?thesis
    by (simp add: ten_msg_conversion_per_property_rule_convert_def
        ten_msg_conversion_per_property_rule_from_original_convert_def)
qed (use assms in \<open>simp_all add: ten_msg_conversion_per_property_rule_convert_def
      ten_msg_conversion_per_property_rule_fixed_value_convert_def\<close>)

lemma convert_simple:
  assumes "\<forall>r \<in> set rs. simple_key (property_path r) \<and> mode_ok (conversion_mode r)"
    and "get_properties new_m = VObject kvs"
  shows "\<exists>kvs'. convert_rules rs m new_m err = Some (Some (set_properties (VObject kvs') new_m), err) \<and>
    (\<forall>k. alist_peek k kvs' =
       (case rule_for k rs of Some r \<Rightarrow> Some (rule_value m (conversion_mode r)) | None \<Rightarrow> alist_peek k kvs))"
  using assms
proof (induction rs arbitrary: new_m kvs)
  case Nil
  have "set_properties (get_properties new_m) new_m = new_m" by (cases new_m) simp_all
  with Nil show ?case by (intro exI [of _ kvs]) simp
next
  case (Cons r rs)
  from Cons.prems(1) have r: "simple_key (property_path r)" "mode_ok (conversion_mode r)" by simp_all
  from set_simple [OF r(1) Cons.prems(2)] obtain kvs1 where step:
    "ten_msg_conversion_per_property_rule_convert r m new_m err =
       Some (True, set_properties (VObject kvs1) new_m, err)"
    "\<forall>k'. alist_peek k' kvs1 =
       (if k' = property_path r then Some (rule_value m (conversion_mode r)) else alist_peek k' kvs)"
    unfolding rule_simple [OF r(2)] by blast
  from Cons.IH [of "set_properties (VObject kvs1) new_m" kvs1] Cons.prems(1) obtain kvs2 where
    "convert_rules rs m (set_properties (VObject kvs1) new_m) err =
       Some (Some (set_properties (VObject kvs2) new_m), err)"
    "\<forall>k. alist_peek k kvs2 =
       (case rule_for k rs of Some r \<Rightarrow> Some (rule_value m (conversion_mode r)) | None \<Rightarrow> alist_peek k kvs1)"
    by auto
  with step show ?case by (intro exI [of _ kvs2]) (auto split: option.splits)
qed

end
