(* ===== verification/Conversion_Trip.thy ===== *)
theory Conversion_Trip
  imports Conversion_Facts
begin

text \<open>
  The way of a command that is converted when it arrives, and of its result, which is
  converted when it leaves; and the properties of the conversions.
\<close>

section \<open>One context\<close>

lemma bare_cmd_fields:
  assumes "bare m = bare (Msg_cmd c)"
  shows "\<exists>c'. m = Msg_cmd c' \<and> msg_type c' = msg_type c \<and> src_loc c' = src_loc c \<and>
    dest_loc c' = dest_loc c \<and> cmd_id c' = cmd_id c \<and> parent_cmd_id c' = parent_cmd_id c \<and> seq_id c' = seq_id c"
proof (cases m)
  case (Msg_cmd c')
  with assms have "c'\<lparr>msg_name := [], properties := VInvalid\<rparr> = c\<lparr>msg_name := [], properties := VInvalid\<rparr>" by simp
  note eq = arg_cong [OF this, of msg_type] arg_cong [OF this, of src_loc] arg_cong [OF this, of dest_loc]
    arg_cong [OF this, of cmd_id] arg_cong [OF this, of parent_cmd_id] arg_cong [OF this, of seq_id]
  with Msg_cmd show ?thesis by simp
qed (use assms in simp_all)

lemma cmd_convert:
  assumes "rules_ok self" and "msg_type c = TEN_MSG_TYPE_CMD"
  shows "\<exists>c'. ten_msg_conversion_convert self uuid (Msg_cmd c) err = Some (Some (Msg_cmd c'), err) \<and>
    msg_type c' = TEN_MSG_TYPE_CMD \<and> src_loc c' = src_loc c \<and> dest_loc c' = dest_loc c \<and>
    cmd_id c' = uuid \<and> parent_cmd_id c' = cmd_id c"
proof -
  from convert_ok [OF assms(1), of "Msg_cmd c" uuid err] assms(2) obtain m' where
    m': "ten_msg_conversion_convert self uuid (Msg_cmd c) err = Some (Some m', err)"
    "bare m' = bare (Msg_cmd (c\<lparr>parent_cmd_id := cmd_id c, cmd_id := uuid\<rparr>))" by auto
  from bare_cmd_fields [OF m'(2)] m'(1) assms(2) show ?thesis by auto
qed

lemma one_context:
  assumes "context_ok x" and "conversion_for (Msg_cmd c) x = Some pair" and "msg_type c = TEN_MSG_TYPE_CMD"
  shows "\<exists>c'. ten_msg_conversion_convert (conversion_msg pair) (ids 0) (Msg_cmd c) ten_error_init =
      Some (Some (Msg_cmd c'), ten_error_init) \<and>
    msg_converter ids uuid [x] (Msg_cmd c) =
      [(Msg_cmd c', map_option (result_converter uuid) (conversion_result pair))] \<and>
    msg_type c' = TEN_MSG_TYPE_CMD \<and> src_loc c' = src_loc c \<and> dest_loc c' = dest_loc c \<and>
    cmd_id c' = ids 0 \<and> parent_cmd_id c' = cmd_id c"
proof -
  obtain matched x' where match: "ten_msg_conversion_can_match_msg x (Msg_cmd c) = (matched, x')" by fastforce
  then have chosen: "(if matched then context_conversion x' else None) = Some pair"
    using can_match_conversion [of x "Msg_cmd c"] assms(2) by (simp add: conversion_for_def split: if_splits)
  have "context_conversion x = Some pair" using assms(2) by (simp add: conversion_for_def split: if_splits)
  with assms(1) have "rules_ok (conversion_msg pair)" by (simp add: context_ok_def)
  from cmd_convert [OF this assms(3), of "ids 0" ten_error_init] obtain c' where
    c': "ten_msg_conversion_convert (conversion_msg pair) (ids 0) (Msg_cmd c) ten_error_init =
        Some (Some (Msg_cmd c'), ten_error_init)"
    "msg_type c' = TEN_MSG_TYPE_CMD" "src_loc c' = src_loc c" "dest_loc c' = dest_loc c"
    "cmd_id c' = ids 0" "parent_cmd_id c' = cmd_id c" by blast
  have "convert_contexts ids 0 [x] (Msg_cmd c) ten_error_init =
      Some (True, [(Msg_cmd c', conversion_result pair)], [x'], ten_error_init)"
    unfolding convert_contexts.simps match prod.case chosen option.case c'(1) by simp
  then show ?thesis
    using c' assms(3)
    by (intro exI [of _ c'])
       (simp add: msg_converter_def ten_extension_convert_msg_def ten_raw_msg_is_cmd_and_result_def
         del: convert_contexts.simps)
qed

section \<open>In and out\<close>

definition converted_path ::
  "ten_runtime \<Rightarrow> ten_extension \<Rightarrow> ten_cmd_base \<Rightarrow> ten_msg_conversion option \<Rightarrow> ten_path"
where
  "converted_path rt self c f = new_in_path (clock rt 0) (arrived rt self c) f (ext_paths self)"

lemma receive_converted:
  assumes none: "no_schemas (ext_schemas self)"
    and state: "TEN_EXTENSION_STATE_ON_START_DONE \<le> ext_state self" "ext_state self < TEN_EXTENSION_STATE_ON_DEINIT"
    and on_cmd: "has_on_cmd (ext_callbacks self)"
    and conv: "Option.bind (ext_info self) msg_conversions = Some convert" "convert (Msg_cmd c0) = [(Msg_cmd c, f)]"
    and c0: "msg_type c0 = TEN_MSG_TYPE_CMD"
    and c: "msg_type c = TEN_MSG_TYPE_CMD" "dest_loc c \<noteq> []"
  shows "ten_extension_handle_in_msg rt self (Msg_cmd c0) =
    Some (self\<lparr>ext_paths := push_path TEN_PATH_IN (converted_path rt self c f) (ext_paths self)\<rparr>,
          [Call_on_cmd ((arrived rt self c)\<lparr>parent_cmd_id := [], dest_loc := []\<rparr>)])"
proof -
  have conv: "converted_msgs self (Msg_cmd c0) = [(Msg_cmd c, f)]"
    using conv c0 by (simp add: converted_msgs_def)
  have "add_in_paths rt 0 [(Msg_cmd c, f)] (ext_paths self) =
      Some ([next_addr (ext_paths self)], [Msg_cmd ((arrived rt self c)\<lparr>parent_cmd_id := []\<rparr>)],
            push_path TEN_PATH_IN (converted_path rt self c f) (ext_paths self))"
    using add_in_path_eq [OF c(2), of "clock rt 0" "uuids rt 0" f "ext_paths self"] c(1)
    by (simp add: converted_path_def create_in_path_def ten_cmd_base_reset_parent_cmd_id_def)
  then have "handle_in_request rt self (Msg_cmd c0) =
    Some (self\<lparr>ext_paths := push_path TEN_PATH_IN (converted_path rt self c f) (ext_paths self)\<rparr>,
          [Call_on_cmd ((arrived rt self c)\<lparr>parent_cmd_id := [], dest_loc := []\<rparr>)])"
    using conv none on_cmd c(1) c0
    by (simp add: handle_in_request_def group_paths_def ten_extension_validate_msg_schema_def deliver_msg_def
        ten_extension_on_cmd_def del: add_in_paths.simps)
  then show ?thesis
    using state by (simp add: ten_extension_handle_in_msg_def state_order)
qed

text \<open>
  The result that is sent on is the converted one. What the schema of the result would have
  adjusted is not: the check runs on the result as it was before.
\<close>

lemma return_converted:
  assumes alone: "alone TEN_PATH_IN p t" and f: "result_conversion p = Some f"
    and none: "no_schemas (ext_schemas self)"
    and r: "is_final r" "cmd_id c = path_cmd_id p"
    and self: "ext_paths self = push_path TEN_PATH_IN p t"
    and conv: "f (r\<lparr>cmd_id := cmd_id c, seq_id := seq_id c, src_loc := ext_loc self, dest_loc := []\<rparr>) = Inr r1"
  shows "ten_env_return_result rt self r c err =
    Some (True, self\<lparr>ext_paths := t\<lparr>next_addr := Suc (next_addr t)\<rparr>\<rparr>,
          [Dispatch (Msg_result (route_result TEN_PATH_IN p r1))], err)"
proof -
  let ?r = "r\<lparr>cmd_id := cmd_id c, seq_id := seq_id c, src_loc := ext_loc self, dest_loc := []\<rparr>"
  have id: "path_cmd_id p = cmd_id ?r" using r(2) by simp
  have "converted_result p ?r = Some r1" using f conv by (simp add: converted_result_def)
  note set = alone_set_result [OF alone id this]
  have at: "path_at (push_path TEN_PATH_IN (with_result p r1) t) (path_addr p) = Some (with_result p r1)"
    using pushed_at [of t "with_result p r1" TEN_PATH_IN] alone by (simp add: alone_def)
  have "handle_out_result rt self ?r err =
    Some (True, self\<lparr>ext_paths := t\<lparr>next_addr := Suc (next_addr t)\<rparr>\<rparr>,
          [Dispatch (Msg_result (route_result TEN_PATH_IN p r1))], err)"
  proof -
    have "\<exists>l. dest_loc (route_result TEN_PATH_IN p r1) = [l] \<and>
        set_dest [l] (Msg_result (route_result TEN_PATH_IN p r1)) = Msg_result (route_result TEN_PATH_IN p r1)"
      by (simp add: route_result_def Let_def)
    then have "msgs_for_dests (uuids rt) (Msg_result (route_result TEN_PATH_IN p r1)) 0
        (dest_loc (route_result TEN_PATH_IN p r1)) = Some [Msg_result (route_result TEN_PATH_IN p r1)]"
      by (auto simp: need_to_clone_msg_when_sending_def simp del: set_dest.simps)
    then show ?thesis
      using alone_determine [OF alone, of r1] none f r(1)
      by (simp add: handle_out_result_def self set at Let_def
          ten_cmd_result_set_original_cmd_name_def ten_extension_determine_out_msg_dest_from_msg_def)
  qed
  then show ?thesis
    by (simp add: ten_env_return_result_def ten_env_return_result_internal_def Let_def
        ten_extension_handle_out_msg_def ten_msg_set_src_to_loc_def ten_msg_clear_dest_def)
qed

section \<open>Samples\<close>

definition sample_rules :: ten_conversion_rules where
  "sample_rules =
     \<lparr>rule_list =
        [\<lparr>property_path = ''b'', conversion_mode = Mode_from_original ''a''\<rparr>,
         \<lparr>property_path = ''c'', conversion_mode = Mode_fixed_value (VBool True)\<rparr>],
      keep_original = False\<rparr>"

definition sample_pair :: ten_msg_and_result_conversion where
  "sample_pair = \<lparr>conversion_msg = sample_rules, conversion_result = Some (sample_rules\<lparr>keep_original := True\<rparr>)\<rparr>"

definition sample_context :: ten_msg_conversion_context where
  "sample_context =
     \<lparr>context_src_loc = ten_loc_init_empty, context_msg_name = ''hello'', context_conversion = Some sample_pair\<rparr>"

definition sample_sent :: ten_cmd_base where
  "sample_sent = (sample_command ''b'')\<lparr>cmd_id := ''x'', properties := VObject [(''a'', VInt32 1)]\<rparr>"

lemma sample_simple:
  "\<forall>r \<in> set (rule_list sample_rules). simple_key (property_path r) \<and> mode_ok (conversion_mode r)"
proof -
  have "simple_key ''a''" "simple_key ''b''" "simple_key ''c''" by (simp_all add: simple_key_def plain_key_def)
  then show ?thesis by (simp add: sample_rules_def simple_path_ok)
qed

lemma sample_rules_facts:
  "rules_ok sample_rules" "rules_ok (sample_rules\<lparr>keep_original := True\<rparr>)" "context_ok sample_context"
  "conversion_for (Msg_cmd sample_sent) sample_context = Some sample_pair"
  "convertible (Msg_cmd sample_sent)" "ten_msg_get_dest (Msg_cmd sample_sent) \<noteq> []"
proof -
  show ok: "rules_ok sample_rules" using sample_simple by (auto simp: rules_ok_def simple_path_ok)
  then show "rules_ok (sample_rules\<lparr>keep_original := True\<rparr>)" by (simp add: rules_ok_def)
  with ok show "context_ok sample_context" by (simp add: context_ok_def sample_context_def sample_pair_def)
qed (simp_all add: conversion_for_def ten_msg_conversion_can_match_msg_def sample_context_def sample_sent_def
      sample_command_def ten_loc_init_empty_def ten_loc_is_equal_def ten_loc_is_equal_with_value_def Let_def)

section \<open>Properties\<close>

text \<open>
  C4: In an extension without schemas that has one context, with conversions of usable paths
  for the command and for its result, a command that matches the context reaches the user as
  the rules make it, and the final result the user gives for it leaves as the rules for the
  result make it: with the status the user gave, under the id the sender knows the command by
  although the user saw another one, and to where the command came from. The path of the
  command is gone afterwards.
\<close>

theorem converted_command_round_trip:
  assumes "no_schemas (ext_schemas B)" and "paths_ok (ext_paths B)" and "ext_info B = Some info"
    and "TEN_EXTENSION_STATE_ON_START_DONE \<le> ext_state B" and "ext_state B < TEN_EXTENSION_STATE_ON_DEINIT"
    and "has_on_cmd (ext_callbacks B)"
    and "context_ok x" and "conversion_for (Msg_cmd c) x = Some pair" and "conversion_result pair = Some back"
    and "msg_type c = TEN_MSG_TYPE_CMD" and "dest_loc c \<noteq> []" and "cmd_id c \<noteq> []"
    and "\<forall>q \<in> set (in_paths (ext_paths B)). path_cmd_id q \<noteq> ids 0"
    and "is_final r"
  shows "\<exists>c' B1 handled B2 given converted returned.
    ten_msg_conversion_convert (conversion_msg pair) (ids 0) (Msg_cmd c) ten_error_init =
      Some (Some (Msg_cmd c'), ten_error_init) \<and>
    ten_extension_handle_in_msg rt (with_conversions ids uuid [x] B) (Msg_cmd c) = Some (B1, [Call_on_cmd handled]) \<and>
    properties handled = properties c' \<and> msg_name handled = msg_name c' \<and> cmd_id handled = ids 0 \<and>
    ten_env_return_result rt' B1 r handled err = Some (True, B2, [Dispatch (Msg_result returned)], err) \<and>
    properties given = properties r \<and> result_converter uuid back given = Inr converted \<and>
    properties returned = properties converted \<and> status_code returned = status_code r \<and>
    cmd_id returned = cmd_id c \<and> dest_loc returned = [src_loc c] \<and>
    in_paths (ext_paths B2) = in_paths (ext_paths B) \<and> out_paths (ext_paths B2) = out_paths (ext_paths B)"
proof -
  let ?B = "with_conversions ids uuid [x] B" and ?f = "result_converter uuid back"
  have B: "ext_paths ?B = ext_paths B" "ext_schemas ?B = ext_schemas B" "ext_state ?B = ext_state B"
    "ext_callbacks ?B = ext_callbacks B" "Option.bind (ext_info ?B) msg_conversions = Some (msg_converter ids uuid [x])"
    using assms(3) by (simp_all add: with_conversions_def)
  from one_context [OF assms(7,8,10), of ids uuid] assms(9) obtain c' where c':
    "ten_msg_conversion_convert (conversion_msg pair) (ids 0) (Msg_cmd c) ten_error_init =
      Some (Some (Msg_cmd c'), ten_error_init)"
    "msg_converter ids uuid [x] (Msg_cmd c) = [(Msg_cmd c', Some ?f)]"
    "msg_type c' = TEN_MSG_TYPE_CMD" "src_loc c' = src_loc c" "dest_loc c' = dest_loc c"
    "cmd_id c' = ids 0" "parent_cmd_id c' = cmd_id c" by auto
  have "ten_path_table_find_path_from_cmd_id TEN_PATH_IN (Some (ids 0)) (ext_paths B) = None"
    using assms(13) by (auto simp: ten_path_table_find_path_from_cmd_id_def find_None_iff paths_of_def)
  then have arrived: "in_path_cmd (uuids rt 0) c' (ext_paths B) = c'" using c'(6) by (simp add: in_path_cmd_def)
  let ?p = "converted_path rt ?B c' (Some ?f)"
  let ?B1 = "?B\<lparr>ext_paths := push_path TEN_PATH_IN ?p (ext_paths B)\<rparr>"
  let ?c = "c'\<lparr>parent_cmd_id := [], dest_loc := []\<rparr>"
  let ?given = "r\<lparr>cmd_id := cmd_id ?c, seq_id := seq_id ?c, src_loc := ext_loc ?B1, dest_loc := []\<rparr>"
  have receive: "ten_extension_handle_in_msg rt ?B (Msg_cmd c) = Some (?B1, [Call_on_cmd ?c])"
    using receive_converted [OF _ _ _ _ B(5) c'(2) assms(10) c'(3), of rt] assms(1,4,5,6,11) c'(5) B(1-4)
    by (simp add: arrived)
  have p: "path_addr ?p = next_addr (ext_paths B)" "path_group ?p = None" "path_cmd_id ?p = ids 0"
    "result_conversion ?p = Some ?f" "path_src_loc ?p = src_loc c" "original_cmd_id ?p = cmd_id c"
    using c' by (simp_all add: converted_path_def B(1) arrived)
  have alone: "alone TEN_PATH_IN ?p (ext_paths B)"
    using assms(2,13) p(1-3) by (simp add: alone_def paths_ok_def paths_of_def)
  have "context_conversion x = Some pair" using assms(8) by (simp add: conversion_for_def split: if_splits)
  with assms(7,9) have "rules_ok back" by (auto simp: context_ok_def)
  from result_converter_ok [OF this, of uuid ?given] obtain r1 where r1: "?f ?given = Inr r1"
    "r1\<lparr>msg_name := [], properties := VInvalid\<rparr> =
     ?given\<lparr>parent_cmd_id := cmd_id ?given, original_cmd_name := [], msg_name := [], properties := VInvalid\<rparr>" by blast
  have status: "status_code r1 = status_code r" using arg_cong [OF r1(2), of status_code] by simp
  have return: "ten_env_return_result rt' ?B1 r ?c err =
      Some (True, ?B1\<lparr>ext_paths := (ext_paths B)\<lparr>next_addr := Suc (next_addr (ext_paths B))\<rparr>\<rparr>,
            [Dispatch (Msg_result (route_result TEN_PATH_IN ?p r1))], err)"
    using return_converted [OF alone p(4), of ?B1 r ?c r1 rt' err] assms(1,14) r1(1) p(3) c'(6) B(2) by simp
  show ?thesis
  proof (intro exI conjI)
    show "ten_msg_conversion_convert (conversion_msg pair) (ids 0) (Msg_cmd c) ten_error_init =
      Some (Some (Msg_cmd c'), ten_error_init)" by (rule c'(1))
    show "ten_extension_handle_in_msg rt ?B (Msg_cmd c) = Some (?B1, [Call_on_cmd ?c])" by (rule receive)
    show "ten_env_return_result rt' ?B1 r ?c err =
      Some (True, ?B1\<lparr>ext_paths := (ext_paths B)\<lparr>next_addr := Suc (next_addr (ext_paths B))\<rparr>\<rparr>,
            [Dispatch (Msg_result (route_result TEN_PATH_IN ?p r1))], err)" by (rule return)
    show "?f ?given = Inr r1" by (rule r1(1))
  qed (use p c' status assms(12) in \<open>simp_all add: route_result_def Let_def ten_cmd_result_set_original_cmd_name_def\<close>)
qed

theorem converted_command_round_trip_witness:
  "\<exists>B1 handled B2 returned.
    ten_extension_handle_in_msg (sample_runtime ''u'')
      (with_conversions (\<lambda>_. ''n'') ''m'' [sample_context] (sample_extension ''b'')) (Msg_cmd sample_sent) =
      Some (B1, [Call_on_cmd handled]) \<and> cmd_id handled = ''n'' \<and>
    ten_env_return_result (sample_runtime ''v'') B1 (ten_cmd_result_create 0) handled ten_error_init =
      Some (True, B2, [Dispatch (Msg_result returned)], ten_error_init) \<and>
    cmd_id returned = ''x'' \<and> status_code returned = 0 \<and> in_paths (ext_paths B2) = []"
proof -
  have sent: "msg_type sample_sent = TEN_MSG_TYPE_CMD" "dest_loc sample_sent \<noteq> []" "cmd_id sample_sent \<noteq> []"
    "cmd_id sample_sent = ''x''"
    by (simp_all add: sample_sent_def sample_command_def)
  have answer: "conversion_result sample_pair = Some (sample_rules\<lparr>keep_original := True\<rparr>)"
    by (simp add: sample_pair_def)
  have r: "is_final (ten_cmd_result_create 0)" "status_code (ten_cmd_result_create 0) = 0"
    by (simp_all add: ten_cmd_result_create_def)
  have B: "no_schemas (ext_schemas (sample_extension ''b''))" "paths_ok (ext_paths (sample_extension ''b''))"
    "ext_info (sample_extension ''b'') = Some sample_info"
    "TEN_EXTENSION_STATE_ON_START_DONE \<le> ext_state (sample_extension ''b'')"
    "ext_state (sample_extension ''b'') < TEN_EXTENSION_STATE_ON_DEINIT"
    "has_on_cmd (ext_callbacks (sample_extension ''b''))"
    "\<forall>q \<in> set (in_paths (ext_paths (sample_extension ''b''))). path_cmd_id q \<noteq> ''n''"
    using sample_trip(1) ext_okD(1) [OF sample_extension_facts(2)] sample_extension_facts(5)
    by (simp_all add: sample_extension_def state_order)
  from converted_command_round_trip [OF B(1-6) sample_rules_facts(3,4) answer sent(1-3) B(7) r(1),
      of "sample_runtime ''u''" "''m''" "sample_runtime ''v''" ten_error_init]
  show ?thesis unfolding sent(4) r(2) sample_extension_facts(5) by blast
qed

text \<open>
  C5: What rules make of a message that an extension converts or of a result, when each rule
  has a usable mode and a single plain key as its path: the message with the id that its clone
  gets, unchanged but for its properties. Among these stands under each key what the last rule
  for it gives; a key without a rule has what a copy of the properties of the message has if
  they are kept, and nothing otherwise. Those of a result are kept in any case.
\<close>

theorem rules_make_properties:
  assumes "\<forall>r \<in> set (rule_list self). simple_key (property_path r) \<and> mode_ok (conversion_mode r)"
    and "convertible m \<or> is_result m"
  shows "\<exists>P. ten_msg_conversion_convert self uuid m err = Some (Some (set_properties P (renamed uuid m)), err) \<and>
    (\<forall>k. ten_value_object_peek P k =
       (case rule_for k (rule_list self) of
          Some r \<Rightarrow> Some (rule_value m (conversion_mode r))
        | None \<Rightarrow>
            if keep_original self \<or> is_result m
            then ten_value_object_peek
                   (snd (ten_value_object_merge_with_clone (VObject []) (get_properties m))) k
            else None))"
proof -
  obtain kvs where kvs: "properties_kept self m = VObject kvs"
    using properties_kept_object [of self m] unfolding ten_value_is_object_iff by blast
  from convert_simple [OF assms(1), of "set_properties (properties_kept self m) (renamed uuid m)" kvs m err] kvs
  obtain kvs' where out:
    "convert_rules (rule_list self) m (set_properties (properties_kept self m) (renamed uuid m)) err =
       Some (Some (set_properties (VObject kvs') (renamed uuid m)), err)"
    "\<forall>k. alist_peek k kvs' = (case rule_for k (rule_list self) of
       Some r \<Rightarrow> Some (rule_value m (conversion_mode r)) | None \<Rightarrow> alist_peek k kvs)" by auto
  have "alist_peek k kvs = (if keep_original self \<or> is_result m then ten_value_object_peek
      (snd (ten_value_object_merge_with_clone (VObject []) (get_properties m))) k else None)" for k
    using arg_cong [OF kvs, of "\<lambda>v. ten_value_object_peek v k"]
    by (simp add: ten_value_object_peek_def properties_kept_def split: if_splits) auto
  with out convert_fills [OF assms(2), of self uuid err] show ?thesis
    by (intro exI [of _ "VObject kvs'"]) (auto simp: ten_value_object_peek_def split: option.splits)
qed

theorem rules_make_properties_witness:
  "(\<exists>P. ten_msg_conversion_convert sample_rules ''n'' (Msg_cmd sample_sent) ten_error_init =
      Some (Some (Msg_cmd (sample_sent\<lparr>parent_cmd_id := ''x'', cmd_id := ''n'', properties := P\<rparr>)), ten_error_init) \<and>
    ten_value_object_peek P ''b'' = Some (VInt32 1) \<and> ten_value_object_peek P ''c'' = Some (VBool True) \<and>
    ten_value_object_peek P ''a'' = None)"
proof -
  have "simple_key ''a''" by (simp add: simple_key_def plain_key_def)
  note a = parse_simple [OF this]
  have "ten_msg_peek_property (Msg_cmd sample_sent) ''a'' = Some (Some (VInt32 1))"
    by (simp add: ten_msg_peek_property_def ten_value_peek_from_path_def a sample_sent_def)
  moreover have "cmd_id sample_sent = ''x''" by (simp add: sample_sent_def sample_command_def)
  ultimately show ?thesis
    using rules_make_properties [OF sample_simple disjI1 [OF sample_rules_facts(5)], of "''n''" ten_error_init]
    by (auto simp: sample_rules_def ten_value_clone_settled)
qed

text \<open>
  C6: Whatever contexts an extension has, if their rules have usable paths, a message from a
  safe state is handled without the use of NULL or freed memory, and the path table stays
  well-formed; one message comes out for each context that matches, or the message itself.
\<close>

theorem conversions_keep_extension_safe:
  assumes "safe_ext self" and "\<forall>c \<in> set cs. context_ok c"
    and "ten_msg_get_dest m \<noteq> []" and "convertible m"
  shows "\<exists>self' effects ms cs'.
    ten_extension_handle_in_msg rt (with_conversions ids uuid cs self) m = Some (self', effects) \<and>
    table_ok (ext_paths self') \<and>
    ten_extension_convert_msg ids cs m err = Some (True, ms, cs', err) \<and>
    length ms = max 1 (length (List.map_filter (conversion_for m) cs))"
proof -
  from perform_safe [of "Receive rt m", OF _ _ with_conversions_safe [OF assms(1,2), of ids uuid]] assms(3) obtain self' effects where
    "ten_extension_handle_in_msg rt (with_conversions ids uuid cs self) m = Some (self', effects)"
    "table_ok (ext_paths self')"
    by (auto simp: safe_def safe_ext_def ext_ok_def paths_ok_def)
  moreover from convert_msg_ok [OF assms(2,4), of ids err] obtain ms cs' where
    "ten_extension_convert_msg ids cs m err = Some (True, ms, cs', err)"
    "map snd ms = (case List.map_filter (conversion_for m) cs of [] \<Rightarrow> [None] | ps \<Rightarrow> map conversion_result ps)"
    by blast
  moreover from this(2) have "length ms = max 1 (length (List.map_filter (conversion_for m) cs))"
    by (auto split: list.splits dest: map_eq_imp_length_eq)
  ultimately show ?thesis by blast
qed

theorem conversions_keep_extension_safe_witness:
  "\<exists>self' effects.
    ten_extension_handle_in_msg (sample_runtime ''u'')
      (with_conversions (\<lambda>_. ''n'') ''m'' [sample_context, sample_context] (sample_extension ''b''))
      (Msg_cmd sample_sent) = Some (self', effects) \<and> table_ok (ext_paths self')"
proof -
  have contexts: "\<forall>c \<in> set [sample_context, sample_context]. context_ok c"
    using sample_rules_facts(3) by simp
  from conversions_keep_extension_safe [OF created_safe [OF sample_extension_facts(1)] contexts
      sample_rules_facts(6,5)]
  show ?thesis by blast
qed

text \<open>
  C7: A conversion is read back as it was written. As a value, if no rule has an invalid mode,
  the original paths have no percent sign, and the fixed values are of a kind that a rule can
  fix: a number, a Boolean or a string. As JSON, if its texts are UTF-8 besides and the fixed
  values are ones that JSON gives: a string, a Boolean, a finite float64, a negative int64 or
  a uint64 of at most 63 bits. A number of another type comes back from JSON with one of these.
\<close>

theorem conversions_roundtrip:
  assumes "pair_storable self" and "ten_error_is_success err"
  shows "(\<exists>v. ten_msg_and_result_conversion_to_value self = Some v \<and>
        ten_msg_and_result_conversion_from_value v err' = Some (Some self, err')) \<and>
    (pair_from_json self \<longrightarrow>
      (\<exists>j. ten_msg_and_result_conversion_to_json self err = (Some j, err) \<and>
        ten_msg_and_result_conversion_from_json j err' = Some (Some self, err')))"
  using pair_through_value [OF assms(1)] pair_through_json [OF _ assms(2)] by blast+

theorem conversions_roundtrip_witness:
  "(\<exists>v. ten_msg_and_result_conversion_to_value sample_pair = Some v \<and>
      ten_msg_and_result_conversion_from_value v ten_error_init = Some (Some sample_pair, ten_error_init)) \<and>
   (\<exists>j. ten_msg_and_result_conversion_to_json sample_pair ten_error_init = (Some j, ten_error_init) \<and>
      ten_msg_and_result_conversion_from_json j ten_error_init = Some (Some sample_pair, ten_error_init))"
proof -
  have "utf8_check_string ''a''" "utf8_check_string ''b''" "utf8_check_string ''c''" by code_simp+
  then have "pair_storable sample_pair" "pair_from_json sample_pair"
    by (simp_all add: pair_storable_def storable_def pair_from_json_def from_json_def sample_pair_def
        sample_rules_def plain_key_def)
  moreover have "ten_error_is_success ten_error_init"
    by (simp add: ten_error_is_success_def ten_error_init_def)
  ultimately show ?thesis using conversions_roundtrip [of sample_pair ten_error_init ten_error_init] by simp
qed

end
