(* ===== verification/State_Machine.thy ===== *)
theory State_Machine
  imports Ten_Prelude
begin

text \<open>
  The table-driven state machine of core/src/ten_utils/lib/sys/general/sm.c: entries say
  which event leads from a state to which other one, and automatic transitions trigger
  further events when a transition was made.

  An operation of the user is a name; what it does is a parameter that may change the machine
  and the argument in any way, also through calls of the functions here. Memory is never
  exhausted. The lock is left out: a call runs alone. Triggering is recursive through the
  automatic transitions, which need not end, so it has fuel.
\<close>

section \<open>Tables\<close>

record ten_sm_state_history =
  story_from :: int
  story_event :: int
  story_reason :: int
  story_to :: int

record 'op ten_sm_state_entry =
  entry_current :: int
  entry_event :: int
  entry_reason :: int
  entry_next :: int
  entry_operation :: "'op option"

record ten_sm_auto_trans =
  from_state :: int
  to_state :: int
  auto_trigger :: int
  trigger_reason :: int

record 'op ten_sm =
  sm_entries :: "'op ten_sm_state_entry list"
  sm_auto_trans :: "ten_sm_auto_trans list"
  current_state :: int
  begin_state :: int
  sm_default_op :: "'op option"
  sm_history :: "ten_sm_state_history list"
  initted :: bool

definition TEN_REASON_ANY :: int where
  "TEN_REASON_ANY = - 1"

text \<open>The production build keeps one transition.\<close>

definition TEN_SM_MAX_HISTORY :: nat where
  "TEN_SM_MAX_HISTORY = 1"

section \<open>Operations\<close>

definition ten_state_machine_create :: "'op ten_sm" where
  "ten_state_machine_create =
     \<lparr>sm_entries = [], sm_auto_trans = [], current_state = 0, begin_state = 0,
      sm_default_op = None, sm_history = [], initted = False\<rparr>"

text \<open>The result of a call is 0 or, after an error, -1.\<close>

definition ten_state_machine_init ::
  "int \<Rightarrow> 'op option \<Rightarrow> 'op ten_sm_state_entry list \<Rightarrow> ten_sm_auto_trans list \<Rightarrow> 'op ten_sm \<Rightarrow>
   int \<times> 'op ten_sm"
where
  "ten_state_machine_init start op entries autos sm =
     (if entries = [] then (- 1, sm)
      else if start \<notin> entry_current ` set entries then (- 1, sm)
      else if sm_entries sm \<noteq> [] \<or> initted sm then (- 1, sm)
      else (0, sm\<lparr>sm_entries := entries, sm_auto_trans := autos, current_state := start,
                  begin_state := start, sm_default_op := op, initted := True\<rparr>))"

definition ten_state_machine_reset_state :: "'op ten_sm \<Rightarrow> int \<times> 'op ten_sm" where
  "ten_state_machine_reset_state sm =
     (if sm_entries sm = [] \<or> \<not> initted sm then (- 1, sm)
      else (0, sm\<lparr>current_state := begin_state sm\<rparr>))"

definition ten_state_machine_current_state :: "'op ten_sm \<Rightarrow> int" where
  "ten_state_machine_current_state sm = current_state sm"

text \<open>The search for the entry, and what it says; without one the state stays.\<close>

definition find_entry :: "'op ten_sm \<Rightarrow> int \<Rightarrow> int \<Rightarrow> int \<Rightarrow> 'op ten_sm_state_entry option" where
  "find_entry sm state event reason =
     List.find (\<lambda>e. entry_current e = state \<and> entry_event e = event \<and>
       (entry_reason e = reason \<or> entry_reason e = TEN_REASON_ANY)) (sm_entries sm)"

definition next_state :: "'op ten_sm \<Rightarrow> int \<Rightarrow> int \<Rightarrow> int \<Rightarrow> int" where
  "next_state sm state event reason =
     (case find_entry sm state event reason of Some e \<Rightarrow> entry_next e | None \<Rightarrow> state)"

definition operation_for :: "'op ten_sm \<Rightarrow> int \<Rightarrow> int \<Rightarrow> 'op option" where
  "operation_for sm event reason =
     (case find_entry sm (current_state sm) event reason of
        Some e \<Rightarrow> entry_operation e | None \<Rightarrow> sm_default_op sm)"

definition remember :: "ten_sm_state_history \<Rightarrow> 'op ten_sm \<Rightarrow> 'op ten_sm" where
  "remember story sm =
     sm\<lparr>sm_history :=
          (if TEN_SM_MAX_HISTORY \<le> length (sm_history sm) then tl (sm_history sm) else sm_history sm) @ [story]\<rparr>"

text \<open>The first half of a trigger: the state changes, then the operation runs.\<close>

definition make_transition ::
  "('op \<Rightarrow> ten_sm_state_history \<Rightarrow> 'op ten_sm \<times> 'arg \<Rightarrow> 'op ten_sm \<times> 'arg) \<Rightarrow> int \<Rightarrow> int \<Rightarrow>
   'op ten_sm \<times> 'arg \<Rightarrow> 'op ten_sm \<times> 'arg"
where
  "make_transition perform event reason s =
     (case s of (sm, arg) \<Rightarrow>
        let story = \<lparr>story_from = current_state sm, story_event = event, story_reason = reason,
                     story_to = next_state sm (current_state sm) event reason\<rparr>;
            sm' = sm\<lparr>current_state := story_to story\<rparr>
        in case operation_for sm event reason of
             None \<Rightarrow> (sm', arg)
           | Some op \<Rightarrow> perform op story (remember story sm', arg))"

text \<open>
  A trigger, and its loop over the automatic transitions that belong to the transition made;
  the results of the triggers in the loop are dropped.
\<close>

fun ten_state_machine_trigger ::
  "nat \<Rightarrow> ('op \<Rightarrow> ten_sm_state_history \<Rightarrow> 'op ten_sm \<times> 'arg \<Rightarrow> 'op ten_sm \<times> 'arg) \<Rightarrow>
   int \<Rightarrow> int \<Rightarrow> 'op ten_sm \<times> 'arg \<Rightarrow> (int \<times> 'op ten_sm \<times> 'arg) option"
  and auto_triggers ::
  "nat \<Rightarrow> ('op \<Rightarrow> ten_sm_state_history \<Rightarrow> 'op ten_sm \<times> 'arg \<Rightarrow> 'op ten_sm \<times> 'arg) \<Rightarrow>
   int \<Rightarrow> int \<Rightarrow> ten_sm_auto_trans list \<Rightarrow> 'op ten_sm \<times> 'arg \<Rightarrow> ('op ten_sm \<times> 'arg) option"
where
  "ten_state_machine_trigger 0 perform event reason s = None"
| "ten_state_machine_trigger (Suc fuel) perform event reason (sm, arg) =
     (if sm_entries sm = [] \<or> \<not> initted sm then Some (- 1, sm, arg)
      else
        let s' = make_transition perform event reason (sm, arg)
        in map_option (\<lambda>(sm'', arg''). (0, sm'', arg''))
             (auto_triggers fuel perform (current_state sm)
               (next_state sm (current_state sm) event reason) (sm_auto_trans (fst s')) s'))"
| "auto_triggers fuel perform origin to [] s = Some s"
| "auto_triggers fuel perform origin to (t # ts) s =
     (if from_state t \<noteq> origin \<or> to_state t \<noteq> to then auto_triggers fuel perform origin to ts s
      else
        case ten_state_machine_trigger fuel perform (auto_trigger t) (trigger_reason t) s of
          None \<Rightarrow> None
        | Some (_, s') \<Rightarrow> auto_triggers fuel perform origin to ts s')"

section \<open>Triggers end\<close>

definition states :: "'op ten_sm \<Rightarrow> int set" where
  "states sm = entry_current ` set (sm_entries sm) \<union> entry_next ` set (sm_entries sm)"

definition sm_ok :: "'op ten_sm \<Rightarrow> bool" where
  "sm_ok sm \<longleftrightarrow> sm_entries sm \<noteq> [] \<and> initted sm \<and> begin_state sm \<in> states sm \<and>
     current_state sm \<in> states sm \<and> length (sm_history sm) \<le> TEN_SM_MAX_HISTORY"

definition same_tables :: "'op ten_sm \<Rightarrow> 'op ten_sm \<Rightarrow> bool" where
  "same_tables sm sm' \<longleftrightarrow> sm_entries sm' = sm_entries sm \<and> sm_auto_trans sm' = sm_auto_trans sm"

definition ops_ok ::
  "('op \<Rightarrow> ten_sm_state_history \<Rightarrow> 'op ten_sm \<times> 'arg \<Rightarrow> 'op ten_sm \<times> 'arg) \<Rightarrow> bool"
where
  "ops_ok perform \<longleftrightarrow>
     (\<forall>op story sm arg. sm_ok sm \<longrightarrow>
        sm_ok (fst (perform op story (sm, arg))) \<and> same_tables sm (fst (perform op story (sm, arg))))"

text \<open>
  The transitions that may follow one automatically: an automatic transition belongs to it,
  and its event is triggered in some state of the table.
\<close>

definition follows :: "'op ten_sm \<Rightarrow> ((int \<times> int) \<times> (int \<times> int)) set" where
  "follows sm =
     (\<lambda>(t, s). ((s, next_state sm s (auto_trigger t) (trigger_reason t)), (from_state t, to_state t))) `
       (set (sm_auto_trans sm) \<times> states sm)"

lemma finite_follows: "finite (follows sm)"
  by (simp add: follows_def states_def)

lemma same_tables_trans: "same_tables a b \<Longrightarrow> same_tables b c \<Longrightarrow> same_tables a c"
  by (simp add: same_tables_def)

lemma same_tables_eqs:
  assumes "same_tables sm sm'"
  shows "states sm' = states sm" "next_state sm' = next_state sm" "follows sm' = follows sm"
  using assms by (simp_all add: same_tables_def states_def next_state_def find_entry_def follows_def fun_eq_iff)

lemma next_state_in: "s \<in> states sm \<Longrightarrow> next_state sm s event reason \<in> states sm"
  by (auto simp: next_state_def find_entry_def states_def find_Some_iff split: option.split)

lemma remember_length:
  "length (sm_history sm) \<le> TEN_SM_MAX_HISTORY \<Longrightarrow> length (sm_history (remember story sm)) \<le> TEN_SM_MAX_HISTORY"
  by (cases "sm_history sm") (auto simp: remember_def TEN_SM_MAX_HISTORY_def)

lemma make_transition_ok:
  assumes "ops_ok perform" "sm_ok sm"
  shows "sm_ok (fst (make_transition perform event reason (sm, arg)))"
    "same_tables sm (fst (make_transition perform event reason (sm, arg)))"
proof -
  let ?to = "next_state sm (current_state sm) event reason"
  let ?s = "sm\<lparr>current_state := ?to\<rparr>"
  have "sm_ok ?s" using assms(2) by (simp add: sm_ok_def states_def [of ?s] next_state_in flip: states_def)
  moreover from this have "sm_ok (remember story ?s)" for story
    using remember_length [of ?s story] by (simp add: sm_ok_def remember_def states_def)
  ultimately show "sm_ok (fst (make_transition perform event reason (sm, arg)))"
    "same_tables sm (fst (make_transition perform event reason (sm, arg)))"
    using assms(1)
    by (auto simp: make_transition_def ops_ok_def Let_def same_tables_def remember_def split: option.split)
qed

text \<open>More fuel changes nothing once there was enough.\<close>

lemma more_fuel:
  "ten_state_machine_trigger n perform event reason s = Some r \<Longrightarrow> n \<le> n' \<Longrightarrow>
   ten_state_machine_trigger n' perform event reason s = Some r"
  "auto_triggers n perform origin to ts s' = Some r' \<Longrightarrow> n \<le> n' \<Longrightarrow>
   auto_triggers n' perform origin to ts s' = Some r'"
proof (induction n perform event reason s and n perform origin to ts s'
    arbitrary: r n' and r' n' rule: ten_state_machine_trigger_auto_triggers.induct)
  case (2 n perform event reason sm arg)
  from 2(3) obtain m where n': "n' = Suc m" "n \<le> m" by (cases n') auto
  show ?case
  proof (cases "sm_entries sm = [] \<or> \<not> initted sm")
    case False
    let ?s = "make_transition perform event reason (sm, arg)"
    let ?loop = "\<lambda>k. auto_triggers k perform (current_state sm)
      (next_state sm (current_state sm) event reason) (sm_auto_trans (fst ?s)) ?s"
    from 2(2) False obtain u where u: "?loop n = Some u" "r = (0, u)" by (auto simp: Let_def split_beta)
    from 2(1) [OF False refl u(1) n'(2)] u(2) False n'(1) show ?thesis by (simp add: Let_def split_beta)
  qed (use 2(2) n' in auto)
next
  case (4 n perform origin to t ts s)
  show ?case
  proof (cases "from_state t \<noteq> origin \<or> to_state t \<noteq> to")
    case True
    with 4(1) [OF True _ 4(5)] 4(4) show ?thesis by simp
  next
    case False
    with 4(4) obtain x s1 where s1: "ten_state_machine_trigger n perform (auto_trigger t) (trigger_reason t) s = Some (x, s1)"
      "auto_triggers n perform origin to ts s1 = Some r'" by (auto split: option.splits)
    from 4(2) [OF False s1(1) 4(5)] 4(3) [OF False s1(1) refl s1(2) 4(5)] False show ?thesis by simp
  qed
qed auto

lemma triggers_end:
  assumes "ops_ok perform" "wf (follows sm0)"
  shows "same_tables sm0 sm \<Longrightarrow> sm_ok sm \<Longrightarrow> (current_state sm, next_state sm (current_state sm) event reason) = x \<Longrightarrow>
    \<exists>n sm' arg'. ten_state_machine_trigger n perform event reason (sm, arg) = Some (0, sm', arg') \<and>
      sm_ok sm' \<and> same_tables sm0 sm'"
  using assms(2)
proof (induction x arbitrary: sm arg event reason rule: wf_induct_rule)
  case (less x)
  let ?from = "current_state sm" and ?to = "next_state sm (current_state sm) event reason"
  have loop: "\<exists>n sm' arg'. auto_triggers n perform ?from ?to ts (sm1, arg1) = Some (sm', arg') \<and>
      sm_ok sm' \<and> same_tables sm0 sm'"
    if "set ts \<subseteq> set (sm_auto_trans sm0)" "sm_ok sm1" "same_tables sm0 sm1" for ts sm1 arg1
    using that
  proof (induction ts arbitrary: sm1 arg1)
    case (Cons t ts)
    show ?case
    proof (cases "from_state t \<noteq> ?from \<or> to_state t \<noteq> ?to")
      case True
      with Cons show ?thesis by auto
    next
      case False
      let ?y = "(current_state sm1, next_state sm1 (current_state sm1) (auto_trigger t) (trigger_reason t))"
      have "current_state sm1 \<in> states sm0"
        using Cons.prems(2,3) same_tables_eqs(1) by (metis sm_ok_def)
      then have "(?y, x) \<in> follows sm0"
        using Cons.prems(1) False less.prems(3) same_tables_eqs(2) [OF Cons.prems(3)]
        by (auto simp: follows_def image_iff intro!: bexI [of _ t] bexI [of _ "current_state sm1"])
      from less.IH [OF this Cons.prems(3,2) refl] obtain n sm2 arg2 where first:
        "ten_state_machine_trigger n perform (auto_trigger t) (trigger_reason t) (sm1, arg1) = Some (0, sm2, arg2)"
        "sm_ok sm2" "same_tables sm0 sm2" by blast
      from Cons.IH [OF _ first(2,3), of arg2] Cons.prems(1) obtain n' sm3 arg3 where rest:
        "auto_triggers n' perform ?from ?to ts (sm2, arg2) = Some (sm3, arg3)"
        "sm_ok sm3" "same_tables sm0 sm3" by auto
      have "auto_triggers (max n n') perform ?from ?to (t # ts) (sm1, arg1) = Some (sm3, arg3)"
        using False more_fuel(1) [OF first(1), of "max n n'"] more_fuel(2) [OF rest(1), of "max n n'"] by simp
      with rest(2,3) show ?thesis by blast
    qed
  qed auto
  let ?s = "make_transition perform event reason (sm, arg)"
  note step = make_transition_ok [OF assms(1) less.prems(2), of event reason arg]
  have tables: "same_tables sm0 (fst ?s)" using same_tables_trans less.prems(1) step(2) by blast
  then have "set (sm_auto_trans (fst ?s)) \<subseteq> set (sm_auto_trans sm0)" by (simp add: same_tables_def)
  from loop [OF this step(1) tables, of "snd ?s"] obtain n sm' arg' where
    "auto_triggers n perform ?from ?to (sm_auto_trans (fst ?s)) ?s = Some (sm', arg')"
    "sm_ok sm'" "same_tables sm0 sm'" by auto
  moreover from this(1) less.prems(2) have
    "ten_state_machine_trigger (Suc n) perform event reason (sm, arg) = Some (0, sm', arg')"
    by (simp add: sm_ok_def)
  ultimately show ?case by blast
qed

section \<open>Triggers that never end\<close>

text \<open>
  A set of transitions each of which is followed at once, by its first automatic transition,
  by one of the set.
\<close>

definition trap :: "'op ten_sm \<Rightarrow> (int \<times> int) set \<Rightarrow> bool" where
  "trap sm L \<longleftrightarrow>
     (\<forall>(a, b) \<in> L. \<exists>t. List.find (\<lambda>t. from_state t = a \<and> to_state t = b) (sm_auto_trans sm) = Some t \<and>
        (b, next_state sm b (auto_trigger t) (trigger_reason t)) \<in> L)"

definition ops_leave_machine ::
  "('op \<Rightarrow> ten_sm_state_history \<Rightarrow> 'op ten_sm \<times> 'arg \<Rightarrow> 'op ten_sm \<times> 'arg) \<Rightarrow> bool"
where
  "ops_leave_machine perform \<longleftrightarrow> (\<forall>op story s. fst (perform op story s) = fst s)"

lemma make_transition_left:
  fixes sm arg event reason
  assumes "ops_leave_machine perform"
  defines "sm1 \<equiv> fst (make_transition perform event reason (sm, arg))"
  shows "current_state sm1 = next_state sm (current_state sm) event reason" "same_tables sm sm1"
    "sm_entries sm1 = sm_entries sm" "initted sm1 = initted sm"
  using assms by (simp_all add: make_transition_def ops_leave_machine_def Let_def remember_def same_tables_def
      split: option.split)

lemma first_auto_trigger:
  assumes "List.find (\<lambda>t. from_state t = a \<and> to_state t = b) ts = Some t"
    and "ten_state_machine_trigger n perform (auto_trigger t) (trigger_reason t) s = None"
  shows "auto_triggers n perform a b ts s = None"
  using assms by (induction ts) (auto split: if_splits)

lemma same_tables_trap:
  assumes "same_tables sm sm'"
  shows "trap sm' = trap sm"
  using assms unfolding trap_def [abs_def] same_tables_eqs(2) [OF assms] by (simp add: same_tables_def)

lemma trap_never_ends:
  assumes "ops_leave_machine perform"
  shows "trap sm L \<Longrightarrow> (current_state sm, next_state sm (current_state sm) event reason) \<in> L \<Longrightarrow>
    sm_entries sm \<noteq> [] \<and> initted sm \<Longrightarrow> ten_state_machine_trigger n perform event reason (sm, arg) = None"
proof (induction n arbitrary: sm arg event reason)
  case (Suc n)
  let ?from = "current_state sm" and ?to = "next_state sm (current_state sm) event reason"
  obtain sm1 arg1 where s1: "make_transition perform event reason (sm, arg) = (sm1, arg1)" by force
  with make_transition_left [OF assms, where event = event and reason = reason and sm = sm and arg = arg] Suc.prems(3)
  have sm1: "current_state sm1 = ?to" "same_tables sm sm1" "sm_entries sm1 \<noteq> [] \<and> initted sm1"
    by simp_all
  from bspec [OF Suc.prems(1) [unfolded trap_def] Suc.prems(2)] obtain t where
    t: "List.find (\<lambda>t. from_state t = ?from \<and> to_state t = ?to) (sm_auto_trans sm) = Some t"
    "(?to, next_state sm ?to (auto_trigger t) (trigger_reason t)) \<in> L"
    by auto
  have "ten_state_machine_trigger n perform (auto_trigger t) (trigger_reason t) (sm1, arg1) = None"
    using Suc.IH [OF _ _ sm1(3)] Suc.prems(1) t(2) sm1(1) same_tables_trap [OF sm1(2)] same_tables_eqs(2) [OF sm1(2)]
    by simp
  from first_auto_trigger [OF t(1) this] Suc.prems(3) s1 sm1(2) show ?case
    by (simp add: Let_def same_tables_def)
qed simp

section \<open>Properties\<close>

definition sample_sm :: "nat ten_sm" where
  "sample_sm = snd (ten_state_machine_init 0 None
     [\<lparr>entry_current = 0, entry_event = 0, entry_reason = - 1, entry_next = 1, entry_operation = Some 1\<rparr>,
      \<lparr>entry_current = 1, entry_event = 1, entry_reason = - 1, entry_next = 2, entry_operation = Some 2\<rparr>]
     [\<lparr>from_state = 0, to_state = 1, auto_trigger = 1, trigger_reason = 0\<rparr>]
     ten_state_machine_create)"

definition stuck_sm :: "nat ten_sm" where
  "stuck_sm = snd (ten_state_machine_init 0 None
     [\<lparr>entry_current = 0, entry_event = 0, entry_reason = - 1, entry_next = 0, entry_operation = None\<rparr>]
     [\<lparr>from_state = 0, to_state = 0, auto_trigger = 0, trigger_reason = 0\<rparr>]
     ten_state_machine_create)"

definition count_call :: "'op \<Rightarrow> ten_sm_state_history \<Rightarrow> 'op ten_sm \<times> nat \<Rightarrow> 'op ten_sm \<times> nat" where
  "count_call op story s = (fst s, Suc (snd s))"

lemma sample_sm_run:
  "\<exists>sm1. ten_state_machine_trigger (Suc (Suc (Suc 0))) count_call 0 0 (sample_sm, 0) = Some (0, sm1, 2) \<and>
     current_state sm1 = 2"
  by (simp add: sample_sm_def ten_state_machine_init_def ten_state_machine_create_def make_transition_def
      operation_for_def next_state_def find_entry_def TEN_REASON_ANY_def remember_def TEN_SM_MAX_HISTORY_def
      count_call_def Let_def)

text \<open>
  C13: A trigger returns when no transition follows itself automatically, through however many
  others: there is a bound on the depth of the calls from which on it succeeds, with a state
  of the table and no more history than allowed. The operations of the user may change the
  state, also by calls to the machine, as long as they keep this.
\<close>

theorem trigger_terminates:
  assumes "ops_ok perform" and "sm_ok sm" and "acyclic (follows sm)"
  shows "\<exists>n sm' arg'. sm_ok sm' \<and> same_tables sm sm' \<and>
    (\<forall>n'\<ge>n. ten_state_machine_trigger n' perform event reason (sm, arg) = Some (0, sm', arg'))"
proof -
  have "wf (follows sm)" using finite_acyclic_wf [OF finite_follows assms(3)] .
  moreover have "same_tables sm sm" by (simp add: same_tables_def)
  ultimately obtain n sm' arg' where
    "ten_state_machine_trigger n perform event reason (sm, arg) = Some (0, sm', arg')"
    "sm_ok sm'" "same_tables sm sm'"
    using triggers_end [OF assms(1) _ _ assms(2) refl] by blast
  then show ?thesis using more_fuel(1) by blast
qed

theorem trigger_terminates_witness:
  "\<exists>n sm'. ten_state_machine_trigger n count_call 0 0 (sample_sm, 0) = Some (0, sm', 2) \<and> current_state sm' = 2"
proof -
  have sm: "states sample_sm = {0, 1, 2}" "sm_ok sample_sm"
    by (auto simp: sample_sm_def ten_state_machine_init_def ten_state_machine_create_def states_def sm_ok_def)
  have ops: "ops_ok (count_call :: nat \<Rightarrow> _)" by (simp add: ops_ok_def count_call_def same_tables_def)
  have "follows sample_sm = {((0, 0), (0, 1)), ((1, 2), (0, 1)), ((2, 2), (0, 1))}"
    unfolding follows_def sm(1)
    by (simp add: sample_sm_def ten_state_machine_init_def ten_state_machine_create_def next_state_def
        find_entry_def TEN_REASON_ANY_def)
  then have "follows sample_sm \<subseteq> measure (\<lambda>x. if x = (0, 1) then 1 else 0)" by simp
  then have "acyclic (follows sample_sm)" by (intro wf_acyclic wf_subset [OF wf_measure])
  from trigger_terminates [OF ops sm(2) this, of 0 0 0] obtain n sm' arg' where
    "\<forall>n'\<ge>n. ten_state_machine_trigger n' count_call 0 0 (sample_sm, 0) = Some (0, sm', arg')"
    by (elim exE conjE)
  then have run: "ten_state_machine_trigger (max n (Suc (Suc (Suc 0)))) count_call 0 0 (sample_sm, 0) = Some (0, sm', arg')"
    using max.cobounded1 by blast
  obtain sm1 where sm1: "ten_state_machine_trigger (Suc (Suc (Suc 0))) count_call 0 0 (sample_sm, 0) = Some (0, sm1, 2)"
    "current_state sm1 = 2" using sample_sm_run by blast
  have "Some (0::int, sm', arg') = Some (0, sm1, 2)"
    by (rule trans [OF run [symmetric] more_fuel(1) [OF sm1(1) max.cobounded2, of n]])
  with run sm1(2) show ?thesis by blast
qed

text \<open>
  C14: A trigger whose transition lies in a set of transitions that each have, as their first
  automatic transition, one that leads back into the set, never returns: no depth of calls is
  enough. Nothing in the set-up of a machine excludes such tables.
\<close>

theorem trigger_never_returns:
  assumes "ops_leave_machine perform"
    and "sm_entries sm \<noteq> []" and "initted sm" and "trap sm L"
    and "(current_state sm, next_state sm (current_state sm) event reason) \<in> L"
  shows "ten_state_machine_trigger n perform event reason (sm, arg) = None"
  using trap_never_ends [OF assms(1)] assms(2-5) by blast

theorem trigger_never_returns_witness:
  "\<forall>n. ten_state_machine_trigger n count_call 0 0 (stuck_sm, 0) = None"
proof
  fix n
  have "ops_leave_machine (count_call :: nat \<Rightarrow> _)" by (simp add: ops_leave_machine_def count_call_def)
  moreover have "sm_entries stuck_sm \<noteq> []" "initted stuck_sm" "trap stuck_sm {(0, 0)}"
    "(current_state stuck_sm, next_state stuck_sm (current_state stuck_sm) 0 0) \<in> {(0, 0)}"
    by (simp_all add: stuck_sm_def ten_state_machine_init_def ten_state_machine_create_def trap_def
        next_state_def find_entry_def TEN_REASON_ANY_def)
  ultimately show "ten_state_machine_trigger n count_call 0 0 (stuck_sm, 0) = None"
    by (rule trigger_never_returns)
qed

end
