(* ===== verification/Ten_Routing.thy ===== *)
theory Ten_Routing
  imports Ten_Conversion
begin

text \<open>
  How messages travel inside an application: the threads of the extension groups
  (core/src/ten_runtime/extension_thread/msg_interface/common.c), the engines that run the
  graphs (engine/msg_interface/common.c and engine/internal/extension_interface.c), and the
  application (app/msg_interface/common.c and app/engine_interface.c), which hand messages to
  each other through queues.

  A queue is a list, and each function here is a task of a run loop, which works on a state
  on its own. A thread that is given a message for one of its own extensions handles it
  before anything else; here it goes to the front of a list that the thread empties first.
  Messages for other applications, commands that an engine or the application handles itself,
  and what extensions do to their users are effects.

  Two functions call themselves with an error result for a message that cannot be delivered,
  and nothing in them makes that end. The body of each is a function of the call it makes; with
  it the function has fuel. The outer \<open>None\<close> is also the use of NULL or of a message of the wrong
  kind.
\<close>

section \<open>The application\<close>

datatype TEN_EXTENSION_THREAD_STATE =
    TEN_EXTENSION_THREAD_STATE_INIT
  | TEN_EXTENSION_THREAD_STATE_CREATING_EXTENSIONS
  | TEN_EXTENSION_THREAD_STATE_NORMAL
  | TEN_EXTENSION_THREAD_STATE_PREPARE_TO_CLOSE
  | TEN_EXTENSION_THREAD_STATE_CLOSED

text \<open>
  The queue of a thread holds the tasks that bring a message; of the others only their number
  matters here.
\<close>

record ten_extension_thread =
  extension_group :: string
  thread_state :: TEN_EXTENSION_THREAD_STATE
  extension_store :: "(string \<times> ten_extension) list"
  thread_pending_msgs :: "ten_shared_msg list"
  thread_now :: "ten_shared_msg list"
  thread_tasks :: "ten_shared_msg list"
  thread_other_tasks :: nat

text \<open>
  The groups of an engine are those of its extension context, which is NULL until the engine has
  enabled its extension system.
\<close>

record ten_engine_node =
  node_graph_id :: string
  is_closing :: bool
  is_ready_to_handle_msg :: bool
  has_extension_context :: bool
  remotes :: "string list"
  extension_groups :: "ten_extension_thread list"
  extension_msgs :: "ten_shared_msg list"
  in_msgs :: "ten_shared_msg list"

record ten_app =
  ten_app_uri :: string
  app_graph_infos :: "ten_predefined_graph_info list"
  engines :: "ten_engine_node list"
  app_in_msgs :: "ten_shared_msg list"

datatype ten_app_effect =
    Send_to_remote string ten_shared_msg
  | Engine_handles string ten_shared_msg
  | App_handles ten_shared_msg
  | Extension_effect ten_effect

definition EXTENSION_THREAD_QUEUE_SIZE :: nat where
  "EXTENSION_THREAD_QUEUE_SIZE = 12800"

definition engine_of :: "ten_app \<Rightarrow> ten_engine_node \<Rightarrow> ten_engine" where
  "engine_of app e =
     \<lparr>engine_app_uri = ten_app_uri app, engine_graph_id = node_graph_id e,
      predefined_graph_infos = app_graph_infos app\<rparr>"

definition is_cmd_and_result :: "ten_shared_msg \<Rightarrow> bool" where
  "is_cmd_and_result m \<longleftrightarrow> ten_raw_msg_is_cmd_and_result (ten_msg_get_type m)"

definition ten_msg_type_to_handle_when_closing :: "ten_shared_msg \<Rightarrow> bool" where
  "ten_msg_type_to_handle_when_closing m \<longleftrightarrow> ten_msg_get_type m = TEN_MSG_TYPE_CMD_RESULT"

text \<open>An error result for a message; one for data would read fields that data does not have.\<close>

fun error_result_for :: "string \<Rightarrow> ten_shared_msg \<Rightarrow> ten_shared_msg option" where
  "error_result_for detail (Msg_cmd c) =
     Some (Msg_result (set_detail detail (ten_cmd_result_create_from_cmd TEN_STATUS_CODE_ERROR (Some c))))"
| "error_result_for detail (Msg_result r) =
     Some (Msg_result (set_detail detail (ten_cmd_result_create_from_cmd TEN_STATUS_CODE_ERROR (Some r))))"
| "error_result_for detail (Msg_data d) = None"

definition ten_extension_group_create_invalid_dest_status ::
  "ten_shared_msg \<Rightarrow> string \<Rightarrow> ten_shared_msg option"
where
  "ten_extension_group_create_invalid_dest_status m grp =
     error_result_for (''The extension group['' @ grp @ ''] is invalid.'') m"

text \<open>A character compares as a signed number; what is beyond the digits is not looked at closely.\<close>

definition ten_string_is_uuid4 :: "string \<Rightarrow> bool" where
  "ten_string_is_uuid4 s \<longleftrightarrow>
     length s = 36 \<and>
     list_all (\<lambda>i. if i = 8 \<or> i = 13 \<or> i = 18 \<or> i = 23 then s ! i = CHR ''-''
               else 48 \<le> (of_char (s ! i) :: nat) \<and> (of_char (s ! i) :: nat) \<le> 102) [0..<36]"

section \<open>The thread of an extension group\<close>

datatype ten_thread_post =
    Post_to_engine ten_shared_msg
  | Post_to_app ten_shared_msg
  | Handle_now ten_shared_msg

definition ten_extension_thread_dispatch_msg ::
  "ten_engine \<Rightarrow> ten_extension_thread \<Rightarrow> ten_shared_msg \<Rightarrow> ten_thread_post option"
where
  "ten_extension_thread_dispatch_msg e self m =
     (case ten_msg_get_dest m of
        [] \<Rightarrow> None
      | l # _ \<Rightarrow>
          Some
            (if app_uri l \<noteq> engine_app_uri e then Post_to_engine m
             else if graph_id l = [] \<or> graph_id l \<noteq> engine_graph_id e then Post_to_app m
             else if extension_group_name l = [] then Post_to_engine m
             else if extension_group_name l \<noteq> extension_group self then Post_to_engine m
             else Handle_now m))"

text \<open>What an extension hands to its thread, in order.\<close>

fun dispatch_effects ::
  "ten_engine \<Rightarrow> ten_extension_thread \<Rightarrow> ten_effect list \<Rightarrow> ten_thread_post list option"
where
  "dispatch_effects e self [] = Some []"
| "dispatch_effects e self (Dispatch m # effects) =
     (case ten_extension_thread_dispatch_msg e self m of
        None \<Rightarrow> None
      | Some p \<Rightarrow> map_option ((#) p) (dispatch_effects e self effects))"
| "dispatch_effects e self (_ # effects) = dispatch_effects e self effects"

definition ten_extension_thread_handle_in_msg_sync ::
  "ten_runtime \<Rightarrow> ten_extension_thread \<Rightarrow> ten_shared_msg \<Rightarrow>
   (ten_extension_thread \<times> ten_thread_post list \<times> ten_effect list) option"
where
  "ten_extension_thread_handle_in_msg_sync rt self m =
     (case ten_msg_get_dest m of
        [] \<Rightarrow> None
      | l # _ \<Rightarrow>
          (case alist_peek (extension_name l) (extension_store self) of
             None \<Rightarrow>
               if ten_msg_get_type m = TEN_MSG_TYPE_CMD then
                 (case error_result_for (''The extension['' @ extension_name l @ ''] is invalid.'') m of
                    None \<Rightarrow> None
                  | Some status \<Rightarrow>
                      map_option (\<lambda>p. (self, [p], []))
                        (ten_extension_thread_dispatch_msg (engine rt) self status))
               else Some (self, [], [])
           | Some ext \<Rightarrow>
               (case ten_extension_handle_in_msg rt ext m of
                  None \<Rightarrow> None
                | Some (ext', effects) \<Rightarrow>
                    map_option
                      (\<lambda>posts. (self\<lparr>extension_store := alist_put (extension_name l) ext' (extension_store self)\<rparr>,
                                posts, effects))
                      (dispatch_effects (engine rt) self effects))))"

definition ten_extension_thread_handle_in_msg_task ::
  "ten_runtime \<Rightarrow> ten_extension_thread \<Rightarrow> ten_shared_msg \<Rightarrow>
   (ten_extension_thread \<times> ten_thread_post list \<times> ten_effect list) option"
where
  "ten_extension_thread_handle_in_msg_task rt self m =
     (case thread_state self of
        TEN_EXTENSION_THREAD_STATE_INIT \<Rightarrow>
          Some (self\<lparr>thread_pending_msgs := thread_pending_msgs self @ [m]\<rparr>, [], [])
      | TEN_EXTENSION_THREAD_STATE_CREATING_EXTENSIONS \<Rightarrow>
          Some (self\<lparr>thread_pending_msgs := thread_pending_msgs self @ [m]\<rparr>, [], [])
      | TEN_EXTENSION_THREAD_STATE_NORMAL \<Rightarrow> ten_extension_thread_handle_in_msg_sync rt self m
      | TEN_EXTENSION_THREAD_STATE_PREPARE_TO_CLOSE \<Rightarrow> ten_extension_thread_handle_in_msg_sync rt self m
      | TEN_EXTENSION_THREAD_STATE_CLOSED \<Rightarrow> Some (self, [], []))"

text \<open>Data and frames are discarded when the queue is full.\<close>

definition ten_extension_thread_handle_in_msg_async ::
  "ten_shared_msg \<Rightarrow> ten_extension_thread \<Rightarrow> ten_extension_thread"
where
  "ten_extension_thread_handle_in_msg_async m self =
     (if EXTENSION_THREAD_QUEUE_SIZE \<le> length (thread_tasks self) + thread_other_tasks self \<and>
         \<not> is_cmd_and_result m
      then self else self\<lparr>thread_tasks := thread_tasks self @ [m]\<rparr>)"

section \<open>The engine\<close>

text \<open>What an engine does outside itself.\<close>

datatype ten_engine_post =
    Engine_to_app ten_shared_msg
  | Engine_effect ten_app_effect

definition ten_engine_route_msg_to_remote ::
  "ten_engine_node \<Rightarrow> ten_shared_msg \<Rightarrow> ten_engine_post list"
where
  "ten_engine_route_msg_to_remote self m =
     (case ten_msg_get_dest m of
        l # _ \<Rightarrow> if app_uri l \<in> set (remotes self) then [Engine_effect (Send_to_remote (app_uri l) m)] else []
      | [] \<Rightarrow> [])"

fun ten_cmd_base_gen_cmd_id_if_empty :: "string \<Rightarrow> ten_shared_msg \<Rightarrow> ten_shared_msg" where
  "ten_cmd_base_gen_cmd_id_if_empty uuid (Msg_cmd c) = Msg_cmd (if cmd_id c = [] then c\<lparr>cmd_id := uuid\<rparr> else c)"
| "ten_cmd_base_gen_cmd_id_if_empty uuid (Msg_result r) =
     Msg_result (if cmd_id r = [] then r\<lparr>cmd_id := uuid\<rparr> else r)"
| "ten_cmd_base_gen_cmd_id_if_empty uuid (Msg_data d) = Msg_data d"

text \<open>The kinds of messages with a handler in the engine, which is an effect here.\<close>

definition engine_handler :: "TEN_MSG_TYPE \<Rightarrow> bool" where
  "engine_handler ty \<longleftrightarrow>
     ty \<in> {TEN_MSG_TYPE_CMD_STOP_GRAPH, TEN_MSG_TYPE_CMD_START_GRAPH, TEN_MSG_TYPE_CMD_RESULT,
           TEN_MSG_TYPE_CMD_CLOSE_APP, TEN_MSG_TYPE_CMD_TIMER}"

definition ten_engine_handle_msg ::
  "string \<Rightarrow> ten_engine_node \<Rightarrow> ten_shared_msg \<Rightarrow> ten_engine_post list"
where
  "ten_engine_handle_msg uuid self m =
     (if is_closing self \<and> \<not> ten_msg_type_to_handle_when_closing m then []
      else if engine_handler (ten_msg_get_type m)
      then [Engine_effect (Engine_handles (node_graph_id self) (ten_cmd_base_gen_cmd_id_if_empty uuid m))]
      else [])"

text \<open>The message goes to the thread of the first group of that name.\<close>

fun give_to_group ::
  "string \<Rightarrow> ten_shared_msg \<Rightarrow> ten_extension_thread list \<Rightarrow> ten_extension_thread list option"
where
  "give_to_group grp m [] = None"
| "give_to_group grp m (t # ts) =
     (if extension_group t = grp then Some (ten_extension_thread_handle_in_msg_async m t # ts)
      else map_option ((#) t) (give_to_group grp m ts))"

text \<open>The body; \<open>again\<close> is the call of the function itself. A group is looked for in the extension context.\<close>

definition ten_engine_dispatch_msg_body ::
  "(ten_engine_node \<Rightarrow> ten_shared_msg \<Rightarrow> (ten_engine_node \<times> ten_engine_post list) option) \<Rightarrow>
   string \<Rightarrow> string \<Rightarrow> ten_engine_node \<Rightarrow> ten_shared_msg \<Rightarrow> (ten_engine_node \<times> ten_engine_post list) option"
where
  [simp]: "ten_engine_dispatch_msg_body again uuid uri self m =
     (if is_closing self then Some (self, [])
      else
        case ten_msg_get_dest m of
          [] \<Rightarrow> None
        | l # _ \<Rightarrow>
            if app_uri l \<noteq> uri then Some (self, ten_engine_route_msg_to_remote self m)
            else if graph_id l = [] \<or> graph_id l \<noteq> node_graph_id self then Some (self, [Engine_to_app m])
            else if extension_group_name l = [] then Some (self, ten_engine_handle_msg uuid self m)
            else if \<not> has_extension_context self then None
            else
              case give_to_group (extension_group_name l) m (extension_groups self) of
                Some ts \<Rightarrow> Some (self\<lparr>extension_groups := ts\<rparr>, [])
              | None \<Rightarrow>
                  (case ten_extension_group_create_invalid_dest_status m (extension_group_name l) of
                     None \<Rightarrow> None
                   | Some status \<Rightarrow> again self status))"

fun ten_engine_dispatch_msg ::
  "nat \<Rightarrow> string \<Rightarrow> string \<Rightarrow> ten_engine_node \<Rightarrow> ten_shared_msg \<Rightarrow>
   (ten_engine_node \<times> ten_engine_post list) option"
where
  "ten_engine_dispatch_msg 0 uuid uri self m = None"
| "ten_engine_dispatch_msg (Suc fuel) uuid uri self m =
     ten_engine_dispatch_msg_body (ten_engine_dispatch_msg fuel uuid uri) uuid uri self m"

text \<open>The loop over the messages that the threads gave to the engine.\<close>

fun extension_msgs_loop ::
  "nat \<Rightarrow> (nat \<Rightarrow> string) \<Rightarrow> nat \<Rightarrow> string \<Rightarrow> ten_engine_node \<Rightarrow> ten_shared_msg list \<Rightarrow>
   (ten_engine_node \<times> ten_engine_post list) option"
where
  "extension_msgs_loop fuel ids i uri self [] = Some (self, [])"
| "extension_msgs_loop fuel ids i uri self (m # ms) =
     (case (if is_closing self \<and> \<not> ten_msg_type_to_handle_when_closing m then Some (self, [])
            else
              case ten_msg_get_dest m of
                [] \<Rightarrow> None
              | l # _ \<Rightarrow>
                  if app_uri l \<noteq> uri then Some (self, ten_engine_route_msg_to_remote self m)
                  else ten_engine_dispatch_msg fuel (ids i) uri self m) of
        None \<Rightarrow> None
      | Some (self', posts) \<Rightarrow>
          map_option (\<lambda>(self'', posts'). (self'', posts @ posts'))
            (extension_msgs_loop fuel ids (Suc i) uri self' ms))"

definition ten_engine_on_extension_msgs ::
  "nat \<Rightarrow> (nat \<Rightarrow> string) \<Rightarrow> string \<Rightarrow> ten_engine_node \<Rightarrow> (ten_engine_node \<times> ten_engine_post list) option"
where
  "ten_engine_on_extension_msgs fuel ids uri self =
     extension_msgs_loop fuel ids 0 uri (self\<lparr>extension_msgs := []\<rparr>) (extension_msgs self)"

text \<open>
  The loop over the messages that the application gave to the engine. Before the engine is
  ready, only what starts it is handled, and the other messages are put back. Connections to
  clients are left out: the messages come from inside the application.
\<close>

fun in_msgs_loop ::
  "nat \<Rightarrow> (nat \<Rightarrow> string) \<Rightarrow> nat \<Rightarrow> string \<Rightarrow> ten_engine_node \<Rightarrow> ten_shared_msg list \<Rightarrow>
   (ten_engine_node \<times> ten_engine_post list \<times> ten_shared_msg list) option"
where
  "in_msgs_loop fuel ids i uri self [] = Some (self, [], [])"
| "in_msgs_loop fuel ids i uri self (m # ms) =
     (if is_ready_to_handle_msg self \<or>
         ten_msg_get_type m \<in> {TEN_MSG_TYPE_CMD_START_GRAPH, TEN_MSG_TYPE_CMD_RESULT} then
        (case ten_engine_dispatch_msg fuel (ids i) uri self m of
           None \<Rightarrow> None
         | Some (self', posts) \<Rightarrow>
             map_option (\<lambda>(self'', posts', put_back). (self'', posts @ posts', put_back))
               (in_msgs_loop fuel ids (Suc i) uri self' ms))
      else
        map_option (\<lambda>(self', posts, put_back). (self', posts, m # put_back))
          (in_msgs_loop fuel ids (Suc i) uri self ms))"

definition ten_engine_prepend_to_in_msgs_queue ::
  "ten_shared_msg list \<Rightarrow> ten_engine_node \<Rightarrow> ten_engine_node"
where
  "ten_engine_prepend_to_in_msgs_queue msgs self = self\<lparr>in_msgs := msgs @ in_msgs self\<rparr>"

definition ten_engine_handle_in_msgs_sync ::
  "nat \<Rightarrow> (nat \<Rightarrow> string) \<Rightarrow> string \<Rightarrow> ten_engine_node \<Rightarrow> (ten_engine_node \<times> ten_engine_post list) option"
where
  "ten_engine_handle_in_msgs_sync fuel ids uri self =
     map_option (\<lambda>(self', posts, put_back). (ten_engine_prepend_to_in_msgs_queue put_back self', posts))
       (in_msgs_loop fuel ids 0 uri (self\<lparr>in_msgs := []\<rparr>) (in_msgs self))"

definition ten_engine_append_to_in_msgs_queue :: "ten_shared_msg \<Rightarrow> ten_engine_node \<Rightarrow> ten_engine_node" where
  "ten_engine_append_to_in_msgs_queue m self = self\<lparr>in_msgs := in_msgs self @ [m]\<rparr>"

definition ten_engine_push_to_extension_msgs_queue ::
  "ten_shared_msg \<Rightarrow> ten_engine_node \<Rightarrow> ten_engine_node"
where
  "ten_engine_push_to_extension_msgs_queue m self = self\<lparr>extension_msgs := extension_msgs self @ [m]\<rparr>"

section \<open>The application as a router\<close>

definition ten_app_push_to_in_msgs_queue :: "ten_shared_msg \<Rightarrow> ten_app \<Rightarrow> ten_app" where
  "ten_app_push_to_in_msgs_queue m app = app\<lparr>app_in_msgs := app_in_msgs app @ [m]\<rparr>"

definition ten_app_get_engine_by_graph_id :: "ten_app \<Rightarrow> string \<Rightarrow> ten_engine_node option" where
  "ten_app_get_engine_by_graph_id app g = List.find (\<lambda>e. node_graph_id e = g) (engines app)"

definition ten_app_get_singleton_predefined_graph_engine_by_name ::
  "ten_app \<Rightarrow> string \<Rightarrow> ten_engine_node option"
where
  "ten_app_get_singleton_predefined_graph_engine_by_name app name =
     (case ten_predefined_graph_infos_get_singleton_by_name (app_graph_infos app) name of
        None \<Rightarrow> None
      | Some info \<Rightarrow> Option.bind (graph_engine_id info) (ten_app_get_engine_by_graph_id app))"

definition ten_app_get_engine_based_on_dest_graph_id_from_msg ::
  "ten_app \<Rightarrow> string \<Rightarrow> ten_engine_node option"
where
  "ten_app_get_engine_based_on_dest_graph_id_from_msg app g =
     (if g = [] then None
      else if ten_string_is_uuid4 g then ten_app_get_engine_by_graph_id app g
      else ten_app_get_singleton_predefined_graph_engine_by_name app g)"

fun update_first :: "('a \<Rightarrow> bool) \<Rightarrow> ('a \<Rightarrow> 'a) \<Rightarrow> 'a list \<Rightarrow> 'a list" where
  "update_first P f [] = []"
| "update_first P f (x # xs) = (if P x then f x # xs else x # update_first P f xs)"

text \<open>An engine is the first with its graph id.\<close>

definition update_engine :: "string \<Rightarrow> (ten_engine_node \<Rightarrow> ten_engine_node) \<Rightarrow> ten_app \<Rightarrow> ten_app" where
  "update_engine g f app = app\<lparr>engines := update_first (\<lambda>e. node_graph_id e = g) f (engines app)\<rparr>"

text \<open>
  Starting a predefined graph adds an engine that holds the command to start; that engine is a
  parameter, and \<open>None\<close> if the graph could not be started.
\<close>

definition ten_app_start_predefined_graph ::
  "(ten_predefined_graph_info \<Rightarrow> ten_engine_node option) \<Rightarrow> ten_predefined_graph_info \<Rightarrow> ten_app \<Rightarrow>
   (ten_engine_node \<times> ten_app) option"
where
  "ten_app_start_predefined_graph start info app =
     map_option
       (\<lambda>e. (e, app\<lparr>engines := engines app @ [e],
                    app_graph_infos :=
                      update_first (\<lambda>i. graph_name i = graph_name info)
                        (\<lambda>i. i\<lparr>graph_engine_id := Some (node_graph_id e)\<rparr>) (app_graph_infos app)\<rparr>))
       (start info)"

text \<open>The engine for a message, started if its graph is a predefined one; the first component is the outcome.\<close>

definition engine_for_msg ::
  "(ten_predefined_graph_info \<Rightarrow> ten_engine_node option) \<Rightarrow> ten_app \<Rightarrow> string \<Rightarrow>
   bool \<times> ten_engine_node option \<times> ten_app"
where
  "engine_for_msg start app g =
     (case ten_app_get_engine_based_on_dest_graph_id_from_msg app g of
        Some e \<Rightarrow> (True, Some e, app)
      | None \<Rightarrow>
          (case ten_predefined_graph_infos_get_singleton_by_name (app_graph_infos app) g of
             None \<Rightarrow> (True, None, app)
           | Some info \<Rightarrow>
               (case ten_app_start_predefined_graph start info app of
                  None \<Rightarrow> (False, None, app)
                | Some (e, app') \<Rightarrow> (True, Some e, app'))))"

definition ten_app_handle_msg_default_handler_body ::
  "(ten_app \<Rightarrow> ten_shared_msg \<Rightarrow> (bool \<times> ten_app) option) \<Rightarrow>
   (ten_predefined_graph_info \<Rightarrow> ten_engine_node option) \<Rightarrow> ten_app \<Rightarrow> ten_shared_msg \<Rightarrow> (bool \<times> ten_app) option"
where
  [simp]: "ten_app_handle_msg_default_handler_body again start app m =
     (case ten_msg_get_dest m of
        [] \<Rightarrow> None
      | l # _ \<Rightarrow>
          if graph_id l = [] then Some (True, app)
          else
            case engine_for_msg start app (graph_id l) of
              (False, _, app') \<Rightarrow> Some (False, app')
            | (True, Some e, app') \<Rightarrow>
                let m' = set_dest (ten_msg_set_dest_engine_if_unspecified_or_predefined_graph_name
                                     (engine_of app' e) (ten_msg_get_dest m)) m
                in Some (True, update_engine (node_graph_id e) (ten_engine_append_to_in_msgs_queue m') app')
            | (True, None, app') \<Rightarrow>
                (case error_result_for ''Graph not found.'' m of
                   None \<Rightarrow> None
                 | Some resp \<Rightarrow> again app' resp))"

fun ten_app_handle_msg_default_handler ::
  "nat \<Rightarrow> (ten_predefined_graph_info \<Rightarrow> ten_engine_node option) \<Rightarrow> ten_app \<Rightarrow> ten_shared_msg \<Rightarrow>
   (bool \<times> ten_app) option"
where
  "ten_app_handle_msg_default_handler 0 start app m = None"
| "ten_app_handle_msg_default_handler (Suc fuel) start app m =
     ten_app_handle_msg_default_handler_body (ten_app_handle_msg_default_handler fuel start) start app m"

text \<open>Three kinds of commands have handlers of their own, which are effects here.\<close>

definition ten_app_handle_in_msg ::
  "nat \<Rightarrow> (ten_predefined_graph_info \<Rightarrow> ten_engine_node option) \<Rightarrow> ten_app \<Rightarrow> ten_shared_msg \<Rightarrow>
   (bool \<times> ten_app \<times> ten_app_effect list) option"
where
  "ten_app_handle_in_msg fuel start app m =
     (if ten_msg_get_type m \<in> {TEN_MSG_TYPE_CMD_START_GRAPH, TEN_MSG_TYPE_CMD_CLOSE_APP, TEN_MSG_TYPE_CMD_STOP_GRAPH}
      then Some (True, app, [App_handles m])
      else map_option (\<lambda>(ok, app'). (ok, app', [])) (ten_app_handle_msg_default_handler fuel start app m))"

fun app_in_msgs_loop ::
  "nat \<Rightarrow> (ten_predefined_graph_info \<Rightarrow> ten_engine_node option) \<Rightarrow> ten_app \<Rightarrow> ten_shared_msg list \<Rightarrow>
   (ten_app \<times> ten_app_effect list) option"
where
  "app_in_msgs_loop fuel start app [] = Some (app, [])"
| "app_in_msgs_loop fuel start app (m # ms) =
     (case ten_app_handle_in_msg fuel start app m of
        None \<Rightarrow> None
      | Some (_, app', effects) \<Rightarrow>
          map_option (\<lambda>(app'', effects'). (app'', effects @ effects')) (app_in_msgs_loop fuel start app' ms))"

definition ten_app_handle_in_msgs_sync ::
  "nat \<Rightarrow> (ten_predefined_graph_info \<Rightarrow> ten_engine_node option) \<Rightarrow> ten_app \<Rightarrow>
   (ten_app \<times> ten_app_effect list) option"
where
  "ten_app_handle_in_msgs_sync fuel start app =
     app_in_msgs_loop fuel start (app\<lparr>app_in_msgs := []\<rparr>) (app_in_msgs app)"

section \<open>Tasks of the whole application\<close>

text \<open>What a thread or an engine posts goes to the queues of the others.\<close>

fun post_from_thread :: "string \<Rightarrow> ten_thread_post \<Rightarrow> ten_app \<Rightarrow> ten_app" where
  "post_from_thread g (Post_to_engine m) app = update_engine g (ten_engine_push_to_extension_msgs_queue m) app"
| "post_from_thread g (Post_to_app m) app = ten_app_push_to_in_msgs_queue m app"
| "post_from_thread g (Handle_now m) app = app"

fun handled_now :: "ten_thread_post list \<Rightarrow> ten_shared_msg list" where
  "handled_now [] = []"
| "handled_now (Handle_now m # ps) = m # handled_now ps"
| "handled_now (_ # ps) = handled_now ps"

fun post_from_engine :: "ten_engine_post \<Rightarrow> ten_app \<Rightarrow> ten_app" where
  "post_from_engine (Engine_to_app m) app = ten_app_push_to_in_msgs_queue m app"
| "post_from_engine (Engine_effect eff) app = app"

fun engine_effects :: "ten_engine_post list \<Rightarrow> ten_app_effect list" where
  "engine_effects [] = []"
| "engine_effects (Engine_effect eff # ps) = eff # engine_effects ps"
| "engine_effects (Engine_to_app m # ps) = engine_effects ps"

definition find_engine :: "string \<Rightarrow> ten_app \<Rightarrow> ten_engine_node option" where
  "find_engine g app = List.find (\<lambda>e. node_graph_id e = g) (engines app)"

definition find_group :: "string \<Rightarrow> ten_engine_node \<Rightarrow> ten_extension_thread option" where
  "find_group grp e = List.find (\<lambda>t. extension_group t = grp) (extension_groups e)"

definition update_group ::
  "string \<Rightarrow> string \<Rightarrow> (ten_extension_thread \<Rightarrow> ten_extension_thread) \<Rightarrow> ten_app \<Rightarrow> ten_app"
where
  "update_group g grp f =
     update_engine g (\<lambda>e. e\<lparr>extension_groups := update_first (\<lambda>t. extension_group t = grp) f (extension_groups e)\<rparr>)"

text \<open>
  The next message of a thread: one it has to handle now, or the first task of its queue. The
  tasks of the engines and of the application follow.
\<close>

definition thread_step ::
  "ten_runtime \<Rightarrow> string \<Rightarrow> string \<Rightarrow> ten_app \<Rightarrow> (ten_app \<times> ten_app_effect list) option"
where
  "thread_step rt g grp app =
     (case find_engine g app of
        None \<Rightarrow> Some (app, [])
      | Some e \<Rightarrow>
          (case find_group grp e of
             None \<Rightarrow> Some (app, [])
           | Some t \<Rightarrow>
               (case (case thread_now t of
                        m # ms \<Rightarrow>
                          Some (ten_extension_thread_handle_in_msg_sync (rt\<lparr>engine := engine_of app e\<rparr>)
                                  (t\<lparr>thread_now := ms\<rparr>) m)
                      | [] \<Rightarrow>
                          (case thread_tasks t of
                             m # ms \<Rightarrow>
                               Some (ten_extension_thread_handle_in_msg_task (rt\<lparr>engine := engine_of app e\<rparr>)
                                       (t\<lparr>thread_tasks := ms\<rparr>) m)
                           | [] \<Rightarrow> None)) of
                  None \<Rightarrow> Some (app, [])
                | Some None \<Rightarrow> None
                | Some (Some (t', posts, effects)) \<Rightarrow>
                    Some (fold (post_from_thread g) posts
                            (update_group g grp
                              (\<lambda>_. t'\<lparr>thread_now := handled_now posts @ thread_now t'\<rparr>) app),
                          map Extension_effect effects))))"

definition engine_step ::
  "(string \<Rightarrow> ten_engine_node \<Rightarrow> (ten_engine_node \<times> ten_engine_post list) option) \<Rightarrow> string \<Rightarrow> ten_app \<Rightarrow>
   (ten_app \<times> ten_app_effect list) option"
where
  "engine_step task g app =
     (case find_engine g app of
        None \<Rightarrow> Some (app, [])
      | Some e \<Rightarrow>
          map_option (\<lambda>(e', posts). (fold post_from_engine posts (update_engine g (\<lambda>_. e') app), engine_effects posts))
            (task (ten_app_uri app) e))"

text \<open>A call from the code of an extension, in its thread: an operation of the extension, then the posts.\<close>

definition user_step ::
  "(ten_runtime \<Rightarrow> ten_extension \<Rightarrow> (ten_extension \<times> ten_effect list) option) \<Rightarrow> ten_runtime \<Rightarrow> ten_loc \<Rightarrow>
   ten_app \<Rightarrow> (ten_app \<times> ten_app_effect list) option"
where
  "user_step operation rt l app =
     (case find_engine (graph_id l) app of
        None \<Rightarrow> Some (app, [])
      | Some e \<Rightarrow>
          (case find_group (extension_group_name l) e of
             None \<Rightarrow> Some (app, [])
           | Some t \<Rightarrow>
               (case alist_peek (extension_name l) (extension_store t) of
                  None \<Rightarrow> Some (app, [])
                | Some ext \<Rightarrow>
                    (case operation (rt\<lparr>engine := engine_of app e\<rparr>) ext of
                       None \<Rightarrow> None
                     | Some (ext', effects) \<Rightarrow>
                         map_option
                           (\<lambda>posts.
                              (fold (post_from_thread (graph_id l)) posts
                                (update_group (graph_id l) (extension_group_name l)
                                  (\<lambda>_. t\<lparr>extension_store := alist_put (extension_name l) ext' (extension_store t),
                                         thread_now := handled_now posts @ thread_now t\<rparr>) app),
                               map Extension_effect effects))
                           (dispatch_effects (engine_of app e) t effects)))))"

end
