(* ===== verification/Routing_Facts.thy ===== *)
theory Routing_Facts
  imports Ten_Routing
begin

text \<open>
  What the router of an application does with its queues: which messages an engine and the
  application can route, that nothing is lost on the way of a command or a result, and that a
  command that cannot be delivered is answered.
\<close>

section \<open>Finding and updating\<close>

lemma map_update_first: "(\<And>x. P x \<Longrightarrow> h (f x) = h x) \<Longrightarrow> map h (update_first P f xs) = map h xs"
  by (induction xs) auto

lemma find_engine_update:
  assumes "\<And>e. node_graph_id (f e) = node_graph_id e"
  shows "find_engine g' (update_engine g f app) =
    (if g' = g then map_option f (find_engine g app) else find_engine g' app)"
proof -
  have "List.find (\<lambda>e. node_graph_id e = g') (update_first (\<lambda>e. node_graph_id e = g) f es) =
      (if g' = g then map_option f (List.find (\<lambda>e. node_graph_id e = g) es)
       else List.find (\<lambda>e. node_graph_id e = g') es)" for es
    using assms by (induction es) auto
  then show ?thesis by (simp add: find_engine_def update_engine_def)
qed

lemma find_engine_id: "find_engine g app = Some e \<Longrightarrow> node_graph_id e = g"
  by (auto simp: find_engine_def find_Some_iff)

lemma find_group_name: "find_group grp e = Some t \<Longrightarrow> extension_group t = grp"
  by (auto simp: find_group_def find_Some_iff)

section \<open>Growing queues\<close>

definition thread_grows :: "ten_extension_thread \<Rightarrow> ten_extension_thread \<Rightarrow> bool" where
  "thread_grows t t' \<longleftrightarrow> (\<exists>ms. t' = t\<lparr>thread_tasks := thread_tasks t @ ms\<rparr>)"

definition node_grows :: "ten_engine_node \<Rightarrow> ten_engine_node \<Rightarrow> bool" where
  "node_grows e e' \<longleftrightarrow>
     (\<exists>ts. e' = e\<lparr>extension_groups := ts\<rparr> \<and> list_all2 thread_grows (extension_groups e) ts)"

lemma thread_grows_refl [simp]: "thread_grows t t"
  unfolding thread_grows_def by (rule exI [of _ "[]"]) simp

lemma thread_grows_trans: "thread_grows a b \<Longrightarrow> thread_grows b c \<Longrightarrow> thread_grows a c"
  unfolding thread_grows_def by (elim exE) (rule_tac x = "ms @ msa" in exI, simp)

lemma async_grows: "thread_grows t (ten_extension_thread_handle_in_msg_async m t)"
  by (auto simp: ten_extension_thread_handle_in_msg_async_def thread_grows_def intro: exI [of _ "[]"])

lemma node_grows_refl [simp]: "node_grows e e"
  unfolding node_grows_def
  by (rule exI [of _ "extension_groups e"]) (simp add: list_all2_same)

lemma node_grows_trans:
  assumes "node_grows a b" "node_grows b c"
  shows "node_grows a c"
proof -
  from assms obtain ts us where "b = a\<lparr>extension_groups := ts\<rparr>" "list_all2 thread_grows (extension_groups a) ts"
    "c = b\<lparr>extension_groups := us\<rparr>" "list_all2 thread_grows (extension_groups b) us"
    by (auto simp: node_grows_def)
  then show ?thesis
    by (auto simp: node_grows_def intro!: exI [of _ us] elim: list_all2_trans [rotated 1] thread_grows_trans)
qed

lemma grows_fields:
  assumes "node_grows e e'"
  shows "node_graph_id e' = node_graph_id e" "is_closing e' = is_closing e"
    "is_ready_to_handle_msg e' = is_ready_to_handle_msg e" "remotes e' = remotes e"
    "extension_msgs e' = extension_msgs e" "in_msgs e' = in_msgs e"
    "map extension_group (extension_groups e') = map extension_group (extension_groups e)"
    "has_extension_context e' = has_extension_context e"
proof -
  obtain ts where ts: "e' = e\<lparr>extension_groups := ts\<rparr>" "list_all2 thread_grows (extension_groups e) ts"
    using assms by (auto simp: node_grows_def)
  have "map extension_group ts = map extension_group (extension_groups e)"
    using ts(2) by (induction rule: list_all2_induct) (auto simp: thread_grows_def)
  with ts(1) show "node_graph_id e' = node_graph_id e" "is_closing e' = is_closing e"
    "is_ready_to_handle_msg e' = is_ready_to_handle_msg e" "remotes e' = remotes e"
    "extension_msgs e' = extension_msgs e" "in_msgs e' = in_msgs e"
    "map extension_group (extension_groups e') = map extension_group (extension_groups e)"
    "has_extension_context e' = has_extension_context e" by simp_all
qed

lemma grows_group:
  assumes "node_grows e e'" "find_group grp e = Some t"
  obtains t' where "find_group grp e' = Some t'" "thread_grows t t'"
proof -
  obtain us where us: "e' = e\<lparr>extension_groups := us\<rparr>" "list_all2 thread_grows (extension_groups e) us"
    using assms(1) by (auto simp: node_grows_def)
  have "\<exists>t'. List.find (\<lambda>t. extension_group t = grp) us = Some t' \<and> thread_grows t t'"
    using us(2) assms(2) [unfolded find_group_def]
    by (induction rule: list_all2_induct) (auto simp: thread_grows_def split: if_splits)
  with us(1) that show ?thesis by (auto simp: find_group_def)
qed

lemma group_none_iff: "find_group grp e = None \<longleftrightarrow> grp \<notin> extension_group ` set (extension_groups e)"
  by (auto simp: find_group_def find_None_iff)

lemma give_to_group_none: "give_to_group grp m ts = None \<longleftrightarrow> grp \<notin> extension_group ` set ts"
  by (induction ts) auto

lemma give_to_group_some:
  assumes "give_to_group grp m ts = Some us"
  shows "list_all2 thread_grows ts us"
    "List.find (\<lambda>t. extension_group t = grp) us =
       map_option (ten_extension_thread_handle_in_msg_async m) (List.find (\<lambda>t. extension_group t = grp) ts)"
proof -
  have name: "extension_group (ten_extension_thread_handle_in_msg_async m t) = extension_group t" for t
    by (simp add: ten_extension_thread_handle_in_msg_async_def)
  show "list_all2 thread_grows ts us"
    using assms by (induction ts arbitrary: us) (auto simp: list_all2_same async_grows split: if_splits)
  show "List.find (\<lambda>t. extension_group t = grp) us =
       map_option (ten_extension_thread_handle_in_msg_async m) (List.find (\<lambda>t. extension_group t = grp) ts)"
    using assms by (induction ts arbitrary: us) (auto simp: name split: if_splits)
qed

section \<open>One message at an engine\<close>

text \<open>A location that the engine needs not answer for.\<close>

definition reaches :: "string \<Rightarrow> ten_engine_node \<Rightarrow> ten_loc \<Rightarrow> bool" where
  "reaches uri e l \<longleftrightarrow>
     app_uri l \<noteq> uri \<or> graph_id l = [] \<or> graph_id l \<noteq> node_graph_id e \<or>
     extension_group_name l = [] \<or> (has_extension_context e \<and> find_group (extension_group_name l) e \<noteq> None)"

text \<open>A location of a group that the engine has, and of one that it does not have; it has an extension context.\<close>

definition for_group :: "string \<Rightarrow> ten_engine_node \<Rightarrow> ten_loc \<Rightarrow> bool" where
  "for_group uri e l \<longleftrightarrow>
     app_uri l = uri \<and> graph_id l \<noteq> [] \<and> graph_id l = node_graph_id e \<and> extension_group_name l \<noteq> [] \<and>
     has_extension_context e \<and> find_group (extension_group_name l) e \<noteq> None"

definition for_missing_group :: "string \<Rightarrow> ten_engine_node \<Rightarrow> ten_loc \<Rightarrow> bool" where
  "for_missing_group uri e l \<longleftrightarrow>
     app_uri l = uri \<and> graph_id l \<noteq> [] \<and> graph_id l = node_graph_id e \<and> extension_group_name l \<noteq> [] \<and>
     has_extension_context e \<and> find_group (extension_group_name l) e = None"

fun is_data :: "ten_shared_msg \<Rightarrow> bool" where
  "is_data (Msg_data d) = True"
| "is_data _ = False"

definition accepts :: "string \<Rightarrow> ten_engine_node \<Rightarrow> ten_shared_msg \<Rightarrow> bool" where
  "accepts uri e m \<longleftrightarrow>
     (\<exists>l. ten_msg_get_dest m = [l] \<and>
        (reaches uri e l \<or>
         (\<not> is_data m \<and> has_extension_context e \<and> reaches uri e (ten_msg_get_src_loc m))))"

lemma reaches_grows: "node_grows e e' \<Longrightarrow> reaches uri e' l = reaches uri e l"
  using grows_fields [of e e'] by (simp add: reaches_def group_none_iff flip: set_map)

lemma accepts_grows: "node_grows e e' \<Longrightarrow> accepts uri e' m = accepts uri e m"
  by (simp add: accepts_def reaches_grows grows_fields)

lemma error_result_for_facts:
  assumes "error_result_for detail m = Some m'" "ten_msg_get_dest m = [l]"
  shows "\<not> is_data m" "is_cmd_and_result m'" "ten_msg_get_dest m' = [ten_msg_get_src_loc m]"
    "ten_msg_get_src_loc m' = l" "\<not> is_data m'" "ten_msg_get_type m' = TEN_MSG_TYPE_CMD_RESULT"
proof -
  have *: "src_loc (set_detail d r) = src_loc r" "dest_loc (set_detail d r) = dest_loc r"
    "msg_type (set_detail d r) = msg_type r" for d r
    by (simp_all add: set_detail_def)
  show "\<not> is_data m" using assms(1) by (cases m) auto
  show "is_cmd_and_result m'" "ten_msg_get_dest m' = [ten_msg_get_src_loc m]" "ten_msg_get_src_loc m' = l"
    "\<not> is_data m'" "ten_msg_get_type m' = TEN_MSG_TYPE_CMD_RESULT"
    using assms
    by (cases m; auto simp: * is_cmd_and_result_def ten_raw_msg_is_cmd_and_result_def
        ten_cmd_result_create_from_cmd_def Let_def ten_msg_set_src_to_loc_def ten_cmd_result_create_def)+
qed

lemma error_result_for_some: "\<not> is_data m \<Longrightarrow> \<exists>m'. error_result_for detail m = Some m'"
  by (cases m) auto

lemma dispatch_reaches:
  assumes "ten_msg_get_dest m = [l]" "reaches uri e l"
  shows "\<exists>e' posts. ten_engine_dispatch_msg (Suc n) uuid uri e m = Some (e', posts) \<and> node_grows e e' \<and>
    (\<forall>m'. Engine_to_app m' \<in> set posts \<longrightarrow> m' = m \<and> app_uri l = uri)"
proof -
  have "\<exists>us. give_to_group (extension_group_name l) m (extension_groups e) = Some us \<and>
      node_grows e (e\<lparr>extension_groups := us\<rparr>)" if "find_group (extension_group_name l) e \<noteq> None"
  proof -
    from that obtain us where "give_to_group (extension_group_name l) m (extension_groups e) = Some us"
      using give_to_group_none group_none_iff by (metis option.exhaust)
    with give_to_group_some(1) [OF this] show ?thesis by (auto simp: node_grows_def)
  qed
  with assms show ?thesis
    by (auto simp: reaches_def ten_engine_route_msg_to_remote_def ten_engine_handle_msg_def split: option.splits)
qed

text \<open>
  Before the engine has its extension context, a message for a group of it is the use of NULL; a
  result is such a message that it works on although it is not ready.
\<close>

lemma dispatch_without_context:
  assumes "\<not> has_extension_context e" "\<not> is_closing e" "ten_msg_get_dest m = [l]" "app_uri l = uri"
    "graph_id l \<noteq> []" "graph_id l = node_graph_id e" "extension_group_name l \<noteq> []"
  shows "ten_engine_dispatch_msg n uuid uri e m = None"
  using assms by (cases n) auto

text \<open>
  What an engine gives to the application when it works on \<open>ms\<close>: messages for the application
  or another graph, and answers to messages for a group that it does not have.
\<close>

definition forwarded :: "string \<Rightarrow> ten_engine_node \<Rightarrow> ten_shared_msg list \<Rightarrow> ten_engine_post list \<Rightarrow> bool" where
  "forwarded uri e ms posts \<longleftrightarrow>
     (\<forall>m'. Engine_to_app m' \<in> set posts \<longrightarrow>
        (\<exists>l'. ten_msg_get_dest m' = [l'] \<and> app_uri l' = uri) \<and>
        (\<exists>m \<in> set ms. m' = m \<or>
           (\<exists>l detail. ten_msg_get_dest m = [l] \<and> for_missing_group uri e l \<and>
              error_result_for detail m = Some m')))"

lemma for_group_grows:
  assumes "node_grows e e'"
  shows "for_group uri e' l = for_group uri e l" "for_missing_group uri e' l = for_missing_group uri e l"
  using grows_fields [OF assms] by (simp_all add: for_group_def for_missing_group_def group_none_iff flip: set_map)

lemma forwarded_grows: "node_grows e e' \<Longrightarrow> forwarded uri e' ms posts = forwarded uri e ms posts"
  by (simp add: forwarded_def for_group_grows)

lemma forwarded_append: "forwarded uri e [m] ps \<Longrightarrow> forwarded uri e ms qs \<Longrightarrow> forwarded uri e (m # ms) (ps @ qs)"
  unfolding forwarded_def by fastforce

lemma forwarded_more: "forwarded uri e ms qs \<Longrightarrow> forwarded uri e (m # ms) qs"
  unfolding forwarded_def by fastforce

lemma dispatch_accepts:
  assumes "accepts uri e m"
  shows "\<exists>e' posts. ten_engine_dispatch_msg (Suc (Suc n)) uuid uri e m = Some (e', posts) \<and> node_grows e e' \<and>
    forwarded uri e [m] posts"
proof -
  obtain l where l: "ten_msg_get_dest m = [l]"
    "reaches uri e l \<or> (\<not> is_data m \<and> has_extension_context e \<and> reaches uri e (ten_msg_get_src_loc m))"
    using assms by (auto simp: accepts_def)
  show ?thesis
  proof (cases "reaches uri e l")
    case True
    from dispatch_reaches [OF l(1) this, of "Suc n" uuid] l(1) show ?thesis
      by (auto simp: forwarded_def simp del: ten_engine_dispatch_msg.simps)
  next
    case False
    then have missing: "for_missing_group uri e l" using l(2) by (auto simp: reaches_def for_missing_group_def)
    from False l(2) obtain s where s: "ten_extension_group_create_invalid_dest_status m (extension_group_name l) = Some s"
      using error_result_for_some by (auto simp: ten_extension_group_create_invalid_dest_status_def)
    note facts = error_result_for_facts [OF s [unfolded ten_extension_group_create_invalid_dest_status_def] l(1)]
    from dispatch_reaches [OF facts(3), of uri e n uuid] False l(2) obtain e' posts where
      "ten_engine_dispatch_msg (Suc n) uuid uri e s = Some (e', posts)" "node_grows e e'"
      "\<forall>m'. Engine_to_app m' \<in> set posts \<longrightarrow> m' = s \<and> app_uri (ten_msg_get_src_loc m) = uri" by blast
    moreover from this(3) have "forwarded uri e [m] posts"
      using missing l(1) facts(3) s [unfolded ten_extension_group_create_invalid_dest_status_def]
      by (auto simp: forwarded_def)
    moreover have "give_to_group (extension_group_name l) m (extension_groups e) = None"
      using missing by (simp add: for_missing_group_def group_none_iff give_to_group_none)
    then have "ten_engine_dispatch_msg (Suc (Suc n)) uuid uri e m =
        (if is_closing e then Some (e, []) else ten_engine_dispatch_msg (Suc n) uuid uri e s)"
      using missing l(1) s
      by (subst ten_engine_dispatch_msg.simps(2)) (auto simp: for_missing_group_def simp del: ten_engine_dispatch_msg.simps)
    moreover have "forwarded uri e [m] []" by (simp add: forwarded_def)
    ultimately show ?thesis by (cases "is_closing e") (simp_all del: ten_engine_dispatch_msg.simps)
  qed
qed

section \<open>The queues of an engine\<close>

lemma remote_posts: "Engine_to_app m' \<notin> set (ten_engine_route_msg_to_remote e m)"
  by (auto simp: ten_engine_route_msg_to_remote_def split: list.splits)

lemma extension_msgs_loop_ok:
  assumes "\<forall>m \<in> set ms. accepts uri e m"
  shows "\<exists>e' posts. extension_msgs_loop (Suc (Suc n)) ids i uri e ms = Some (e', posts) \<and> node_grows e e' \<and>
    forwarded uri e ms posts"
  using assms
proof (induction ms arbitrary: e i)
  case Nil
  then show ?case by (simp add: forwarded_def)
next
  case (Cons m ms)
  obtain l where l: "ten_msg_get_dest m = [l]" using Cons.prems by (auto simp: accepts_def)
  let ?one = "if is_closing e \<and> \<not> ten_msg_type_to_handle_when_closing m then Some (e, [])
      else if app_uri l \<noteq> uri then Some (e, ten_engine_route_msg_to_remote e m)
      else ten_engine_dispatch_msg (Suc (Suc n)) (ids i) uri e m"
  have "\<exists>e1 posts1. ?one = Some (e1, posts1) \<and> node_grows e e1 \<and> forwarded uri e [m] posts1"
    using dispatch_accepts [of uri e m n "ids i"] Cons.prems remote_posts by (auto simp: forwarded_def)
  then obtain e1 posts1 where one: "?one = Some (e1, posts1)" "node_grows e e1" "forwarded uri e [m] posts1" by blast
  from Cons.IH [of e1 "Suc i"] Cons.prems accepts_grows [OF one(2)] forwarded_grows [OF one(2)] obtain e2 posts2 where
    rest: "extension_msgs_loop (Suc (Suc n)) ids (Suc i) uri e1 ms = Some (e2, posts2)" "node_grows e1 e2"
    "forwarded uri e ms posts2" by auto
  have "extension_msgs_loop (Suc (Suc n)) ids i uri e (m # ms) = Some (e2, posts1 @ posts2)"
    by (simp only: extension_msgs_loop.simps l list.case one(1) option.case prod.case rest(1) option.map)
  moreover have "forwarded uri e (m # ms) (posts1 @ posts2)"
    using one(3) rest(3) by (rule forwarded_append)
  ultimately show ?case using node_grows_trans [OF one(2) rest(2)] by blast
qed

text \<open>What an engine that is not ready works on.\<close>

definition early :: "ten_shared_msg \<Rightarrow> bool" where
  "early m \<longleftrightarrow> ten_msg_get_type m \<in> {TEN_MSG_TYPE_CMD_START_GRAPH, TEN_MSG_TYPE_CMD_RESULT}"

lemma in_msgs_loop_ok:
  assumes "\<forall>m \<in> set ms. is_ready_to_handle_msg e \<or> early m \<longrightarrow> accepts uri e m"
  shows "\<exists>e' posts put_back. in_msgs_loop (Suc (Suc n)) ids i uri e ms = Some (e', posts, put_back) \<and>
    node_grows e e' \<and> forwarded uri e ms posts \<and> set put_back \<subseteq> set ms \<and>
    (is_ready_to_handle_msg e \<longrightarrow> put_back = [])"
  using assms
proof (induction ms arbitrary: e i)
  case Nil
  then show ?case by (simp add: forwarded_def)
next
  case (Cons m ms)
  show ?case
  proof (cases "is_ready_to_handle_msg e \<or>
      ten_msg_get_type m \<in> {TEN_MSG_TYPE_CMD_START_GRAPH, TEN_MSG_TYPE_CMD_RESULT}")
    case True
    then have "accepts uri e m" using Cons.prems by (auto simp: early_def)
    from dispatch_accepts [OF this, of n "ids i"] obtain e1 posts1 where one:
      "ten_engine_dispatch_msg (Suc (Suc n)) (ids i) uri e m = Some (e1, posts1)" "node_grows e e1" "forwarded uri e [m] posts1"
      by (auto simp: forwarded_def simp del: ten_engine_dispatch_msg.simps)
    from Cons.IH [of e1 "Suc i"] Cons.prems accepts_grows [OF one(2)] grows_fields(3) [OF one(2)] forwarded_grows [OF one(2)]
    obtain e2 posts2 put_back where
      rest: "in_msgs_loop (Suc (Suc n)) ids (Suc i) uri e1 ms = Some (e2, posts2, put_back)" "node_grows e1 e2"
      "forwarded uri e ms posts2" "set put_back \<subseteq> set ms" "is_ready_to_handle_msg e \<longrightarrow> put_back = []" by auto
    have "in_msgs_loop (Suc (Suc n)) ids i uri e (m # ms) = Some (e2, posts1 @ posts2, put_back)"
      using one(1) rest(1) True by (simp del: ten_engine_dispatch_msg.simps)
    moreover have "forwarded uri e (m # ms) (posts1 @ posts2)"
      using one(3) rest(3) by (rule forwarded_append)
    ultimately show ?thesis using node_grows_trans [OF one(2) rest(2)] rest(4,5) by auto
  next
    case False
    from Cons.IH [of e "Suc i"] Cons.prems obtain e2 posts2 put_back where
      rest: "in_msgs_loop (Suc (Suc n)) ids (Suc i) uri e ms = Some (e2, posts2, put_back)" "node_grows e e2"
      "forwarded uri e ms posts2" "set put_back \<subseteq> set ms" by auto
    have "in_msgs_loop (Suc (Suc n)) ids i uri e (m # ms) = Some (e2, posts2, m # put_back)"
      using rest(1) False by simp
    then show ?thesis using rest False by (auto intro: forwarded_more)
  qed
qed

section \<open>What an engine delivers\<close>

text \<open>
  A command or result, in place or as the error that answers it, is in the queue of the thread
  it is for after the engine dispatched it, and stays there.
\<close>

definition in_tasks :: "string \<Rightarrow> ten_shared_msg \<Rightarrow> ten_engine_node \<Rightarrow> bool" where
  "in_tasks grp m e \<longleftrightarrow> (\<exists>t. find_group grp e = Some t \<and> m \<in> set (thread_tasks t))"

lemma in_tasks_grows: "node_grows e e' \<Longrightarrow> in_tasks grp m e \<Longrightarrow> in_tasks grp m e'"
  unfolding in_tasks_def by (elim exE conjE grows_group) (auto simp: thread_grows_def)

lemma dispatch_delivers:
  assumes "\<not> is_closing e" "ten_msg_get_dest m = [l]" "for_group uri e l" "is_cmd_and_result m"
    "ten_engine_dispatch_msg (Suc n) uuid uri e m = Some (e', posts)"
  shows "in_tasks (extension_group_name l) m e'"
proof -
  obtain us where us: "give_to_group (extension_group_name l) m (extension_groups e) = Some us"
    using assms(3) give_to_group_none group_none_iff by (metis for_group_def option.exhaust)
  with assms have "e' = e\<lparr>extension_groups := us\<rparr>" by (auto simp: for_group_def)
  moreover obtain t where "find_group (extension_group_name l) e = Some t"
    using assms(3) by (auto simp: for_group_def)
  ultimately show ?thesis
    using give_to_group_some(2) [OF us] assms(4)
    by (auto simp: in_tasks_def find_group_def ten_extension_thread_handle_in_msg_async_def)
qed

lemma dispatch_answers:
  assumes "\<not> is_closing e" "ten_msg_get_dest m = [l]" "for_missing_group uri e l"
    "for_group uri e (ten_msg_get_src_loc m)" "\<not> is_data m"
    "ten_engine_dispatch_msg (Suc (Suc n)) uuid uri e m = Some (e', posts)"
  shows "\<exists>s. error_result_for (''The extension group['' @ extension_group_name l @ ''] is invalid.'') m = Some s \<and>
    in_tasks (extension_group_name (ten_msg_get_src_loc m)) s e'"
proof -
  obtain s where s: "error_result_for (''The extension group['' @ extension_group_name l @ ''] is invalid.'') m = Some s"
    using error_result_for_some [OF assms(5)] by blast
  note facts = error_result_for_facts [OF s assms(2)]
  have "give_to_group (extension_group_name l) m (extension_groups e) = None"
    using assms(3) by (simp add: for_missing_group_def give_to_group_none group_none_iff)
  then have eq: "ten_engine_dispatch_msg (Suc (Suc n)) uuid uri e m = ten_engine_dispatch_msg (Suc n) uuid uri e s"
    using assms(1-3) s
    by (subst ten_engine_dispatch_msg.simps(2))
       (auto simp: for_missing_group_def ten_extension_group_create_invalid_dest_status_def
          simp del: ten_engine_dispatch_msg.simps)
  have "ten_engine_dispatch_msg (Suc n) uuid uri e s = Some (e', posts)"
    by (rule HOL.trans [OF eq [symmetric] assms(6)])
  from dispatch_delivers [OF assms(1) facts(3) assms(4) facts(2) this] s show ?thesis by blast
qed

text \<open>What an engine makes of a message in one of its queues: the message, or the answer to it.\<close>

definition delivered :: "string \<Rightarrow> ten_engine_node \<Rightarrow> ten_shared_msg \<Rightarrow> ten_engine_node \<Rightarrow> bool" where
  "delivered uri e m e' \<longleftrightarrow>
     (\<forall>l. ten_msg_get_dest m = [l] \<longrightarrow>
        (for_group uri e l \<and> is_cmd_and_result m \<longrightarrow> in_tasks (extension_group_name l) m e') \<and>
        (for_missing_group uri e l \<and> for_group uri e (ten_msg_get_src_loc m) \<and> \<not> is_data m \<longrightarrow>
          (\<exists>s. error_result_for (''The extension group['' @ extension_group_name l @ ''] is invalid.'') m = Some s \<and>
             in_tasks (extension_group_name (ten_msg_get_src_loc m)) s e')))"

lemma delivered_dispatch:
  "\<not> is_closing e \<Longrightarrow> ten_engine_dispatch_msg (Suc (Suc n)) uuid uri e m = Some (e', posts) \<Longrightarrow> delivered uri e m e'"
  unfolding delivered_def using dispatch_delivers [of e m _ uri "Suc n"] dispatch_answers by blast

lemma delivered_grows_after: "delivered uri e m e' \<Longrightarrow> node_grows e' e'' \<Longrightarrow> delivered uri e m e''"
  unfolding delivered_def using in_tasks_grows by (intro allI impI conjI) (blast+)

lemma delivered_grows_before: "node_grows e0 e \<Longrightarrow> delivered uri e m e' \<Longrightarrow> delivered uri e0 m e'"
  by (simp add: delivered_def for_group_grows)

lemma extension_msgs_loop_delivers:
  assumes "\<forall>m \<in> set ms. accepts uri e m" "\<not> is_closing e" "m \<in> set ms"
    "extension_msgs_loop (Suc (Suc n)) ids i uri e ms = Some (e', posts)"
  shows "delivered uri e m e'"
  using assms
proof (induction ms arbitrary: e i posts)
  case (Cons m0 ms)
  from Cons.prems(1) obtain l where l: "ten_msg_get_dest m0 = [l]" by (auto simp: accepts_def)
  let ?one = "if app_uri l \<noteq> uri then Some (e, ten_engine_route_msg_to_remote e m0)
      else ten_engine_dispatch_msg (Suc (Suc n)) (ids i) uri e m0"
  have "\<exists>e1 posts1. ?one = Some (e1, posts1) \<and> node_grows e e1"
    using dispatch_accepts [of uri e m0 n "ids i"] Cons.prems(1) by auto
  then obtain e1 posts1 where one: "?one = Some (e1, posts1)" "node_grows e e1" by blast
  have loop: "extension_msgs_loop (Suc (Suc n)) ids i uri e (m0 # ms) =
      map_option (\<lambda>(self'', posts'). (self'', posts1 @ posts'))
        (extension_msgs_loop (Suc (Suc n)) ids (Suc i) uri e1 ms)"
    using one(1) Cons.prems(2) unfolding extension_msgs_loop.simps(2) l list.case
    by (simp only: option.case prod.case simp_thms if_False)
  with Cons.prems(4) obtain posts2 where rest: "extension_msgs_loop (Suc (Suc n)) ids (Suc i) uri e1 ms = Some (e', posts2)"
    by (auto simp del: extension_msgs_loop.simps)
  have accepted: "\<forall>m \<in> set ms. accepts uri e1 m" using Cons.prems(1) accepts_grows [OF one(2)] by simp
  show ?case
  proof (cases "m \<in> set ms")
    case True
    from Cons.IH [OF accepted _ True rest] Cons.prems(2) grows_fields(2) [OF one(2)] delivered_grows_before [OF one(2)]
    show ?thesis by simp
  next
    case False
    with Cons.prems(3) have m: "m = m0" by simp
    show ?thesis
    proof (cases "app_uri l = uri")
      case True
      with one(1) have "ten_engine_dispatch_msg (Suc (Suc n)) (ids i) uri e m0 = Some (e1, posts1)" by simp
      from delivered_dispatch [OF Cons.prems(2) this] extension_msgs_loop_ok [OF accepted, of n ids "Suc i"] rest m
      show ?thesis by (auto intro: delivered_grows_after)
    qed (simp add: delivered_def m l for_group_def for_missing_group_def)
  qed
qed simp

lemma in_msgs_loop_delivers:
  assumes "\<forall>m \<in> set ms. accepts uri e m" "\<not> is_closing e" "is_ready_to_handle_msg e" "m \<in> set ms"
    "in_msgs_loop (Suc (Suc n)) ids i uri e ms = Some (e', posts, put_back)"
  shows "delivered uri e m e'"
  using assms
proof (induction ms arbitrary: e i posts)
  case (Cons m0 ms)
  from dispatch_accepts [of uri e m0 n "ids i"] Cons.prems(1) obtain e1 posts1 where one:
    "ten_engine_dispatch_msg (Suc (Suc n)) (ids i) uri e m0 = Some (e1, posts1)" "node_grows e e1" by auto
  have "in_msgs_loop (Suc (Suc n)) ids i uri e (m0 # ms) =
      map_option (\<lambda>(self'', posts', put_back). (self'', posts1 @ posts', put_back))
        (in_msgs_loop (Suc (Suc n)) ids (Suc i) uri e1 ms)"
    using one(1) Cons.prems(3) by (simp del: ten_engine_dispatch_msg.simps)
  with Cons.prems(5) obtain posts2 where rest: "in_msgs_loop (Suc (Suc n)) ids (Suc i) uri e1 ms = Some (e', posts2, put_back)"
    by (auto simp del: in_msgs_loop.simps)
  have accepted: "\<forall>m \<in> set ms. accepts uri e1 m" using Cons.prems(1) accepts_grows [OF one(2)] by simp
  show ?case
  proof (cases "m \<in> set ms")
    case True
    from Cons.IH [OF accepted _ _ True rest] Cons.prems(2,3) grows_fields(2,3) [OF one(2)] delivered_grows_before [OF one(2)]
    show ?thesis by simp
  next
    case False
    with Cons.prems(4) have m: "m = m0" by simp
    from delivered_dispatch [OF Cons.prems(2) one(1)] in_msgs_loop_ok [of ms e1 uri n ids "Suc i"] accepted rest m
    show ?thesis by (auto intro: delivered_grows_after)
  qed
qed simp

end
