(* ===== verification/Routing_App.thy ===== *)
theory Routing_App
  imports Routing_Facts
begin

text \<open>
  The whole application as a router: its queues stay in order under every task, no task gets
  lost in itself, a command or a result gets to the thread it is for, and a command that
  cannot be delivered is answered.
\<close>

section \<open>Sane messages\<close>

text \<open>What the tasks of the router do not change.\<close>

definition skeleton ::
  "ten_app \<Rightarrow> string \<times> ten_predefined_graph_info list \<times> (string \<times> bool \<times> bool \<times> bool \<times> string list \<times> string list) list"
where
  "skeleton app =
     (ten_app_uri app, app_graph_infos app,
      map (\<lambda>e. (node_graph_id e, is_closing e, is_ready_to_handle_msg e, has_extension_context e, remotes e,
                map extension_group (extension_groups e))) (engines app))"

text \<open>No predefined graph that runs only once has this name.\<close>

definition unnamed :: "ten_app \<Rightarrow> string \<Rightarrow> bool" where
  "unnamed app g \<longleftrightarrow> ten_predefined_graph_infos_get_singleton_by_name (app_graph_infos app) g = None"

text \<open>A location in the application: itself, one of its engines, or a group of that.\<close>

definition place :: "ten_app \<Rightarrow> ten_loc \<Rightarrow> bool" where
  "place app l \<longleftrightarrow>
     app_uri l = ten_app_uri app \<and>
     (graph_id l = [] \<or>
      (ten_string_is_uuid4 (graph_id l) \<and> unnamed app (graph_id l) \<and>
       (\<exists>e. find_engine (graph_id l) app = Some e \<and>
          (extension_group_name l = [] \<or> find_group (extension_group_name l) e \<noteq> None))))"

text \<open>Such a location can be looked for: if it is one of a group, its engine has an extension context.\<close>

definition enabled :: "ten_app \<Rightarrow> ten_loc \<Rightarrow> bool" where
  "enabled app l \<longleftrightarrow>
     (\<forall>e. app_uri l = ten_app_uri app \<longrightarrow> extension_group_name l \<noteq> [] \<longrightarrow>
        find_engine (graph_id l) app = Some e \<longrightarrow> has_extension_context e)"

text \<open>
  A message to such a location or to another application, or one whose sender can be told. One
  that an engine works on before it is ready is not for a group of an engine without an
  extension context.
\<close>

definition sane_msg :: "ten_app \<Rightarrow> ten_shared_msg \<Rightarrow> bool" where
  "sane_msg app m \<longleftrightarrow>
     (\<exists>l. ten_msg_get_dest m = [l] \<and>
        (app_uri l \<noteq> ten_app_uri app \<or> place app l \<or>
         (\<not> is_data m \<and> place app (ten_msg_get_src_loc m) \<and> enabled app (ten_msg_get_src_loc m) \<and>
          unnamed app (graph_id l))) \<and>
        (early m \<longrightarrow> enabled app l))"

definition home :: "ten_app \<Rightarrow> ten_shared_msg \<Rightarrow> bool" where
  "home app m \<longleftrightarrow> (\<exists>l. ten_msg_get_dest m = [l] \<and> app_uri l = ten_app_uri app)"

text \<open>
  An engine that is ready has an extension context; one that has none has no groups and so no
  messages from them.
\<close>

definition sane_engine :: "ten_engine_node \<Rightarrow> bool" where
  "sane_engine e \<longleftrightarrow>
     has_extension_context e \<or> (\<not> is_ready_to_handle_msg e \<and> extension_groups e = [] \<and> extension_msgs e = [])"

definition sane_app :: "ten_app \<Rightarrow> bool" where
  "sane_app app \<longleftrightarrow>
     (\<forall>e \<in> set (engines app). sane_engine e) \<and>
     (\<forall>e \<in> set (engines app). \<forall>m \<in> set (extension_msgs e) \<union> set (in_msgs e). sane_msg app m) \<and>
     (\<forall>m \<in> set (app_in_msgs app). sane_msg app m \<and> home app m)"

lemma find_engine_skeleton:
  assumes "skeleton app' = skeleton app"
  shows "rel_option (\<lambda>e e'. is_closing e' = is_closing e \<and> is_ready_to_handle_msg e' = is_ready_to_handle_msg e \<and>
      has_extension_context e' = has_extension_context e \<and>
      map extension_group (extension_groups e') = map extension_group (extension_groups e))
    (find_engine g app) (find_engine g app')"
proof -
  let ?f = "\<lambda>e. (node_graph_id e, is_closing e, is_ready_to_handle_msg e, has_extension_context e, remotes e,
                map extension_group (extension_groups e))"
  have "rel_option (\<lambda>e e'. is_closing e' = is_closing e \<and> is_ready_to_handle_msg e' = is_ready_to_handle_msg e \<and>
      has_extension_context e' = has_extension_context e \<and>
      map extension_group (extension_groups e') = map extension_group (extension_groups e))
    (List.find (\<lambda>e. node_graph_id e = g) es) (List.find (\<lambda>e. node_graph_id e = g) es')"
    if "map ?f es' = map ?f es" for es es'
    using that by (induction es' es rule: list_induct2') auto
  moreover have "map ?f (engines app') = map ?f (engines app)" using assms by (simp add: skeleton_def)
  ultimately show ?thesis unfolding find_engine_def by blast
qed

lemma place_skeleton: "skeleton app' = skeleton app \<Longrightarrow> place app' l = place app l"
proof -
  assume a: "skeleton app' = skeleton app"
  from find_engine_skeleton [OF this, of "graph_id l"] a show "place app' l = place app l"
    by (cases "find_engine (graph_id l) app"; cases "find_engine (graph_id l) app'")
       (auto simp: place_def skeleton_def unnamed_def group_none_iff simp flip: set_map)
qed

lemma sane_skeleton:
  assumes "skeleton app' = skeleton app"
  shows "sane_msg app' m = sane_msg app m" "home app' m = home app m"
proof -
  have "enabled app' l = enabled app l" for l
    using find_engine_skeleton [OF assms, of "graph_id l"] assms
    by (cases "find_engine (graph_id l) app"; cases "find_engine (graph_id l) app'")
       (auto simp: enabled_def skeleton_def)
  with assms place_skeleton [OF assms] show "sane_msg app' m = sane_msg app m" "home app' m = home app m"
    by (simp_all add: sane_msg_def home_def skeleton_def unnamed_def)
qed

lemma sane_accepted:
  assumes "sane_msg app m" "find_engine (node_graph_id e) app = Some e" "has_extension_context e \<or> early m"
  shows "accepts (ten_app_uri app) e m"
proof -
  obtain l where l: "ten_msg_get_dest m = [l]" "early m \<longrightarrow> enabled app l"
    "app_uri l \<noteq> ten_app_uri app \<or> place app l \<or> (\<not> is_data m \<and> place app (ten_msg_get_src_loc m))"
    using assms(1) by (auto simp: sane_msg_def)
  have known: "reaches (ten_app_uri app) e l" if "has_extension_context e" "app_uri l \<noteq> ten_app_uri app \<or> place app l" for l
    using that assms(2) by (auto simp: reaches_def place_def)
  have "has_extension_context e" if "\<not> reaches (ten_app_uri app) e l"
    using that assms(2,3) l(2) by (auto simp: reaches_def enabled_def)
  with l(1,3) known show ?thesis by (auto simp: accepts_def)
qed

lemma answer_sane:
  assumes "error_result_for detail m = Some s" "ten_msg_get_dest m = [l]" "place app (ten_msg_get_src_loc m)"
    "enabled app (ten_msg_get_src_loc m)"
  shows "sane_msg app s" "home app s"
  using error_result_for_facts [OF assms(1,2)] assms(3,4) by (auto simp: sane_msg_def home_def place_def)

section \<open>The tasks of an engine\<close>

lemma set_update_first: "set (update_first P (\<lambda>_. y) xs) \<subseteq> insert y (set xs)"
  by (induction xs) auto

lemma fold_posts:
  "fold post_from_engine posts app =
     app\<lparr>app_in_msgs := app_in_msgs app @ concat (map (\<lambda>p. case p of Engine_to_app m \<Rightarrow> [m] | _ \<Rightarrow> []) posts)\<rparr>"
proof (induction posts arbitrary: app)
  case (Cons p posts)
  then show ?case by (cases p) (simp_all add: ten_app_push_to_in_msgs_queue_def)
qed simp

lemma find_engine_in: "find_engine g app = Some e \<Longrightarrow> e \<in> set (engines app)"
  by (auto simp: find_engine_def find_Some_iff)

text \<open>
  An engine task that works on messages of a queue, adds nothing to the queues of the engine,
  and gives messages to the application.
\<close>

lemma engine_step_sane:
  assumes app: "sane_app app" "find_engine g app = Some e"
    and task: "task (ten_app_uri app) e = Some (e', posts)"
    and fields: "node_graph_id e' = node_graph_id e" "is_closing e' = is_closing e"
      "is_ready_to_handle_msg e' = is_ready_to_handle_msg e" "remotes e' = remotes e"
      "map extension_group (extension_groups e') = map extension_group (extension_groups e)"
      "set (extension_msgs e') \<subseteq> set (extension_msgs e)" "set (in_msgs e') \<subseteq> set (in_msgs e)"
      "has_extension_context e' = has_extension_context e"
    and ms: "forwarded (ten_app_uri app) e ms posts" "set ms \<subseteq> set (extension_msgs e) \<union> set (in_msgs e)"
  shows "\<exists>app'. engine_step task g app = Some (app', engine_effects posts) \<and> sane_app app' \<and>
    skeleton app' = skeleton app \<and> find_engine g app' = Some e' \<and>
    (\<forall>g'. g' \<noteq> g \<longrightarrow> find_engine g' app' = find_engine g' app)"
proof -
  let ?app1 = "update_engine g (\<lambda>_. e') app"
  let ?new = "concat (map (\<lambda>p. case p of Engine_to_app m \<Rightarrow> [m] | _ \<Rightarrow> []) posts)"
  let ?app' = "fold post_from_engine posts ?app1"
  have id: "node_graph_id e = g" using find_engine_id [OF app(2)] .
  have found: "find_engine g' ?app1 = (if g' = g then Some e' else find_engine g' app)" for g'
  proof -
    have "List.find (\<lambda>e. node_graph_id e = g') (update_first (\<lambda>e. node_graph_id e = g) (\<lambda>_. e') es) =
      (if g' = g then map_option (\<lambda>_. e') (List.find (\<lambda>e. node_graph_id e = g) es)
       else List.find (\<lambda>e. node_graph_id e = g') es)" for es
      using fields(1) id by (induction es) auto
    with app(2) show ?thesis by (simp add: find_engine_def update_engine_def)
  qed
  have first: "map f (update_first (\<lambda>e. node_graph_id e = g) (\<lambda>_. e') es) = map f es"
    if "List.find (\<lambda>e. node_graph_id e = g) es = Some e" "f e' = f e" for es and f :: "ten_engine_node \<Rightarrow> 'x"
    using that by (induction es) (auto split: if_splits)
  have skel: "skeleton ?app' = skeleton app"
    using fields app(2) by (simp add: fold_posts skeleton_def update_engine_def find_engine_def first)
  have new: "sane_msg app m \<and> home app m" if "m \<in> set ?new" for m
  proof -
    from that have "Engine_to_app m \<in> set posts" by (auto split: ten_engine_post.splits)
    with ms(1) obtain m0 where m0: "m0 \<in> set ms" "home app m"
      "m = m0 \<or> (\<exists>l detail. ten_msg_get_dest m0 = [l] \<and> for_missing_group (ten_app_uri app) e l \<and>
         error_result_for detail m0 = Some m)"
      unfolding forwarded_def home_def by blast
    have sane: "sane_msg app m0" using app(1) m0(1) ms(2) find_engine_in [OF app(2)] by (auto simp: sane_app_def)
    show ?thesis
    proof (cases "m = m0")
      case False
      with m0(3) obtain l detail where l: "ten_msg_get_dest m0 = [l]" "for_missing_group (ten_app_uri app) e l"
        "error_result_for detail m0 = Some m" by blast
      have "place app (ten_msg_get_src_loc m0)" "enabled app (ten_msg_get_src_loc m0)"
        using sane l(1,2) app(2) id by (auto simp: sane_msg_def for_missing_group_def place_def)
      from answer_sane [OF l(3,1) this] show ?thesis by simp
    qed (use sane m0 in simp)
  qed
  have old: "sane_msg app m" if "e'' \<in> set (engines ?app1)" "m \<in> set (extension_msgs e'') \<union> set (in_msgs e'')" for m e''
  proof -
    have in_app: "sane_msg app m" if "e0 \<in> set (engines app)" "m \<in> set (extension_msgs e0) \<union> set (in_msgs e0)" for e0
      using app(1) that unfolding sane_app_def by blast
    from that(1) set_update_first [of "\<lambda>e. node_graph_id e = g" e' "engines app"]
    consider "e'' = e'" | "e'' \<in> set (engines app)" by (auto simp: update_engine_def)
    then show ?thesis
    proof cases
      case 1
      with that(2) fields(6,7) in_app [OF find_engine_in [OF app(2)]] show ?thesis by blast
    qed (use that(2) in_app in blast)
  qed
  have queues: "engines ?app' = engines ?app1" "app_in_msgs ?app' = app_in_msgs app @ ?new"
    by (simp_all add: fold_posts update_engine_def)
  have all: "\<forall>e \<in> set (engines app). sane_engine e" using app(1) by (simp add: sane_app_def)
  then have "sane_engine e" using find_engine_in [OF app(2)] by blast
  then have "sane_engine e'" using fields by (auto simp: sane_engine_def)
  then have engines: "\<forall>e \<in> set (engines ?app1). sane_engine e"
    using all set_update_first [of "\<lambda>e. node_graph_id e = g" e' "engines app"] by (auto simp: update_engine_def)
  have "sane_app ?app'"
    unfolding sane_app_def sane_skeleton [OF skel] queues set_append
    using old new engines app(1) [unfolded sane_app_def] by blast
  moreover have "find_engine g' ?app' = find_engine g' ?app1" for g'
    by (simp add: fold_posts find_engine_def)
  ultimately show ?thesis using skel found app(2) task by (simp add: engine_step_def)
qed

lemma engine_tasks_ok:
  assumes "sane_app app" "find_engine g app = Some e"
  shows "\<exists>app' effects e'. engine_step (ten_engine_on_extension_msgs (Suc (Suc n)) ids) g app = Some (app', effects) \<and>
      sane_app app' \<and> skeleton app' = skeleton app \<and> find_engine g app' = Some e' \<and>
      (\<not> is_closing e \<longrightarrow> (\<forall>m \<in> set (extension_msgs e). delivered (ten_app_uri app) e m e'))"
    and "\<exists>app' effects e'. engine_step (ten_engine_handle_in_msgs_sync (Suc (Suc n)) ids) g app = Some (app', effects) \<and>
      sane_app app' \<and> skeleton app' = skeleton app \<and> find_engine g app' = Some e' \<and>
      (\<not> is_closing e \<longrightarrow> is_ready_to_handle_msg e \<longrightarrow>
         (\<forall>m \<in> set (in_msgs e). delivered (ten_app_uri app) e m e'))"
proof -
  let ?uri = "ten_app_uri app"
  have e: "node_graph_id e = g" using find_engine_id [OF assms(2)] .
  have sane: "sane_msg app m" if "m \<in> set (extension_msgs e) \<union> set (in_msgs e)" for m
    using assms(1) find_engine_in [OF assms(2)] that by (auto simp: sane_app_def)
  have engine: "sane_engine e" using assms(1) find_engine_in [OF assms(2)] by (auto simp: sane_app_def)
  have accepted: "accepts ?uri e m" if "m \<in> set (extension_msgs e)" for m
    using sane_accepted [OF sane] assms(2) e engine that by (auto simp: sane_engine_def)
  have accepted_in: "is_ready_to_handle_msg e \<or> early m \<longrightarrow> accepts ?uri e m" if "m \<in> set (in_msgs e)" for m
    using sane_accepted [OF sane] assms(2) e engine that by (auto simp: sane_engine_def)
  have same: "accepts ?uri (e\<lparr>extension_msgs := x\<rparr>) m = accepts ?uri e m"
    "accepts ?uri (e\<lparr>in_msgs := x\<rparr>) m = accepts ?uri e m"
    "forwarded ?uri (e\<lparr>extension_msgs := x\<rparr>) ms p = forwarded ?uri e ms p"
    "forwarded ?uri (e\<lparr>in_msgs := x\<rparr>) ms p = forwarded ?uri e ms p"
    "delivered ?uri (e\<lparr>extension_msgs := x\<rparr>) m e'' = delivered ?uri e m e''"
    "delivered ?uri (e\<lparr>in_msgs := x\<rparr>) m e'' = delivered ?uri e m e''" for x m ms p e''
    by (simp_all add: accepts_def reaches_def forwarded_def delivered_def for_group_def for_missing_group_def
        find_group_def)
  let ?e1 = "e\<lparr>extension_msgs := []\<rparr>"
  from extension_msgs_loop_ok [of "extension_msgs e" ?uri ?e1 n ids 0] accepted obtain e1 posts1 where one:
    "extension_msgs_loop (Suc (Suc n)) ids 0 ?uri ?e1 (extension_msgs e) = Some (e1, posts1)" "node_grows ?e1 e1"
    "forwarded ?uri e (extension_msgs e) posts1" by (auto simp: same)
  have "\<forall>m \<in> set (extension_msgs e). delivered ?uri e m e1" if "\<not> is_closing e"
    using extension_msgs_loop_delivers [OF _ _ _ one(1)] accepted that same by simp
  moreover have "ten_engine_on_extension_msgs (Suc (Suc n)) ids ?uri e = Some (e1, posts1)"
    using one(1) by (simp add: ten_engine_on_extension_msgs_def)
  ultimately show "\<exists>app' effects e'. engine_step (ten_engine_on_extension_msgs (Suc (Suc n)) ids) g app = Some (app', effects) \<and>
      sane_app app' \<and> skeleton app' = skeleton app \<and> find_engine g app' = Some e' \<and>
      (\<not> is_closing e \<longrightarrow> (\<forall>m \<in> set (extension_msgs e). delivered ?uri e m e'))"
    using engine_step_sane [OF assms, of "ten_engine_on_extension_msgs (Suc (Suc n)) ids" e1 posts1 "extension_msgs e"]
      grows_fields [OF one(2)] one(3) by fastforce
  let ?e2 = "e\<lparr>in_msgs := []\<rparr>"
  from in_msgs_loop_ok [of "in_msgs e" ?e2 ?uri n ids 0] accepted_in obtain e2 posts2 put_back where two:
    "in_msgs_loop (Suc (Suc n)) ids 0 ?uri ?e2 (in_msgs e) = Some (e2, posts2, put_back)" "node_grows ?e2 e2"
    "forwarded ?uri e (in_msgs e) posts2" "set put_back \<subseteq> set (in_msgs e)" by (auto simp: same)
  let ?e3 = "ten_engine_prepend_to_in_msgs_queue put_back e2"
  have "delivered ?uri e m e2 = delivered ?uri e m ?e3" for m
    by (simp add: delivered_def in_tasks_def find_group_def ten_engine_prepend_to_in_msgs_queue_def)
  then have "\<forall>m \<in> set (in_msgs e). delivered ?uri e m ?e3" if "\<not> is_closing e" "is_ready_to_handle_msg e"
    using in_msgs_loop_delivers [OF _ _ _ _ two(1)] accepted_in that same by simp
  moreover have "ten_engine_handle_in_msgs_sync (Suc (Suc n)) ids ?uri e = Some (?e3, posts2)"
    using two(1) by (simp add: ten_engine_handle_in_msgs_sync_def)
  ultimately show "\<exists>app' effects e'. engine_step (ten_engine_handle_in_msgs_sync (Suc (Suc n)) ids) g app = Some (app', effects) \<and>
      sane_app app' \<and> skeleton app' = skeleton app \<and> find_engine g app' = Some e' \<and>
      (\<not> is_closing e \<longrightarrow> is_ready_to_handle_msg e \<longrightarrow> (\<forall>m \<in> set (in_msgs e). delivered ?uri e m e'))"
    using engine_step_sane [OF assms, of "ten_engine_handle_in_msgs_sync (Suc (Suc n)) ids" ?e3 posts2 "in_msgs e"]
      grows_fields [OF two(2)] two(3,4) by (fastforce simp: ten_engine_prepend_to_in_msgs_queue_def)
qed

section \<open>The task of the application\<close>

definition waits :: "string \<Rightarrow> ten_shared_msg \<Rightarrow> ten_app \<Rightarrow> bool" where
  "waits g m app \<longleftrightarrow> (\<exists>e. find_engine g app = Some e \<and> m \<in> set (in_msgs e))"

text \<open>What the application may do to itself: put sane messages into the queues of its engines.\<close>

definition app_grows :: "ten_app \<Rightarrow> ten_app \<Rightarrow> bool" where
  "app_grows app app' \<longleftrightarrow>
     skeleton app' = skeleton app \<and> app_in_msgs app' = app_in_msgs app \<and>
     (\<forall>g m. waits g m app \<longrightarrow> waits g m app') \<and> (sane_app app \<longrightarrow> sane_app app')"

lemma app_grows_refl [simp]: "app_grows app app"
  by (simp add: app_grows_def)

lemma app_grows_trans: "app_grows a b \<Longrightarrow> app_grows b c \<Longrightarrow> app_grows a c"
  by (simp add: app_grows_def)

lemma append_grows:
  assumes "sane_msg app m"
  shows "app_grows app (update_engine g (ten_engine_append_to_in_msgs_queue m) app)"
    "find_engine g app \<noteq> None \<Longrightarrow> waits g m (update_engine g (ten_engine_append_to_in_msgs_queue m) app)"
proof -
  let ?f = "ten_engine_append_to_in_msgs_queue m" and ?app' = "update_engine g (ten_engine_append_to_in_msgs_queue m) app"
  have skel: "skeleton ?app' = skeleton app"
    by (simp add: skeleton_def update_engine_def map_update_first ten_engine_append_to_in_msgs_queue_def)
  have found: "find_engine g' ?app' = (if g' = g then map_option ?f (find_engine g app) else find_engine g' app)" for g'
    by (rule find_engine_update) (simp add: ten_engine_append_to_in_msgs_queue_def)
  have "set (update_first (\<lambda>e. node_graph_id e = g) ?f es) \<subseteq> set es \<union> ?f ` set es" for es
    by (induction es) auto
  then have engines: "set (engines ?app') \<subseteq> set (engines app) \<union> ?f ` set (engines app)"
    by (simp add: update_engine_def)
  have same: "sane_engine (?f e) = sane_engine e" for e
    by (simp add: sane_engine_def ten_engine_append_to_in_msgs_queue_def)
  have "sane_app ?app'" if "sane_app app"
    unfolding sane_app_def sane_skeleton [OF skel]
  proof (intro conjI ballI)
    fix e' assume "e' \<in> set (engines ?app')"
    with engines \<open>sane_app app\<close> show "sane_engine e'" by (auto simp: sane_app_def same)
  next
    fix e' m' assume e': "e' \<in> set (engines ?app')" "m' \<in> set (extension_msgs e') \<union> set (in_msgs e')"
    from e'(1) engines consider "e' \<in> set (engines app)" | e where "e \<in> set (engines app)" "e' = ?f e" by blast
    then show "sane_msg app m'"
    proof cases
      case 1
      with \<open>sane_app app\<close> e'(2) show ?thesis unfolding sane_app_def by blast
    next
      case (2 e)
      with e'(2) have "m' \<in> set (extension_msgs e) \<union> set (in_msgs e) \<or> m' = m"
        by (auto simp: ten_engine_append_to_in_msgs_queue_def)
      with \<open>sane_app app\<close> assms 2(1) show ?thesis unfolding sane_app_def by blast
    qed
  qed (use \<open>sane_app app\<close> in \<open>auto simp: sane_app_def update_engine_def\<close>)
  moreover have "app_in_msgs ?app' = app_in_msgs app" by (simp add: update_engine_def)
  moreover have "waits g' m' ?app'" if "waits g' m' app" for g' m'
    using that found by (auto simp: waits_def ten_engine_append_to_in_msgs_queue_def)
  ultimately show "app_grows app ?app'" using skel by (simp add: app_grows_def)
  show "find_engine g app \<noteq> None \<Longrightarrow> waits g m ?app'"
    using found [of g] by (auto simp: waits_def ten_engine_append_to_in_msgs_queue_def)
qed

text \<open>A graph the application has no engine for, and cannot start.\<close>

definition graph_missing :: "ten_app \<Rightarrow> string \<Rightarrow> bool" where
  "graph_missing app g \<longleftrightarrow>
     g \<noteq> [] \<and> unnamed app g \<and> (ten_string_is_uuid4 g \<longrightarrow> find_engine g app = None)"

definition graph_found :: "ten_app \<Rightarrow> string \<Rightarrow> bool" where
  "graph_found app g \<longleftrightarrow> g \<noteq> [] \<and> unnamed app g \<and> ten_string_is_uuid4 g \<and> find_engine g app \<noteq> None"

lemma graph_skeleton:
  assumes "skeleton app' = skeleton app"
  shows "graph_missing app' g = graph_missing app g" "graph_found app' g = graph_found app g"
proof -
  from find_engine_skeleton [OF assms, of g] have "(find_engine g app' = None) = (find_engine g app = None)"
    by (cases "find_engine g app"; cases "find_engine g app'") auto
  with assms show "graph_missing app' g = graph_missing app g" "graph_found app' g = graph_found app g"
    by (simp_all add: graph_missing_def graph_found_def unnamed_def skeleton_def)
qed

lemma by_graph_id: "ten_app_get_engine_by_graph_id app g = find_engine g app"
  by (simp add: ten_app_get_engine_by_graph_id_def find_engine_def)

lemma engine_for_found:
  "graph_found app g \<Longrightarrow> engine_for_msg start app g = (True, find_engine g app, app)"
  by (auto simp: graph_found_def engine_for_msg_def ten_app_get_engine_based_on_dest_graph_id_from_msg_def by_graph_id)

lemma engine_for_missing:
  "graph_missing app g \<Longrightarrow> engine_for_msg start app g = (True, None, app)"
  by (auto simp: graph_missing_def engine_for_msg_def ten_app_get_engine_based_on_dest_graph_id_from_msg_def
      by_graph_id unnamed_def ten_app_get_singleton_predefined_graph_engine_by_name_def)

lemma set_dest_same: "set_dest (ten_msg_get_dest m) m = m"
  by (cases m) simp_all

lemma handler_found:
  assumes "ten_msg_get_dest m = [l]" "graph_found app (graph_id l)"
  shows "ten_app_handle_msg_default_handler (Suc n) start app m =
    Some (True, update_engine (graph_id l) (ten_engine_append_to_in_msgs_queue m) app)"
proof -
  obtain e where e: "find_engine (graph_id l) app = Some e" using assms(2) by (auto simp: graph_found_def)
  have "set_dest_engine (engine_of app e) l = l"
    using assms(2) by (simp add: set_dest_engine_def graph_found_def unnamed_def engine_of_def)
  then have "set_dest (ten_msg_set_dest_engine_if_unspecified_or_predefined_graph_name (engine_of app e) [l]) m = m"
    using set_dest_same [of m] assms(1) by (simp add: ten_msg_set_dest_engine_if_unspecified_or_predefined_graph_name_def)
  with assms e engine_for_found [OF assms(2), of start] find_engine_id [OF e]
  show ?thesis by (simp add: Let_def graph_found_def)
qed

lemma handler_missing:
  assumes "ten_msg_get_dest m = [l]" "graph_missing app (graph_id l)" "error_result_for ''Graph not found.'' m = Some s"
  shows "ten_app_handle_msg_default_handler (Suc n) start app m = ten_app_handle_msg_default_handler n start app s"
  using assms engine_for_missing [OF assms(2), of start] by (simp add: graph_missing_def)

text \<open>What becomes of a message of the queue: it waits at an engine, or the answer to it does.\<close>

definition builtin_for_app :: "ten_shared_msg \<Rightarrow> bool" where
  "builtin_for_app m \<longleftrightarrow>
     ten_msg_get_type m \<in> {TEN_MSG_TYPE_CMD_START_GRAPH, TEN_MSG_TYPE_CMD_CLOSE_APP, TEN_MSG_TYPE_CMD_STOP_GRAPH}"

definition passed_on :: "ten_app \<Rightarrow> ten_shared_msg \<Rightarrow> ten_app \<Rightarrow> bool" where
  "passed_on app m app' \<longleftrightarrow>
     (\<forall>l. ten_msg_get_dest m = [l] \<longrightarrow> \<not> builtin_for_app m \<longrightarrow>
        (graph_found app (graph_id l) \<longrightarrow> waits (graph_id l) m app') \<and>
        (graph_missing app (graph_id l) \<and> graph_found app (graph_id (ten_msg_get_src_loc m)) \<and> \<not> is_data m \<longrightarrow>
          (\<exists>s. error_result_for ''Graph not found.'' m = Some s \<and>
             waits (graph_id (ten_msg_get_src_loc m)) s app')))"

lemma app_handle_ok:
  assumes "sane_msg app m" "home app m"
  shows "\<exists>ok app' effects. ten_app_handle_in_msg (Suc (Suc n)) start app m = Some (ok, app', effects) \<and>
    app_grows app app' \<and> passed_on app m app'"
proof (cases "builtin_for_app m")
  case True
  then have "ten_app_handle_in_msg (Suc (Suc n)) start app m = Some (True, app, [App_handles m])"
    by (simp add: ten_app_handle_in_msg_def builtin_for_app_def)
  with True show ?thesis by (auto simp: passed_on_def)
next
  case False
  obtain l where l: "ten_msg_get_dest m = [l]" "app_uri l = ten_app_uri app"
    "place app l \<or> (\<not> is_data m \<and> place app (ten_msg_get_src_loc m) \<and> enabled app (ten_msg_get_src_loc m) \<and>
       unnamed app (graph_id l))"
    using assms by (auto simp: sane_msg_def home_def)
  have place: "graph_id l' = [] \<or> graph_found app (graph_id l')" if "place app l'" for l'
    using that by (auto simp: place_def graph_found_def)
  have "\<exists>ok app'. ten_app_handle_msg_default_handler (Suc (Suc n)) start app m = Some (ok, app') \<and>
      app_grows app app' \<and> passed_on app m app'"
  proof (cases "graph_id l = []")
    case True
    then show ?thesis using l(1) by (auto simp: passed_on_def graph_missing_def graph_found_def)
  next
    case nonempty: False
    show ?thesis
    proof (cases "graph_found app (graph_id l)")
      case True
      from handler_found [OF l(1) True, of "Suc n" start] append_grows [OF assms(1), of "graph_id l"] True l(1)
      show ?thesis by (auto simp: passed_on_def graph_missing_def graph_found_def simp del: ten_app_handle_msg_default_handler.simps)
    next
      case False
      with l(3) place [of l] nonempty have src: "\<not> is_data m" "place app (ten_msg_get_src_loc m)" "graph_missing app (graph_id l)"
        "enabled app (ten_msg_get_src_loc m)"
        by (auto simp: graph_missing_def graph_found_def)
      from error_result_for_some [OF src(1)] obtain s where s: "error_result_for ''Graph not found.'' m = Some s" by blast
      note facts = error_result_for_facts [OF s l(1)]
      note step = handler_missing [OF l(1) src(3) s, of "Suc n" start]
      show ?thesis
      proof (cases "graph_id (ten_msg_get_src_loc m) = []")
        case True
        then have "ten_app_handle_msg_default_handler (Suc n) start app s = Some (True, app)" using facts(3) by simp
        with step True False l(1) show ?thesis
          by (auto simp: passed_on_def graph_found_def simp del: ten_app_handle_msg_default_handler.simps)
      next
        case False
        with place [OF src(2)] have found: "graph_found app (graph_id (ten_msg_get_src_loc m))" by simp
        from handler_found [OF facts(3) this, of n start] append_grows [OF answer_sane(1) [OF s l(1) src(2,4)]]
          step s l(1) \<open>\<not> graph_found app (graph_id l)\<close> found
        show ?thesis by (auto simp: passed_on_def graph_found_def simp del: ten_app_handle_msg_default_handler.simps)
      qed
    qed
  qed
  with False show ?thesis by (auto simp: ten_app_handle_in_msg_def builtin_for_app_def simp del: ten_app_handle_msg_default_handler.simps)
qed

lemma passed_on_grows:
  "passed_on app m app' \<Longrightarrow> app_grows app' app'' \<Longrightarrow> passed_on app m app''"
  "app_grows app0 app \<Longrightarrow> passed_on app m app' \<Longrightarrow> passed_on app0 m app'"
proof -
  show "passed_on app m app' \<Longrightarrow> app_grows app' app'' \<Longrightarrow> passed_on app m app''"
    unfolding passed_on_def app_grows_def by blast
  assume "app_grows app0 app"
  then have "skeleton app = skeleton app0" by (simp add: app_grows_def)
  from graph_skeleton [OF this] show "passed_on app m app' \<Longrightarrow> passed_on app0 m app'"
    by (simp add: passed_on_def)
qed

lemma app_loop_ok:
  assumes "\<forall>m \<in> set ms. sane_msg app m \<and> home app m"
  shows "\<exists>app' effects. app_in_msgs_loop (Suc (Suc n)) start app ms = Some (app', effects) \<and> app_grows app app' \<and>
    (\<forall>m \<in> set ms. passed_on app m app')"
  using assms
proof (induction ms arbitrary: app)
  case (Cons m ms)
  from app_handle_ok [of app m n start] Cons.prems obtain ok app1 effects1 where one:
    "ten_app_handle_in_msg (Suc (Suc n)) start app m = Some (ok, app1, effects1)" "app_grows app app1" "passed_on app m app1"
    by auto
  from one(2) have skel: "skeleton app1 = skeleton app" by (simp add: app_grows_def)
  have "\<forall>m \<in> set ms. sane_msg app1 m \<and> home app1 m" using Cons.prems sane_skeleton [OF skel] by simp
  from Cons.IH [OF this] obtain app2 effects2 where rest:
    "app_in_msgs_loop (Suc (Suc n)) start app1 ms = Some (app2, effects2)" "app_grows app1 app2"
    "\<forall>m \<in> set ms. passed_on app1 m app2" by blast
  have "app_in_msgs_loop (Suc (Suc n)) start app (m # ms) = Some (app2, effects1 @ effects2)"
    using one(1) rest(1) by simp
  moreover have "\<forall>m' \<in> set (m # ms). passed_on app m' app2"
    using passed_on_grows(1) [OF one(3) rest(2)] passed_on_grows(2) [OF one(2)] rest(3) by simp
  ultimately show ?case using app_grows_trans [OF one(2) rest(2)] by blast
qed simp

lemma app_task_ok:
  assumes "sane_app app"
  shows "\<exists>app' effects. ten_app_handle_in_msgs_sync (Suc (Suc n)) start app = Some (app', effects) \<and>
    sane_app app' \<and> skeleton app' = skeleton app \<and> (\<forall>m \<in> set (app_in_msgs app). passed_on app m app')"
proof -
  let ?app0 = "app\<lparr>app_in_msgs := []\<rparr>"
  have skel: "skeleton ?app0 = skeleton app" by (simp add: skeleton_def)
  have "sane_app ?app0" using assms sane_skeleton [OF skel] by (auto simp: sane_app_def)
  moreover have "\<forall>m \<in> set (app_in_msgs app). sane_msg ?app0 m \<and> home ?app0 m"
    using assms sane_skeleton [OF skel] by (simp add: sane_app_def)
  from app_loop_ok [OF this, of n start] obtain app' effects where
    "app_in_msgs_loop (Suc (Suc n)) start ?app0 (app_in_msgs app) = Some (app', effects)" "app_grows ?app0 app'"
    "\<forall>m \<in> set (app_in_msgs app). passed_on ?app0 m app'" by blast
  moreover have "passed_on ?app0 m app' = passed_on app m app'" for m
    by (simp add: passed_on_def graph_skeleton [OF skel])
  ultimately show ?thesis using skel by (auto simp: ten_app_handle_in_msgs_sync_def app_grows_def)
qed

section \<open>A group that can be reached\<close>

text \<open>A location of a group of an engine that has its extension context, is ready and not closing.\<close>

definition open_group :: "ten_app \<Rightarrow> ten_loc \<Rightarrow> bool" where
  "open_group app l \<longleftrightarrow>
     place app l \<and> graph_id l \<noteq> [] \<and> extension_group_name l \<noteq> [] \<and>
     (\<exists>e. find_engine (graph_id l) app = Some e \<and> \<not> is_closing e \<and> is_ready_to_handle_msg e \<and>
        has_extension_context e)"

definition at_thread :: "ten_loc \<Rightarrow> ten_shared_msg \<Rightarrow> ten_app \<Rightarrow> bool" where
  "at_thread l m app \<longleftrightarrow> (\<exists>e. find_engine (graph_id l) app = Some e \<and> in_tasks (extension_group_name l) m e)"

lemma open_group_found: "open_group app l \<Longrightarrow> graph_found app (graph_id l)"
  by (auto simp: open_group_def place_def graph_found_def)

lemma open_group_for_group:
  "open_group app l \<Longrightarrow> find_engine (graph_id l) app = Some e \<Longrightarrow> for_group (ten_app_uri app) e l"
  by (auto simp: open_group_def place_def for_group_def dest: find_engine_id)

lemma open_group_engine:
  "open_group app l \<Longrightarrow> find_engine (graph_id l) app = Some e \<Longrightarrow>
   \<not> is_closing e \<and> is_ready_to_handle_msg e \<and> has_extension_context e"
  by (auto simp: open_group_def)

lemma open_group_skeleton:
  assumes "skeleton app' = skeleton app"
  shows "open_group app' l = open_group app l"
  using find_engine_skeleton [OF assms, of "graph_id l"] place_skeleton [OF assms, of l]
  by (cases "find_engine (graph_id l) app"; cases "find_engine (graph_id l) app'") (auto simp: open_group_def)

end
