(* ===== verification/Routing_Trip.thy ===== *)
theory Routing_Trip
  imports Routing_App
begin

text \<open>
  The properties of the router of an application.
\<close>

section \<open>Posts of a thread\<close>

lemma set_update_found: "set (update_first P f xs) \<subseteq> set xs \<union> f ` set_option (List.find P xs)"
  by (induction xs) auto

lemma push_sane:
  assumes "sane_app app" "sane_msg app m" "find_engine g app = Some e" "has_extension_context e"
  shows "sane_app (update_engine g (ten_engine_push_to_extension_msgs_queue m) app)"
    "skeleton (update_engine g (ten_engine_push_to_extension_msgs_queue m) app) = skeleton app"
    "find_engine g (update_engine g (ten_engine_push_to_extension_msgs_queue m) app) =
       map_option (ten_engine_push_to_extension_msgs_queue m) (find_engine g app)"
proof -
  let ?f = "ten_engine_push_to_extension_msgs_queue m" and ?app' = "update_engine g (ten_engine_push_to_extension_msgs_queue m) app"
  show skel: "skeleton ?app' = skeleton app"
    by (simp add: skeleton_def update_engine_def map_update_first ten_engine_push_to_extension_msgs_queue_def)
  show "find_engine g ?app' = map_option ?f (find_engine g app)"
    by (subst find_engine_update) (simp_all add: ten_engine_push_to_extension_msgs_queue_def)
  have engines: "set (engines ?app') \<subseteq> insert (?f e) (set (engines app))"
    using set_update_found [of "\<lambda>e. node_graph_id e = g" ?f "engines app"] assms(3)
    by (auto simp: update_engine_def find_engine_def)
  show "sane_app ?app'"
    unfolding sane_app_def sane_skeleton [OF skel]
  proof (intro conjI ballI)
    fix e' assume "e' \<in> set (engines ?app')"
    with engines assms(1,4) show "sane_engine e'"
      by (auto simp: sane_app_def sane_engine_def ten_engine_push_to_extension_msgs_queue_def)
  next
    fix e' m' assume e': "e' \<in> set (engines ?app')" "m' \<in> set (extension_msgs e') \<union> set (in_msgs e')"
    from e'(1) engines consider "e' \<in> set (engines app)" | "e' = ?f e" by blast
    then show "sane_msg app m'"
    proof cases
      case 1
      with assms(1) e'(2) show ?thesis unfolding sane_app_def by blast
    next
      case 2
      with e'(2) have "m' \<in> set (extension_msgs e) \<union> set (in_msgs e) \<or> m' = m"
        by (auto simp: ten_engine_push_to_extension_msgs_queue_def)
      with assms(1,2) find_engine_in [OF assms(3)] show ?thesis unfolding sane_app_def by blast
    qed
  qed (use assms(1) in \<open>auto simp: sane_app_def update_engine_def\<close>)
qed

lemma push_app_sane:
  assumes "sane_app app" "sane_msg app m" "home app m"
  shows "sane_app (ten_app_push_to_in_msgs_queue m app)" "skeleton (ten_app_push_to_in_msgs_queue m app) = skeleton app"
proof -
  show skel: "skeleton (ten_app_push_to_in_msgs_queue m app) = skeleton app"
    by (simp add: skeleton_def ten_app_push_to_in_msgs_queue_def)
  show "sane_app (ten_app_push_to_in_msgs_queue m app)"
    unfolding sane_app_def sane_skeleton [OF skel] using assms
    by (auto simp: sane_app_def ten_app_push_to_in_msgs_queue_def)
qed

section \<open>Waiting messages\<close>

text \<open>A task of the application, then one of the engine where the message waits.\<close>

lemma waits_then_delivered:
  assumes "sane_app app" "waits g m app"
    "find_engine g app = Some e" "\<not> is_closing e" "is_ready_to_handle_msg e"
  shows "\<exists>app' effects e'. engine_step (ten_engine_handle_in_msgs_sync (Suc (Suc n)) ids) g app = Some (app', effects) \<and>
    sane_app app' \<and> skeleton app' = skeleton app \<and> find_engine g app' = Some e' \<and> delivered (ten_app_uri app) e m e'"
  using engine_tasks_ok(2) [OF assms(1,3), of n ids] assms(2-5) by (fastforce simp: waits_def)

lemma skeleton_uri: "skeleton app' = skeleton app \<Longrightarrow> ten_app_uri app' = ten_app_uri app"
  by (simp add: skeleton_def)

lemma waiting_is_delivered:
  assumes "sane_app app" "waits (graph_id l) m app" "open_group app l" "ten_msg_get_dest m = [l]" "is_cmd_and_result m"
  shows "\<exists>app' effects. engine_step (ten_engine_handle_in_msgs_sync (Suc (Suc n)) ids) (graph_id l) app = Some (app', effects) \<and>
    at_thread l m app'"
proof -
  obtain e where e: "find_engine (graph_id l) app = Some e" using assms(3) by (auto simp: open_group_def)
  from waits_then_delivered [OF assms(1,2) e] open_group_engine [OF assms(3) e] open_group_for_group [OF assms(3) e] assms(4,5)
  show ?thesis by (fastforce simp: delivered_def at_thread_def)
qed

section \<open>Properties\<close>

text \<open>
  C11: In an application whose engines have an extension context when they are ready, and no
  groups and no messages from groups as long as they have none, and whose queues hold messages for places that exist, or from senders that can be told, but no result
  for a group of an engine without an extension context, every task of an engine and of the
  application ends without calling itself more than once, without the use of NULL, and leaves
  such queues; which engines and groups there are does not change.
\<close>

theorem router_completes:
  assumes "sane_app app"
  shows "(\<exists>app' effects. engine_step (ten_engine_on_extension_msgs (Suc (Suc n)) ids) g app = Some (app', effects) \<and>
      sane_app app' \<and> skeleton app' = skeleton app) \<and>
    (\<exists>app' effects. engine_step (ten_engine_handle_in_msgs_sync (Suc (Suc n)) ids) g app = Some (app', effects) \<and>
      sane_app app' \<and> skeleton app' = skeleton app) \<and>
    (\<exists>app' effects. ten_app_handle_in_msgs_sync (Suc (Suc n)) start app = Some (app', effects) \<and>
      sane_app app' \<and> skeleton app' = skeleton app)"
proof (intro conjI)
  have none: "engine_step task g app = Some (app, [])" if "find_engine g app = None" for task
    using that by (simp add: engine_step_def)
  show "\<exists>app' effects. engine_step (ten_engine_on_extension_msgs (Suc (Suc n)) ids) g app = Some (app', effects) \<and>
      sane_app app' \<and> skeleton app' = skeleton app"
    using engine_tasks_ok(1) [OF assms, of g _ n ids] none assms by (cases "find_engine g app") blast+
  show "\<exists>app' effects. engine_step (ten_engine_handle_in_msgs_sync (Suc (Suc n)) ids) g app = Some (app', effects) \<and>
      sane_app app' \<and> skeleton app' = skeleton app"
    using engine_tasks_ok(2) [OF assms, of g _ n ids] none assms by (cases "find_engine g app") blast+
  show "\<exists>app' effects. ten_app_handle_in_msgs_sync (Suc (Suc n)) start app = Some (app', effects) \<and>
      sane_app app' \<and> skeleton app' = skeleton app"
    using app_task_ok [OF assms, of n start] by blast
qed


section \<open>A sample application\<close>

definition graph_a :: string where
  "graph_a = ''00000000-0000-0000-0000-00000000000a''"

definition graph_b :: string where
  "graph_b = ''00000000-0000-0000-0000-00000000000b''"

definition sample_thread :: "string \<Rightarrow> (string \<times> ten_extension) list \<Rightarrow> ten_extension_thread" where
  "sample_thread grp exts =
     \<lparr>extension_group = grp, thread_state = TEN_EXTENSION_THREAD_STATE_NORMAL, extension_store = exts,
      thread_pending_msgs = [], thread_now = [], thread_tasks = [], thread_other_tasks = 0\<rparr>"

definition sample_node :: "string \<Rightarrow> ten_extension_thread list \<Rightarrow> ten_engine_node" where
  "sample_node g ts =
     \<lparr>node_graph_id = g, is_closing = False, is_ready_to_handle_msg = True,
      has_extension_context = True, remotes = [], extension_groups = ts,
      extension_msgs = [], in_msgs = []\<rparr>"

definition sample_app :: ten_app where
  "sample_app =
     \<lparr>ten_app_uri = ''localhost'', app_graph_infos = [],
      engines = [sample_node graph_a [sample_thread ''ga'' []], sample_node graph_b [sample_thread ''gb'' []]],
      app_in_msgs = []\<rparr>"

definition loc_in :: "string \<Rightarrow> string \<Rightarrow> string \<Rightarrow> ten_loc" where
  "loc_in g grp ext = \<lparr>app_uri = ''localhost'', graph_id = g, extension_group_name = grp, extension_name = ext\<rparr>"

definition command_to :: "ten_loc \<Rightarrow> ten_loc \<Rightarrow> ten_cmd_base" where
  "command_to src dest =
     \<lparr>msg_type = TEN_MSG_TYPE_CMD, msg_name = ''hello'', src_loc = src, dest_loc = [dest],
      properties = VObject [], parent_cmd_id = [], cmd_id = ''id'', seq_id = [], result_handler = None\<rparr>"

lemma graph_ids: "ten_string_is_uuid4 graph_a" "ten_string_is_uuid4 graph_b" "graph_a \<noteq> graph_b" "graph_a \<noteq> []" "graph_b \<noteq> []"
  by code_simp+

lemma sample_app_facts:
  "sane_app sample_app"
  "find_engine graph_a sample_app = Some (sample_node graph_a [sample_thread ''ga'' []])"
  "find_engine graph_b sample_app = Some (sample_node graph_b [sample_thread ''gb'' []])"
  "open_group sample_app (loc_in graph_a ''ga'' x)" "open_group sample_app (loc_in graph_b ''gb'' x)"
proof -
  show "sane_app sample_app" by (simp add: sample_app_def sane_app_def sample_node_def sane_engine_def)
  show a: "find_engine graph_a sample_app = Some (sample_node graph_a [sample_thread ''ga'' []])"
    and b: "find_engine graph_b sample_app = Some (sample_node graph_b [sample_thread ''gb'' []])"
    using graph_ids(3) by (simp_all add: sample_app_def find_engine_def sample_node_def)
  have "unnamed sample_app g" for g
    by (simp add: unnamed_def sample_app_def ten_predefined_graph_infos_get_singleton_by_name_def)
  then show "open_group sample_app (loc_in graph_a ''ga'' x)" "open_group sample_app (loc_in graph_b ''gb'' x)"
    using graph_ids a b
    by (simp_all add: open_group_def place_def loc_in_def sample_node_def find_group_def sample_thread_def)
       (simp_all add: sample_app_def)
qed

theorem router_completes_witness:
  "\<exists>app' effects. engine_step (ten_engine_on_extension_msgs 2 (\<lambda>_. [])) graph_a sample_app = Some (app', effects) \<and>
     sane_app app'"
  using router_completes [OF sample_app_facts(1), of 0 "\<lambda>_. []" graph_a "\<lambda>_. None"]
  by (auto simp: numeral_2_eq_2)


section \<open>Commands that cannot be delivered\<close>

text \<open>The answer to a command, as its sender gets it.\<close>

definition answers :: "ten_cmd_base \<Rightarrow> ten_shared_msg \<Rightarrow> bool" where
  "answers c m \<longleftrightarrow>
     (\<exists>r. m = Msg_result r \<and> cmd_id r = cmd_id c \<and> status_code r = TEN_STATUS_CODE_ERROR \<and>
        original_cmd_type r = msg_type c \<and> dest_loc r = [src_loc c])"

lemma error_result_answers: "error_result_for detail (Msg_cmd c) = Some s \<Longrightarrow> answers c s"
  by (auto simp: answers_def set_detail_def ten_cmd_result_create_from_cmd_def ten_cmd_result_create_def
      ten_msg_set_src_to_loc_def Let_def split: list.splits)

text \<open>
  C10: A command from a group of the application, whose engine has its extension context, is
  ready and not closing, that is for a group its engine does not have, or that is of the
  type of custom commands and for a graph the application does not have or for an extension the
  thread does not have, is answered: an error result with its id gets to the queue of the thread of the sender, after
  the next task of the engine, or of the application and of the engine of the sender; a thread
  posts the result like every message.
\<close>

theorem undeliverable_command_is_answered:
  assumes "sane_app app" and "dest_loc c = [l]" and "open_group app (src_loc c)"
    and "find_engine (graph_id (src_loc c)) app = Some e"
  shows "(Msg_cmd c \<in> set (extension_msgs e) \<and> for_missing_group (ten_app_uri app) e l \<longrightarrow>
      (\<exists>app1 effects s. answers c s \<and>
        engine_step (ten_engine_on_extension_msgs (Suc (Suc n)) ids) (graph_id (src_loc c)) app = Some (app1, effects) \<and>
        at_thread (src_loc c) s app1)) \<and>
    (Msg_cmd c \<in> set (app_in_msgs app) \<and> graph_missing app (graph_id l) \<and> msg_type c = TEN_MSG_TYPE_CMD \<longrightarrow>
      (\<exists>app1 app2 effects1 effects2 s. answers c s \<and>
        ten_app_handle_in_msgs_sync (Suc (Suc n)) start app = Some (app1, effects1) \<and>
        engine_step (ten_engine_handle_in_msgs_sync (Suc (Suc n)) ids) (graph_id (src_loc c)) app1 = Some (app2, effects2) \<and>
        at_thread (src_loc c) s app2)) \<and>
    (alist_peek (extension_name l) (extension_store t) = None \<and> msg_type c = TEN_MSG_TYPE_CMD \<longrightarrow>
      (\<exists>s p. answers c s \<and> ten_extension_thread_handle_in_msg_sync rt t (Msg_cmd c) = Some (t, [p], []) \<and>
        ten_extension_thread_dispatch_msg (engine rt) t s = Some p))"
proof (intro conjI impI; elim conjE)
  let ?m = "Msg_cmd c"
  note src = open_group_engine [OF assms(3,4)] open_group_for_group [OF assms(3,4)]
  { assume "?m \<in> set (extension_msgs e)" "for_missing_group (ten_app_uri app) e l"
    with engine_tasks_ok(1) [OF assms(1,4), of n ids] src assms(2)
    show "\<exists>app1 effects s. answers c s \<and>
        engine_step (ten_engine_on_extension_msgs (Suc (Suc n)) ids) (graph_id (src_loc c)) app = Some (app1, effects) \<and>
        at_thread (src_loc c) s app1"
      using error_result_answers by (fastforce simp: delivered_def at_thread_def) }
  { assume "?m \<in> set (app_in_msgs app)" "graph_missing app (graph_id l)" "msg_type c = TEN_MSG_TYPE_CMD"
    moreover from app_task_ok [OF assms(1), of n start] obtain app1 effects1 where app1:
      "ten_app_handle_in_msgs_sync (Suc (Suc n)) start app = Some (app1, effects1)" "sane_app app1"
      "skeleton app1 = skeleton app" "\<forall>m \<in> set (app_in_msgs app). passed_on app m app1" by blast
    ultimately have "\<exists>s. error_result_for ''Graph not found.'' ?m = Some s \<and> waits (graph_id (src_loc c)) s app1"
      using open_group_found [OF assms(3)] assms(2) by (fastforce simp: passed_on_def builtin_for_app_def)
    then obtain s where s: "error_result_for ''Graph not found.'' ?m = Some s" "waits (graph_id (src_loc c)) s app1" by blast
    have "ten_msg_get_dest ?m = [l]" using assms(2) by simp
    note facts = error_result_for_facts [OF s(1) this]
    from waiting_is_delivered [OF app1(2) s(2), of n ids] open_group_skeleton [OF app1(3)] assms(3) facts(2,3)
    obtain app2 effects2 where
      "engine_step (ten_engine_handle_in_msgs_sync (Suc (Suc n)) ids) (graph_id (src_loc c)) app1 = Some (app2, effects2)"
      "at_thread (src_loc c) s app2" by auto
    with app1(1) error_result_answers [OF s(1)]
    show "\<exists>app1 app2 effects1 effects2 s. answers c s \<and>
        ten_app_handle_in_msgs_sync (Suc (Suc n)) start app = Some (app1, effects1) \<and>
        engine_step (ten_engine_handle_in_msgs_sync (Suc (Suc n)) ids) (graph_id (src_loc c)) app1 = Some (app2, effects2) \<and>
        at_thread (src_loc c) s app2" by blast }
  { assume missing: "alist_peek (extension_name l) (extension_store t) = None" "msg_type c = TEN_MSG_TYPE_CMD"
    obtain s where s: "error_result_for (''The extension['' @ extension_name l @ ''] is invalid.'') ?m = Some s"
      using error_result_for_some [of ?m] by auto
    have "ten_msg_get_dest ?m = [l]" using assms(2) by simp
    from error_result_for_facts(3) [OF s this] obtain p where "ten_extension_thread_dispatch_msg (engine rt) t s = Some p"
      by (simp add: ten_extension_thread_dispatch_msg_def)
    with missing s assms(2) error_result_answers [OF s]
    show "\<exists>s p. answers c s \<and> ten_extension_thread_handle_in_msg_sync rt t ?m = Some (t, [p], []) \<and>
        ten_extension_thread_dispatch_msg (engine rt) t s = Some p"
      by (auto simp: ten_extension_thread_handle_in_msg_sync_def simp del: error_result_for.simps) }
qed

theorem undeliverable_command_is_answered_witness:
  "\<exists>app1 app2 effects1 effects2 s.
     answers (command_to (loc_in graph_a ''ga'' ''x'') (loc_in ''nowhere'' ''gb'' ''y'')) s \<and>
     ten_app_handle_in_msgs_sync 2 (\<lambda>_. None)
       (sample_app\<lparr>app_in_msgs := [Msg_cmd (command_to (loc_in graph_a ''ga'' ''x'') (loc_in ''nowhere'' ''gb'' ''y''))]\<rparr>) =
       Some (app1, effects1) \<and>
     engine_step (ten_engine_handle_in_msgs_sync 2 (\<lambda>_. [])) graph_a app1 = Some (app2, effects2) \<and>
     at_thread (loc_in graph_a ''ga'' ''x'') s app2"
proof -
  let ?c = "command_to (loc_in graph_a ''ga'' ''x'') (loc_in ''nowhere'' ''gb'' ''y'')"
  let ?app = "sample_app\<lparr>app_in_msgs := [Msg_cmd ?c]\<rparr>"
  have c: "dest_loc ?c = [loc_in ''nowhere'' ''gb'' ''y'']" "src_loc ?c = loc_in graph_a ''ga'' ''x''"
    "msg_type ?c = TEN_MSG_TYPE_CMD" "graph_id (loc_in g grp ext) = g" for g grp ext
    by (simp_all add: command_to_def loc_in_def)
  have skel: "skeleton ?app = skeleton sample_app" by (simp add: skeleton_def)
  have "unnamed ?app g" for g
    by (simp add: unnamed_def sample_app_def ten_predefined_graph_infos_get_singleton_by_name_def)
  moreover have "\<not> ten_string_is_uuid4 ''nowhere''" by code_simp
  ultimately have missing: "graph_missing ?app (graph_id (loc_in ''nowhere'' ''gb'' ''y''))"
    by (simp add: graph_missing_def c(4))
  have src: "open_group ?app (src_loc ?c)" using sample_app_facts(4) open_group_skeleton [OF skel] c(2) by simp
  then have "sane_msg ?app (Msg_cmd ?c)" "home ?app (Msg_cmd ?c)"
    using c missing by (auto simp: sane_msg_def home_def open_group_def graph_missing_def loc_in_def sample_app_def
        enabled_def early_def)
  with sample_app_facts(1) sane_skeleton [OF skel] have sane: "sane_app ?app" by (simp add: sane_app_def)
  have "find_engine graph_a ?app = Some (sample_node graph_a [sample_thread ''ga'' []])"
    using sample_app_facts(2) by (simp add: find_engine_def)
  from undeliverable_command_is_answered [OF sane c(1) src, unfolded c(2,4), OF this, of 0 "\<lambda>_. []" "\<lambda>_. None"]
    missing c(3,4) show ?thesis by (simp add: numeral_2_eq_2)
qed

section \<open>Answers without end\<close>

lemma endless_chain:
  assumes "P m" and "\<And>x. P x \<Longrightarrow> \<exists>y. P y \<and> R x y"
  shows "\<exists>ms. ms 0 = m \<and> (\<forall>i. P (ms i) \<and> R (ms i) (ms (Suc i)))"
proof -
  have "\<exists>f. \<forall>n. (P (f n) \<and> (n = 0 \<longrightarrow> f n = m)) \<and> R (f n) (f (Suc n))"
    by (rule dependent_nat_choice) (use assms in auto)
  then show ?thesis by blast
qed

lemma missing_group_again:
  assumes "\<not> is_closing e" "ten_msg_get_dest m = [l]" "for_missing_group uri e l" "\<not> is_data m"
  shows "\<exists>s. (\<forall>again. ten_engine_dispatch_msg_body again uuid uri e m = again e s) \<and>
    ten_msg_get_dest s = [ten_msg_get_src_loc m] \<and> ten_msg_get_src_loc s = l \<and> \<not> is_data s"
proof -
  obtain s where s: "error_result_for (''The extension group['' @ extension_group_name l @ ''] is invalid.'') m = Some s"
    using error_result_for_some [OF assms(4)] by blast
  have "give_to_group (extension_group_name l) m (extension_groups e) = None"
    using assms(3) by (simp add: for_missing_group_def give_to_group_none group_none_iff)
  with s assms have "ten_engine_dispatch_msg_body again uuid uri e m = again e s" for again
    by (auto simp: for_missing_group_def ten_extension_group_create_invalid_dest_status_def)
  with error_result_for_facts [OF s assms(2)] show ?thesis by blast
qed

lemma missing_graph_again:
  assumes "ten_msg_get_dest m = [l]" "graph_missing app (graph_id l)" "\<not> is_data m"
  shows "\<exists>s. (\<forall>again. ten_app_handle_msg_default_handler_body again start app m = again app s) \<and>
    ten_msg_get_dest s = [ten_msg_get_src_loc m] \<and> ten_msg_get_src_loc s = l \<and> \<not> is_data s"
proof -
  obtain s where s: "error_result_for ''Graph not found.'' m = Some s"
    using error_result_for_some [OF assms(3)] by blast
  with assms engine_for_missing [OF assms(2), of start]
  have "ten_app_handle_msg_default_handler_body again start app m = again app s" for again
    by (simp add: graph_missing_def)
  with error_result_for_facts [OF s assms(1)] show ?thesis by blast
qed

text \<open>
  C12: A message between two groups that an engine does not have, or between two graphs that the
  application does not have, is answered for ever: each answer goes to the other place, which
  is missing too. There is an endless sequence of messages, from the given one on, such that
  the function, working on one of them, does nothing but call itself on the next, whatever that
  call gives; and no depth of calls is enough.
\<close>

theorem undeliverable_answers_never_end:
  assumes "ten_msg_get_dest m = [l]" and "\<not> is_data m"
  shows "(\<not> is_closing e \<and> for_missing_group uri e l \<and> for_missing_group uri e (ten_msg_get_src_loc m) \<longrightarrow>
      (\<exists>ms. ms 0 = m \<and>
         (\<forall>i again. ten_engine_dispatch_msg_body again uuid uri e (ms i) = again e (ms (Suc i)))) \<and>
      ten_engine_dispatch_msg n uuid uri e m = None) \<and>
    (graph_missing app (graph_id l) \<and> graph_missing app (graph_id (ten_msg_get_src_loc m)) \<longrightarrow>
      (\<exists>ms. ms 0 = m \<and>
         (\<forall>i again. ten_app_handle_msg_default_handler_body again start app (ms i) = again app (ms (Suc i)))) \<and>
      ten_app_handle_msg_default_handler n start app m = None)"
proof (intro conjI impI; elim conjE)
  assume a: "\<not> is_closing e" "for_missing_group uri e l" "for_missing_group uri e (ten_msg_get_src_loc m)"
  let ?P = "\<lambda>m. \<exists>l. ten_msg_get_dest m = [l] \<and> for_missing_group uri e l \<and>
      for_missing_group uri e (ten_msg_get_src_loc m) \<and> \<not> is_data m"
  let ?R = "\<lambda>m s. \<forall>again. ten_engine_dispatch_msg_body again uuid uri e m = again e s"
  have "\<exists>s. ?P s \<and> ?R m s" if "?P m" for m
    using that missing_group_again [OF a(1), of m _ uri uuid] by (elim exE conjE) metis
  from endless_chain [of ?P m ?R, OF _ this] a assms obtain ms where
    ms: "ms 0 = m" "\<forall>i. ?R (ms i) (ms (Suc i))" by blast
  then show "\<exists>ms. ms 0 = m \<and>
      (\<forall>i again. ten_engine_dispatch_msg_body again uuid uri e (ms i) = again e (ms (Suc i)))" by blast
  have "ten_engine_dispatch_msg n uuid uri e (ms i) = None" for i
    using ms(2) by (induction n arbitrary: i) (simp_all del: ten_engine_dispatch_msg_body_def)
  from this [of 0] ms(1) show "ten_engine_dispatch_msg n uuid uri e m = None" by simp
next
  assume a: "graph_missing app (graph_id l)" "graph_missing app (graph_id (ten_msg_get_src_loc m))"
  let ?P = "\<lambda>m. \<exists>l. ten_msg_get_dest m = [l] \<and> graph_missing app (graph_id l) \<and>
      graph_missing app (graph_id (ten_msg_get_src_loc m)) \<and> \<not> is_data m"
  let ?R = "\<lambda>m s. \<forall>again. ten_app_handle_msg_default_handler_body again start app m = again app s"
  have "\<exists>s. ?P s \<and> ?R m s" if "?P m" for m
    using that missing_graph_again [of m _ app start] by (elim exE conjE) metis
  from endless_chain [of ?P m ?R, OF _ this] a assms obtain ms where
    ms: "ms 0 = m" "\<forall>i. ?R (ms i) (ms (Suc i))" by blast
  then show "\<exists>ms. ms 0 = m \<and>
      (\<forall>i again. ten_app_handle_msg_default_handler_body again start app (ms i) = again app (ms (Suc i)))" by blast
  have "ten_app_handle_msg_default_handler n start app (ms i) = None" for i
    using ms(2) by (induction n arbitrary: i) (simp_all del: ten_app_handle_msg_default_handler_body_def)
  from this [of 0] ms(1) show "ten_app_handle_msg_default_handler n start app m = None" by simp
qed

theorem undeliverable_answers_never_end_witness:
  "(\<exists>ms. ms 0 = Msg_cmd (command_to (loc_in ''here'' ''ga'' ''x'') (loc_in ''there'' ''gb'' ''y'')) \<and>
     (\<forall>i again. ten_app_handle_msg_default_handler_body again (\<lambda>_. None) sample_app (ms i) =
        again sample_app (ms (Suc i)))) \<and>
   ten_app_handle_msg_default_handler 1000 (\<lambda>_. None) sample_app
     (Msg_cmd (command_to (loc_in ''here'' ''ga'' ''x'') (loc_in ''there'' ''gb'' ''y''))) = None"
proof -
  let ?m = "Msg_cmd (command_to (loc_in ''here'' ''ga'' ''x'') (loc_in ''there'' ''gb'' ''y''))"
  have m: "ten_msg_get_dest ?m = [loc_in ''there'' ''gb'' ''y'']" "\<not> is_data ?m"
    by (simp_all add: command_to_def)
  have "unnamed sample_app g" for g
    by (simp add: unnamed_def sample_app_def ten_predefined_graph_infos_get_singleton_by_name_def)
  moreover have "\<not> ten_string_is_uuid4 ''here''" "\<not> ten_string_is_uuid4 ''there''" by code_simp+
  ultimately have "graph_missing sample_app (graph_id (loc_in ''there'' ''gb'' ''y''))"
    "graph_missing sample_app (graph_id (ten_msg_get_src_loc ?m))"
    by (simp_all add: graph_missing_def loc_in_def command_to_def)
  with undeliverable_answers_never_end [OF m] show ?thesis by blast
qed

end
