(* ===== verification/Routing_Command.thy ===== *)
theory Routing_Command
  imports Routing_Trip Extension_Trip
begin

text \<open>
  A command and its result on their way through the whole application: from an extension to one
  of any group of any graph, and back.
\<close>

section \<open>Looking into an application\<close>

definition thread_at :: "ten_loc \<Rightarrow> ten_app \<Rightarrow> ten_extension_thread option" where
  "thread_at l app = Option.bind (find_engine (graph_id l) app) (find_group (extension_group_name l))"

definition same_thread :: "ten_loc \<Rightarrow> ten_loc \<Rightarrow> bool" where
  "same_thread l l' \<longleftrightarrow> graph_id l = graph_id l' \<and> extension_group_name l = extension_group_name l'"

definition same_ext :: "ten_loc \<Rightarrow> ten_loc \<Rightarrow> bool" where
  "same_ext l l' \<longleftrightarrow> same_thread l l' \<and> extension_name l = extension_name l'"

definition ext_at :: "ten_loc \<Rightarrow> ten_app \<Rightarrow> ten_extension option" where
  "ext_at l app = Option.bind (thread_at l app) (\<lambda>t. alist_peek (extension_name l) (extension_store t))"

text \<open>What the thread has to do.\<close>

definition work_at :: "ten_loc \<Rightarrow> ten_app \<Rightarrow> ten_shared_msg list" where
  "work_at l app = (case thread_at l app of Some t \<Rightarrow> thread_now t @ thread_tasks t | None \<Rightarrow> [])"

text \<open>The queues between the threads are empty, and the threads run.\<close>

definition quiet :: "ten_app \<Rightarrow> bool" where
  "quiet app \<longleftrightarrow>
     (\<forall>g e. find_engine g app = Some e \<longrightarrow> extension_msgs e = [] \<and> in_msgs e = []) \<and> app_in_msgs app = [] \<and>
     (\<forall>l t. thread_at l app = Some t \<longrightarrow> thread_state t = TEN_EXTENSION_THREAD_STATE_NORMAL)"

lemma find_group_update:
  assumes "\<And>t. extension_group t = grp \<Longrightarrow> extension_group (f t) = grp"
  shows "List.find (\<lambda>t. extension_group t = grp') (update_first (\<lambda>t. extension_group t = grp) f ts) =
    (if grp' = grp then map_option f (List.find (\<lambda>t. extension_group t = grp) ts)
     else List.find (\<lambda>t. extension_group t = grp') ts)"
  using assms by (induction ts) auto

lemma update_group_facts:
  assumes "\<And>t. extension_group t = grp \<Longrightarrow> extension_group (f t) = grp"
  shows "find_engine g' (update_group g grp f app) =
      (if g' = g then map_option (\<lambda>e. e\<lparr>extension_groups := update_first (\<lambda>t. extension_group t = grp) f (extension_groups e)\<rparr>)
                        (find_engine g app)
       else find_engine g' app)"
    "thread_at l (update_group g grp f app) =
      (if graph_id l = g \<and> extension_group_name l = grp then map_option f (thread_at l app) else thread_at l app)"
    "skeleton (update_group g grp f app) = skeleton app"
    "app_in_msgs (update_group g grp f app) = app_in_msgs app"
proof -
  have names: "map extension_group (update_first (\<lambda>t. extension_group t = grp) f ts) = map extension_group ts" for ts
    by (rule map_update_first) (simp add: assms)
  show e: "find_engine g' (update_group g grp f app) =
      (if g' = g then map_option (\<lambda>e. e\<lparr>extension_groups := update_first (\<lambda>t. extension_group t = grp) f (extension_groups e)\<rparr>)
                        (find_engine g app)
       else find_engine g' app)" for g'
    unfolding update_group_def by (rule find_engine_update) simp
  show "thread_at l (update_group g grp f app) =
      (if graph_id l = g \<and> extension_group_name l = grp then map_option f (thread_at l app) else thread_at l app)"
    unfolding thread_at_def e
    by (cases "find_engine g app") (auto simp: find_group_def find_group_update [OF assms])
  show "skeleton (update_group g grp f app) = skeleton app"
    unfolding update_group_def update_engine_def skeleton_def by (simp add: map_update_first names)
  show "app_in_msgs (update_group g grp f app) = app_in_msgs app"
    by (simp add: update_group_def update_engine_def)
qed

lemma quiet_update_group:
  assumes "quiet app" "\<And>t. extension_group t = grp \<Longrightarrow> extension_group (f t) = grp"
    "\<And>t. thread_state t = TEN_EXTENSION_THREAD_STATE_NORMAL \<Longrightarrow> thread_state (f t) = TEN_EXTENSION_THREAD_STATE_NORMAL"
  shows "quiet (update_group g grp f app)"
  using assms(1,3) update_group_facts [OF assms(2)] unfolding quiet_def
  by (auto split: if_splits)

lemma update_first_cong:
  assumes "List.find P xs = Some x" "f x = h x"
  shows "update_first P f xs = update_first P h xs"
  using assms(1)
proof (induction xs)
  case (Cons y ys)
  then show ?case using assms(2) by (cases "P y") simp_all
qed simp

lemma update_first_same: "List.find P xs = Some x \<Longrightarrow> update_first P (\<lambda>_. x) xs = xs"
proof (induction xs)
  case (Cons y ys)
  then show ?case by (cases "P y") simp_all
qed simp

lemma update_first_twice:
  "(\<And>x. P x \<Longrightarrow> P (f x)) \<Longrightarrow> update_first P h (update_first P f xs) = update_first P (\<lambda>x. h (f x)) xs"
  by (induction xs) auto

lemma update_engine_cong:
  assumes "find_engine g app = Some e" "f e = h e"
  shows "update_engine g f app = update_engine g h app"
  using update_first_cong [of "\<lambda>e. node_graph_id e = g" "engines app" e f h] assms
  by (simp add: update_engine_def find_engine_def)

lemma update_engine_same: "find_engine g app = Some e \<Longrightarrow> update_engine g (\<lambda>_. e) app = app"
  using update_first_same [of "\<lambda>e. node_graph_id e = g" "engines app" e] by (simp add: update_engine_def find_engine_def)

lemma update_engine_twice:
  "(\<And>e. node_graph_id (f e) = node_graph_id e) \<Longrightarrow>
   update_engine g h (update_engine g f app) = update_engine g (\<lambda>e. h (f e)) app"
  by (simp add: update_engine_def update_first_twice)

section \<open>The way between threads\<close>

text \<open>The tasks that take a message from the thread of a graph to that of another.\<close>

definition carry ::
  "nat \<Rightarrow> (nat \<Rightarrow> string) \<Rightarrow> (ten_predefined_graph_info \<Rightarrow> ten_engine_node option) \<Rightarrow> string \<Rightarrow> string \<Rightarrow> ten_app \<Rightarrow> ten_app option"
where
  "carry fuel ids start g g' app =
     Option.bind (engine_step (ten_engine_on_extension_msgs fuel ids) g app)
       (\<lambda>(app1, _). Option.bind (ten_app_handle_in_msgs_sync fuel start app1)
         (\<lambda>(app2, _). map_option fst (engine_step (ten_engine_handle_in_msgs_sync fuel ids) g' app2)))"

text \<open>Tasks with nothing to do.\<close>

lemma idle_tasks:
  "find_engine g app = Some e \<Longrightarrow> extension_msgs e = [] \<Longrightarrow>
     engine_step (ten_engine_on_extension_msgs fuel ids) g app = Some (app, [])"
  "find_engine g app = Some e \<Longrightarrow> in_msgs e = [] \<Longrightarrow>
     engine_step (ten_engine_handle_in_msgs_sync fuel ids) g app = Some (app, [])"
  "app_in_msgs app = [] \<Longrightarrow> ten_app_handle_in_msgs_sync fuel start app = Some (app, [])"
proof -
  have e: "e\<lparr>extension_msgs := []\<rparr> = e" if "extension_msgs e = []" for e :: ten_engine_node using that by simp
  have i: "e\<lparr>in_msgs := []\<rparr> = e" if "in_msgs e = []" for e :: ten_engine_node using that by simp
  have a: "app\<lparr>app_in_msgs := []\<rparr> = app" if "app_in_msgs app = []" for app :: ten_app using that by simp
  show "find_engine g app = Some e \<Longrightarrow> extension_msgs e = [] \<Longrightarrow>
     engine_step (ten_engine_on_extension_msgs fuel ids) g app = Some (app, [])"
    by (simp add: engine_step_def ten_engine_on_extension_msgs_def update_engine_same e)
  show "find_engine g app = Some e \<Longrightarrow> in_msgs e = [] \<Longrightarrow>
     engine_step (ten_engine_handle_in_msgs_sync fuel ids) g app = Some (app, [])"
    by (simp add: engine_step_def ten_engine_handle_in_msgs_sync_def ten_engine_prepend_to_in_msgs_queue_def
        update_engine_same i)
  show "app_in_msgs app = [] \<Longrightarrow> ten_app_handle_in_msgs_sync fuel start app = Some (app, [])"
    by (simp add: ten_app_handle_in_msgs_sync_def a)
qed

lemma give_to_group_update:
  "grp \<in> extension_group ` set ts \<Longrightarrow>
   give_to_group grp m ts =
     Some (update_first (\<lambda>t. extension_group t = grp) (ten_extension_thread_handle_in_msg_async m) ts)"
  by (induction ts) auto

abbreviation give_task :: "ten_shared_msg \<Rightarrow> ten_extension_thread \<Rightarrow> ten_extension_thread" where
  "give_task m \<equiv> (\<lambda>t. t\<lparr>thread_tasks := thread_tasks t @ [m]\<rparr>)"

lemma dispatch_open_group:
  assumes "open_group app l" "find_engine (graph_id l) app = Some e" "ten_msg_get_dest m = [l]" "is_cmd_and_result m"
  shows "ten_engine_dispatch_msg (Suc n) uuid (ten_app_uri app) e m =
    Some (e\<lparr>extension_groups := update_first (\<lambda>t. extension_group t = extension_group_name l) (give_task m) (extension_groups e)\<rparr>, [])"
proof -
  have "ten_extension_thread_handle_in_msg_async m = give_task m"
    using assms(4) by (simp add: fun_eq_iff ten_extension_thread_handle_in_msg_async_def)
  moreover have g: "graph_id l = node_graph_id e" "extension_group_name l \<noteq> []" "app_uri l = ten_app_uri app"
      "extension_group_name l \<in> extension_group ` set (extension_groups e)" "graph_id l \<noteq> []"
    using open_group_for_group [OF assms(1,2)] assms(1)
    by (auto simp: for_group_def group_none_iff open_group_def place_def)
  ultimately show ?thesis
    using give_to_group_update [OF g(4), of m] assms(3) open_group_engine [OF assms(1,2)] g(5)
    by (simp add: for_group_def)
qed

lemma carry_post:
  assumes "quiet app" "find_engine g app = Some e" "ten_msg_get_dest m = [l]" "open_group app l"
    and m: "is_cmd_and_result m" "\<not> builtin_for_app m"
    and p: "ten_extension_thread_dispatch_msg (engine_of app e) t m = Some p" "p \<noteq> Handle_now m"
  shows "carry (Suc n) ids start g (graph_id l) (post_from_thread g p app) =
    Some (update_group (graph_id l) (extension_group_name l) (give_task m) app)"
proof -
  have queues: "extension_msgs e' = []" "in_msgs e' = []" if "find_engine g' app = Some e'" for g' e'
    using assms(1) that by (auto simp: quiet_def)
  have app: "app_in_msgs app = []" using assms(1) by (simp add: quiet_def)
  obtain e2 where e2: "find_engine (graph_id l) app = Some e2" using assms(4) by (auto simp: open_group_def)
  have l: "app_uri l = ten_app_uri app" "graph_id l \<noteq> []" "extension_group_name l \<noteq> []"
    using assms(4) by (auto simp: open_group_def place_def)
  have post: "p = (if graph_id l \<noteq> g then Post_to_app m else Post_to_engine m)"
    using p assms(3) l find_engine_id [OF assms(2)]
    by (auto simp: ten_extension_thread_dispatch_msg_def engine_of_def split: if_splits)
  let ?give = "\<lambda>e. e\<lparr>extension_groups := update_first (\<lambda>t. extension_group t = extension_group_name l) (give_task m) (extension_groups e)\<rparr>"
  have group: "update_group (graph_id l) (extension_group_name l) (give_task m) app = update_engine (graph_id l) ?give app"
    by (simp add: update_group_def)
  have given: "find_engine g' (update_engine (graph_id l) ?give app) =
      (if g' = graph_id l then map_option ?give (find_engine (graph_id l) app) else find_engine g' app)" for g'
    by (rule find_engine_update) simp
  show ?thesis
  proof (cases "graph_id l = g")
    case True
    let ?push = "ten_engine_push_to_extension_msgs_queue m"
    let ?app1 = "update_engine g ?push app"
    have e: "e2 = e" using e2 assms(2) True by simp
    have "find_engine g ?app1 = Some (?push e)"
      using find_engine_update [of ?push g g app] assms(2) by (simp add: ten_engine_push_to_extension_msgs_queue_def)
    moreover have "(?push e)\<lparr>extension_msgs := []\<rparr> = e"
      using queues(1) [OF assms(2)] by (simp add: ten_engine_push_to_extension_msgs_queue_def)
    moreover have "update_engine g (\<lambda>_. ?give e) ?app1 = update_engine g ?give app"
      using update_engine_twice [of ?push g "\<lambda>_. ?give e" app] update_engine_cong [OF assms(2), of "\<lambda>_. ?give e" ?give]
      by (simp add: ten_engine_push_to_extension_msgs_queue_def)
    moreover have "extension_msgs (?push e) = [m]" "ten_app_uri ?app1 = ten_app_uri app"
      using queues(1) [OF assms(2)] by (simp_all add: ten_engine_push_to_extension_msgs_queue_def update_engine_def)
    moreover have "\<not> is_closing e" using open_group_engine [OF assms(4) e2] e by simp
    ultimately have first: "engine_step (ten_engine_on_extension_msgs (Suc n) ids) g ?app1 = Some (update_engine g ?give app, [])"
      using dispatch_open_group [OF assms(4) e2 assms(3) m(1), of n "ids 0"] assms(3) l e
      by (simp add: engine_step_def ten_engine_on_extension_msgs_def del: ten_engine_dispatch_msg.simps)
    have "find_engine g (update_engine g ?give app) = Some (?give e)" using given assms(2) True by simp
    from idle_tasks(2) [OF this] idle_tasks(3) [of "update_engine g ?give app"] queues(2) [OF assms(2)] app first
    show ?thesis
      unfolding group post using True by (simp add: carry_def update_engine_def)
  next
    case False
    let ?app1 = "ten_app_push_to_in_msgs_queue m app" and ?add = "ten_engine_append_to_in_msgs_queue m"
    let ?app2 = "update_engine (graph_id l) ?add app"
    have "find_engine g ?app1 = Some e" using assms(2) by (simp add: find_engine_def ten_app_push_to_in_msgs_queue_def)
    note first = idle_tasks(1) [OF this queues(1) [OF assms(2)], of "Suc n" ids]
    have "?app1\<lparr>app_in_msgs := []\<rparr> = app" "app_in_msgs ?app1 = [m]"
      using app by (simp_all add: ten_app_push_to_in_msgs_queue_def)
    with handler_found [OF assms(3) open_group_found [OF assms(4)], of n start] m(2)
    have second: "ten_app_handle_in_msgs_sync (Suc n) start ?app1 = Some (?app2, [])"
      by (simp add: ten_app_handle_in_msgs_sync_def ten_app_handle_in_msg_def builtin_for_app_def
          del: ten_app_handle_msg_default_handler.simps)
    have "find_engine (graph_id l) ?app2 = Some (?add e2)"
      using find_engine_update [of ?add "graph_id l" "graph_id l" app] e2 by (simp add: ten_engine_append_to_in_msgs_queue_def)
    moreover have "(?add e2)\<lparr>in_msgs := []\<rparr> = e2" "in_msgs (?add e2) = [m]" "ten_app_uri ?app2 = ten_app_uri app"
      using queues(2) [OF e2] by (simp_all add: ten_engine_append_to_in_msgs_queue_def update_engine_def)
    moreover have "ten_engine_prepend_to_in_msgs_queue [] (?give e2) = ?give e2"
      by (simp add: ten_engine_prepend_to_in_msgs_queue_def)
    moreover have "update_engine (graph_id l) (\<lambda>_. ?give e2) ?app2 = update_engine (graph_id l) ?give app"
      using update_engine_twice [of ?add "graph_id l" "\<lambda>_. ?give e2" app] update_engine_cong [OF e2, of "\<lambda>_. ?give e2" ?give]
      by (simp add: ten_engine_append_to_in_msgs_queue_def)
    moreover have "is_ready_to_handle_msg e2" using open_group_engine [OF assms(4) e2] by simp
    ultimately have third: "engine_step (ten_engine_handle_in_msgs_sync (Suc n) ids) (graph_id l) ?app2 =
        Some (update_engine (graph_id l) ?give app, [])"
      using dispatch_open_group [OF assms(4) e2 assms(3) m(1), of n "ids 0"]
      by (simp add: engine_step_def ten_engine_handle_in_msgs_sync_def del: ten_engine_dispatch_msg.simps)
    show ?thesis unfolding group post using False first second third by (simp add: carry_def)
  qed
qed

section \<open>A message from an extension to another\<close>

definition all_idle :: "ten_app \<Rightarrow> bool" where
  "all_idle app \<longleftrightarrow> quiet app \<and> (\<forall>l. work_at l app = [])"

definition put_ext :: "ten_loc \<Rightarrow> ten_extension \<Rightarrow> ten_shared_msg list \<Rightarrow> ten_extension_thread \<Rightarrow> ten_extension_thread" where
  "put_ext l ext ms t =
     t\<lparr>extension_store := alist_put (extension_name l) ext (extension_store t), thread_now := ms, thread_tasks := []\<rparr>"

lemma thread_at_group: "thread_at l app = Some t \<Longrightarrow> extension_group t = extension_group_name l"
  by (auto simp: thread_at_def find_group_def bind_eq_Some_conv find_Some_iff)

lemma thread_same: "same_thread l' l \<Longrightarrow> thread_at l' app = thread_at l app"
  by (simp add: same_thread_def thread_at_def)

lemma thread_replaced:
  assumes t: "thread_at l app = Some t" and quiet: "quiet app"
    and none: "\<And>l'. \<not> same_thread l' l \<Longrightarrow> work_at l' app = []"
    and app': "app' = update_group (graph_id l) (extension_group_name l) (\<lambda>_. put_ext l ext ms t) app"
  shows "quiet app'" "skeleton app' = skeleton app"
    "ext_at l' app' = (if same_ext l' l then Some ext else ext_at l' app)"
    "work_at l' app' = (if same_thread l' l then ms else [])"
    "find_engine g app = Some e \<Longrightarrow> \<exists>e'. find_engine g app' = Some e'"
proof -
  have grp: "extension_group (put_ext l ext ms t) = extension_group_name l"
    using thread_at_group [OF t] by (simp add: put_ext_def)
  have "thread_state (put_ext l ext ms t) = TEN_EXTENSION_THREAD_STATE_NORMAL"
    using quiet t by (auto simp: quiet_def put_ext_def)
  with quiet_update_group [OF quiet, of "extension_group_name l" "\<lambda>_. put_ext l ext ms t" "graph_id l"] grp
  show "quiet app'" by (simp add: app')
  note facts = update_group_facts [of "extension_group_name l" "\<lambda>_. put_ext l ext ms t", OF grp]
  show "skeleton app' = skeleton app" by (simp add: app' facts(3))
  have at: "thread_at l' app' = (if same_thread l' l then Some (put_ext l ext ms t) else thread_at l' app)" for l'
    using t thread_same [of l' l app] by (auto simp: app' facts(2) same_thread_def)
  have same: "same_thread l' l \<Longrightarrow> thread_at l' app = Some t" for l'
    using t thread_same by simp
  show "ext_at l' app' = (if same_ext l' l then Some ext else ext_at l' app)"
    by (cases "same_thread l' l") (simp_all add: ext_at_def at same put_ext_def alist_peek_put same_ext_def eq_commute)
  show "work_at l' app' = (if same_thread l' l then ms else [])"
    using none [of l'] by (cases "same_thread l' l") (simp_all add: work_at_def at put_ext_def)
  show "\<exists>e'. find_engine g app' = Some e'" if "find_engine g app = Some e"
    using that by (auto simp: app' facts(1) split: if_splits)
qed

text \<open>The thread handles its only message, and the extension sends none.\<close>

lemma thread_handles:
  assumes quiet: "quiet app" and work: "\<And>l'. work_at l' app = (if same_thread l' l then [m] else [])"
    and e: "find_engine (graph_id l) app = Some e" and ext: "ext_at l app = Some ext" and dest: "ten_msg_get_dest m = [l]"
    and step: "ten_extension_handle_in_msg (rt\<lparr>engine := engine_of app e\<rparr>) ext m = Some (ext', [effect])"
    and silent: "\<And>m. effect \<noteq> Dispatch m"
  shows "\<exists>t. thread_at l app = Some t \<and>
    thread_step rt (graph_id l) (extension_group_name l) app =
      Some (update_group (graph_id l) (extension_group_name l) (\<lambda>_. put_ext l ext' [] t) app, [Extension_effect effect])"
proof -
  obtain t where t: "thread_at l app = Some t" "alist_peek (extension_name l) (extension_store t) = Some ext"
    using ext by (auto simp: ext_at_def bind_eq_Some_conv)
  have group: "find_group (extension_group_name l) e = Some t" using t(1) e by (simp add: thread_at_def)
  have normal: "thread_state t = TEN_EXTENSION_THREAD_STATE_NORMAL" using quiet t(1) by (auto simp: quiet_def)
  have no_posts: "dispatch_effects en self [effect] = Some []" for en self
    using silent by (cases effect) auto
  have now: "thread_now t @ thread_tasks t = [m]" using work [of l] t(1) by (simp add: work_at_def same_thread_def)
  have sync: "ten_extension_thread_handle_in_msg_sync (rt\<lparr>engine := engine_of app e\<rparr>) t' m =
      Some (t'\<lparr>extension_store := alist_put (extension_name l) ext' (extension_store t)\<rparr>, [], [effect])"
    if "extension_store t' = extension_store t" for t'
    using t(2) step dest no_posts that by (simp add: ten_extension_thread_handle_in_msg_sync_def)
  show ?thesis
  proof (cases "thread_now t")
    case Nil
    with now have tasks: "thread_tasks t = [m]" by simp
    have "t\<lparr>thread_tasks := [], extension_store := alist_put (extension_name l) ext' (extension_store t), thread_now := []\<rparr>
        = put_ext l ext' [] t"
      by (cases t) (simp add: put_ext_def)
    with t(1) group e Nil tasks normal sync [of "t\<lparr>thread_tasks := []\<rparr>"] show ?thesis
      by (simp add: thread_step_def ten_extension_thread_handle_in_msg_task_def)
  next
    case (Cons m' ms)
    with now have eq: "m' = m" "ms = []" "thread_tasks t = []" by simp_all
    have "t\<lparr>thread_now := [], extension_store := alist_put (extension_name l) ext' (extension_store t)\<rparr> = put_ext l ext' [] t"
      by (cases t) (use eq in \<open>simp add: put_ext_def\<close>)
    moreover have "put_ext l ext' [] t\<lparr>thread_now := thread_now (put_ext l ext' [] t)\<rparr> = put_ext l ext' [] t" by simp
    ultimately show ?thesis using t(1) group e Cons eq sync [of "t\<lparr>thread_now := []\<rparr>"]
      by (simp add: thread_step_def)
  qed
qed

text \<open>An extension sends a message, and the tasks take it to its thread.\<close>

lemma sent_and_carried:
  assumes idle: "all_idle app" and e: "find_engine (graph_id l) app = Some e" and ext: "ext_at l app = Some ext"
    and step: "operation (rt\<lparr>engine := engine_of app e\<rparr>) ext = Some (ext', [Dispatch m])"
    and m: "ten_msg_get_dest m = [l2]" "is_cmd_and_result m" "\<not> builtin_for_app m" and open_group: "open_group app l2"
  shows "\<exists>app1 app2.
    user_step operation rt l app = Some (app1, [Extension_effect (Dispatch m)]) \<and>
    carry (Suc n) ids start (graph_id l) (graph_id l2) app1 = Some app2 \<and>
    quiet app2 \<and> skeleton app2 = skeleton app \<and>
    (\<forall>l'. work_at l' app2 = (if same_thread l' l2 then [m] else [])) \<and>
    (\<forall>l'. ext_at l' app2 =
        (if same_ext l' l then Some ext' else ext_at l' app))"
proof -
  have quiet: "quiet app" and none: "work_at l' app = []" for l' using idle by (simp_all add: all_idle_def)
  obtain t where t: "thread_at l app = Some t" "alist_peek (extension_name l) (extension_store t) = Some ext"
    using ext by (auto simp: ext_at_def bind_eq_Some_conv)
  have group: "find_group (extension_group_name l) e = Some t" using t(1) e by (simp add: thread_at_def)
  have empty: "thread_now t = []" "thread_tasks t = []" using none [of l] t(1) by (simp_all add: work_at_def)
  have put: "t\<lparr>extension_store := alist_put (extension_name l) ext' (extension_store t), thread_now := ms\<rparr> = put_ext l ext' ms t" for ms
    using empty by (simp add: put_ext_def)
  obtain p where p: "ten_extension_thread_dispatch_msg (engine_of app e) t m = Some p"
    using m(1) by (simp add: ten_extension_thread_dispatch_msg_def)
  show ?thesis
  proof (cases "p = Handle_now m")
    case True
    let ?app1 = "update_group (graph_id l) (extension_group_name l) (\<lambda>_. put_ext l ext' [m] t) app"
    have same: "same_thread l2 l"
      using p True m(1) find_engine_id [OF e] thread_at_group [OF t(1)]
      by (auto simp: ten_extension_thread_dispatch_msg_def engine_of_def same_thread_def split: if_splits)
    have "user_step operation rt l app = Some (?app1, [Extension_effect (Dispatch m)])"
      using e group t(2) step p True empty put by (simp add: user_step_def)
    moreover note facts = thread_replaced [OF t(1) quiet none refl, where ext = ext' and ms = "[m]"]
    moreover obtain e1 where e1: "find_engine (graph_id l) ?app1 = Some e1" using facts(5) [OF e] by blast
    moreover have "carry (Suc n) ids start (graph_id l) (graph_id l2) ?app1 = Some ?app1"
      using facts(1) e1 idle_tasks(1,2) [OF e1, of "Suc n" ids] idle_tasks(3) [of ?app1 "Suc n" start] same
      by (simp add: carry_def quiet_def same_thread_def)
    ultimately show ?thesis using same by (auto simp: same_thread_def)
  next
    case False
    let ?app1 = "update_group (graph_id l) (extension_group_name l) (\<lambda>_. put_ext l ext' [] t) app"
    note facts = thread_replaced [OF t(1) quiet none refl, where ext = ext' and ms = "[]"]
    have open_group1: "open_group ?app1 l2" using open_group_skeleton [OF facts(2)] open_group by simp
    obtain e1 where e1: "find_engine (graph_id l) ?app1 = Some e1" using facts(5) [OF e] by blast
    have same: "engine_of ?app1 e1 = engine_of app e"
      using find_engine_id [OF e1] find_engine_id [OF e] facts(2) by (simp add: engine_of_def skeleton_def)
    let ?app2 = "update_group (graph_id l2) (extension_group_name l2) (give_task m) ?app1"
    have handled: "handled_now [p] = []" using p False m(1)
      by (auto simp: ten_extension_thread_dispatch_msg_def split: if_splits)
    have "user_step operation rt l app = Some (post_from_thread (graph_id l) p ?app1, [Extension_effect (Dispatch m)])"
      using e group t(2) step p empty handled put by (simp add: user_step_def)
    moreover have "carry (Suc n) ids start (graph_id l) (graph_id l2) (post_from_thread (graph_id l) p ?app1) = Some ?app2"
      by (rule carry_post [OF facts(1) e1 m(1) open_group1 m(2,3) _ False]) (use p same in simp)
    moreover note given = update_group_facts [of "extension_group_name l2" "give_task m" , simplified]
    moreover have "quiet ?app2" by (rule quiet_update_group [OF facts(1)]) simp_all
    moreover have "skeleton ?app2 = skeleton app" using given(3) facts(2) by simp
    moreover have "\<exists>t2. thread_at l2 ?app1 = Some t2"
      using open_group1 by (auto simp: open_group_def place_def thread_at_def)
    then have "work_at l' ?app2 = (if same_thread l' l2 then [m] else [])" for l'
      using facts(4) [of l'] given(2) [of l' "graph_id l2" ?app1]
      by (auto simp: work_at_def same_thread_def thread_at_def split: option.splits if_splits)
    moreover have "ext_at l' ?app2 = ext_at l' ?app1" for l'
      unfolding ext_at_def given(2) by (auto split: if_splits simp: Option.bind_map_option o_def)
    ultimately show ?thesis using facts(3) by auto
  qed
qed

section \<open>A command and its result\<close>

text \<open>The calls of the user's code that send a command and that answer one.\<close>

definition sending ::
  "ten_cmd_base \<Rightarrow> nat \<Rightarrow> ten_error \<Rightarrow> ten_runtime \<Rightarrow> ten_extension \<Rightarrow> (ten_extension \<times> ten_effect list) option"
where
  "sending c h err rt ext = map_option (\<lambda>(_, ext', effects, _). (ext', effects)) (ten_env_send_cmd rt ext c False (Some h) err)"

definition answering ::
  "ten_cmd_result \<Rightarrow> ten_cmd_base \<Rightarrow> ten_error \<Rightarrow> ten_runtime \<Rightarrow> ten_extension \<Rightarrow> (ten_extension \<times> ten_effect list) option"
where
  "answering r c err rt ext = map_option (\<lambda>(_, ext', effects, _). (ext', effects)) (ten_env_return_result rt ext r c err)"

lemma same_engine:
  assumes "skeleton app' = skeleton app" "find_engine g app = Some e"
  shows "\<exists>e'. find_engine g app' = Some e' \<and> engine_of app' e' = engine_of app e"
proof -
  from find_engine_skeleton [OF assms(1), of g] assms(2) obtain e' where e': "find_engine g app' = Some e'"
    by (cases "find_engine g app'") auto
  with find_engine_id [OF e'] find_engine_id [OF assms(2)] assms(1) show ?thesis
    by (auto simp: engine_of_def skeleton_def)
qed

text \<open>After a thread has handled its only message all is idle.\<close>

lemma handled_facts:
  assumes "quiet app" "\<And>l'. work_at l' app = (if same_thread l' l then [m] else [])" "thread_at l app = Some t"
    and "app' = update_group (graph_id l) (extension_group_name l) (\<lambda>_. put_ext l ext [] t) app"
  shows "all_idle app'" "skeleton app' = skeleton app"
    "ext_at l' app' = (if same_ext l' l then Some ext else ext_at l' app)"
  using thread_replaced [OF assms(3,1) _ assms(4)] assms(2) by (simp_all add: all_idle_def)

text \<open>
  C8: In an idle application an extension of any group of any graph that runs sends a command to
  an extension of any other (or of its own) group; neither has schemas, and the receiver has no
  conversions. The task of the engine, that of the
  application and that of the other engine carry it to the thread of the receiver, which
  calls the code of the user with the properties that were sent. The result that the user
  returns is carried back in the same way, and the thread of the sender calls the handler
  with it, under the id of the command. Afterwards the application is idle again, the paths
  of both extensions are as before, and no other extension has changed.
\<close>

theorem command_crosses_graphs:
  assumes idle: "all_idle app" and groups: "open_group app la" "open_group app lb" and other: "la \<noteq> lb"
    and exts: "ext_at la app = Some A" "ext_at lb app = Some B" "ext_loc A = la"
    and e: "find_engine (graph_id la) app = Some e" and lb: "lb = corrected (engine_of app e) TEN_MSG_TYPE_CMD d"
    and A: "ext_ok A" "no_schemas (ext_schemas A)" "ext_state A < TEN_EXTENSION_STATE_ON_DEINIT"
    and B: "ext_ok B" "no_schemas (ext_schemas B)" "ready B"
    and c: "msg_type c = TEN_MSG_TYPE_CMD" "dest_loc c = [d]" "parent_cmd_id c = []" "id_for rt c \<noteq> []"
    and free: "\<forall>q \<in> set (in_paths (ext_paths A)) \<union> set (out_paths (ext_paths A)). path_cmd_id q \<noteq> id_for rt c"
      "\<forall>q \<in> set (in_paths (ext_paths B)). path_cmd_id q \<noteq> uuids rtB 0"
    and r: "is_final r" "msg_type r = TEN_MSG_TYPE_CMD_RESULT"
  shows "\<exists>sent handled returned result app1 app2 app3 app4 app5 app6 A2 B2.
    user_step (sending c h err) rt la app = Some (app1, [Extension_effect (Dispatch (Msg_cmd sent))]) \<and>
    carry (Suc n) ids start (graph_id la) (graph_id lb) app1 = Some app2 \<and>
    thread_step rtB (graph_id lb) (extension_group_name lb) app2 = Some (app3, [Extension_effect (Call_on_cmd handled)]) \<and>
    user_step (answering r handled err') rtB' lb app3 = Some (app4, [Extension_effect (Dispatch (Msg_result returned))]) \<and>
    carry (Suc n) ids start (graph_id lb) (graph_id la) app4 = Some app5 \<and>
    thread_step rtA' (graph_id la) (extension_group_name la) app5 =
      Some (app6, [Extension_effect (Call_result_handler h result)]) \<and>
    properties handled = properties c \<and> cmd_id result = id_for rt c \<and> status_code result = status_code r \<and>
    properties result = properties r \<and> original_cmd_name result = msg_name c \<and>
    all_idle app6 \<and> skeleton app6 = skeleton app \<and>
    (\<forall>l. ext_at l app6 = (if same_ext l la then Some A2 else if same_ext l lb then Some B2 else ext_at l app)) \<and>
    in_paths (ext_paths A2) = in_paths (ext_paths A) \<and> out_paths (ext_paths A2) = out_paths (ext_paths A) \<and>
    in_paths (ext_paths B2) = in_paths (ext_paths B) \<and> out_paths (ext_paths B2) = out_paths (ext_paths B)"
proof -
  let ?rt = "\<lambda>r. r\<lparr>engine := engine_of app e\<rparr>"
  obtain eb where eb: "find_engine (graph_id lb) app = Some eb" using groups(2) by (auto simp: open_group_def)
  let ?rb = "\<lambda>r. r\<lparr>engine := engine_of app eb\<rparr>"
  have apart: "\<not> same_ext la lb" "\<not> same_ext lb la"
    using groups other by (auto simp: open_group_def place_def same_ext_def same_thread_def)
  have id: "id_for (?rt rt) c = id_for rt c" by auto
  from command_trip [OF A B c(1-3), of "?rt rt" "?rb rtB" r h err "?rb rtB'" err' "?rt rtA'", unfolded id, OF c(4) free(1)] free(2) r(1)
  obtain A1 sent B1 handled B2 returned A2 result where trip:
    "ten_env_send_cmd (?rt rt) A c False (Some h) err = Some (True, A1, [Dispatch (Msg_cmd sent)], err)"
    "ten_extension_handle_in_msg (?rb rtB) B (Msg_cmd sent) = Some (B1, [Call_on_cmd handled])"
    "ten_env_return_result (?rb rtB') B1 r handled err' = Some (True, B2, [Dispatch (Msg_result returned)], err')"
    "ten_extension_handle_in_msg (?rt rtA') A1 (Msg_result returned) = Some (A2, [Call_result_handler h result])"
    and ends: "dest_loc returned = [la]" "dest_loc sent = [lb]" "msg_type sent = TEN_MSG_TYPE_CMD"
      "msg_type returned = TEN_MSG_TYPE_CMD_RESULT"
    and facts: "cmd_id result = id_for rt c" "status_code result = status_code r" "properties result = properties r"
      "original_cmd_name result = msg_name c" "properties handled = properties c"
      "in_paths (ext_paths A2) = in_paths (ext_paths A)" "out_paths (ext_paths A2) = out_paths (ext_paths A)"
      "in_paths (ext_paths B2) = in_paths (ext_paths B)" "out_paths (ext_paths B2) = out_paths (ext_paths B)"
    by (auto simp: exts(3) lb r(2))
  have sent: "ten_msg_get_dest (Msg_cmd sent) = [lb]" "is_cmd_and_result (Msg_cmd sent)" "\<not> builtin_for_app (Msg_cmd sent)"
    using ends by (simp_all add: is_cmd_and_result_def builtin_for_app_def ten_raw_msg_is_cmd_and_result_def)
  have returned: "ten_msg_get_dest (Msg_result returned) = [la]" "is_cmd_and_result (Msg_result returned)"
    "\<not> builtin_for_app (Msg_result returned)"
    using ends by (simp_all add: is_cmd_and_result_def builtin_for_app_def ten_raw_msg_is_cmd_and_result_def)
  from sent_and_carried [OF idle e exts(1) _ sent groups(2), of "sending c h err" rt A1 n ids start] trip(1)
  obtain app1 app2 where out: "user_step (sending c h err) rt la app = Some (app1, [Extension_effect (Dispatch (Msg_cmd sent))])"
      "carry (Suc n) ids start (graph_id la) (graph_id lb) app1 = Some app2"
    and app2: "quiet app2" "skeleton app2 = skeleton app"
      "\<And>l'. work_at l' app2 = (if same_thread l' lb then [Msg_cmd sent] else [])"
      "\<And>l'. ext_at l' app2 = (if same_ext l' la then Some A1 else ext_at l' app)"
    by (auto simp: sending_def)
  obtain eb2 where eb2: "find_engine (graph_id lb) app2 = Some eb2" "engine_of app2 eb2 = engine_of app eb"
    using same_engine [OF app2(2) eb] by blast
  from thread_handles [OF app2(1,3) eb2(1) _ sent(1), of B rtB B1 "Call_on_cmd handled"] trip(2) eb2(2) app2(4) apart(2) exts(2)
  obtain t3 app3 where t3: "thread_at lb app2 = Some t3"
      "app3 = update_group (graph_id lb) (extension_group_name lb) (\<lambda>_. put_ext lb B1 [] t3) app2"
    and got: "thread_step rtB (graph_id lb) (extension_group_name lb) app2 = Some (app3, [Extension_effect (Call_on_cmd handled)])"
    by auto
  note after3 = handled_facts [OF app2(1,3) t3]
  obtain eb3 where eb3: "find_engine (graph_id lb) app3 = Some eb3" "engine_of app3 eb3 = engine_of app eb"
    using same_engine [of app3 app] eb after3(2) app2(2) by fastforce
  have open3: "open_group app3 la" using open_group_skeleton [of app3 app la] groups(1) after3(2) app2(2) by simp
  have extb: "ext_at lb app3 = Some B1" by (simp add: after3(3) same_ext_def same_thread_def)
  from sent_and_carried [OF after3(1) eb3(1) extb _ returned open3, of "answering r handled err'" rtB' B2 n ids start] trip(3) eb3(2)
  obtain app4 app5 where there:
      "user_step (answering r handled err') rtB' lb app3 = Some (app4, [Extension_effect (Dispatch (Msg_result returned))])"
      "carry (Suc n) ids start (graph_id lb) (graph_id la) app4 = Some app5"
    and app5: "quiet app5" "skeleton app5 = skeleton app3"
      "\<And>l'. work_at l' app5 = (if same_thread l' la then [Msg_result returned] else [])"
      "\<And>l'. ext_at l' app5 = (if same_ext l' lb then Some B2 else ext_at l' app3)"
    by (auto simp: answering_def)
  have same5: "skeleton app5 = skeleton app" using app5(2) after3(2) app2(2) by simp
  obtain e5 where e5: "find_engine (graph_id la) app5 = Some e5" "engine_of app5 e5 = engine_of app e"
    using same_engine [OF same5 e] by blast
  have exta: "ext_at la app5 = Some A1"
    using apart by (simp add: app5(4) after3(3) app2(4)) (simp add: same_ext_def same_thread_def)
  from thread_handles [OF app5(1,3) e5(1) exta returned(1), of rtA' A2 "Call_result_handler h result"] trip(4) e5(2)
  obtain t6 app6 where t6: "thread_at la app5 = Some t6"
      "app6 = update_group (graph_id la) (extension_group_name la) (\<lambda>_. put_ext la A2 [] t6) app5"
    and done_: "thread_step rtA' (graph_id la) (extension_group_name la) app5 =
      Some (app6, [Extension_effect (Call_result_handler h result)])"
    by auto
  note after6 = handled_facts [OF app5(1,3) t6]
  have "ext_at l app6 = (if same_ext l la then Some A2 else if same_ext l lb then Some B2 else ext_at l app)" for l
    by (simp add: after6(3) app5(4) after3(3) app2(4))
  with out got there done_ facts after6(1,2) same5 show ?thesis by metis
qed

text \<open>Two graphs with an extension each.\<close>

definition placed :: "ten_loc \<Rightarrow> ten_extension" where
  "placed l = (sample_extension (extension_name l))\<lparr>ext_loc := l\<rparr>"

definition two_graphs :: ten_app where
  "two_graphs =
     sample_app\<lparr>engines :=
       [sample_node graph_a [sample_thread ''ga'' [(''x'', placed (loc_in graph_a ''ga'' ''x''))]],
        sample_node graph_b [sample_thread ''gb'' [(''y'', placed (loc_in graph_b ''gb'' ''y''))]]]\<rparr>"

lemma placed_facts:
  "ext_ok (placed l)" "no_schemas (ext_schemas (placed l))" "ready (placed l)"
  "ext_state (placed l) < TEN_EXTENSION_STATE_ON_DEINIT" "ext_loc (placed l) = l"
  "in_paths (ext_paths (placed l)) = []" "out_paths (ext_paths (placed l)) = []"
proof -
  show "ext_ok (placed l)" using sample_extension_facts(2) by (simp add: placed_def ext_ok_def conversions_ok_def)
  show "no_schemas (ext_schemas (placed l))" using sample_trip(1) by (simp add: placed_def)
  show "ready (placed l)" by (simp add: placed_def ready_def sample_extension_def sample_info_def state_order)
qed (simp_all add: placed_def sample_extension_facts state_order)

lemma two_graphs_facts:
  "all_idle two_graphs" "skeleton two_graphs = skeleton sample_app"
  "find_engine graph_a two_graphs = Some (sample_node graph_a [sample_thread ''ga'' [(''x'', placed (loc_in graph_a ''ga'' ''x''))]])"
  "ext_at (loc_in graph_a ''ga'' ''x'') two_graphs = Some (placed (loc_in graph_a ''ga'' ''x''))"
  "ext_at (loc_in graph_b ''gb'' ''y'') two_graphs = Some (placed (loc_in graph_b ''gb'' ''y''))"
proof -
  show "skeleton two_graphs = skeleton sample_app"
    by (simp add: skeleton_def two_graphs_def sample_app_def sample_node_def sample_thread_def)
  have e: "find_engine g two_graphs =
      (if g = graph_a then Some (sample_node graph_a [sample_thread ''ga'' [(''x'', placed (loc_in graph_a ''ga'' ''x''))]])
       else if g = graph_b then Some (sample_node graph_b [sample_thread ''gb'' [(''y'', placed (loc_in graph_b ''gb'' ''y''))]])
       else None)" for g
    by (simp add: two_graphs_def find_engine_def sample_node_def)
  then show "find_engine graph_a two_graphs =
      Some (sample_node graph_a [sample_thread ''ga'' [(''x'', placed (loc_in graph_a ''ga'' ''x''))]])" by simp
  have t: "\<exists>grp exts. t = sample_thread grp exts" if "thread_at l two_graphs = Some t" for l t
    using that by (auto simp: thread_at_def e find_group_def sample_node_def split: if_splits)
  have "work_at l two_graphs = []" for l
    using t [of l] by (cases "thread_at l two_graphs") (auto simp: work_at_def sample_thread_def)
  moreover have "thread_state t = TEN_EXTENSION_THREAD_STATE_NORMAL" if "thread_at l two_graphs = Some t" for l t
    using t [OF that] by (auto simp: sample_thread_def)
  moreover have "extension_msgs e = [] \<and> in_msgs e = []" if "find_engine g two_graphs = Some e" for g e
    using that unfolding e by (auto simp: sample_node_def split: if_splits)
  moreover have "app_in_msgs two_graphs = []" by (simp add: two_graphs_def sample_app_def)
  ultimately show "all_idle two_graphs" unfolding all_idle_def quiet_def by blast
  show "ext_at (loc_in graph_a ''ga'' ''x'') two_graphs = Some (placed (loc_in graph_a ''ga'' ''x''))"
    "ext_at (loc_in graph_b ''gb'' ''y'') two_graphs = Some (placed (loc_in graph_b ''gb'' ''y''))"
    using graph_ids(3) by (simp_all add: ext_at_def thread_at_def e loc_in_def find_group_def sample_node_def sample_thread_def)
qed

theorem command_crosses_graphs_witness:
  "\<exists>sent handled returned result app1 app2 app3 app4 app5 app6.
    user_step (sending (command_to (loc_in graph_a ''ga'' ''x'') (loc_in graph_b ''gb'' ''y'')) 7 ten_error_init)
      (sample_runtime ''new'') (loc_in graph_a ''ga'' ''x'') two_graphs =
      Some (app1, [Extension_effect (Dispatch (Msg_cmd sent))]) \<and>
    carry 1 (\<lambda>_. []) (\<lambda>_. None) graph_a graph_b app1 = Some app2 \<and>
    thread_step (sample_runtime ''new'') graph_b ''gb'' app2 = Some (app3, [Extension_effect (Call_on_cmd handled)]) \<and>
    user_step (answering (ten_cmd_result_create 0) handled ten_error_init) (sample_runtime ''new'')
      (loc_in graph_b ''gb'' ''y'') app3 = Some (app4, [Extension_effect (Dispatch (Msg_result returned))]) \<and>
    carry 1 (\<lambda>_. []) (\<lambda>_. None) graph_b graph_a app4 = Some app5 \<and>
    thread_step (sample_runtime ''new'') graph_a ''ga'' app5 = Some (app6, [Extension_effect (Call_result_handler 7 result)]) \<and>
    cmd_id result = ''id'' \<and> all_idle app6"
proof -
  let ?la = "loc_in graph_a ''ga'' ''x''" and ?lb = "loc_in graph_b ''gb'' ''y''"
  let ?c = "command_to ?la ?lb" and ?rt = "sample_runtime ''new''"
  let ?e = "sample_node graph_a [sample_thread ''ga'' [(''x'', placed ?la)]]"
  have groups: "open_group two_graphs ?la" "open_group two_graphs ?lb"
    using sample_app_facts(4,5) open_group_skeleton [OF two_graphs_facts(2)] by simp_all
  have other: "?la \<noteq> ?lb" using graph_ids(3) by (simp add: loc_in_def)
  have e: "find_engine (graph_id ?la) two_graphs = Some ?e" using two_graphs_facts(3) by (simp add: loc_in_def)
  have lb: "?lb = corrected (engine_of two_graphs ?e) TEN_MSG_TYPE_CMD ?lb"
    using graph_ids(5)
    by (simp add: corrected_def correct_dests.simps Let_def engine_of_def loc_in_def two_graphs_def sample_app_def
        ten_msg_set_dest_engine_if_unspecified_or_predefined_graph_name_def set_dest_engine_def
        ten_predefined_graph_infos_get_singleton_by_name_def)
  have c: "msg_type ?c = TEN_MSG_TYPE_CMD" "dest_loc ?c = [?lb]" "parent_cmd_id ?c = []" "id_for ?rt ?c = ''id''"
    by (simp_all add: command_to_def)
  have r: "is_final (ten_cmd_result_create 0)" "msg_type (ten_cmd_result_create 0) = TEN_MSG_TYPE_CMD_RESULT"
    by (simp_all add: ten_cmd_result_create_def)
  have free: "id_for ?rt ?c \<noteq> []"
    "\<forall>q \<in> set (in_paths (ext_paths (placed ?la))) \<union> set (out_paths (ext_paths (placed ?la))). path_cmd_id q \<noteq> id_for ?rt ?c"
    "\<forall>q \<in> set (in_paths (ext_paths (placed ?lb))). path_cmd_id q \<noteq> uuids ?rt 0"
    unfolding c(4) by (simp_all add: placed_facts)
  have names: "graph_id ?la = graph_a" "graph_id ?lb = graph_b" "extension_group_name ?la = ''ga''"
    "extension_group_name ?lb = ''gb''" "Suc 0 = 1"
    by (simp_all add: loc_in_def)
  from command_crosses_graphs [OF two_graphs_facts(1) groups other two_graphs_facts(4,5) placed_facts(5) e lb
      placed_facts(1,2,4,1,2,3) c(1-3) free r, of 7 ten_error_init 0 "\<lambda>_. []" "\<lambda>_. None" ten_error_init ?rt ?rt,
      unfolded names c(4)]
  obtain sent handled returned res app1 app2 app3 app4 app5 app6 where
    "user_step (sending ?c 7 ten_error_init) ?rt ?la two_graphs = Some (app1, [Extension_effect (Dispatch (Msg_cmd sent))])"
    "carry 1 (\<lambda>_. []) (\<lambda>_. None) graph_a graph_b app1 = Some app2"
    "thread_step ?rt graph_b ''gb'' app2 = Some (app3, [Extension_effect (Call_on_cmd handled)])"
    "user_step (answering (ten_cmd_result_create 0) handled ten_error_init) ?rt ?lb app3 =
       Some (app4, [Extension_effect (Dispatch (Msg_result returned))])"
    "carry 1 (\<lambda>_. []) (\<lambda>_. None) graph_b graph_a app4 = Some app5"
    "thread_step ?rt graph_a ''ga'' app5 = Some (app6, [Extension_effect (Call_result_handler 7 res)])"
    "cmd_id res = ''id''" "all_idle app6"
    by (elim exE conjE) (rule that)
  then show ?thesis by blast
qed

end
