(* ===== verification/Spec2Isabelle.thy ===== *)
theory Spec2Isabelle
  imports
    Value_Json Value_Path Schema_Compat Path_Result Store_Facts
    Extension_Close Extension_Start Extension_Expire Conversion_Trip
    State_Machine Routing_Command
begin

text \<open>
  A model of the core of the TEN framework, in C under src/core: the values, schemas and
  containers of its utilities (src/core/src/ten_utils) and the way of messages through an
  extension in its runtime (src/core/src/ten_runtime).

  \<^bold>\<open>The program.\<close> An application runs graphs of extensions. An extension sends commands and
  data; the graph, or the message, says to whom. What is sent is checked against the schemas
  of the sender, cloned for each destination, and, if it is a command, registered in the path
  table of the sender, so that its result finds the way back. An extension that receives a
  message may convert it, registers a command in its own path table, checks the message, and
  calls the code of the user. A result that the user returns goes back along the path of its
  command; the results of a command that went to several extensions are a group of paths that
  becomes one result. The properties of messages are values, with paths into them, schemas
  over them, and a form as JSON. The extensions of a group share a thread, the groups of a
  graph an engine, and the graphs an application; messages go between them through queues.

  \<^bold>\<open>The theories and the code they model.\<close>

  \<^item> Ten_Prelude: ten_utils/lib/sys/general/error.c and what all theories share: C integer
    constants and casts, decimal text, lemmas on lists and keyed lists.
  \<^item> Ten_Float: C float and double as binary32 and binary64, with rounding and truncation.
  \<^item> Ten_Type, Ten_Value: value/type.c, value.c, value_is.c, value_set.c, value_kv.c, and the
    buffers of lib/sys/general/buf.c. \<open>ten_value\<close> is the tagged union \<open>ten_value_t\<close>.
  \<^item> Value_Convert, Value_Get: value_convert.c, value_can_convert.c, value_string.c,
    value_get.c. A locale holds the contract of a conversion to an integer type, a second that
    of a getter, and each of the sixteen functions is an interpretation.
  \<^item> Value_Object, Value_Path, Value_Json: value_object.c and value_merge.c (the keyed store
    is a locale that objects and JSON objects interpret), value_path.c with the splitting of
    string.c, value_json.c with json.c and what these use of the jansson library.
  \<^item> Ten_Schema, Schema_Value, Schema_Compat: schema/schema.c and its keywords; the meaning
    of a schema as conformance of values, and compatibility of schemas.
  \<^item> Ten_Hashtable, Hashtable_Map: container/hash_table.c, hash_bucket.c, hash_handle.c,
    and the map they implement.
  \<^item> Schema_Store, Store_Facts: ten_runtime/schema_store, over the hash table.
  \<^item> Ten_Loc, Ten_Msg: common/loc.c and the header, identity and results of msg/.
  \<^item> Ten_Path, Path_Facts, Path_Group, Path_Result: path/ (path table, groups), the
    invariant of a table, and what a group delivers.
  \<^item> Ten_Extension: extension/ (extension.c, msg_handling.c, on_xxx.c, close.c, path_timer.c)
    and ten_env/internal/send.c and return.c: the handlers of one extension.
    Extension_Facts and Extension_Steps show that each keeps the invariant (\<open>perform\<close>,
    \<open>perform_all\<close>), the timer of the IN paths only when the paths of a group expire together
    (\<open>unsplit_run\<close>); Extension_Trip follows a command and its result, Extension_Start
    the messages that come early, Extension_Close the end, Extension_Expire a timer.
  \<^item> Ten_Conversion, Conversion_Config, Conversion_Facts, Conversion_Trip: msg_conversion/:
    the rules, their forms as values and JSON, that conversions meet what the theories on
    extensions ask of the parameter \<open>msg_conversions\<close>, and the way of a converted command.
  \<^item> Ten_Routing, Routing_Facts, Routing_App, Routing_Trip, Routing_Command: the queues and
    tasks of the threads (extension_thread/msg_interface/common.c), the engines
    (engine/msg_interface/common.c, engine/internal/extension_interface.c) and the application
    (app/msg_interface/common.c, app/engine_interface.c): that messages arrive or are answered,
    and the way of a command and its result between two graphs.
  \<^item> State_Machine: ten_utils/lib/sys/general/sm.c, triggers with automatic transitions.

  \<^bold>\<open>State and operations.\<close> A structure is a record or datatype with the names of the
  code. An operation takes the state and gives the state after it, with the error and the
  messages handed on as a list of effects in their order. Machine integers have their width.
  Addresses of paths and groups are numbers, and what is not in a list is freed. What lies
  behind an assertion is modelled as the production build has it, in which assertions are
  empty: where an assertion alone stands before the use of NULL or of freed memory, the
  outer result is \<open>None\<close>; theorems about safety say that it is not.

  \<^bold>\<open>What the lemmas show.\<close> Functional behaviour on every branch: getters, conversions,
  lookup and update, merging, creation of schemas, rules of a conversion. Invariants: path
  tables over every run in which no timer splits a group, schema stores, hash tables. Refinement: hash tables
  implement maps, groups a collection of results, validation implements conformance. Round
  trips: paths, JSON, locations, conversions, and commands with their results, within a
  thread and between graphs.
  Termination and liveness: which triggers of a state machine return; that messages get to
  the thread of their destination, or an answer to that of their source. Errors: what happens
  in the cases the code does not handle.

  \<^bold>\<open>Parameters and bounds.\<close> Given as arguments: \<open>strtod\<close>, the parser and printer of
  JSON texts, the resolver of interface references (in Rust), the clock, random ids, the
  result of a C cast whose behaviour is undefined, and the code of the user, whose calls are
  effects. Loops are recursions that end, but for three functions that call themselves
  with nothing in the code that stops them, and have fuel: \<open>ten_engine_dispatch_msg\<close>
  and \<open>ten_app_handle_msg_default_handler\<close>, which answer what they cannot deliver (2 is
  enough when each message is for a place that exists or from one that does; their bodies are
  functions of the call they make, so that a call of itself is not confused with the use of
  NULL), and
  \<open>ten_state_machine_trigger\<close> (some number is enough when the automatic transitions do not
  lead back to themselves).
  Theorems say when there is enough, and when none is. The schemas of a
  definition are at most 26 of each kind where a theorem speaks of its loading: each insertion
  doubles the buckets at most once, so their 32-bit number cannot wrap.

  \<^bold>\<open>Not modelled.\<close> Memory management and reference counting, as nothing modelled depends on
  sharing; locks and the run loop, whose order of events is any order of the operations
  here; input and output, protocols and connections; creation and closing of
  applications, engines and groups (whether an engine has its extension context is a field of
  it); the copy of a message as JSON text in the property \<open>msgpack_serialization_hack\<close>, from
  which \<open>ten_msg_clear_dest\<close> would also remove the destinations: it is for the msgpack
  protocol, and only a message that carries a property of that name is concerned; loading of addons and manifests; logging and stack traces
  (vendored); bindings to other languages; the package manager (in Rust).
\<close>

end
